(* ===== verification/Go_Prelude.thy ===== *)
theory Go_Prelude
  imports Main "HOL-Library.AList" "HOL-Library.Sublist" "HOL-Library.Multiset"
begin

text \<open>
  What the components share: the parts of Go and of its standard library that the modelled
  sources use, and the lemmas about them.
  \<^item> Results: a function that returns \<open>(T, error)\<close> returns \<open>'e + 'a\<close>, with
    \<open>Err\<close> for the error branch and \<open>Ok\<close> for the value.
  \<^item> Strings are byte sequences (\<open>string\<close>). \<open>trim_space\<close> is
    \<^verbatim>\<open>strings.TrimSpace\<close> on every byte sequence: it strips the UTF-8 encodings of the
    white space runes. \<open>to_lower\<close> and \<open>equal_fold\<close> act on ASCII letters and leave
    every other byte as it is.
  \<^item> \<^verbatim>\<open>time.Time\<close> is the number of nanoseconds since the Unix epoch, a
    \<^verbatim>\<open>time.Duration\<close> is a number of nanoseconds; the clock is an argument of every
    operation that reads it.
  \<^item> A Go map with string keys is an association list with distinct keys (\<open>gmap\<close>),
    so that its length and its iteration are executable.
  \<^item> A table of the SQLite database is the list of its rows in insertion order; the SQL
    statements of the sources are functions on that list.
\<close>

named_theorems go_string \<open>facts about the string functions\<close>
named_theorems gmap_simps \<open>lookup, update and deletion in Go maps\<close>
named_theorems table_simps \<open>rows of a table after a statement\<close>

section \<open>Results\<close>

abbreviation Err :: "'e \<Rightarrow> 'e + 'a" where "Err \<equiv> Inl"
abbreviation Ok :: "'a \<Rightarrow> 'e + 'a" where "Ok \<equiv> Inr"

lemma ok_result: "\<not> isl x \<Longrightarrow> (\<And>c. x = Ok c \<Longrightarrow> P) \<Longrightarrow> P"
  by (cases x) auto

section \<open>Strings\<close>

text \<open>The UTF-8 encodings of the runes for which \<^verbatim>\<open>unicode.IsSpace\<close> holds.\<close>

definition space_seqs :: "string list" where
  "space_seqs =
     [[CHR 0x09], [CHR 0x0A], [CHR 0x0B], [CHR 0x0C], [CHR 0x0D], [CHR 0x20],
      [CHR 0xC2, CHR 0x85], [CHR 0xC2, CHR 0xA0], [CHR 0xE1, CHR 0x9A, CHR 0x80],
      [CHR 0xE2, CHR 0x80, CHR 0x80], [CHR 0xE2, CHR 0x80, CHR 0x81],
      [CHR 0xE2, CHR 0x80, CHR 0x82], [CHR 0xE2, CHR 0x80, CHR 0x83],
      [CHR 0xE2, CHR 0x80, CHR 0x84], [CHR 0xE2, CHR 0x80, CHR 0x85],
      [CHR 0xE2, CHR 0x80, CHR 0x86], [CHR 0xE2, CHR 0x80, CHR 0x87],
      [CHR 0xE2, CHR 0x80, CHR 0x88], [CHR 0xE2, CHR 0x80, CHR 0x89],
      [CHR 0xE2, CHR 0x80, CHR 0x8A], [CHR 0xE2, CHR 0x80, CHR 0xA8],
      [CHR 0xE2, CHR 0x80, CHR 0xA9], [CHR 0xE2, CHR 0x80, CHR 0xAF],
      [CHR 0xE2, CHR 0x81, CHR 0x9F], [CHR 0xE3, CHR 0x80, CHR 0x80]]"

function strip_seqs :: "string list \<Rightarrow> string \<Rightarrow> string" where
  "strip_seqs ps s =
     (case find (\<lambda>p. p \<noteq> [] \<and> prefix p s) ps of
        None \<Rightarrow> s
      | Some p \<Rightarrow> strip_seqs ps (drop (length p) s))"
  by pat_completeness auto
termination
  by (relation "measure (\<lambda>(ps, s). length s)") (auto simp: find_Some_iff prefix_def)

declare strip_seqs.simps [simp del]

definition trim_left :: "string \<Rightarrow> string" where
  "trim_left s = strip_seqs space_seqs s"

definition trim_right :: "string \<Rightarrow> string" where
  "trim_right s = rev (strip_seqs (map rev space_seqs) (rev s))"

definition trim_space :: "string \<Rightarrow> string" where
  "trim_space s = trim_right (trim_left s)"

definition lower_char :: "char \<Rightarrow> char" where
  "lower_char c =
     (if 65 \<le> (of_char c :: nat) \<and> (of_char c :: nat) \<le> 90
      then char_of ((of_char c :: nat) + 32) else c)"

definition to_lower :: "string \<Rightarrow> string" where
  "to_lower s = map lower_char s"

definition equal_fold :: "string \<Rightarrow> string \<Rightarrow> bool" where
  "equal_fold s t \<longleftrightarrow> to_lower s = to_lower t"

definition has_prefix :: "string \<Rightarrow> string \<Rightarrow> bool" where
  "has_prefix s p \<longleftrightarrow> prefix p s"

definition has_suffix :: "string \<Rightarrow> string \<Rightarrow> bool" where
  "has_suffix s p \<longleftrightarrow> suffix p s"

text \<open>The parts of a text between the occurrences of one byte, as \<^verbatim>\<open>strings.Split\<close> and \<^verbatim>\<open>bytes.Split\<close> cut it.\<close>

fun split_on :: "char \<Rightarrow> string \<Rightarrow> string list" where
  "split_on sep [] = [[]]"
| "split_on sep (c # s) =
     (if c = sep then [] # split_on sep s
      else (case split_on sep s of [] \<Rightarrow> [[c]] | l # ls \<Rightarrow> (c # l) # ls))"

fun contains_str :: "string \<Rightarrow> string \<Rightarrow> bool" where
  "contains_str [] t \<longleftrightarrow> t = []"
| "contains_str (c # s) t \<longleftrightarrow> prefix t (c # s) \<or> contains_str s t"

fun join_str :: "string list \<Rightarrow> string \<Rightarrow> string" where
  "join_str [] sep = []"
| "join_str [x] sep = x"
| "join_str (x # y # xs) sep = x @ sep @ join_str (y # xs) sep"

text \<open>The decimal text of a number, as \<^verbatim>\<open>%d\<close> prints it.\<close>

fun nat_text :: "nat \<Rightarrow> string" where
  "nat_text n =
     (if n < 10 then [char_of (48 + n)] else nat_text (n div 10) @ [char_of (48 + n mod 10)])"

declare nat_text.simps [simp del]

definition no_letters :: "string \<Rightarrow> bool" where
  "no_letters p \<longleftrightarrow>
     list_all (\<lambda>c. \<not> (97 \<le> (of_char c :: nat) \<and> (of_char c :: nat) \<le> 122) \<and> lower_char c = c) p"

text \<open>
  \<open>strip_seqs\<close> removes a prefix and leaves nothing of the list at the front, so the two
  trims commute with each other and trimming twice is trimming once.
\<close>

lemma strip_seqs_suffix: "suffix (strip_seqs ps s) s"
proof (induction ps s rule: strip_seqs.induct)
  case (1 ps s)
  show ?case
  proof (cases "find (\<lambda>p. p \<noteq> [] \<and> prefix p s) ps")
    case None
    then show ?thesis by (simp add: strip_seqs.simps [of ps s])
  next
    case (Some p)
    with "1.IH" have "suffix (strip_seqs ps (drop (length p) s)) (drop (length p) s)" by simp
    then have "suffix (strip_seqs ps (drop (length p) s)) s"
      by (rule suffix_order.trans) (rule suffix_drop)
    with Some show ?thesis by (simp add: strip_seqs.simps [of ps s])
  qed
qed

lemma strip_seqs_done: "find (\<lambda>p. p \<noteq> [] \<and> prefix p (strip_seqs ps s)) ps = None"
proof (induction ps s rule: strip_seqs.induct)
  case (1 ps s)
  then show ?case
    by (cases "find (\<lambda>p. p \<noteq> [] \<and> prefix p s) ps") (simp_all add: strip_seqs.simps [of ps s])
qed

lemma strip_seqs_fixed:
  "find (\<lambda>p. p \<noteq> [] \<and> prefix p s) ps = None \<Longrightarrow> strip_seqs ps s = s"
  by (simp add: strip_seqs.simps [of ps s])

lemma strip_seqs_idem [simp]: "strip_seqs ps (strip_seqs ps s) = strip_seqs ps s"
  by (rule strip_seqs_fixed) (rule strip_seqs_done)

lemma trim_right_prefix: "prefix (trim_right s) s"
  using strip_seqs_suffix [of "map rev space_seqs" "rev s"]
  by (simp add: trim_right_def suffix_to_prefix)

lemma trim_left_of_prefix:
  assumes "prefix t (trim_left s)"
  shows "trim_left t = t"
proof -
  have "find (\<lambda>p. p \<noteq> [] \<and> prefix p t) space_seqs = None"
    using strip_seqs_done [of space_seqs s] assms
    by (auto simp: find_None_iff trim_left_def intro: prefix_order.trans)
  then show ?thesis by (simp add: trim_left_def strip_seqs_fixed)
qed

lemma trim_right_idem [simp]: "trim_right (trim_right s) = trim_right s"
  by (simp add: trim_right_def)

lemma trim_space_idem [simp, go_string]: "trim_space (trim_space s) = trim_space s"
proof -
  have "trim_left (trim_space s) = trim_space s"
    unfolding trim_space_def by (rule trim_left_of_prefix) (rule trim_right_prefix)
  then have "trim_space (trim_space s) = trim_right (trim_space s)"
    by (simp only: trim_space_def [of "trim_space s"])
  then show ?thesis by (simp add: trim_space_def)
qed

lemma trim_space_Nil [simp, go_string]: "trim_space [] = []"
  by code_simp

lemma length_trim_space: "length (trim_space s) \<le> length s"
proof -
  have "length (trim_right (trim_left s)) \<le> length (trim_left s)"
    by (rule prefix_length_le) (rule trim_right_prefix)
  also have "\<dots> \<le> length s"
    unfolding trim_left_def by (rule suffix_length_le) (rule strip_seqs_suffix)
  finally show ?thesis by (simp add: trim_space_def)
qed

lemma lower_char_idem [simp]: "lower_char (lower_char c) = lower_char c"
  by (simp add: lower_char_def)

lemma to_lower_idem [simp, go_string]: "to_lower (to_lower s) = to_lower s"
  by (simp add: to_lower_def)

lemma to_lower_Nil [simp, go_string]: "to_lower [] = []"
  by (simp add: to_lower_def)

text \<open>Lowering letters changes no white space, so it commutes with trimming.\<close>

lemma lower_char_eq:
  "\<not> (97 \<le> (of_char d :: nat) \<and> (of_char d :: nat) \<le> 122) \<Longrightarrow> lower_char d = d \<Longrightarrow>
   lower_char c = d \<longleftrightarrow> c = d"
  by (auto simp: lower_char_def split: if_splits)

lemma prefix_to_lower: "no_letters p \<Longrightarrow> prefix p (to_lower s) \<longleftrightarrow> prefix p s"
proof (induction p arbitrary: s)
  case (Cons c p)
  have "lower_char a = c \<longleftrightarrow> a = c" for a
    using Cons.prems by (intro lower_char_eq) (simp_all add: no_letters_def)
  then show ?case using Cons
    by (cases s) (auto simp: to_lower_def no_letters_def eq_commute [of c])
qed simp

lemma strip_seqs_to_lower:
  "list_all no_letters ps \<Longrightarrow> strip_seqs ps (to_lower s) = to_lower (strip_seqs ps s)"
proof (induction ps s rule: strip_seqs.induct)
  case (1 ps s)
  have same: "find (\<lambda>p. p \<noteq> [] \<and> prefix p (to_lower s)) ps = find (\<lambda>p. p \<noteq> [] \<and> prefix p s) ps"
    using "1.prems" by (intro find_cong) (auto simp: list_all_iff prefix_to_lower)
  show ?case
  proof (cases "find (\<lambda>p. p \<noteq> [] \<and> prefix p s) ps")
    case None
    then show ?thesis using same by (simp add: strip_seqs_fixed)
  next
    case (Some p)
    have "strip_seqs ps (to_lower s) = strip_seqs ps (drop (length p) (to_lower s))"
      by (subst strip_seqs.simps) (simp add: same Some)
    also have "\<dots> = to_lower (strip_seqs ps (drop (length p) s))"
      using "1.IH" [OF Some "1.prems"] by (simp add: to_lower_def drop_map)
    also have "\<dots> = to_lower (strip_seqs ps s)"
      by (simp add: strip_seqs.simps [of ps s] Some)
    finally show ?thesis .
  qed
qed

lemma space_no_letters: "list_all no_letters space_seqs" "list_all no_letters (map rev space_seqs)"
  by code_simp+

lemma trim_space_to_lower [go_string]: "trim_space (to_lower s) = to_lower (trim_space s)"
proof -
  have rl: "rev (to_lower u) = to_lower (rev u)" for u by (simp add: to_lower_def rev_map)
  show ?thesis
    by (simp add: trim_space_def trim_left_def trim_right_def strip_seqs_to_lower space_no_letters rl)
qed
lemma equal_fold_refl [simp, go_string]: "equal_fold s s"
  by (simp add: equal_fold_def)

lemma equal_fold_sym: "equal_fold s t \<longleftrightarrow> equal_fold t s"
  by (auto simp: equal_fold_def)

lemma equal_fold_trans: "equal_fold s t \<Longrightarrow> equal_fold t u \<Longrightarrow> equal_fold s u"
  by (simp add: equal_fold_def)

text \<open>
  A word without any byte of a white space rune at the front of a text stays, and trimming goes on
  behind it.
\<close>

definition word_chars :: "string \<Rightarrow> bool" where
  "word_chars w \<longleftrightarrow> list_all (\<lambda>p. list_all (\<lambda>c. c \<notin> set p) w) space_seqs"

lemma prefix_append_char:
  assumes "prefix p (r @ w)" and "\<And>c. c \<in> set w \<Longrightarrow> c \<notin> set p"
  shows "prefix p r"
proof (cases "length p \<le> length r")
  case True
  with assms(1) show ?thesis by (metis prefix_append prefix_length_prefix prefixI)
next
  case False
  then obtain q where q: "p = r @ q" "q \<noteq> []" "prefix q w"
    using assms(1) by (metis append_Nil2 nle_le prefix_append prefix_length_le prefix_order.eq_iff)
  then obtain c q' where "q = c # q'" by (cases q) auto
  with q(3) have "c \<in> set w" by (cases w) auto
  with assms(2) q \<open>q = c # q'\<close> show ?thesis by auto
qed

lemma strip_seqs_append:
  assumes w: "\<forall>p \<in> set ps. set p \<inter> set w = {}"
  shows "strip_seqs ps (r @ w) = strip_seqs ps r @ w"
  using w
proof (induction ps r rule: strip_seqs.induct)
  case (1 ps r)
  have "prefix p (r @ w) \<longleftrightarrow> prefix p r" if "p \<in> set ps" for p
    using that "1.prems" prefix_append_char [of p r w] by (auto intro: prefix_order.trans)
  then have same: "find (\<lambda>p. p \<noteq> [] \<and> prefix p (r @ w)) ps = find (\<lambda>p. p \<noteq> [] \<and> prefix p r) ps"
    by (intro find_cong) auto
  show ?case
  proof (cases "find (\<lambda>p. p \<noteq> [] \<and> prefix p r) ps")
    case None
    then show ?thesis using same by (simp add: strip_seqs_fixed)
  next
    case (Some p)
    then have "prefix p r" by (auto simp: find_Some_iff)
    then have le: "length p \<le> length r" by (rule prefix_length_le)
    have "strip_seqs ps (r @ w) = strip_seqs ps (drop (length p) r @ w)"
      using same Some le by (simp add: strip_seqs.simps [of ps "r @ w"])
    then show ?thesis
      using "1.IH" [OF Some "1.prems"] Some by (simp add: strip_seqs.simps [of ps r])
  qed
qed

lemma trim_space_word:
  assumes w: "word_chars w" "w \<noteq> []"
  shows "trim_space (w @ x) = w @ trim_right x"
proof -
  have ds: "\<forall>p \<in> set space_seqs. set p \<inter> set w = {}"
    using w(1) by (auto simp: word_chars_def list_all_iff)
  have "find (\<lambda>p. p \<noteq> [] \<and> prefix p (w @ x)) space_seqs = None"
    unfolding find_None_iff
  proof
    assume "\<exists>p. p \<in> set space_seqs \<and> p \<noteq> [] \<and> prefix p (w @ x)"
    then obtain p where p: "p \<in> set space_seqs" "p \<noteq> []" "prefix p (w @ x)" by blast
    from p(2) obtain c p' where "p = c # p'" by (cases p) auto
    moreover obtain d w' where "w = d # w'" using w(2) by (cases w) auto
    ultimately show False using p ds by force
  qed
  then have "trim_left (w @ x) = w @ x" by (simp add: trim_left_def strip_seqs_fixed)
  moreover have "trim_right (w @ x) = w @ trim_right x"
    using strip_seqs_append [of "map rev space_seqs" "rev w" "rev x"] ds
    by (simp add: trim_right_def)
  ultimately show ?thesis by (simp add: trim_space_def)
qed

text \<open>Reading the digits back shows that different numbers have different texts.\<close>

definition digits_value :: "string \<Rightarrow> nat" where
  "digits_value s = fold (\<lambda>c v. 10 * v + (of_char c - 48)) s 0"

lemma digits_value_nat_text [simp, go_string]: "digits_value (nat_text n) = n"
proof (induction n rule: nat_text.induct)
  case (1 n)
  show ?case
  proof (cases "n < 10")
    case True
    then show ?thesis by (simp add: nat_text.simps [of n] digits_value_def)
  next
    case False
    have "n mod 10 < 208" by (rule less_trans [of _ 10]) simp_all
    then have "digits_value (nat_text n) = 10 * digits_value (nat_text (n div 10)) + n mod 10"
      by (simp add: nat_text.simps [of n] False digits_value_def)
    then show ?thesis using "1.IH" False by simp
  qed
qed

lemma nat_text_inj [simp, go_string]: "nat_text m = nat_text n \<longleftrightarrow> m = n"
  by (metis digits_value_nat_text)

section \<open>Time\<close>

type_synonym time = int
type_synonym duration = int

text \<open>\<^verbatim>\<open>Time.Sub\<close> stops at the ends of a duration.\<close>

definition time_Sub :: "time \<Rightarrow> time \<Rightarrow> duration" where
  "time_Sub t u = max (- (2 ^ 63)) (min (2 ^ 63 - 1) (t - u))"

definition Second :: duration where "Second = 1000000000"
definition Minute :: duration where "Minute = 60 * Second"
definition Hour :: duration where "Hour = 60 * Minute"

text \<open>Arithmetic on \<^verbatim>\<open>int64\<close> wraps around; \<open>wrap64\<close> is the value it keeps.\<close>

definition wrap64 :: "int \<Rightarrow> int" where
  "wrap64 x = (x + 2 ^ 63) mod 2 ^ 64 - 2 ^ 63"

lemma wrap64_id: "- (2 ^ 63) \<le> x \<Longrightarrow> x < 2 ^ 63 \<Longrightarrow> wrap64 x = x"
  by (simp add: wrap64_def)

lemma wrap64_range: "- (2 ^ 63) \<le> wrap64 x \<and> wrap64 x < 2 ^ 63"
  using pos_mod_bound [of "2 ^ 64" "x + 2 ^ 63"] pos_mod_sign [of "2 ^ 64" "x + 2 ^ 63"]
  by (simp add: wrap64_def)

text \<open>The zero \<^verbatim>\<open>time.Time\<close>: 1 January of year 1, 00:00:00 UTC.\<close>

definition zero_time :: time where "zero_time = - 62135596800 * Second"

section \<open>Go maps\<close>

type_synonym 'v gmap = "(string \<times> 'v) list"

definition gmap_ok :: "'v gmap \<Rightarrow> bool" where
  "gmap_ok m \<longleftrightarrow> distinct (map fst m)"

definition gget :: "'v gmap \<Rightarrow> string \<Rightarrow> 'v option" where
  "gget m k = map_of m k"

definition gput :: "string \<Rightarrow> 'v \<Rightarrow> 'v gmap \<Rightarrow> 'v gmap" where
  "gput k v m = AList.update k v m"

definition gdel :: "string \<Rightarrow> 'v gmap \<Rightarrow> 'v gmap" where
  "gdel k m = AList.delete k m"

text \<open>A loop over the map that changes the values in place, and one that deletes entries.\<close>

definition gmap_all :: "('v \<Rightarrow> 'v) \<Rightarrow> 'v gmap \<Rightarrow> 'v gmap" where
  "gmap_all f m = map (\<lambda>(k, v). (k, f v)) m"

definition gkeep :: "('v \<Rightarrow> bool) \<Rightarrow> 'v gmap \<Rightarrow> 'v gmap" where
  "gkeep P m = filter (\<lambda>(k, v). P v) m"

text \<open>
  A loop that reads the map visits every key once in an order Go leaves open: the order is an
  argument, any list of the keys without repetition.
\<close>

definition range_order :: "string list \<Rightarrow> 'v gmap \<Rightarrow> bool" where
  "range_order ks m \<longleftrightarrow> distinct ks \<and> set ks = fst ` set m"

definition grange :: "string list \<Rightarrow> 'v gmap \<Rightarrow> 'v list" where
  "grange ks m = List.map_filter (gget m) ks"

lemma gget_gput [gmap_simps]: "gget (gput k v m) k' = (if k' = k then Some v else gget m k')"
  by (simp add: gget_def gput_def update_conv')

lemma gget_gdel [gmap_simps]: "gget (gdel k m) k' = (if k' = k then None else gget m k')"
  by (simp add: gget_def gdel_def delete_conv')

lemma gget_gmap_all [gmap_simps]: "gget (gmap_all f m) k = map_option f (gget m k)"
  by (simp add: gget_def gmap_all_def map_of_map)

lemma gget_gkeep [gmap_simps]:
  "gmap_ok m \<Longrightarrow> gget (gkeep P m) k = Option.bind (gget m k) (\<lambda>v. if P v then Some v else None)"
  unfolding gmap_ok_def gget_def gkeep_def
proof (induction m)
  case Nil
  then show ?case by simp
next
  case (Cons a m)
  obtain k' v where a: "a = (k', v)" by (cases a)
  have "map_of m k' = None" using Cons.prems by (simp add: a map_of_eq_None_iff)
  moreover have "map_of (filter (\<lambda>(k, v). P v) m) k' = None"
    using Cons.prems by (auto simp: a map_of_eq_None_iff image_iff)
  ultimately show ?case using Cons by (auto simp: a)
qed

lemma gmap_ok_gput [gmap_simps]: "gmap_ok m \<Longrightarrow> gmap_ok (gput k v m)"
  by (simp add: gmap_ok_def gput_def distinct_update)

lemma gmap_ok_gdel [gmap_simps]: "gmap_ok m \<Longrightarrow> gmap_ok (gdel k m)"
  by (simp add: gmap_ok_def gdel_def distinct_delete)

lemma gmap_ok_gmap_all [gmap_simps]: "gmap_ok (gmap_all f m) = gmap_ok m"
  by (simp add: gmap_ok_def gmap_all_def case_prod_unfold comp_def)

lemma gmap_ok_gkeep [gmap_simps]: "gmap_ok m \<Longrightarrow> gmap_ok (gkeep P m)"
  by (simp add: gmap_ok_def gkeep_def distinct_map_filter)

lemma gmap_ok_Nil [simp]: "gmap_ok []" and gget_Nil [simp]: "gget [] k = None"
  by (simp_all add: gmap_ok_def gget_def)

lemma length_gput_new: "gget m k = None \<Longrightarrow> length (gput k v m) = Suc (length m)"
  by (simp add: gput_def gget_def update_nonempty map_of_eq_None_iff)
     (induction m, auto)

lemma gget_in: "gget m k = Some v \<Longrightarrow> (k, v) \<in> set m"
  by (simp add: gget_def map_of_SomeD)

lemma gget_mem: "gmap_ok m \<Longrightarrow> (k, v) \<in> set m \<longleftrightarrow> gget m k = Some v"
  by (auto simp: gget_def gmap_ok_def)

lemma in_grange: "v \<in> set (grange ks m) \<longleftrightarrow> (\<exists>k \<in> set ks. gget m k = Some v)"
  by (induction ks) (auto simp: grange_def List.map_filter_simps split: option.splits)

lemma gget_key: "gget m k = Some v \<Longrightarrow> k \<in> fst ` set m"
  by (drule gget_in) force

lemma in_grange_order:
  "range_order ks m \<Longrightarrow> v \<in> set (grange ks m) \<longleftrightarrow> (\<exists>k. gget m k = Some v)"
  unfolding in_grange range_order_def using gget_key by metis

lemma grange_Cons:
  "grange (k # ks) m = (case gget m k of None \<Rightarrow> grange ks m | Some v \<Rightarrow> v # grange ks m)"
  by (simp add: grange_def List.map_filter_simps split: option.split)

lemma grange_Nil [simp]: "grange [] m = []"
  by (simp add: grange_def List.map_filter_simps)

lemma grange_skip: "k \<notin> set ks \<Longrightarrow> grange ks ((k, v) # m) = grange ks m"
  by (induction ks) (auto simp: grange_Cons gget_def split: option.split)

lemma mset_grange_perm: "mset ks = mset ks' \<Longrightarrow> mset (grange ks m) = mset (grange ks' m)"
  by (simp add: grange_def List.map_filter_def del: not_None_eq)

text \<open>Whatever the order, a loop over the map meets each entry once.\<close>

lemma mset_grange:
  assumes "gmap_ok m" "range_order ks m"
  shows "mset (grange ks m) = mset (map snd m)"
proof -
  have "mset ks = mset (map fst m)"
    using assms by (intro set_eq_iff_mset_eq_distinct [THEN iffD1]) (auto simp: gmap_ok_def range_order_def)
  then have "mset (grange ks m) = mset (grange (map fst m) m)" by (rule mset_grange_perm)
  also have "grange (map fst m) m = map snd m"
    using assms(1)
  proof (induction m)
    case Nil
    then show ?case by simp
  next
    case (Cons a m)
    obtain k v where a: "a = (k, v)" by (cases a)
    have "k \<notin> set (map fst m)" "gmap_ok m" using Cons.prems by (simp_all add: a gmap_ok_def)
    then have "grange (map fst m) ((k, v) # m) = map snd m" using Cons.IH by (simp add: grange_skip)
    then show ?case by (simp add: a grange_Cons gget_def)
  qed
  finally show ?thesis .
qed

section \<open>The interface of a key-value store\<close>

text \<open>
  What a client relies on in a store of values by key: the laws of lookup after each kind of
  update. The client's lemmas say how a property of every stored value, and a relation between
  the values of one key before and after, survive the updates.
\<close>

locale kv_store =
  fixes ok :: "'m \<Rightarrow> bool"
    and get :: "'m \<Rightarrow> 'k \<Rightarrow> 'v option"
    and put :: "'k \<Rightarrow> 'v \<Rightarrow> 'm \<Rightarrow> 'm"
    and del :: "'k \<Rightarrow> 'm \<Rightarrow> 'm"
    and upd_all :: "('v \<Rightarrow> 'v) \<Rightarrow> 'm \<Rightarrow> 'm"
    and keep :: "('v \<Rightarrow> bool) \<Rightarrow> 'm \<Rightarrow> 'm"
  assumes get_put: "get (put k v m) k' = (if k' = k then Some v else get m k')"
    and get_del: "get (del k m) k' = (if k' = k then None else get m k')"
    and get_upd_all: "get (upd_all f m) k = map_option f (get m k)"
    and get_keep:
      "ok m \<Longrightarrow> get (keep P m) k = Option.bind (get m k) (\<lambda>v. if P v then Some v else None)"
    and ok_put: "ok m \<Longrightarrow> ok (put k v m)"
    and ok_del: "ok m \<Longrightarrow> ok (del k m)"
    and ok_upd_all: "ok m \<Longrightarrow> ok (upd_all f m)"
    and ok_keep: "ok m \<Longrightarrow> ok (keep P m)"
begin

lemmas ok_intros = ok_put ok_del ok_upd_all ok_keep

lemma every_put:
  "\<forall>k v. get m k = Some v \<longrightarrow> P k v \<Longrightarrow> P k0 v0 \<Longrightarrow>
   \<forall>k v. get (put k0 v0 m) k = Some v \<longrightarrow> P k v"
  by (simp add: get_put)

lemma every_del:
  "\<forall>k v. get m k = Some v \<longrightarrow> P k v \<Longrightarrow> \<forall>k v. get (del k0 m) k = Some v \<longrightarrow> P k v"
  by (simp add: get_del)

lemma every_upd_all:
  "\<forall>k v. get m k = Some v \<longrightarrow> P k v \<Longrightarrow> (\<And>k v. P k v \<Longrightarrow> P k (f v)) \<Longrightarrow>
   \<forall>k v. get (upd_all f m) k = Some v \<longrightarrow> P k v"
  by (auto simp: get_upd_all)

lemma every_keep:
  "ok m \<Longrightarrow> \<forall>k v. get m k = Some v \<longrightarrow> P k v \<Longrightarrow>
   \<forall>k v. get (keep Q m) k = Some v \<longrightarrow> P k v"
  by (auto simp: get_keep bind_eq_Some_conv split: if_splits)

lemma keepD: "ok m \<Longrightarrow> get (keep Q m) k = Some v \<Longrightarrow> get m k = Some v \<and> Q v"
  by (auto simp: get_keep bind_eq_Some_conv split: if_splits)

end

interpretation gm: kv_store gmap_ok gget gput gdel gmap_all gkeep
  by unfold_locales (simp_all add: gmap_simps)

section \<open>Tables\<close>

text \<open>
  \<^verbatim>\<open>UPDATE t SET f WHERE P\<close> and the number of rows it affects, \<^verbatim>\<open>DELETE\<close>,
  and the first row that satisfies a condition (\<^verbatim>\<open>QueryRow\<close>).
\<close>

definition tbl_update :: "('r \<Rightarrow> bool) \<Rightarrow> ('r \<Rightarrow> 'r) \<Rightarrow> 'r list \<Rightarrow> 'r list" where
  "tbl_update P f rows = map (\<lambda>r. if P r then f r else r) rows"

definition tbl_count :: "('r \<Rightarrow> bool) \<Rightarrow> 'r list \<Rightarrow> nat" where
  "tbl_count P rows = length (filter P rows)"

definition tbl_delete :: "('r \<Rightarrow> bool) \<Rightarrow> 'r list \<Rightarrow> 'r list" where
  "tbl_delete P rows = filter (\<lambda>r. \<not> P r) rows"

definition tbl_first :: "('r \<Rightarrow> bool) \<Rightarrow> 'r list \<Rightarrow> 'r option" where
  "tbl_first P rows = find P rows"

lemma tbl_update_ids [table_simps]:
  "(\<And>r. key (f r) = key r) \<Longrightarrow> map key (tbl_update P f rows) = map key rows"
  by (simp add: tbl_update_def)

lemma set_tbl_update [table_simps]:
  "set (tbl_update P f rows) = (\<lambda>r. if P r then f r else r) ` set rows"
  by (simp add: tbl_update_def)

lemma length_tbl_update [simp, table_simps]: "length (tbl_update P f rows) = length rows"
  by (simp add: tbl_update_def)

lemma tbl_update_none: "tbl_count P rows = 0 \<Longrightarrow> tbl_update P f rows = rows"
  by (auto simp: tbl_update_def tbl_count_def filter_empty_conv intro: map_idI)

text \<open>Looking a row up by its key after an update that keeps the keys.\<close>

lemma tbl_first_update:
  assumes "\<And>r. key (f r) = key r"
  shows "tbl_first (\<lambda>r. key r = k) (tbl_update P f rows) =
    map_option (\<lambda>r. if P r then f r else r) (tbl_first (\<lambda>r. key r = k) rows)"
  using assms by (induction rows) (auto simp: tbl_first_def tbl_update_def)

lemma tbl_first_append:
  "tbl_first P (rows @ [r]) =
   (case tbl_first P rows of Some x \<Rightarrow> Some x | None \<Rightarrow> if P r then Some r else None)"
  by (induction rows) (auto simp: tbl_first_def)

lemma tbl_firstD: "tbl_first P rows = Some r \<Longrightarrow> r \<in> set rows \<and> P r"
  by (auto simp: tbl_first_def find_Some_iff)

lemma tbl_first_unique:
  "distinct (map key rows) \<Longrightarrow> r \<in> set rows \<Longrightarrow> tbl_first (\<lambda>x. key x = key r) rows = Some r"
  by (induction rows) (auto simp: tbl_first_def)

lemma tbl_first_None: "tbl_first P rows = None \<longleftrightarrow> (\<forall>r \<in> set rows. \<not> P r)"
  by (auto simp: tbl_first_def find_None_iff)

lemma tbl_count_0: "tbl_count P rows = 0 \<longleftrightarrow> (\<forall>r \<in> set rows. \<not> P r)"
  by (auto simp: tbl_count_def filter_empty_conv)

lemma tbl_count_update_le:
  "(\<And>r. r \<in> set rows \<Longrightarrow> P r \<Longrightarrow> Q (f r) \<Longrightarrow> Q r) \<Longrightarrow> tbl_count Q (tbl_update P f rows) \<le> tbl_count Q rows"
proof (induction rows)
  case (Cons r rows)
  then have "tbl_count Q (tbl_update P f rows) \<le> tbl_count Q rows" by simp
  then show ?case using Cons.prems [of r] by (auto simp: tbl_count_def tbl_update_def)
qed (simp add: tbl_update_def)

end
