(* ===== verification/Protocol.thy ===== *)
theory Protocol
  imports Go_Prelude
begin

text \<open>
  The wire types of \<^verbatim>\<open>internal/protocol/messages.go\<close> that the components exchange.
  A Go string type with named constants is a datatype with one constructor per constant and one
  more for any other text.
\<close>

datatype CapabilityLevel = CapObserve | CapDiagnose | CapRemediate | CapOther string

record CommandPayload =
  cmd_RequestID :: string
  cmd_Command :: string
  cmd_Args :: "string list"
  cmd_Timeout :: duration
  cmd_Level :: CapabilityLevel
  cmd_Stream :: bool

record CommandResultPayload =
  res_RequestID :: string
  res_ExitCode :: int
  res_Stdout :: string
  res_Stderr :: string
  res_Duration :: int
  res_Truncated :: bool

record OutputChunkPayload =
  oc_RequestID :: string
  oc_Stream :: string
  oc_Data :: string
  oc_Seq :: nat
  oc_Final :: bool
  oc_ExitCode :: int

text \<open>
  The policy types. \<^verbatim>\<open>string(x)\<close> on such a value is \<open>exec_text\<close> or
  \<open>mode_text\<close>; the empty text, the Go zero value, is \<open>ExecOther []\<close> or
  \<open>ApprovalOther []\<close>.
\<close>

datatype ExecutionClass =
    ExecObserveDirect
  | ExecDiagnoseSandbox
  | ExecRemediateSandbox
  | ExecBreakglassDirect
  | ExecWasmSandbox
  | ExecOther string

definition exec_of_text :: "string \<Rightarrow> ExecutionClass" where
  "exec_of_text t =
     (if t = ''observe_direct'' then ExecObserveDirect
      else if t = ''diagnose_sandbox'' then ExecDiagnoseSandbox
      else if t = ''remediate_sandbox'' then ExecRemediateSandbox
      else if t = ''breakglass_direct'' then ExecBreakglassDirect
      else if t = ''wasm_sandbox'' then ExecWasmSandbox
      else ExecOther t)"

datatype ApprovalMode =
    ApprovalNone
  | ApprovalMutationGate
  | ApprovalPlanFirst
  | ApprovalEveryAction
  | ApprovalTwoPerson
  | ApprovalOther string

definition mode_of_text :: "string \<Rightarrow> ApprovalMode" where
  "mode_of_text t =
     (if t = ''none'' then ApprovalNone
      else if t = ''mutation_gate'' then ApprovalMutationGate
      else if t = ''plan_first'' then ApprovalPlanFirst
      else if t = ''every_action'' then ApprovalEveryAction
      else if t = ''two_person'' then ApprovalTwoPerson
      else ApprovalOther t)"

text \<open>The value whose text is trimmed.\<close>

fun trim_exec :: "ExecutionClass \<Rightarrow> ExecutionClass" where
  "trim_exec (ExecOther t) = exec_of_text (trim_space t)"
| "trim_exec c = c"

fun trim_mode :: "ApprovalMode \<Rightarrow> ApprovalMode" where
  "trim_mode (ApprovalOther t) = mode_of_text (trim_space t)"
| "trim_mode m = m"

record BreakglassPolicy =
  bg_Enabled :: bool
  bg_AllowedReasons :: "string list"
  bg_RequireTypedConfirmation :: bool

definition no_breakglass :: BreakglassPolicy where
  "no_breakglass = \<lparr>bg_Enabled = False, bg_AllowedReasons = [], bg_RequireTypedConfirmation = False\<rparr>"

record PolicyUpdatePayload =
  pu_PolicyID :: string
  pu_Level :: CapabilityLevel
  pu_Allowed :: "string list"
  pu_Blocked :: "string list"
  pu_Paths :: "string list"
  pu_ExecutionClassRequired :: ExecutionClass
  pu_SandboxRequired :: bool
  pu_ApprovalMode :: ApprovalMode
  pu_RequireSecondApprover :: bool
  pu_Breakglass :: BreakglassPolicy
  pu_MaxRuntimeSec :: int
  pu_AllowedScopes :: "string list"

end
