(* ===== verification/Lifecycle.thy ===== *)
theory Lifecycle
  imports Go_Prelude
begin

text \<open>
  The interface of the state machines of the control plane. Approvals, async jobs, sandbox
  sessions, sandbox tasks and runners each have a set of states, a table of allowed moves and
  a notion of terminal state, and a store that only moves a record along the table. The locales
  state these laws once; the lemmas say what they give for whole histories.
\<close>

section \<open>A table of moves\<close>

text \<open>
  \<open>can s t\<close> says that the move from \<open>s\<close> to \<open>t\<close> is allowed. A terminal state has
  no move to another state.
\<close>

locale final_moves =
  fixes can :: "'s \<Rightarrow> 's \<Rightarrow> bool"
    and terminal :: "'s \<Rightarrow> bool"
  assumes terminal_final: "terminal s \<Longrightarrow> can s t \<Longrightarrow> t = s"
begin

lemma terminal_reach: "can\<^sup>*\<^sup>* s t \<Longrightarrow> terminal s \<Longrightarrow> t = s"
  by (induction rule: rtranclp_induct) (auto dest: terminal_final)

end

text \<open>Where \<open>rank\<close> grows along every move, no state comes back.\<close>

locale lifecycle = final_moves can terminal
  for can :: "'s \<Rightarrow> 's \<Rightarrow> bool" and terminal :: "'s \<Rightarrow> bool" +
  fixes rank :: "'s \<Rightarrow> nat"
  assumes rank_step: "can s t \<Longrightarrow> t \<noteq> s \<Longrightarrow> rank s < rank t"
begin

lemma rank_reach: "can\<^sup>*\<^sup>* s t \<Longrightarrow> t = s \<or> rank s < rank t"
  by (induction rule: rtranclp_induct) (auto dest: rank_step)

lemma no_return: "can\<^sup>*\<^sup>* s t \<Longrightarrow> can\<^sup>*\<^sup>* t s \<Longrightarrow> t = s"
  using rank_reach [of s t] rank_reach [of t s] by auto

text \<open>A history of moves that all change the state is bounded by the rank.\<close>

lemma history_bound:
  "successively (\<lambda>a b. can a b \<and> b \<noteq> a) (s # ss) \<Longrightarrow> (\<And>t. rank t \<le> n) \<Longrightarrow> length ss + rank s \<le> n"
proof (induction ss arbitrary: s)
  case Nil
  then show ?case by simp
next
  case (Cons t ss)
  then have "rank s < rank t" by (auto intro: rank_step)
  moreover have "length ss + rank t \<le> n" using Cons by simp
  ultimately show ?case by simp
qed

end

section \<open>A store guarded by a table of moves\<close>

text \<open>
  \<open>look m k\<close> is the state of record \<open>k\<close> in the store \<open>m\<close>, and \<open>exec\<close> runs one
  operation. Every operation keeps the store's invariant and moves each record along allowed
  moves only.
\<close>

locale guarded_store = final_moves can terminal
  for can :: "'s \<Rightarrow> 's \<Rightarrow> bool" and terminal :: "'s \<Rightarrow> bool" +
  fixes inv :: "'m \<Rightarrow> bool"
    and look :: "'m \<Rightarrow> 'k \<Rightarrow> 's option"
    and exec :: "'op \<Rightarrow> 'm \<Rightarrow> 'm"
  assumes exec_inv: "inv m \<Longrightarrow> inv (exec p m)"
    and exec_step: "inv m \<Longrightarrow> look m k = Some s \<Longrightarrow> \<exists>t. look (exec p m) k = Some t \<and> can\<^sup>*\<^sup>* s t"
begin

lemma run_inv: "inv m \<Longrightarrow> inv (fold exec ps m)"
  by (induction ps arbitrary: m) (simp_all add: exec_inv)

lemma run_reach:
  "inv m \<Longrightarrow> look m k = Some s \<Longrightarrow> \<exists>t. look (fold exec ps m) k = Some t \<and> can\<^sup>*\<^sup>* s t"
proof (induction ps arbitrary: m s)
  case Nil
  then show ?case by simp
next
  case (Cons p ps)
  from exec_step [OF Cons.prems] obtain t
    where t: "look (exec p m) k = Some t" "can\<^sup>*\<^sup>* s t" by blast
  from Cons.IH [OF exec_inv [OF Cons.prems(1)] t(1)] t(2) show ?case
    by (auto intro: rtranclp_trans)
qed

lemma run_terminal:
  "inv m \<Longrightarrow> look m k = Some s \<Longrightarrow> terminal s \<Longrightarrow> look (fold exec ps m) k = Some s"
  using run_reach [of m k s ps] terminal_reach [of s] by auto

end

text \<open>With a rank, a record never comes back to a state it has left.\<close>

locale ranked_store = lifecycle can terminal rank + guarded_store can terminal inv look exec
  for can :: "'s \<Rightarrow> 's \<Rightarrow> bool" and terminal :: "'s \<Rightarrow> bool" and rank :: "'s \<Rightarrow> nat"
    and inv :: "'m \<Rightarrow> bool" and look :: "'m \<Rightarrow> 'k \<Rightarrow> 's option" and exec :: "'op \<Rightarrow> 'm \<Rightarrow> 'm"
begin

lemma run_no_return:
  assumes "inv m" "look m k = Some s" "look (fold exec ps m) k = Some t" "t \<noteq> s"
  shows "look (fold exec (ps @ qs) m) k \<noteq> Some s"
proof
  assume again: "look (fold exec (ps @ qs) m) k = Some s"
  have "can\<^sup>*\<^sup>* s t" using run_reach [OF assms(1,2), of ps] assms(3) by auto
  moreover have "can\<^sup>*\<^sup>* t s"
    using run_reach [OF run_inv [OF assms(1)] assms(3), of qs] again by auto
  ultimately show False using no_return assms(4) by auto
qed

end

section \<open>A right that is used once\<close>

text \<open>
  Operations use rights named by keys: \<open>uses p s k\<close> says that \<open>p\<close> uses \<open>k\<close> in state
  \<open>s\<close>. A used right is spent, a spent right stays spent and cannot be used.
\<close>

locale one_shot =
  fixes exec :: "'op \<Rightarrow> 's \<Rightarrow> 's"
    and spent :: "'s \<Rightarrow> 'k \<Rightarrow> bool"
    and uses :: "'op \<Rightarrow> 's \<Rightarrow> 'k \<Rightarrow> bool"
  assumes spent_stays: "spent s k \<Longrightarrow> spent (exec p s) k"
    and uses_fresh: "uses p s k \<Longrightarrow> \<not> spent s k"
    and uses_spends: "uses p s k \<Longrightarrow> spent (exec p s) k"
begin

lemma run_spent: "spent s k \<Longrightarrow> spent (fold exec ps s) k"
  by (induction ps arbitrary: s) (simp_all add: spent_stays)

lemma used_once: "uses p s k \<Longrightarrow> \<not> uses q (fold exec ps (exec p s)) k"
  using uses_fresh run_spent uses_spends by blast

lemma spent_unused: "spent s k \<Longrightarrow> \<not> uses q (fold exec ps s) k"
  using uses_fresh run_spent by blast

end

section \<open>A table with compare-and-swap moves\<close>

text \<open>
  Rows with a key and a state column. A move is the statement
  \<^verbatim>\<open>UPDATE t SET state = dst, ... WHERE key = k AND state = src\<close>: \<open>move now dst\<close> is what it does to the
  row it matches.
\<close>

locale cas_table =
  fixes key :: "'r \<Rightarrow> string" and state :: "'r \<Rightarrow> 's" and move :: "time \<Rightarrow> 's \<Rightarrow> 'r \<Rightarrow> 'r"
  assumes key_move: "key (move now s r) = key r"
    and state_move: "state (move now s r) = s"
begin

lemma swap_row:
  "tbl_first (\<lambda>r. key r = k') (tbl_update (\<lambda>r. key r = k \<and> state r = src) (move now dst) t) =
   map_option (\<lambda>r. if key r = k \<and> state r = src then move now dst r else r) (tbl_first (\<lambda>r. key r = k') t)"
  by (rule tbl_first_update) (rule key_move)

lemma swap_keys: "map key (tbl_update (\<lambda>r. key r = k \<and> state r = src) (move now dst) t) = map key t"
  by (rule tbl_update_ids) (rule key_move)

lemma match_count:
  assumes "distinct (map key t)"
  shows "tbl_count (\<lambda>r. key r = k \<and> state r = src) t = 0 \<longleftrightarrow>
    map_option state (tbl_first (\<lambda>r. key r = k) t) \<noteq> Some src"
proof
  assume "tbl_count (\<lambda>r. key r = k \<and> state r = src) t = 0"
  then show "map_option state (tbl_first (\<lambda>r. key r = k) t) \<noteq> Some src"
    using tbl_firstD [of "\<lambda>r. key r = k" t] by (auto simp: tbl_count_0)
next
  assume "map_option state (tbl_first (\<lambda>r. key r = k) t) \<noteq> Some src"
  then show "tbl_count (\<lambda>r. key r = k \<and> state r = src) t = 0"
    using tbl_first_unique [OF assms] by (auto simp: tbl_count_0)
qed

lemma swap_state:
  assumes "map_option state (tbl_first (\<lambda>r. key r = k') t) = Some s"
  shows "map_option state (tbl_first (\<lambda>r. key r = k') (tbl_update (\<lambda>r. key r = k \<and> state r = src) (move now dst) t)) =
    Some (if k' = k \<and> s = src then dst else s)"
proof -
  obtain r where r: "tbl_first (\<lambda>r. key r = k') t = Some r" "state r = s" using assms by auto
  then have "key r = k'" using tbl_firstD by fastforce
  with r show ?thesis by (simp add: swap_row state_move)
qed

lemma swap_other:
  "k' \<noteq> k \<Longrightarrow>
   tbl_first (\<lambda>r. key r = k') (tbl_update (\<lambda>r. key r = k \<and> state r = src) (move now dst) t) = tbl_first (\<lambda>r. key r = k') t"
  using tbl_firstD [of "\<lambda>r. key r = k'" t] by (cases "tbl_first (\<lambda>r. key r = k') t") (auto simp: swap_row)

end

end
