(* ===== verification/Approval_Queue.thy ===== *)
theory Approval_Queue
  imports Protocol Lifecycle
begin

text \<open>
  The approval queue of \<^verbatim>\<open>internal/controlplane/approval/queue.go\<close>: the requests by
  id, submission with a size limit, decisions with a quorum of distinct approvers, expiry and
  purge, the listings newest first, and the polling wait. Every operation runs under the queue's
  mutex, so one operation is one step. Where the source reads the clock twice, the model takes
  two clock readings.
\<close>

section \<open>Data\<close>

datatype Decision =
  DecisionPending | DecisionApproved | DecisionDenied | DecisionExpired | DecisionOther string

record ApprovalRecord =
  ar_Actor :: string
  ar_Timestamp :: time

record SubmissionOptions =
  so_RequireSecondApprover :: bool

text \<open>The type parameter is the type of the policy rationale, which the queue only stores.\<close>

record 'r Request =
  req_ID :: string
  req_WorkspaceID :: string
  req_ProbeID :: string
  req_Command :: CommandPayload
  req_Reason :: string
  req_RiskLevel :: string
  req_Requester :: string
  req_PolicyDecision :: string
  req_PolicyRationale :: "'r option"
  req_RequireSecondApprover :: bool
  req_RequiredApprovals :: int
  req_Approvals :: "ApprovalRecord list"
  req_Decision :: Decision
  req_DecidedBy :: string
  req_DecidedAt :: time
  req_CreatedAt :: time
  req_ExpiresAt :: time

record 'r Queue =
  q_requests :: "'r Request gmap"
  q_ttl :: duration
  q_maxSize :: int

datatype queue_error =
    QueueFull nat int
  | DecidedByRequired
  | RequestNotFound string
  | AlreadyDecided string Decision
  | RequestExpired string time
  | InvalidDecision Decision
  | AlreadyApprovedBy string string
  | WaitTimeout string

section \<open>Operations\<close>

definition RequiredApprovalCount :: "'r Request \<Rightarrow> int" where
  "RequiredApprovalCount r =
     (if req_RequiredApprovals r > 1 then req_RequiredApprovals r
      else if req_RequireSecondApprover r then 2 else 1)"

definition ApproverIDs :: "'r Request \<Rightarrow> string list" where
  "ApproverIDs r = filter (\<lambda>a. a \<noteq> []) (map (\<lambda>a. trim_space (ar_Actor a)) (req_Approvals r))"

definition LatestApproval :: "'r Request \<Rightarrow> ApprovalRecord option" where
  "LatestApproval r = (if req_Approvals r = [] then None else Some (last (req_Approvals r)))"

definition NewQueue :: "duration \<Rightarrow> int \<Rightarrow> 'r Queue" where
  "NewQueue ttl maxSize = \<lparr>q_requests = [], q_ttl = ttl, q_maxSize = maxSize\<rparr>"

text \<open>The two loops of \<^verbatim>\<open>evictExpiredLocked\<close>: expire, then purge.\<close>

definition expire_request :: "time \<Rightarrow> 'r Request \<Rightarrow> 'r Request" where
  "expire_request now r =
     (if req_Decision r = DecisionPending \<and> now > req_ExpiresAt r
      then r\<lparr>req_Decision := DecisionExpired\<rparr> else r)"

definition purgeable :: "time \<Rightarrow> 'r Request \<Rightarrow> bool" where
  "purgeable now r \<longleftrightarrow>
     req_Decision r \<noteq> DecisionPending \<and> req_CreatedAt r < now - 24 * Hour"

definition evictExpiredLocked :: "time \<Rightarrow> 'r Queue \<Rightarrow> 'r Queue" where
  "evictExpiredLocked now q =
     q\<lparr>q_requests :=
         gkeep (\<lambda>r. \<not> purgeable now r) (gmap_all (expire_request now) (q_requests q))\<rparr>"

definition new_request ::
  "time \<Rightarrow> string \<Rightarrow> duration \<Rightarrow> string \<Rightarrow> CommandPayload \<Rightarrow> string \<Rightarrow> string \<Rightarrow> string \<Rightarrow>
   string \<Rightarrow> 'r option \<Rightarrow> SubmissionOptions \<Rightarrow> 'r Request" where
  "new_request now uuid ttl probeID cmd reason riskLevel requester policyDecision
     policyRationale options =
     \<lparr>req_ID = uuid, req_WorkspaceID = [], req_ProbeID = probeID,
      req_Command = cmd, req_Reason = reason, req_RiskLevel = riskLevel,
      req_Requester = requester, req_PolicyDecision = policyDecision,
      req_PolicyRationale = policyRationale,
      req_RequireSecondApprover = so_RequireSecondApprover options,
      req_RequiredApprovals = (if so_RequireSecondApprover options then 2 else 1),
      req_Approvals = [], req_Decision = DecisionPending, req_DecidedBy = [],
      req_DecidedAt = zero_time, req_CreatedAt = now, req_ExpiresAt = now + ttl\<rparr>"

definition SubmitWithPolicyDetailsAndOptions ::
  "time \<Rightarrow> time \<Rightarrow> string \<Rightarrow> 'r Queue \<Rightarrow> string \<Rightarrow> CommandPayload \<Rightarrow> string \<Rightarrow> string \<Rightarrow> string \<Rightarrow>
   string \<Rightarrow> 'r option \<Rightarrow> SubmissionOptions \<Rightarrow> (queue_error + 'r Request) \<times> 'r Queue" where
  "SubmitWithPolicyDetailsAndOptions tevict now uuid q probeID cmd reason riskLevel requester
     policyDecision policyRationale options =
     (let q' = evictExpiredLocked tevict q
      in if int (length (q_requests q')) \<ge> q_maxSize q'
         then (Err (QueueFull (length (q_requests q')) (q_maxSize q')), q')
         else
           let req = new_request now uuid (q_ttl q') probeID cmd reason riskLevel requester
                 policyDecision policyRationale options
           in (Ok req, q'\<lparr>q_requests := gput uuid req (q_requests q')\<rparr>))"

definition SubmitWithPolicyDetails ::
  "time \<Rightarrow> time \<Rightarrow> string \<Rightarrow> 'r Queue \<Rightarrow> string \<Rightarrow> CommandPayload \<Rightarrow> string \<Rightarrow> string \<Rightarrow> string \<Rightarrow>
   string \<Rightarrow> 'r option \<Rightarrow> (queue_error + 'r Request) \<times> 'r Queue" where
  "SubmitWithPolicyDetails tevict now uuid q probeID cmd reason riskLevel requester
     policyDecision policyRationale =
     SubmitWithPolicyDetailsAndOptions tevict now uuid q probeID cmd reason riskLevel requester
       policyDecision policyRationale \<lparr>so_RequireSecondApprover = False\<rparr>"

definition Submit ::
  "time \<Rightarrow> time \<Rightarrow> string \<Rightarrow> 'r Queue \<Rightarrow> string \<Rightarrow> CommandPayload \<Rightarrow> string \<Rightarrow> string \<Rightarrow> string \<Rightarrow>
   (queue_error + 'r Request) \<times> 'r Queue" where
  "Submit tevict now uuid q probeID cmd reason riskLevel requester =
     SubmitWithPolicyDetails tevict now uuid q probeID cmd reason riskLevel requester [] None"

text \<open>
  The returned request is the stored one, so the workspace written after the submission shows in
  both. The source releases the mutex between the submission and the tagging; the tagging step is
  \<open>tag_workspace\<close>.
\<close>

definition tag_workspace :: "string \<Rightarrow> string \<Rightarrow> 'r Queue \<Rightarrow> 'r Queue" where
  "tag_workspace workspaceID uuid q =
     (case gget (q_requests q) uuid of
        None \<Rightarrow> q
      | Some r \<Rightarrow> q\<lparr>q_requests :=
          gput uuid (r\<lparr>req_WorkspaceID := trim_space workspaceID\<rparr>) (q_requests q)\<rparr>)"

definition SubmitWithWorkspaceAndOptions ::
  "time \<Rightarrow> time \<Rightarrow> string \<Rightarrow> 'r Queue \<Rightarrow> string \<Rightarrow> string \<Rightarrow> CommandPayload \<Rightarrow> string \<Rightarrow> string \<Rightarrow>
   string \<Rightarrow> string \<Rightarrow> 'r option \<Rightarrow> SubmissionOptions \<Rightarrow> (queue_error + 'r Request) \<times> 'r Queue" where
  "SubmitWithWorkspaceAndOptions tevict now uuid q workspaceID probeID cmd reason riskLevel
     requester policyDecision policyRationale options =
     (case SubmitWithPolicyDetailsAndOptions tevict now uuid q probeID cmd reason riskLevel
             requester policyDecision policyRationale options of
        (Err e, q') \<Rightarrow> (Err e, q')
      | (Ok req, q') \<Rightarrow>
          if trim_space workspaceID \<noteq> []
          then (Ok (req\<lparr>req_WorkspaceID := trim_space workspaceID\<rparr>),
                tag_workspace workspaceID (req_ID req) q')
          else (Ok req, q'))"

definition SubmitWithWorkspace ::
  "time \<Rightarrow> time \<Rightarrow> string \<Rightarrow> 'r Queue \<Rightarrow> string \<Rightarrow> string \<Rightarrow> CommandPayload \<Rightarrow> string \<Rightarrow> string \<Rightarrow>
   string \<Rightarrow> string \<Rightarrow> 'r option \<Rightarrow> (queue_error + 'r Request) \<times> 'r Queue" where
  "SubmitWithWorkspace tevict now uuid q workspaceID probeID cmd reason riskLevel requester
     policyDecision policyRationale =
     SubmitWithWorkspaceAndOptions tevict now uuid q workspaceID probeID cmd reason riskLevel
       requester policyDecision policyRationale \<lparr>so_RequireSecondApprover = False\<rparr>"

definition Decide ::
  "time \<Rightarrow> time \<Rightarrow> 'r Queue \<Rightarrow> string \<Rightarrow> Decision \<Rightarrow> string \<Rightarrow>
   (queue_error + 'r Request) \<times> 'r Queue" where
  "Decide tcheck now q rid decision decidedBy0 =
     (let decidedBy = trim_space decidedBy0;
          store = (\<lambda>r. q\<lparr>q_requests := gput rid r (q_requests q)\<rparr>)
      in if decidedBy = [] then (Err DecidedByRequired, q)
         else case gget (q_requests q) rid of
           None \<Rightarrow> (Err (RequestNotFound rid), q)
         | Some req \<Rightarrow>
             if req_Decision req \<noteq> DecisionPending
             then (Err (AlreadyDecided rid (req_Decision req)), q)
             else if tcheck > req_ExpiresAt req
             then (Err (RequestExpired rid (req_ExpiresAt req)),
                   store (req\<lparr>req_Decision := DecisionExpired\<rparr>))
             else if decision \<noteq> DecisionApproved \<and> decision \<noteq> DecisionDenied
             then (Err (InvalidDecision decision), q)
             else if decision = DecisionDenied
             then let r = req\<lparr>req_Decision := decision, req_DecidedBy := decidedBy,
                               req_DecidedAt := now\<rparr>
                  in (Ok r, store r)
             else if list_ex (\<lambda>prior. equal_fold (trim_space (ar_Actor prior)) decidedBy)
                       (req_Approvals req)
             then (Err (AlreadyApprovedBy decidedBy rid), q)
             else
               let r1 = req\<lparr>req_Approvals := req_Approvals req @
                               [\<lparr>ar_Actor = decidedBy, ar_Timestamp = now\<rparr>]\<rparr>
               in if int (length (req_Approvals r1)) < RequiredApprovalCount r1
                  then let r2 = r1\<lparr>req_Decision := DecisionPending\<rparr> in (Ok r2, store r2)
                  else let r2 = r1\<lparr>req_Decision := DecisionApproved,
                                    req_DecidedBy := decidedBy, req_DecidedAt := now\<rparr>
                       in (Ok r2, store r2))"

definition Get :: "'r Queue \<Rightarrow> string \<Rightarrow> 'r Request option" where
  "Get q rid = gget (q_requests q) rid"

text \<open>
  \<^verbatim>\<open>sortRequestsByTime\<close> as it is written: for each index the inner loop swaps the
  element to the left while it is newer than its neighbour.
\<close>

primrec sift_left :: "nat \<Rightarrow> 'r Request list \<Rightarrow> 'r Request list" where
  "sift_left 0 reqs = reqs"
| "sift_left (Suc j) reqs =
     (if req_CreatedAt (reqs ! Suc j) > req_CreatedAt (reqs ! j)
      then sift_left j (reqs[Suc j := reqs ! j, j := reqs ! Suc j])
      else reqs)"

definition sortRequestsByTime :: "'r Request list \<Rightarrow> 'r Request list" where
  "sortRequestsByTime reqs = fold sift_left [1..<length reqs] reqs"

definition truncate_list :: "int \<Rightarrow> 'a list \<Rightarrow> 'a list" where
  "truncate_list limit xs =
     (if limit > 0 \<and> int (length xs) > limit then take (nat limit) xs else xs)"

text \<open>The listings; \<open>ks\<close> is the order in which the loop visits the map.\<close>

definition Pending :: "time \<Rightarrow> string list \<Rightarrow> 'r Queue \<Rightarrow> 'r Request list \<times> 'r Queue" where
  "Pending now ks q =
     (let q' = evictExpiredLocked now q
      in (sortRequestsByTime
            (filter (\<lambda>r. req_Decision r = DecisionPending) (grange ks (q_requests q'))), q'))"

definition AllRequests :: "string list \<Rightarrow> int \<Rightarrow> 'r Queue \<Rightarrow> 'r Request list" where
  "AllRequests ks limit q = truncate_list limit (sortRequestsByTime (grange ks (q_requests q)))"

definition PendingCount :: "time \<Rightarrow> 'r Queue \<Rightarrow> nat \<times> 'r Queue" where
  "PendingCount now q =
     (let q' = evictExpiredLocked now q
      in (length (filter (\<lambda>(k, r). req_Decision r = DecisionPending) (q_requests q')), q'))"

text \<open>The workspace test shared by the workspace-scoped reads: it skips a request of another
  workspace, and passes one without workspace.\<close>

definition other_workspace :: "string \<Rightarrow> 'r Request \<Rightarrow> bool" where
  "other_workspace ws r \<longleftrightarrow> ws \<noteq> [] \<and> req_WorkspaceID r \<noteq> [] \<and> req_WorkspaceID r \<noteq> ws"

definition PendingByWorkspace ::
  "time \<Rightarrow> string list \<Rightarrow> string \<Rightarrow> 'r Queue \<Rightarrow> 'r Request list \<times> 'r Queue" where
  "PendingByWorkspace now ks ws q =
     (let q' = evictExpiredLocked now q
      in (sortRequestsByTime
            (filter (\<lambda>r. req_Decision r = DecisionPending \<and> \<not> other_workspace ws r)
               (grange ks (q_requests q'))), q'))"

definition AllByWorkspace :: "string list \<Rightarrow> string \<Rightarrow> int \<Rightarrow> 'r Queue \<Rightarrow> 'r Request list" where
  "AllByWorkspace ks ws limit q =
     truncate_list limit
       (sortRequestsByTime (filter (\<lambda>r. \<not> other_workspace ws r) (grange ks (q_requests q))))"

definition GetCheckWorkspace :: "'r Queue \<Rightarrow> string \<Rightarrow> string \<Rightarrow> 'r Request option" where
  "GetCheckWorkspace q rid ws =
     (case Get q rid of
        None \<Rightarrow> None
      | Some req \<Rightarrow> if other_workspace ws req then None else Some req)"

text \<open>
  \<^verbatim>\<open>WaitForDecision\<close>: each poll sees the queue of that moment and the clock. The result
  is the pair the function returns, the request (if any) and the error (if any); it is
  \<open>None\<close> while the polls seen so far leave the loop running.
\<close>

fun WaitForDecision ::
  "string \<Rightarrow> time \<Rightarrow> ('r Queue \<times> time) list \<Rightarrow> ('r Request option \<times> queue_error option) option" where
  "WaitForDecision rid deadline [] = None"
| "WaitForDecision rid deadline ((q, now) # polls) =
     (case Get q rid of
        None \<Rightarrow> Some (None, Some (RequestNotFound rid))
      | Some req \<Rightarrow>
          if req_Decision req = DecisionApproved \<or> req_Decision req = DecisionDenied \<or>
             req_Decision req = DecisionExpired
          then Some (Some req, None)
          else if now > deadline then Some (Some req, Some (WaitTimeout rid))
          else WaitForDecision rid deadline polls)"

text \<open>
  The steps of a queue: the state is the queue and the set of ids handed out so far, since
  \<^verbatim>\<open>uuid.New\<close> never hands out an id twice. The reaper, \<open>Pending\<close>,
  \<open>PendingCount\<close> and \<open>PendingByWorkspace\<close> change the queue by the eviction only.
\<close>

inductive queue_step :: "'r Queue \<times> string set \<Rightarrow> 'r Queue \<times> string set \<Rightarrow> bool" where
  submit: "uuid \<notin> U \<Longrightarrow>
     queue_step (q, U)
       (snd (SubmitWithPolicyDetailsAndOptions te now uuid q p c re ri rq pd pr opts), insert uuid U)"
| tag: "queue_step (q, U) (tag_workspace ws rid q, U)"
| decide: "queue_step (q, U) (snd (Decide tc now q rid d decidedBy), U)"
| evict: "queue_step (q, U) (evictExpiredLocked now q, U)"

inductive_cases queue_stepE: "queue_step (q, U) (q', U')"

section \<open>The invariant\<close>

definition approvers :: "'r Request \<Rightarrow> string list" where
  "approvers r = map (\<lambda>a. to_lower (ar_Actor a)) (req_Approvals r)"

definition request_ok :: "string \<Rightarrow> 'r Request \<Rightarrow> bool" where
  "request_ok k r \<longleftrightarrow>
     req_ID r = k \<and>
     req_RequiredApprovals r = (if req_RequireSecondApprover r then 2 else 1) \<and>
     distinct (approvers r) \<and>
     list_all (\<lambda>a. ar_Actor a \<noteq> [] \<and> trim_space (ar_Actor a) = ar_Actor a) (req_Approvals r) \<and>
     (case req_Decision r of
        DecisionPending \<Rightarrow> int (length (req_Approvals r)) < RequiredApprovalCount r
      | DecisionApproved \<Rightarrow>
          int (length (req_Approvals r)) = RequiredApprovalCount r \<and>
          req_DecidedBy r = ar_Actor (last (req_Approvals r)) \<and>
          req_DecidedAt r = ar_Timestamp (last (req_Approvals r))
      | DecisionDenied \<Rightarrow>
          int (length (req_Approvals r)) < RequiredApprovalCount r \<and> req_DecidedBy r \<noteq> []
      | DecisionExpired \<Rightarrow> int (length (req_Approvals r)) < RequiredApprovalCount r
      | DecisionOther _ \<Rightarrow> False)"

definition queue_ok :: "'r Queue \<times> string set \<Rightarrow> bool" where
  "queue_ok s \<longleftrightarrow>
     (case s of (q, U) \<Rightarrow>
        gmap_ok (q_requests q) \<and>
        (\<forall>k r. gget (q_requests q) k = Some r \<longrightarrow> request_ok k r \<and> k \<in> U) \<and>
        int (length (q_requests q)) \<le> max 0 (q_maxSize q))"

text \<open>The moves of a decision, and what stays of a request once it is decided.\<close>

definition decision_can :: "Decision \<Rightarrow> Decision \<Rightarrow> bool" where
  "decision_can d d' \<longleftrightarrow> d' = d \<or> d = DecisionPending"

definition decision_rank :: "Decision \<Rightarrow> nat" where
  "decision_rank d = (if d = DecisionPending then 0 else 1)"

definition settled_as :: "'r Request \<Rightarrow> 'r Request \<Rightarrow> bool" where
  "settled_as r r' \<longleftrightarrow>
     req_Decision r \<noteq> DecisionPending \<longrightarrow> (\<exists>ws. r' = r\<lparr>req_WorkspaceID := ws\<rparr>)"

text \<open>The two updates a successful decision makes.\<close>

definition deny_request :: "time \<Rightarrow> string \<Rightarrow> 'r Request \<Rightarrow> 'r Request" where
  "deny_request now who r =
     r\<lparr>req_Decision := DecisionDenied, req_DecidedBy := who, req_DecidedAt := now\<rparr>"

definition approve_request :: "time \<Rightarrow> string \<Rightarrow> 'r Request \<Rightarrow> 'r Request" where
  "approve_request now who r =
     (let r1 = r\<lparr>req_Approvals := req_Approvals r @ [\<lparr>ar_Actor = who, ar_Timestamp = now\<rparr>]\<rparr>
      in if int (length (req_Approvals r)) + 1 < RequiredApprovalCount r
         then r1\<lparr>req_Decision := DecisionPending\<rparr>
         else r1\<lparr>req_Decision := DecisionApproved, req_DecidedBy := who, req_DecidedAt := now\<rparr>)"

text \<open>The inner loop inserts the element after the last one that is not older.\<close>

fun insert_newest :: "'r Request \<Rightarrow> 'r Request list \<Rightarrow> 'r Request list" where
  "insert_newest x [] = [x]"
| "insert_newest x (y # ys) =
     (if req_CreatedAt x > req_CreatedAt y then y # insert_newest x ys else x # y # ys)"

text \<open>A run used by the examples: a request that needs two approvers gets them.\<close>

definition demo_cmd :: CommandPayload where
  "demo_cmd = \<lparr>cmd_RequestID = ''r1'', cmd_Command = ''systemctl'', cmd_Args = [''restart'', ''nginx''],
     cmd_Timeout = 0, cmd_Level = CapRemediate, cmd_Stream = False\<rparr>"

definition demo_submitted :: "unit Queue" where
  "demo_submitted = snd (SubmitWithPolicyDetailsAndOptions 0 0 ''a'' (NewQueue 1000 5) ''p1'' demo_cmd
     [] ''high'' ''api'' [] None \<lparr>so_RequireSecondApprover = True\<rparr>)"

definition demo_first :: "unit Queue" where
  "demo_first = snd (Decide 1 1 demo_submitted ''a'' DecisionApproved ''alice'')"

definition demo_second :: "unit Queue" where
  "demo_second = snd (Decide 2 2 demo_first ''a'' DecisionApproved '' Bob '')"

definition demo_request :: "unit Request" where
  "demo_request = 
    (new_request 0 ''a'' 1000 ''p1'' demo_cmd [] ''high'' ''api'' [] None \<lparr>so_RequireSecondApprover = True\<rparr>)
    \<lparr>req_Approvals := [\<lparr>ar_Actor = ''alice'', ar_Timestamp = 1\<rparr>, \<lparr>ar_Actor = ''Bob'', ar_Timestamp = 2\<rparr>],
     req_Decision := DecisionApproved, req_DecidedBy := ''Bob'', req_DecidedAt := 2\<rparr>"

section \<open>Lemmas\<close>

interpretation decision: lifecycle decision_can "\<lambda>d. d \<noteq> DecisionPending" decision_rank
  by unfold_locales (auto simp: decision_can_def decision_rank_def)

lemma settled_as_refl [simp]: "settled_as r r"
  by (auto simp: settled_as_def intro: exI [of _ "req_WorkspaceID r"])

lemma settled_as_workspace [simp]: "settled_as r (r\<lparr>req_WorkspaceID := ws\<rparr>)"
  by (auto simp: settled_as_def)

lemma RequiredApprovalCount_upd [simp]:
  "RequiredApprovalCount (r\<lparr>req_Approvals := xs\<rparr>) = RequiredApprovalCount r"
  by (simp add: RequiredApprovalCount_def)

lemma settled_as_trans: "settled_as r s \<Longrightarrow> settled_as s t \<Longrightarrow> settled_as r t"
  by (auto simp: settled_as_def)

lemma settled_as_can: "settled_as r r' \<Longrightarrow> decision_can (req_Decision r) (req_Decision r')"
  by (auto simp: settled_as_def decision_can_def)

lemma expire_request_settled [simp]: "settled_as r (expire_request now r)"
  by (cases "req_Decision r = DecisionPending")
     (simp_all add: expire_request_def settled_as_def exI [of _ "req_WorkspaceID r"])

lemma request_ok_expire: "request_ok k r \<Longrightarrow> request_ok k (expire_request now r)"
  by (cases "req_Decision r")
     (auto simp: request_ok_def expire_request_def approvers_def RequiredApprovalCount_def
       split: if_splits)

lemma request_ok_workspace:
  "request_ok k (r\<lparr>req_WorkspaceID := ws\<rparr>) = request_ok k r"
  by (cases "req_Decision r") (simp_all add: request_ok_def approvers_def RequiredApprovalCount_def)

lemma length_gmap_all [simp]: "length (gmap_all f m) = length m"
  by (simp add: gmap_all_def)

lemma length_gkeep: "length (gkeep P m) \<le> length m"
  by (simp add: gkeep_def)

lemma length_gput_old: "gget m k = Some v \<Longrightarrow> length (gput k w m) = length m"
  by (induction m) (auto simp: gget_def gput_def split: if_splits)

subsection \<open>Eviction\<close>

lemma evict_frame [simp]:
  "q_ttl (evictExpiredLocked now q) = q_ttl q"
  "q_maxSize (evictExpiredLocked now q) = q_maxSize q"
  by (simp_all add: evictExpiredLocked_def)

lemma evict_gmap_ok: "gmap_ok (q_requests q) \<Longrightarrow> gmap_ok (q_requests (evictExpiredLocked now q))"
  by (simp add: evictExpiredLocked_def gm.ok_intros)

lemma evict_get:
  "gmap_ok (q_requests q) \<Longrightarrow>
   gget (q_requests (evictExpiredLocked now q)) k = Some r' \<longleftrightarrow>
   (\<exists>r. gget (q_requests q) k = Some r \<and> r' = expire_request now r \<and> \<not> purgeable now r')"
  by (auto simp: evictExpiredLocked_def gmap_simps bind_eq_Some_conv split: if_splits)

lemma expire_request_pending:
  "req_Decision (expire_request now r) = DecisionPending \<longleftrightarrow>
   req_Decision r = DecisionPending \<and> now \<le> req_ExpiresAt r"
  by (auto simp: expire_request_def not_less)

lemma expire_request_live:
  "now \<le> req_ExpiresAt r \<Longrightarrow> expire_request now r = r"
  by (simp add: expire_request_def)

lemma evict_pending:
  assumes "gmap_ok (q_requests q)"
  shows "gget (q_requests (evictExpiredLocked now q)) k = Some r \<and> req_Decision r = DecisionPending \<longleftrightarrow>
    gget (q_requests q) k = Some r \<and> req_Decision r = DecisionPending \<and> now \<le> req_ExpiresAt r"
    (is "?L \<longleftrightarrow> ?R")
proof
  assume L: ?L
  then obtain r0 where r0: "gget (q_requests q) k = Some r0" "r = expire_request now r0"
    using evict_get [OF assms] by blast
  with L have "now \<le> req_ExpiresAt r0" by (simp add: expire_request_pending)
  with r0 L show ?R by (simp add: expire_request_live)
next
  assume R: ?R
  then have "expire_request now r = r" "\<not> purgeable now r"
    by (simp_all add: expire_request_live purgeable_def)
  with R show ?L using evict_get [OF assms, of now k r] by auto
qed

lemma evict_length: "length (q_requests (evictExpiredLocked now q)) \<le> length (q_requests q)"
  unfolding evictExpiredLocked_def
  by (simp add: order_trans [OF length_gkeep])

lemma evict_queue_ok: "queue_ok (q, U) \<Longrightarrow> queue_ok (evictExpiredLocked now q, U)"
  using evict_length [of now q]
  by (auto simp: queue_ok_def evict_gmap_ok evict_get request_ok_expire)

subsection \<open>Submission\<close>

lemma new_request_ok:
  "request_ok uuid (new_request now uuid ttl p c re ri rq pd pr opts)"
  by (simp add: new_request_def request_ok_def approvers_def RequiredApprovalCount_def)

lemma submit_queue_ok:
  assumes "queue_ok (q, U)" "uuid \<notin> U"
  shows "queue_ok (snd (SubmitWithPolicyDetailsAndOptions te now uuid q p c re ri rq pd pr opts),
    insert uuid U)"
proof -
  have ok: "queue_ok (evictExpiredLocked te q, U)" using assms(1) by (rule evict_queue_ok)
  then have none: "gget (q_requests (evictExpiredLocked te q)) uuid = None"
    using assms(2) by (cases "gget (q_requests (evictExpiredLocked te q)) uuid") (auto simp: queue_ok_def)
  from ok show ?thesis
    by (auto simp: SubmitWithPolicyDetailsAndOptions_def Let_def queue_ok_def gmap_simps
        length_gput_new [OF none] new_request_ok)
qed

lemma submit_keeps:
  assumes "gmap_ok (q_requests q)" "uuid \<noteq> k"
    and "gget (q_requests (snd (SubmitWithPolicyDetailsAndOptions te now uuid q p c re ri rq pd pr opts))) k = Some r'"
  shows "\<exists>r. gget (q_requests q) k = Some r \<and> settled_as r r'"
  using assms
  by (auto simp: SubmitWithPolicyDetailsAndOptions_def Let_def gmap_simps evict_get
      split: if_splits)

subsection \<open>Tagging\<close>

lemma tag_queue_ok: "queue_ok (q, U) \<Longrightarrow> queue_ok (tag_workspace ws rid q, U)"
  by (auto simp: tag_workspace_def queue_ok_def gmap_simps request_ok_workspace length_gput_old
      split: option.splits)

lemma tag_keeps:
  "gget (q_requests (tag_workspace ws rid q)) k = Some r' \<Longrightarrow>
   \<exists>r. gget (q_requests q) k = Some r \<and> settled_as r r'"
  by (cases "gget (q_requests q) rid")
     (auto simp: tag_workspace_def gmap_simps split: if_splits)

subsection \<open>Decisions\<close>

text \<open>What \<open>Decide\<close> does on each branch.\<close>

lemma Decide_missing:
  "trim_space decidedBy = [] \<Longrightarrow> Decide tc now q rid d decidedBy = (Err DecidedByRequired, q)"
  "trim_space decidedBy \<noteq> [] \<Longrightarrow> gget (q_requests q) rid = None \<Longrightarrow>
   Decide tc now q rid d decidedBy = (Err (RequestNotFound rid), q)"
  by (simp_all add: Decide_def)

lemma Decide_found:
  assumes "trim_space decidedBy \<noteq> []" "gget (q_requests q) rid = Some r"
  shows "req_Decision r \<noteq> DecisionPending \<Longrightarrow>
      Decide tc now q rid d decidedBy = (Err (AlreadyDecided rid (req_Decision r)), q)"
    and "req_Decision r = DecisionPending \<Longrightarrow> tc > req_ExpiresAt r \<Longrightarrow>
      Decide tc now q rid d decidedBy =
        (Err (RequestExpired rid (req_ExpiresAt r)),
         q\<lparr>q_requests := gput rid (r\<lparr>req_Decision := DecisionExpired\<rparr>) (q_requests q)\<rparr>)"
    and "req_Decision r = DecisionPending \<Longrightarrow> tc \<le> req_ExpiresAt r \<Longrightarrow>
      d \<noteq> DecisionApproved \<Longrightarrow> d \<noteq> DecisionDenied \<Longrightarrow>
      Decide tc now q rid d decidedBy = (Err (InvalidDecision d), q)"
  using assms by (simp_all add: Decide_def)

lemma Decide_denied:
  assumes "trim_space decidedBy \<noteq> []" "gget (q_requests q) rid = Some r"
    and "req_Decision r = DecisionPending" "tc \<le> req_ExpiresAt r"
  shows "Decide tc now q rid DecisionDenied decidedBy =
    (Ok (deny_request now (trim_space decidedBy) r),
     q\<lparr>q_requests := gput rid (deny_request now (trim_space decidedBy) r) (q_requests q)\<rparr>)"
  using assms by (simp add: Decide_def deny_request_def Let_def)

lemma Decide_approved:
  assumes "trim_space decidedBy \<noteq> []" "gget (q_requests q) rid = Some r"
    and "req_Decision r = DecisionPending" "tc \<le> req_ExpiresAt r"
  shows "Decide tc now q rid DecisionApproved decidedBy =
    (if list_ex (\<lambda>a. equal_fold (trim_space (ar_Actor a)) (trim_space decidedBy)) (req_Approvals r)
     then (Err (AlreadyApprovedBy (trim_space decidedBy) rid), q)
     else (Ok (approve_request now (trim_space decidedBy) r),
       q\<lparr>q_requests := gput rid (approve_request now (trim_space decidedBy) r) (q_requests q)\<rparr>))"
  using assms by (simp add: Decide_def approve_request_def Let_def)

text \<open>A decision leaves the queue as it is, or replaces one pending request.\<close>

lemma Decide_cases:
  obtains
    (unchanged) e where "Decide tc now q rid d decidedBy = (Err e, q)"
  | (expired) r where "gget (q_requests q) rid = Some r" "req_Decision r = DecisionPending"
      "tc > req_ExpiresAt r"
      "Decide tc now q rid d decidedBy =
        (Err (RequestExpired rid (req_ExpiresAt r)),
         q\<lparr>q_requests := gput rid (r\<lparr>req_Decision := DecisionExpired\<rparr>) (q_requests q)\<rparr>)"
  | (denied) r where "gget (q_requests q) rid = Some r" "req_Decision r = DecisionPending"
      "trim_space decidedBy \<noteq> []" "tc \<le> req_ExpiresAt r" "d = DecisionDenied"
      "Decide tc now q rid d decidedBy = (Ok (deny_request now (trim_space decidedBy) r),
        q\<lparr>q_requests := gput rid (deny_request now (trim_space decidedBy) r) (q_requests q)\<rparr>)"
  | (approved) r where "gget (q_requests q) rid = Some r" "req_Decision r = DecisionPending"
      "trim_space decidedBy \<noteq> []" "tc \<le> req_ExpiresAt r" "d = DecisionApproved"
      "\<not> list_ex (\<lambda>a. equal_fold (trim_space (ar_Actor a)) (trim_space decidedBy)) (req_Approvals r)"
      "Decide tc now q rid d decidedBy = (Ok (approve_request now (trim_space decidedBy) r),
        q\<lparr>q_requests := gput rid (approve_request now (trim_space decidedBy) r) (q_requests q)\<rparr>)"
proof (cases "trim_space decidedBy = []")
  case True
  then show thesis using unchanged Decide_missing(1) by blast
next
  case who: False
  show thesis
  proof (cases "gget (q_requests q) rid")
    case None
    then show thesis using unchanged Decide_missing(2) [OF who] by blast
  next
    case (Some r)
    note found = Decide_found [OF who Some]
    consider "req_Decision r \<noteq> DecisionPending"
      | "req_Decision r = DecisionPending" "tc > req_ExpiresAt r"
      | "req_Decision r = DecisionPending" "tc \<le> req_ExpiresAt r" by fastforce
    then show thesis
    proof cases
      case 1
      then show thesis using unchanged found(1) by blast
    next
      case 2
      then show thesis using expired [OF Some] found(2) by blast
    next
      case 3
      consider "d = DecisionDenied" | "d = DecisionApproved"
        | "d \<noteq> DecisionApproved" "d \<noteq> DecisionDenied" by blast
      then show thesis
      proof cases
        case d: 1
        then show thesis using denied [OF Some 3(1) who 3(2)] Decide_denied [OF who Some 3] by blast
      next
        case d: 2
        then show thesis
          using approved [OF Some 3(1) who 3(2)] unchanged
            Decide_approved [OF who Some 3, of now] by (auto split: if_splits)
      next
        case d: 3
        then show thesis using unchanged found(3) [OF 3] by blast
      qed
    qed
  qed
qed

lemma request_ok_expired:
  "request_ok k r \<Longrightarrow> req_Decision r = DecisionPending \<Longrightarrow>
   request_ok k (r\<lparr>req_Decision := DecisionExpired\<rparr>)"
  by (auto simp: request_ok_def approvers_def RequiredApprovalCount_def split: if_splits)

lemma request_ok_deny:
  "request_ok k r \<Longrightarrow> req_Decision r = DecisionPending \<Longrightarrow> who \<noteq> [] \<Longrightarrow>
   request_ok k (deny_request now who r)"
  by (auto simp: request_ok_def approvers_def RequiredApprovalCount_def deny_request_def
      split: if_splits)

lemma RequiredApprovalCount_ok:
  "request_ok k r \<Longrightarrow> RequiredApprovalCount r = (if req_RequireSecondApprover r then 2 else 1)"
  by (simp add: request_ok_def RequiredApprovalCount_def)

lemma request_ok_approve:
  assumes ok: "request_ok k r" and pending: "req_Decision r = DecisionPending"
    and who: "who \<noteq> []" "trim_space who = who"
    and new: "\<not> list_ex (\<lambda>a. equal_fold (trim_space (ar_Actor a)) who) (req_Approvals r)"
  shows "request_ok k (approve_request now who r)"
proof -
  have actors: "\<forall>a \<in> set (req_Approvals r). trim_space (ar_Actor a) = ar_Actor a"
    using ok by (auto simp: request_ok_def list_all_iff)
  have fresh: "to_lower who \<notin> set (approvers r)"
    using new actors by (auto simp: approvers_def list_ex_iff equal_fold_def)
  have count: "int (length (req_Approvals r)) < RequiredApprovalCount r"
    using ok pending by (simp add: request_ok_def)
  show ?thesis
    using ok pending who fresh count
    by (auto simp: approve_request_def Let_def request_ok_def approvers_def RequiredApprovalCount_def
        less_2_cases_iff split: if_splits)
qed

lemma queue_ok_put:
  "queue_ok (q, U) \<Longrightarrow> gget (q_requests q) k = Some r \<Longrightarrow> request_ok k r' \<Longrightarrow>
   queue_ok (q\<lparr>q_requests := gput k r' (q_requests q)\<rparr>, U)"
  by (auto simp: queue_ok_def gmap_simps length_gput_old)

lemma queue_ok_request: "queue_ok (q, U) \<Longrightarrow> gget (q_requests q) k = Some r \<Longrightarrow> request_ok k r"
  by (simp add: queue_ok_def)

lemma decide_queue_ok:
  assumes ok: "queue_ok (q, U)"
  shows "queue_ok (snd (Decide tc now q rid d decidedBy), U)"
proof (cases rule: Decide_cases [of tc now q rid d decidedBy])
  case unchanged
  then show ?thesis using ok by simp
next
  case (expired r)
  then show ?thesis using ok by (simp add: queue_ok_put request_ok_expired queue_ok_request [OF ok])
next
  case (denied r)
  then show ?thesis using ok by (simp add: queue_ok_put request_ok_deny queue_ok_request [OF ok])
next
  case (approved r)
  then show ?thesis using ok by (simp add: queue_ok_put request_ok_approve queue_ok_request [OF ok])
qed

lemma decide_keeps:
  "gget (q_requests (snd (Decide tc now q rid d decidedBy))) k = Some r' \<Longrightarrow>
   \<exists>r. gget (q_requests q) k = Some r \<and> settled_as r r'"
  by (cases rule: Decide_cases [of tc now q rid d decidedBy])
     (auto simp: gmap_simps settled_as_def split: if_splits intro: exI [of _ "req_WorkspaceID r'"])

section \<open>Every step\<close>

lemma queue_step_ok: "queue_step s t \<Longrightarrow> queue_ok s \<Longrightarrow> queue_ok t"
  by (induction rule: queue_step.induct)
     (auto intro: submit_queue_ok tag_queue_ok decide_queue_ok evict_queue_ok)

lemma queue_run_ok: "queue_step\<^sup>*\<^sup>* s t \<Longrightarrow> queue_ok s \<Longrightarrow> queue_ok t"
  by (induction rule: rtranclp_induct) (auto intro: queue_step_ok)

lemma NewQueue_ok: "queue_ok (NewQueue ttl n, {})"
  by (simp add: queue_ok_def NewQueue_def)

section \<open>The sort\<close>

lemma sift_left_inserts:
  "sift_left (length ys) (rev ys @ x # zs) = rev (insert_newest x ys) @ zs"
proof (induction ys arbitrary: zs)
  case Nil
  then show ?case by simp
next
  case (Cons y ys)
  have swap: "(rev ys @ y # x # zs)[Suc (length ys) := y, length ys := x] = rev ys @ x # y # zs"
    by (simp add: list_update_append)
  have at: "(rev ys @ y # x # zs) ! Suc (length ys) = x" "(rev ys @ y # x # zs) ! length ys = y"
    by (simp_all add: nth_append)
  show ?case
    using Cons.IH [of "y # zs"] by (simp add: swap at)
qed

lemma mset_insert_newest [simp]: "mset (insert_newest x ys) = add_mset x (mset ys)"
  by (induction ys) auto

lemma set_insert_newest [simp]: "set (insert_newest x ys) = insert x (set ys)"
  by (induction ys) auto

lemma length_insert_newest [simp]: "length (insert_newest x ys) = Suc (length ys)"
  by (induction ys) auto

lemma sorted_insert_newest:
  "sorted (map req_CreatedAt ys) \<Longrightarrow> sorted (map req_CreatedAt (insert_newest x ys))"
  by (induction ys) auto

lemma filter_insert_newest:
  "filter (\<lambda>r. req_CreatedAt r = t) (insert_newest x ys) =
   (if req_CreatedAt x = t
    then x # filter (\<lambda>r. req_CreatedAt r = t) ys else filter (\<lambda>r. req_CreatedAt r = t) ys)
   \<or> \<not> sorted (map req_CreatedAt ys)"
  by (induction ys) (auto simp: filter_empty_conv)

text \<open>The outer loop, seen from the reversed prefix that is already sorted.\<close>

lemma sort_prefix:
  "fold sift_left [length ys..<length ys + length zs] (rev ys @ zs) = rev (fold insert_newest zs ys)"
proof (induction zs arbitrary: ys)
  case Nil
  then show ?case by simp
next
  case (Cons z zs)
  have "[length ys..<length ys + length (z # zs)] = length ys # [Suc (length ys)..<Suc (length ys) + length zs]"
    by (simp add: upt_rec)
  then show ?case
    using Cons.IH [of "insert_newest z ys"] by (simp add: sift_left_inserts)
qed

lemma sortRequestsByTime_fold: "sortRequestsByTime reqs = rev (fold insert_newest reqs [])"
proof (cases reqs)
  case Nil
  then show ?thesis by (simp add: sortRequestsByTime_def)
next
  case (Cons x xs)
  then show ?thesis using sort_prefix [of "[x]" xs] by (simp add: sortRequestsByTime_def)
qed

lemma fold_insert_newest:
  assumes "sorted (map req_CreatedAt ys)"
  shows "sorted (map req_CreatedAt (fold insert_newest reqs ys))"
    and "mset (fold insert_newest reqs ys) = mset reqs + mset ys"
    and "filter (\<lambda>r. req_CreatedAt r = t) (fold insert_newest reqs ys) =
         rev (filter (\<lambda>r. req_CreatedAt r = t) reqs) @ filter (\<lambda>r. req_CreatedAt r = t) ys"
  using assms
proof (induction reqs arbitrary: ys)
  case (Cons x reqs)
  case 1
  show ?case using Cons.IH(1) [OF sorted_insert_newest [OF 1]] by simp
  case 2
  show ?case using Cons.IH(2) [OF sorted_insert_newest [OF 2]] by simp
  case 3
  show ?case using Cons.IH(3) [OF sorted_insert_newest [OF 3]] filter_insert_newest [of t x ys] 3 by simp
qed simp_all

lemma sortRequestsByTime_sorts:
  "sort_key (\<lambda>r. - req_CreatedAt r) reqs = sortRequestsByTime reqs"
proof (rule properties_for_sort_key)
  note f = fold_insert_newest [where ys = "[]" and reqs = reqs, simplified]
  show "mset (sortRequestsByTime reqs) = mset reqs"
    by (simp add: sortRequestsByTime_fold f)
  show "filter (\<lambda>x. - req_CreatedAt k = - req_CreatedAt x) (sortRequestsByTime reqs) =
      filter (\<lambda>x. - req_CreatedAt k = - req_CreatedAt x) reqs" for k
    using f(3) [of "req_CreatedAt k"]
    by (simp add: sortRequestsByTime_fold eq_commute [of "req_CreatedAt k"] flip: rev_filter)
  have "sorted (map uminus (rev (map req_CreatedAt (fold insert_newest reqs []))))"
    using f(1) by (simp add: sorted_map sorted_wrt_rev del: rev_map)
  then show "sorted (map (\<lambda>r. - req_CreatedAt r) (sortRequestsByTime reqs))"
    by (simp add: sortRequestsByTime_fold rev_map comp_def)
qed
section \<open>Runs\<close>

lemma demo_run:
  "queue_step\<^sup>*\<^sup>* (NewQueue 1000 5, {}) (demo_second, {''a''})"
  "queue_step\<^sup>*\<^sup>* (demo_second, {''a''}) (evictExpiredLocked 3 demo_second, {''a''})"
proof -
  have "queue_step (NewQueue 1000 5 :: unit Queue, {}) (demo_submitted, insert ''a'' {})"
    unfolding demo_submitted_def by (rule queue_step.submit) simp
  moreover have "queue_step (demo_submitted, {''a''}) (demo_first, {''a''})"
    unfolding demo_first_def by (rule queue_step.decide)
  moreover have "queue_step (demo_first, {''a''}) (demo_second, {''a''})"
    unfolding demo_second_def by (rule queue_step.decide)
  ultimately show "queue_step\<^sup>*\<^sup>* (NewQueue 1000 5, {}) (demo_second, {''a''})"
    by (meson rtranclp.rtrancl_into_rtrancl rtranclp.rtrancl_refl)
  show "queue_step\<^sup>*\<^sup>* (demo_second, {''a''}) (evictExpiredLocked 3 demo_second, {''a''})"
    by (rule r_into_rtranclp) (rule queue_step.evict)
qed

lemma demo_get: "Get demo_second ''a'' = Some demo_request"
   "Get (evictExpiredLocked 3 demo_second) ''a'' = Some demo_request"
  by code_simp+

lemma queue_run_inv: "queue_step\<^sup>*\<^sup>* (NewQueue ttl n, {}) s \<Longrightarrow> queue_ok s"
  using queue_run_ok NewQueue_ok by blast

lemma distinct_approvers:
  "request_ok k r \<Longrightarrow> card ((\<lambda>a. to_lower (ar_Actor a)) ` set (req_Approvals r)) = length (req_Approvals r)"
  using distinct_card [of "approvers r"] by (simp add: request_ok_def approvers_def)

lemma queue_step_keeps:
  "queue_step (q, U) (q', U') \<Longrightarrow> queue_ok (q, U) \<Longrightarrow> k \<in> U \<Longrightarrow>
   gget (q_requests q') k = Some r' \<Longrightarrow> \<exists>r. gget (q_requests q) k = Some r \<and> settled_as r r'"
  by (erule queue_stepE)
     (auto simp: queue_ok_def evict_get dest: tag_keeps decide_keeps submit_keeps [rotated 2])

lemma queue_step_ids: "queue_step (q, U) (q', U') \<Longrightarrow> U \<subseteq> U'"
  by (erule queue_stepE) auto

lemma queue_run_keeps:
  assumes "queue_step\<^sup>*\<^sup>* s t" "queue_ok s" "k \<in> snd s"
  shows "k \<in> snd t \<and>
    (\<forall>r'. gget (q_requests (fst t)) k = Some r' \<longrightarrow>
       (\<exists>r. gget (q_requests (fst s)) k = Some r \<and> settled_as r r'))"
  using assms
proof (induction rule: rtranclp_induct)
  case base
  then show ?case by auto
next
  case (step t u)
  obtain q U q' U' where tu: "t = (q, U)" "u = (q', U')" by (cases t, cases u)
  have ok: "queue_ok (q, U)" using queue_run_ok step.hyps(1) step.prems(1) tu by blast
  have st: "queue_step (q, U) (q', U')" using step.hyps(2) tu by simp
  have k: "k \<in> U" and IH: "\<And>r'. gget (q_requests q) k = Some r' \<Longrightarrow>
      \<exists>r. gget (q_requests (fst s)) k = Some r \<and> settled_as r r'"
    using step.IH [OF step.prems] tu by auto
  show ?case
    using queue_step_ids [OF st] k queue_step_keeps [OF st ok k] IH
    by (auto simp: tu) (meson settled_as_trans)
qed

section \<open>Properties\<close>

text \<open>
  Property C1. In every state a queue reaches from its creation, a request is approved only with
  its full quorum: as many approvers, distinct up to letter case and none of them empty, as the
  request requires, two where a second approver is required; and it is decided by the last of them.
\<close>

theorem approval_needs_quorum:
  assumes "queue_step\<^sup>*\<^sup>* (NewQueue ttl n, {}) (q, U)"
    and "Get q rid = Some r" and "req_Decision r = DecisionApproved"
  shows "int (card ((\<lambda>a. to_lower (ar_Actor a)) ` set (req_Approvals r))) = RequiredApprovalCount r \<and>
    RequiredApprovalCount r = (if req_RequireSecondApprover r then 2 else 1) \<and>
    list_all (\<lambda>a. ar_Actor a \<noteq> []) (req_Approvals r) \<and>
    req_DecidedBy r = ar_Actor (last (req_Approvals r))"
proof -
  have ok: "request_ok rid r"
    using queue_run_inv [OF assms(1)] assms(2) by (auto simp: queue_ok_def Get_def)
  have "int (length (req_Approvals r)) = RequiredApprovalCount r"
      "req_DecidedBy r = ar_Actor (last (req_Approvals r))"
      "list_all (\<lambda>a. ar_Actor a \<noteq> []) (req_Approvals r)"
    using ok assms(3) by (auto simp: request_ok_def list_all_iff)
  then show ?thesis
    by (simp add: distinct_approvers [OF ok] RequiredApprovalCount_ok [OF ok])
qed

theorem approval_needs_quorum_witness:
  "Get demo_second ''a'' = Some demo_request \<and> req_Decision demo_request = DecisionApproved \<and>
   card ((\<lambda>a. to_lower (ar_Actor a)) ` set (req_Approvals demo_request)) = 2"
proof -
  have d: "req_Decision demo_request = DecisionApproved" by code_simp
  have s: "req_RequireSecondApprover demo_request" by code_simp
  show ?thesis
    using approval_needs_quorum [OF demo_run(1) demo_get(1) d] d s demo_get(1) by simp
qed

text \<open>
  A decision is final: from any state a queue reaches, whatever operations follow, a
  request that is approved, denied or expired either is purged or keeps its decision, its
  approvals, its decider and every other field; only the workspace tag can still be set.
\<close>

lemma decided_is_final:
  assumes "queue_step\<^sup>*\<^sup>* (NewQueue ttl n, {}) (q, U)" and "queue_step\<^sup>*\<^sup>* (q, U) (q', U')"
    and "Get q rid = Some r" and "req_Decision r \<noteq> DecisionPending"
    and "Get q' rid = Some r'"
  shows "\<exists>ws. r' = r\<lparr>req_WorkspaceID := ws\<rparr>"
proof -
  have ok: "queue_ok (q, U)" by (rule queue_run_inv) (rule assms(1))
  then have "rid \<in> U" using assms(3) by (auto simp: queue_ok_def Get_def)
  then have "settled_as r r'"
    using queue_run_keeps [OF assms(2) ok, of rid] assms(3,5) by (auto simp: Get_def)
  then show ?thesis using assms(4) by (simp add: settled_as_def)
qed

lemma decided_is_final_witness:
  "req_Decision demo_request \<noteq> DecisionPending \<and>
   (\<exists>ws. demo_request = demo_request\<lparr>req_WorkspaceID := ws\<rparr>)"
proof -
  have d: "req_Decision demo_request \<noteq> DecisionPending" by code_simp
  show ?thesis
    using decided_is_final [OF demo_run(1) demo_run(2) demo_get(1) d demo_get(2)] d by blast
qed

text \<open>
  A queue never holds more requests than its maximum size, and a submission to a
  queue that is still full after the eviction returns the error and adds nothing.
\<close>

lemma queue_never_exceeds_max:
  assumes "queue_step\<^sup>*\<^sup>* (NewQueue ttl n, {}) (q, U)"
  shows "int (length (q_requests q)) \<le> max 0 (q_maxSize q) \<and>
    (q_maxSize q \<le> int (length (q_requests (evictExpiredLocked te q))) \<longrightarrow>
       SubmitWithPolicyDetailsAndOptions te now uuid q p c re ri rq pd pr opts =
         (Err (QueueFull (length (q_requests (evictExpiredLocked te q))) (q_maxSize q)),
          evictExpiredLocked te q))"
  using queue_run_inv [OF assms]
  by (simp add: queue_ok_def SubmitWithPolicyDetailsAndOptions_def Let_def)

lemma queue_never_exceeds_max_witness:
  "length (q_requests demo_second) = 1 \<and>
   int (length (q_requests demo_second)) \<le> max 0 (q_maxSize demo_second)"
proof -
  have "length (q_requests demo_second) = 1" by code_simp
  then show ?thesis using queue_never_exceeds_max [OF demo_run(1)] by blast
qed


text \<open>
  \<open>Pending\<close> lists the requests that are pending and not past their expiry, each
  once and newest first (the hand-written sort is the stable sort by descending creation time),
  whatever order Go visits the map in; its length is what \<open>PendingCount\<close> returns.
\<close>

lemma pending_lists_live_newest_first:
  assumes ok: "gmap_ok (q_requests q)"
    and ks: "range_order ks (q_requests (evictExpiredLocked now q))"
  shows "set (fst (Pending now ks q)) =
      {r. \<exists>k. Get q k = Some r \<and> req_Decision r = DecisionPending \<and> now \<le> req_ExpiresAt r} \<and>
    fst (Pending now ks q) = sort_key (\<lambda>r. - req_CreatedAt r)
      (filter (\<lambda>r. req_Decision r = DecisionPending)
         (grange ks (q_requests (evictExpiredLocked now q)))) \<and>
    length (fst (Pending now ks q)) = fst (PendingCount now q)"
proof -
  let ?m = "q_requests (evictExpiredLocked now q)"
  let ?P = "\<lambda>r. req_Decision r = DecisionPending"
  have shape: "fst (Pending now ks q) = sort_key (\<lambda>r. - req_CreatedAt r) (filter ?P (grange ks ?m))"
    by (simp add: Pending_def Let_def sortRequestsByTime_sorts)
  have "set (fst (Pending now ks q)) = {r. ?P r \<and> (\<exists>k. gget ?m k = Some r)}"
    using in_grange_order [OF ks] by (auto simp: shape)
  also have "\<dots> = {r. \<exists>k. Get q k = Some r \<and> ?P r \<and> now \<le> req_ExpiresAt r}"
    using evict_pending [OF ok] by (auto simp: Get_def)
  finally have members: "set (fst (Pending now ks q)) = \<dots>" .
  have "length (filter ?P (grange ks ?m)) = length (filter ?P (map snd ?m))"
    using mset_grange [OF evict_gmap_ok [OF ok] ks]
    by (metis mset_filter size_mset)
  also have "\<dots> = fst (PendingCount now q)"
    by (simp add: PendingCount_def Let_def filter_map comp_def case_prod_unfold)
  finally show ?thesis using members shape by simp
qed

lemma pending_lists_live_newest_first_witness:
  "map req_ID (fst (Pending 3 [''a''] demo_first)) = [''a''] \<and>
   length (fst (Pending 3 [''a''] demo_first)) = fst (PendingCount 3 demo_first)"
proof -
  have ok: "gmap_ok (q_requests demo_first)"
    and ks: "range_order [''a''] (q_requests (evictExpiredLocked 3 demo_first))"
    by code_simp+
  have "map req_ID (fst (Pending 3 [''a''] demo_first)) = [''a'']" by code_simp
  then show ?thesis using pending_lists_live_newest_first [OF ok ks] by blast
qed

text \<open>
  Property C36. The polling wait ends: as soon as one poll falls after the deadline, or no longer
  finds the request, or finds it decided, \<open>WaitForDecision\<close> has returned, and it returns a
  request without an error only if that request is decided.
\<close>

theorem wait_returns:
  assumes "\<exists>(q, now) \<in> set polls. now > deadline \<or> Get q rid = None \<or>
      (\<exists>r. Get q rid = Some r \<and> req_Decision r \<in> {DecisionApproved, DecisionDenied, DecisionExpired})"
  shows "\<exists>res. WaitForDecision rid deadline polls = Some res \<and>
    (snd res = None \<longrightarrow> (\<exists>q now r. (q, now) \<in> set polls \<and> Get q rid = Some r \<and> fst res = Some r \<and>
       req_Decision r \<in> {DecisionApproved, DecisionDenied, DecisionExpired}))"
  using assms
proof (induction polls)
  case Nil
  then show ?case by simp
next
  case (Cons p polls)
  obtain q now where p: "p = (q, now)" by (cases p)
  consider "Get q rid = None"
    | r where "Get q rid = Some r" "req_Decision r \<in> {DecisionApproved, DecisionDenied, DecisionExpired}"
    | r where "Get q rid = Some r" "req_Decision r \<notin> {DecisionApproved, DecisionDenied, DecisionExpired}"
    by (cases "Get q rid") auto
  then show ?case
  proof cases
    case 1
    then show ?thesis by (simp add: p)
  next
    case (2 r)
    then show ?thesis by (auto simp: p)
  next
    case (3 r)
    show ?thesis
    proof (cases "now > deadline")
      case True
      then show ?thesis using 3 by (simp add: p)
    next
      case False
      have step: "WaitForDecision rid deadline (p # polls) = WaitForDecision rid deadline polls"
        using 3 False by (simp add: p)
      have "\<exists>(q, now) \<in> set polls. now > deadline \<or> Get q rid = None \<or>
        (\<exists>r. Get q rid = Some r \<and> req_Decision r \<in> {DecisionApproved, DecisionDenied, DecisionExpired})"
        using Cons.prems 3 False by (simp add: p)
      from Cons.IH [OF this] show ?thesis unfolding step by (meson list.set_intros(2))
    qed
  qed
qed

theorem wait_returns_witness:
  "\<exists>res. WaitForDecision ''a'' 100 [(demo_first, 1), (demo_second, 2 :: int)] = Some res \<and>
     (snd res = None \<longrightarrow> (\<exists>q now r. (q, now) \<in> set [(demo_first, 1), (demo_second, 2 :: int)] \<and>
        Get q ''a'' = Some r \<and> fst res = Some r \<and>
        req_Decision r \<in> {DecisionApproved, DecisionDenied, DecisionExpired}))"
proof -
  have "req_Decision demo_request \<in> {DecisionApproved, DecisionDenied, DecisionExpired}" by code_simp
  then have "\<exists>(q, now) \<in> set [(demo_first, 1), (demo_second, 2 :: int)]. now > 100 \<or> Get q ''a'' = None \<or>
      (\<exists>r. Get q ''a'' = Some r \<and> req_Decision r \<in> {DecisionApproved, DecisionDenied, DecisionExpired})"
    using demo_get(1) by auto
  then show ?thesis by (rule wait_returns)
qed

end
