(* ===== verification/Command_Classifier.thy ===== *)
theory Command_Classifier
  imports Protocol
begin

text \<open>
  The text classifiers of commands. \<^verbatim>\<open>ClassifyRisk\<close> and \<^verbatim>\<open>NeedsApproval\<close> are
  the approval queue's (\<^verbatim>\<open>internal/controlplane/approval/queue.go\<close>);
  \<^verbatim>\<open>ClassifyCommandWithMetadata\<close> is the probe's
  (\<^verbatim>\<open>internal/probe/executor/classifier.go\<close>), and \<^verbatim>\<open>Execute\<close> is the probe's executor
  with its policy (\<^verbatim>\<open>executor.go\<close>, \<^verbatim>\<open>stream.go\<close>, \<^verbatim>\<open>adapter.go\<close>). The
  process that the executor starts is a parameter: it maps the program and its arguments to the
  output, the error output, how it ended (the time limit included) and the run time in
  milliseconds.
\<close>

section \<open>Risk\<close>

definition criticalPrefixes :: "string list" where
  "criticalPrefixes =
     [''mkfs'', ''fdisk'', ''parted'', ''shutdown'', ''reboot'', ''init 0'', ''init 6'',
      ''poweroff'', ''iptables'', ''nft flush'', ''userdel'']"

definition highPrefixes :: "string list" where
  "highPrefixes =
     [''systemctl restart'', ''systemctl stop'', ''systemctl start'', ''service '',
      ''apt install'', ''apt remove'', ''apt upgrade'', ''apt-get install'', ''apt-get remove'',
      ''apt-get upgrade'', ''yum install'', ''yum remove'', ''dnf install'', ''dnf remove'',
      ''pip install'', ''npm install'', ''npm uninstall'',
      ''chmod'', ''chown'', ''mv '', ''cp '', ''tee '', ''sed -i'', ''truncate'']"

definition mediumPrefixes :: "string list" where
  "mediumPrefixes =
     [''journalctl'', ''dmesg'', ''ss '', ''netstat'', ''lsof'', ''du '', ''find '',
      ''grep '', ''awk '', ''ps '', ''top'', ''systemctl status'', ''ip '', ''route'']"

definition lowPrefixes :: "string list" where
  "lowPrefixes =
     [''ls'', ''cat'', ''head'', ''tail'', ''pwd'', ''whoami'', ''id'', ''uname'', ''hostname'',
      ''uptime'', ''df'', ''free'', ''echo '', ''echo'']"

definition any_prefix :: "string list \<Rightarrow> string \<Rightarrow> bool" where
  "any_prefix ps line \<longleftrightarrow> list_ex (has_prefix line) ps"

definition risk_line :: "CommandPayload \<Rightarrow> string" where
  "risk_line cmd = trim_space (to_lower (join_str (cmd_Command cmd # cmd_Args cmd) '' ''))"

definition ClassifyRisk :: "CommandPayload \<Rightarrow> string" where
  "ClassifyRisk cmd =
     (let line = risk_line cmd
      in if line = [] then ''medium''
         else if line = ''rm'' \<or> has_prefix line ''rm -'' \<or> line = ''dd'' \<or> has_prefix line ''dd if=''
         then ''critical''
         else if any_prefix criticalPrefixes line then ''critical''
         else if any_prefix highPrefixes line then ''high''
         else if any_prefix mediumPrefixes line then ''medium''
         else if any_prefix lowPrefixes line then ''low''
         else case cmd_Level cmd of
           CapObserve \<Rightarrow> ''low'' | CapDiagnose \<Rightarrow> ''medium'' | _ \<Rightarrow> ''high'')"

definition NeedsApproval :: "CommandPayload \<Rightarrow> CapabilityLevel \<Rightarrow> bool" where
  "NeedsApproval cmd probeLevel \<longleftrightarrow> ClassifyRisk cmd = ''high'' \<or> ClassifyRisk cmd = ''critical''"

section \<open>The probe's classifier\<close>

definition observeCommands :: "string list" where
  "observeCommands =
     [''cat'', ''ls'', ''head'', ''tail'', ''df'', ''du'', ''free'', ''uptime'', ''uname'',
      ''hostname'', ''whoami'', ''id'', ''ps'', ''top'', ''netstat'', ''ss'',
      ''lsof'', ''file'', ''stat'', ''wc'', ''grep'', ''find'',
      ''journalctl'', ''which'', ''type'', ''echo'', ''date'', ''env'', ''printenv'',
      ''lsb_release'', ''arch'', ''nproc'', ''getent'', ''groups'', ''last'', ''w'', ''sleep'',
      ''true'', ''false'']"

definition observePrefixes :: "string list" where
  "observePrefixes =
     [''ip addr'', ''ip route'', ''ip link'', ''ip neigh'',
      ''systemctl status'', ''systemctl is-active'', ''systemctl is-enabled'',
      ''systemctl list-units'', ''systemctl list-timers'',
      ''docker ps'', ''docker images'', ''docker inspect'',
      ''podman ps'', ''podman images'', ''podman inspect'']"

definition diagnoseCommands :: "string list" where
  "diagnoseCommands =
     [''strace'', ''ltrace'', ''tcpdump'', ''dig'', ''nslookup'', ''traceroute'',
      ''tracepath'', ''ping'', ''openssl'', ''nc'', ''ncat'', ''nmap'',
      ''iotop'', ''vmstat'', ''iostat'', ''sar'', ''dmesg'', ''lsblk'',
      ''blkid'', ''ss'', ''perf'', ''iftop'', ''nethogs'']"

definition diagnosePrefixes :: "string list" where
  "diagnosePrefixes = [''curl'', ''wget'', ''fdisk -l'', ''mount'', ''kubeflow submit'']"

definition remediatePrefixes :: "string list" where
  "remediatePrefixes =
     [''rm '', ''rm'' @ [CHR 0x09], ''mv '', ''mv'' @ [CHR 0x09], ''cp '', ''cp'' @ [CHR 0x09],
      ''chmod '', ''chown '', ''chgrp '',
      ''mkdir '', ''touch '', ''tee '',
      ''apt '', ''apt-get '', ''dpkg '', ''yum '', ''dnf '', ''rpm '',
      ''pip '', ''pip3 '', ''npm '', ''gem '',
      ''systemctl start'', ''systemctl stop'', ''systemctl restart'',
      ''systemctl enable'', ''systemctl disable'', ''systemctl mask'',
      ''service '',
      ''reboot'', ''shutdown'', ''poweroff'', ''halt'', ''init '',
      ''kill '', ''pkill '', ''killall '',
      ''iptables '', ''ip6tables '', ''ufw '', ''firewall-cmd '',
      ''sed -i'', ''dd '', ''mkfs'', ''mount '',
      ''useradd'', ''userdel'', ''usermod'', ''groupadd'', ''groupdel'',
      ''passwd '', ''chpasswd'',
      ''crontab '',
      ''kubeflow cancel'']"

record CommandClassification =
  cc_Level :: CapabilityLevel
  cc_Category :: string
  cc_SignatureKnown :: bool
  cc_ReasonCode :: string

text \<open>
  \<^verbatim>\<open>normalizedCommand\<close>: the whole line and its first word, both in lower case. The first
  word ends at the first space or tab, unless that is the first character.
\<close>

definition first_word :: "string \<Rightarrow> string" where
  "first_word s =
     (let w = takeWhile (\<lambda>c. c \<noteq> CHR '' '' \<and> c \<noteq> CHR 0x09) s
      in if w = [] then s else w)"

definition normalizedCommand :: "string \<Rightarrow> string list \<Rightarrow> string \<times> string" where
  "normalizedCommand command args =
     (let trimmed = trim_space command;
          full = (if args \<noteq> [] then trimmed @ '' '' @ join_str args '' '' else trimmed)
      in (to_lower (trim_space full), to_lower (trim_space (first_word trimmed))))"

definition ClassifyCommandWithMetadata :: "string \<Rightarrow> string list \<Rightarrow> CommandClassification" where
  "ClassifyCommandWithMetadata command args =
     (let (full, base) = normalizedCommand command args
      in if list_ex (\<lambda>p. has_prefix full p \<or> has_prefix base p) remediatePrefixes
         then \<lparr>cc_Level = CapRemediate, cc_Category = ''mutation'', cc_SignatureKnown = True,
               cc_ReasonCode = ''classifier.remediate_prefix''\<rparr>
         else if any_prefix observePrefixes full
         then \<lparr>cc_Level = CapObserve, cc_Category = ''observe'', cc_SignatureKnown = True,
               cc_ReasonCode = ''classifier.observe_prefix''\<rparr>
         else if base \<in> set observeCommands
         then (if base = ''find'' \<and> (contains_str full ''-exec'' \<or> contains_str full ''-delete'')
               then \<lparr>cc_Level = CapRemediate, cc_Category = ''mutation'', cc_SignatureKnown = True,
                     cc_ReasonCode = ''classifier.find_mutation_flags''\<rparr>
               else \<lparr>cc_Level = CapObserve, cc_Category = ''observe'', cc_SignatureKnown = True,
                     cc_ReasonCode = ''classifier.observe_command''\<rparr>)
         else if any_prefix diagnosePrefixes full
         then (if has_prefix base ''wget'' \<and> (contains_str full '' -o'' \<or> contains_str full '' -o '')
               then \<lparr>cc_Level = CapRemediate, cc_Category = ''mutation'', cc_SignatureKnown = True,
                     cc_ReasonCode = ''classifier.wget_output_file''\<rparr>
               else \<lparr>cc_Level = CapDiagnose, cc_Category = ''diagnose'', cc_SignatureKnown = True,
                     cc_ReasonCode = ''classifier.diagnose_prefix''\<rparr>)
         else if base \<in> set diagnoseCommands
         then \<lparr>cc_Level = CapDiagnose, cc_Category = ''diagnose'', cc_SignatureKnown = True,
               cc_ReasonCode = ''classifier.diagnose_command''\<rparr>
         else \<lparr>cc_Level = CapRemediate, cc_Category = ''mutation'', cc_SignatureKnown = False,
               cc_ReasonCode = ''classifier.unknown_mutation_signature''\<rparr>)"

definition ClassifyCommand :: "string \<Rightarrow> string list \<Rightarrow> CapabilityLevel" where
  "ClassifyCommand command args = cc_Level (ClassifyCommandWithMetadata command args)"

section \<open>The executor\<close>

definition maxOutputSize :: nat where "maxOutputSize = 1048576"

record Policy =
  po_Level :: CapabilityLevel
  po_Allowed :: "string list"
  po_Blocked :: "string list"
  po_Paths :: "string list"

text \<open>The map \<^verbatim>\<open>levels\<close>; a level it does not hold reads as 0.\<close>

definition level_rank :: "CapabilityLevel \<Rightarrow> nat" where
  "level_rank l =
     (case l of CapObserve \<Rightarrow> 1 | CapDiagnose \<Rightarrow> 2 | CapRemediate \<Rightarrow> 3 | CapOther _ \<Rightarrow> 0)"

definition effectiveLevel :: "CommandPayload \<Rightarrow> CapabilityLevel" where
  "effectiveLevel cmd =
     (let declared = cmd_Level cmd; classified = ClassifyCommand (cmd_Command cmd) (cmd_Args cmd)
      in if level_rank classified > level_rank declared then classified else declared)"

definition levelAllowed :: "Policy \<Rightarrow> CapabilityLevel \<Rightarrow> bool" where
  "levelAllowed pol required \<longleftrightarrow> level_rank (po_Level pol) \<ge> level_rank required"

definition isBlocked :: "Policy \<Rightarrow> string \<Rightarrow> bool" where
  "isBlocked pol cmd \<longleftrightarrow> list_ex (\<lambda>b. has_prefix (to_lower cmd) (to_lower b)) (po_Blocked pol)"

definition isAllowed :: "Policy \<Rightarrow> string \<Rightarrow> bool" where
  "isAllowed pol cmd \<longleftrightarrow> list_ex (\<lambda>a. has_prefix (to_lower cmd) (to_lower a)) (po_Allowed pol)"

definition truncate_to :: "string \<Rightarrow> nat \<Rightarrow> string" where
  "truncate_to s n = (if length s \<le> n then s else take n s)"

definition cap_text :: "CapabilityLevel \<Rightarrow> string" where
  "cap_text l =
     (case l of CapObserve \<Rightarrow> ''observe'' | CapDiagnose \<Rightarrow> ''diagnose''
      | CapRemediate \<Rightarrow> ''remediate'' | CapOther s \<Rightarrow> s)"

definition full_command :: "CommandPayload \<Rightarrow> string" where
  "full_command cmd =
     (if cmd_Args cmd \<noteq> [] then cmd_Command cmd @ '' '' @ join_str (cmd_Args cmd) '' ''
      else cmd_Command cmd)"

record execSpec =
  es_name :: string
  es_args :: "string list"

text \<open>\<^verbatim>\<open>buildExecSpec\<close>; \<open>windows\<close> is \<^verbatim>\<open>runtime.GOOS == "windows"\<close>.\<close>

definition buildExecSpec :: "bool \<Rightarrow> CommandPayload \<Rightarrow> string + execSpec" where
  "buildExecSpec windows cmd =
     (if trim_space (cmd_Command cmd) = [] then Err ''command is required''
      else if \<not> windows then Ok \<lparr>es_name = cmd_Command cmd, es_args = cmd_Args cmd\<rparr>
      else
        let command = trim_space (to_lower (cmd_Command cmd));
            line = trim_space (join_str (cmd_Args cmd) '' '');
            first = (case cmd_Args cmd of [] \<Rightarrow> [] | a # _ \<Rightarrow> to_lower (trim_space a))
        in if command \<in> {''powershell'', ''powershell.exe'', ''pwsh'', ''pwsh.exe''}
           then (if cmd_Args cmd \<noteq> [] \<and> has_prefix first ''-''
                 then Ok \<lparr>es_name = ''powershell.exe'', es_args = cmd_Args cmd\<rparr>
                 else if line = [] then Err ''powershell command requires script arguments''
                 else Ok \<lparr>es_name = ''powershell.exe'',
                   es_args = [''-NoProfile'', ''-NonInteractive'', ''-Command'', line]\<rparr>)
           else if command \<in> {''cmd'', ''cmd.exe''}
           then (if cmd_Args cmd \<noteq> [] \<and> (first = ''/c'' \<or> first = ''/k'')
                 then Ok \<lparr>es_name = ''cmd.exe'', es_args = cmd_Args cmd\<rparr>
                 else if line = [] then Err ''cmd command requires arguments''
                 else Ok \<lparr>es_name = ''cmd.exe'', es_args = [''/C'', line]\<rparr>)
           else Ok \<lparr>es_name = ''cmd.exe'', es_args = ''/C'' # cmd_Command cmd # cmd_Args cmd\<rparr>)"

text \<open>How a process ended: success, an exit code, or another error with its text.\<close>

datatype run_end = RunOk | RunExit int | RunError string

type_synonym process = "execSpec \<Rightarrow> string \<times> string \<times> run_end \<times> int"

definition empty_result :: "string \<Rightarrow> CommandResultPayload" where
  "empty_result req =
     \<lparr>res_RequestID = req, res_ExitCode = 0, res_Stdout = [], res_Stderr = [], res_Duration = 0,
      res_Truncated = False\<rparr>"

definition refusal :: "string \<Rightarrow> string \<Rightarrow> CommandResultPayload" where
  "refusal req msg = (empty_result req)\<lparr>res_ExitCode := -1, res_Stderr := msg\<rparr>"

text \<open>The three policy checks, with the message of the one that fails.\<close>

definition policy_check :: "Policy \<Rightarrow> CommandPayload \<Rightarrow> string option" where
  "policy_check pol cmd =
     (let required = effectiveLevel cmd; full = full_command cmd
      in if \<not> levelAllowed pol required
         then Some (''policy violation: command classified as '' @ cap_text required @
                '' but probe is at '' @ cap_text (po_Level pol) @ '' level'')
         else if isBlocked pol full then Some ''policy violation: command is blocked''
         else if po_Allowed pol \<noteq> [] \<and> \<not> isAllowed pol full
         then Some ''policy violation: command not in allowlist''
         else None)"

definition Execute :: "bool \<Rightarrow> process \<Rightarrow> Policy \<Rightarrow> CommandPayload \<Rightarrow> CommandResultPayload" where
  "Execute windows run pol cmd =
     (case policy_check pol cmd of
        Some msg \<Rightarrow> refusal (cmd_RequestID cmd) msg
      | None \<Rightarrow>
          (case buildExecSpec windows cmd of
             Err e \<Rightarrow> refusal (cmd_RequestID cmd) e
           | Ok spec \<Rightarrow>
               let (out, err, how, ms) = run spec;
                   result = \<lparr>res_RequestID = cmd_RequestID cmd, res_ExitCode = 0,
                     res_Stdout = truncate_to out maxOutputSize,
                     res_Stderr = truncate_to err maxOutputSize, res_Duration = ms,
                     res_Truncated = (length out > maxOutputSize \<or> length err > maxOutputSize)\<rparr>
               in case how of
                    RunOk \<Rightarrow> result
                  | RunExit code \<Rightarrow> result\<lparr>res_ExitCode := code\<rparr>
                  | RunError e \<Rightarrow> result\<lparr>res_ExitCode := -1, res_Stderr := e\<rparr>))"

text \<open>
  \<^verbatim>\<open>ExecuteStream\<close>: the chunks it hands to the callback, in the order of their sequence
  numbers. A started process is the lines its two streams print, in the order they are read, and how
  it ended.
\<close>

datatype stream_run =
    StdoutPipeFailed string
  | StderrPipeFailed string
  | StartFailed string
  | Started "(string \<times> string) list" run_end

definition final_chunk :: "string \<Rightarrow> string \<Rightarrow> OutputChunkPayload" where
  "final_chunk req msg =
     \<lparr>oc_RequestID = req, oc_Stream = ''stderr'', oc_Data = msg, oc_Seq = 0, oc_Final = True,
      oc_ExitCode = -1\<rparr>"

fun stream_chunks :: "string \<Rightarrow> nat \<Rightarrow> (string \<times> string) list \<Rightarrow> OutputChunkPayload list" where
  "stream_chunks req n [] = []"
| "stream_chunks req n ((stream, line) # rest) =
     \<lparr>oc_RequestID = req, oc_Stream = stream, oc_Data = line @ [CHR 0x0A], oc_Seq = Suc n,
      oc_Final = False, oc_ExitCode = 0\<rparr> # stream_chunks req (Suc n) rest"

definition ExecuteStream ::
  "bool \<Rightarrow> (execSpec \<Rightarrow> stream_run) \<Rightarrow> Policy \<Rightarrow> CommandPayload \<Rightarrow> OutputChunkPayload list" where
  "ExecuteStream windows run pol cmd =
     (let req = cmd_RequestID cmd
      in case policy_check pol cmd of
           Some msg \<Rightarrow> [final_chunk req msg]
         | None \<Rightarrow>
             (case buildExecSpec windows cmd of
                Err e \<Rightarrow> [final_chunk req e]
              | Ok spec \<Rightarrow>
                  (case run spec of
                     StdoutPipeFailed e \<Rightarrow> [final_chunk req (''failed to create stdout pipe: '' @ e)]
                   | StderrPipeFailed e \<Rightarrow> [final_chunk req (''failed to create stderr pipe: '' @ e)]
                   | StartFailed e \<Rightarrow> [final_chunk req (''failed to start command: '' @ e)]
                   | Started lines how \<Rightarrow>
                       stream_chunks req 0 lines @
                       [\<lparr>oc_RequestID = req, oc_Stream = ''stdout'', oc_Data = [],
                         oc_Seq = Suc (length lines), oc_Final = True,
                         oc_ExitCode =
                           (case how of RunOk \<Rightarrow> 0 | RunExit code \<Rightarrow> code | RunError _ \<Rightarrow> -1)\<rparr>])))"

definition demo_observe :: Policy where
  "demo_observe = \<lparr>po_Level = CapObserve, po_Allowed = [], po_Blocked = [''kill''], po_Paths = []\<rparr>"

definition demo_ls :: CommandPayload where
  "demo_ls = \<lparr>cmd_RequestID = ''r1'', cmd_Command = ''ls'', cmd_Args = [''-l''], cmd_Timeout = 0,
     cmd_Level = CapObserve, cmd_Stream = False\<rparr>"

section \<open>Lemmas\<close>

lemma has_prefix_Cons [simp]: "has_prefix (c # s) (d # t) \<longleftrightarrow> c = d \<and> has_prefix s t"
  by (auto simp: has_prefix_def)

lemma has_prefix_Nil [simp]: "has_prefix s []"
  by (simp add: has_prefix_def)

lemma first_word_word:
  "w \<noteq> [] \<Longrightarrow> list_all (\<lambda>c. c \<noteq> CHR '' '' \<and> c \<noteq> CHR 0x09) w \<Longrightarrow> first_word w = w"
  by (simp add: first_word_def Let_def takeWhile_eq_all_conv list_all_iff)

text \<open>A plain lower case word as the command is the first word of every normal form.\<close>

lemma lower_trim_word:
  assumes "word_chars w" "w \<noteq> []" "to_lower w = w"
  shows "\<exists>rest. to_lower (trim_space (w @ x)) = w @ rest" "\<exists>rest. trim_space (to_lower (w @ x)) = w @ rest"
  using trim_space_word [OF assms(1,2)] assms(3) by (simp_all add: to_lower_def)

lemma normalizedCommand_word:
  assumes w: "word_chars w" "w \<noteq> []" "to_lower w = w" "first_word w = w" "trim_space w = w"
  shows "\<exists>rest. normalizedCommand w args = (w @ rest, w)"
proof (cases "args = []")
  case True
  then show ?thesis using w by (simp add: normalizedCommand_def)
next
  case False
  then show ?thesis
    using lower_trim_word(1) [OF w(1-3), of "'' '' @ join_str args '' ''"] w(3-5)
    by (auto simp: normalizedCommand_def)
qed

lemma risk_line_word:
  assumes w: "word_chars w" "w \<noteq> []" "to_lower w = w" and cmd: "cmd_Command cmd = w"
  shows "\<exists>rest. risk_line cmd = w @ rest"
proof -
  obtain x where "join_str (w # cmd_Args cmd) '' '' = w @ x"
    by (cases "cmd_Args cmd") auto
  then show ?thesis using lower_trim_word(2) [OF w, of x] by (simp add: risk_line_def cmd)
qed

lemma plain_words:
  "word_chars ''env'' \<and> to_lower ''env'' = ''env'' \<and> first_word ''env'' = ''env'' \<and> trim_space ''env'' = ''env''"
  "word_chars ''bash'' \<and> to_lower ''bash'' = ''bash'' \<and> first_word ''bash'' = ''bash'' \<and> trim_space ''bash'' = ''bash''"
  by code_simp+

lemma env_is_observe: "ClassifyCommand ''env'' args = CapObserve"
proof -
  obtain rest where n: "normalizedCommand ''env'' args = (''env'' @ rest, ''env'')"
    using normalizedCommand_word [of "''env''"] plain_words(1) by auto
  show ?thesis
    by (simp add: ClassifyCommand_def ClassifyCommandWithMetadata_def n any_prefix_def
        remediatePrefixes_def observePrefixes_def observeCommands_def)
qed

lemma env_risk:
  assumes "cmd_Command cmd = ''env''" "cmd_Level cmd = CapObserve"
  shows "ClassifyRisk cmd = ''low''"
proof -
  obtain rest where "risk_line cmd = ''env'' @ rest"
    using risk_line_word [of "''env''"] plain_words(1) assms(1) by auto
  then show ?thesis
    using assms(2) by (simp add: ClassifyRisk_def any_prefix_def criticalPrefixes_def highPrefixes_def
        mediumPrefixes_def lowPrefixes_def)
qed

lemma bash_risk:
  assumes "cmd_Command cmd = ''bash''" "cmd_Level cmd = CapObserve"
  shows "ClassifyRisk cmd = ''low''"
proof -
  obtain rest where "risk_line cmd = ''bash'' @ rest"
    using risk_line_word [of "''bash''"] plain_words(2) assms(1) by auto
  then show ?thesis
    using assms(2) by (simp add: ClassifyRisk_def any_prefix_def criticalPrefixes_def highPrefixes_def
        mediumPrefixes_def lowPrefixes_def)
qed

lemma effectiveLevel_ge:
  "level_rank (cmd_Level cmd) \<le> level_rank (effectiveLevel cmd)"
  "level_rank (ClassifyCommand (cmd_Command cmd) (cmd_Args cmd)) \<le> level_rank (effectiveLevel cmd)"
  by (auto simp: effectiveLevel_def Let_def)

lemma policy_check_None:
  "policy_check pol cmd = None \<longleftrightarrow>
   level_rank (effectiveLevel cmd) \<le> level_rank (po_Level pol) \<and> \<not> isBlocked pol (full_command cmd) \<and>
   (po_Allowed pol = [] \<or> isAllowed pol (full_command cmd))"
  by (auto simp: policy_check_def levelAllowed_def Let_def)

lemma Execute_refused: "policy_check pol cmd = Some msg \<Longrightarrow> Execute windows run pol cmd = refusal (cmd_RequestID cmd) msg"
  by (simp add: Execute_def)

lemma length_truncate_to: "length (truncate_to s n) \<le> n"
  by (simp add: truncate_to_def)

lemma stream_chunks_seq:
  "map oc_Seq (stream_chunks req n ls) = [Suc n..<Suc n + length ls]"
proof (induction req n ls rule: stream_chunks.induct)
  case (2 req n stream line rest)
  then show ?case by (simp add: upt_conv_Cons del: upt_Suc)
qed simp

lemma stream_chunks_not_final: "c \<in> set (stream_chunks req n ls) \<Longrightarrow> \<not> oc_Final c"
  by (induction req n ls rule: stream_chunks.induct) auto

lemma length_stream_chunks: "length (stream_chunks req n ls) = length ls"
  by (induction req n ls rule: stream_chunks.induct) auto

lemma stream_cases:
  obtains (refused) msg where "ExecuteStream windows srun pol cmd = [final_chunk (cmd_RequestID cmd) msg]"
  | (ran) ls code where "ExecuteStream windows srun pol cmd = stream_chunks (cmd_RequestID cmd) 0 ls @
      [\<lparr>oc_RequestID = cmd_RequestID cmd, oc_Stream = ''stdout'', oc_Data = [], oc_Seq = Suc (length ls),
        oc_Final = True, oc_ExitCode = code\<rparr>]"
proof (cases "policy_check pol cmd")
  case ok: None
  show thesis
  proof (cases "buildExecSpec windows cmd")
    case (Inr spec)
    then show thesis using refused ran ok by (cases "srun spec") (auto simp: ExecuteStream_def Let_def)
  qed (use refused ok in \<open>auto simp: ExecuteStream_def\<close>)
qed (use refused in \<open>auto simp: ExecuteStream_def\<close>)

lemma demo_ls_runs:
  "policy_check demo_observe demo_ls = None"
  "buildExecSpec False demo_ls = Ok \<lparr>es_name = ''ls'', es_args = [''-l'']\<rparr>"
  by code_simp+

section \<open>Properties\<close>

text \<open>
  Property C7. The executor starts nothing outside its policy: where the result depends at all on the
  process that would run, the probe's level is at least the declared level and at least the level of
  the classified command, the command line has no blocked prefix, and it has an allowed prefix where
  an allow list is set. In particular a low declared level does not help a dangerous command.
\<close>

theorem executor_runs_only_within_policy:
  assumes "Execute windows run pol cmd \<noteq> Execute windows run' pol cmd"
  shows "level_rank (cmd_Level cmd) \<le> level_rank (po_Level pol) \<and>
    level_rank (ClassifyCommand (cmd_Command cmd) (cmd_Args cmd)) \<le> level_rank (po_Level pol) \<and>
    \<not> isBlocked pol (full_command cmd) \<and> (po_Allowed pol = [] \<or> isAllowed pol (full_command cmd))"
proof -
  have "policy_check pol cmd = None"
    using assms Execute_refused [of pol cmd] by (cases "policy_check pol cmd") auto
  then show ?thesis
    using effectiveLevel_ge [of cmd] by (auto simp: policy_check_None)
qed

theorem executor_runs_only_within_policy_witness:
  "Execute False (\<lambda>_. (''a'', [], RunOk, 1)) demo_observe demo_ls \<noteq>
     Execute False (\<lambda>_. (''b'', [], RunOk, 1)) demo_observe demo_ls \<and>
   level_rank (ClassifyCommand ''ls'' [''-l'']) \<le> level_rank CapObserve"
proof -
  have ne: "Execute False (\<lambda>_. (''a'', [], RunOk, 1)) demo_observe demo_ls \<noteq>
     Execute False (\<lambda>_. (''b'', [], RunOk, 1)) demo_observe demo_ls"
    by (simp add: Execute_def demo_ls_runs truncate_to_def maxOutputSize_def)
  from executor_runs_only_within_policy [OF ne] ne show ?thesis
    by (simp add: demo_observe_def demo_ls_def)
qed

text \<open>
  The output that the executor reports is bounded: neither stream is longer than the
  limit, unless the standard error is the text of an error of the executor itself, and the
  truncation flag is set exactly when something was cut off.
\<close>

lemma executor_output_bounded:
  "let res = Execute windows run pol cmd in
   length (res_Stdout res) \<le> maxOutputSize \<and>
   (res_ExitCode res \<noteq> -1 \<longrightarrow> length (res_Stderr res) \<le> maxOutputSize) \<and>
   (policy_check pol cmd = None \<longrightarrow> (\<forall>spec. buildExecSpec windows cmd = Ok spec \<longrightarrow>
     (res_Truncated res \<longleftrightarrow>
       length (fst (run spec)) > maxOutputSize \<or> length (fst (snd (run spec))) > maxOutputSize)))"
proof (cases "policy_check pol cmd")
  case (Some msg)
  then show ?thesis by (simp add: Execute_refused refusal_def empty_result_def)
next
  case ok: None
  show ?thesis
  proof (cases "buildExecSpec windows cmd")
    case (Inl e)
    then show ?thesis using ok by (simp add: Execute_def refusal_def empty_result_def)
  next
    case (Inr spec)
    obtain out err how ms where "run spec = (out, err, how, ms)" by (metis prod.exhaust)
    then show ?thesis
      using ok Inr by (cases how) (simp_all add: Execute_def length_truncate_to)
  qed
qed

text \<open>
  Streaming is the same policy: \<^verbatim>\<open>ExecuteStream\<close> refuses exactly the commands that
  \<^verbatim>\<open>Execute\<close> refuses, with the same message; and whatever happens it delivers exactly one final
  chunk, the last, with the sequence numbers 1, 2, 3, \<dots> where the process was started.
\<close>

lemma stream_same_policy_one_final:
  "(\<forall>msg. policy_check pol cmd = Some msg \<longrightarrow>
      Execute windows run pol cmd = refusal (cmd_RequestID cmd) msg \<and>
      ExecuteStream windows srun pol cmd = [final_chunk (cmd_RequestID cmd) msg]) \<and>
   (let cs = ExecuteStream windows srun pol cmd in
      cs \<noteq> [] \<and> oc_Final (last cs) \<and> list_all (\<lambda>c. \<not> oc_Final c) (butlast cs) \<and>
      (length cs > 1 \<longrightarrow> map oc_Seq cs = [1..<Suc (length cs)]))"
proof
  show "\<forall>msg. policy_check pol cmd = Some msg \<longrightarrow>
      Execute windows run pol cmd = refusal (cmd_RequestID cmd) msg \<and>
      ExecuteStream windows srun pol cmd = [final_chunk (cmd_RequestID cmd) msg]"
    by (simp add: Execute_refused ExecuteStream_def)
  let ?cs = "ExecuteStream windows srun pol cmd"
  show "let cs = ?cs in cs \<noteq> [] \<and> oc_Final (last cs) \<and> list_all (\<lambda>c. \<not> oc_Final c) (butlast cs) \<and>
      (length cs > 1 \<longrightarrow> map oc_Seq cs = [1..<Suc (length cs)])"
    by (cases rule: stream_cases [of windows srun pol cmd])
      (auto simp: list_all_iff final_chunk_def length_stream_chunks stream_chunks_seq
        dest: stream_chunks_not_final simp del: upt_Suc simp add: upt_Suc_append)
qed

lemma stream_same_policy_one_final_witness:
  "policy_check demo_observe (demo_ls\<lparr>cmd_Command := ''reboot''\<rparr>) \<noteq> None \<and>
   ExecuteStream False (\<lambda>_. Started [] RunOk) demo_observe (demo_ls\<lparr>cmd_Command := ''reboot''\<rparr>) =
     [final_chunk ''r1'' (the (policy_check demo_observe (demo_ls\<lparr>cmd_Command := ''reboot''\<rparr>)))]"
proof -
  have "policy_check demo_observe (demo_ls\<lparr>cmd_Command := ''reboot''\<rparr>) \<noteq> None" by code_simp
  then obtain msg where m: "policy_check demo_observe (demo_ls\<lparr>cmd_Command := ''reboot''\<rparr>) = Some msg" by blast
  with stream_same_policy_one_final [of demo_observe "demo_ls\<lparr>cmd_Command := ''reboot''\<rparr>" False _ "\<lambda>_. Started [] RunOk"]
  show ?thesis by (simp add: demo_ls_def)
qed

end
