(* ===== verification/Policy_Templates.thy ===== *)
theory Policy_Templates
  imports Protocol
begin

text \<open>
  The policy templates of \<^verbatim>\<open>internal/controlplane/policy\<close>: the options of policy v2 and
  their validation (\<^verbatim>\<open>validation.go\<close>), the in-memory store (\<^verbatim>\<open>templates.go\<close>),
  its SQLite persistence (\<^verbatim>\<open>store.go\<close>) and the predicates of sandbox enforcement
  (\<^verbatim>\<open>sandbox_enforcement.go\<close>). A slice whose being nil matters is an option. A row of the
  table is the template that its columns encode; the columns for the run time class, the CPU and
  memory limits and the capabilities do not exist.
\<close>

section \<open>Templates and options\<close>

record Template =
  tp_ID :: string
  tp_Name :: string
  tp_Description :: string
  tp_Level :: CapabilityLevel
  tp_Allowed :: "string list"
  tp_Blocked :: "string list"
  tp_Paths :: "string list"
  tp_ExecutionClassRequired :: ExecutionClass
  tp_SandboxRequired :: bool
  tp_ApprovalMode :: ApprovalMode
  tp_RequireSecondApprover :: bool
  tp_Breakglass :: BreakglassPolicy
  tp_MaxRuntimeSec :: int
  tp_AllowedScopes :: "string list"
  tp_RuntimeClass :: string
  tp_CPUMillis :: int
  tp_MemoryMiB :: int
  tp_AllowedCapabilities :: "string list"
  tp_CreatedAt :: time
  tp_UpdatedAt :: time

record TemplateOptions =
  op_ExecutionClassRequired :: ExecutionClass
  op_SandboxRequired :: bool
  op_ApprovalMode :: ApprovalMode
  op_RequireSecondApprover :: bool
  op_RequireSecondApproverSet :: bool
  op_Breakglass :: BreakglassPolicy
  op_MaxRuntimeSec :: int
  op_AllowedScopes :: "string list option"
  op_RuntimeClass :: string
  op_CPUMillis :: int
  op_MemoryMiB :: int
  op_AllowedCapabilities :: "string list option"

definition zero_options :: TemplateOptions where
  "zero_options = \<lparr>op_ExecutionClassRequired = ExecOther [], op_SandboxRequired = False,
     op_ApprovalMode = ApprovalOther [], op_RequireSecondApprover = False,
     op_RequireSecondApproverSet = False, op_Breakglass = no_breakglass, op_MaxRuntimeSec = 0,
     op_AllowedScopes = None, op_RuntimeClass = [], op_CPUMillis = 0, op_MemoryMiB = 0,
     op_AllowedCapabilities = None\<rparr>"

text \<open>A copy by \<^verbatim>\<open>append([]string(nil), xs...)\<close>: an empty slice becomes nil.\<close>

definition copy_slice :: "string list option \<Rightarrow> string list option" where
  "copy_slice xs = (case xs of Some (y # ys) \<Rightarrow> Some (y # ys) | _ \<Rightarrow> None)"

definition slice_list :: "string list option \<Rightarrow> string list" where
  "slice_list xs = (case xs of Some ys \<Rightarrow> ys | None \<Rightarrow> [])"

section \<open>Defaults, merging and validation\<close>

definition AllowedBreakglassReasons :: "string list" where
  "AllowedBreakglassReasons =
     [''data_recovery'', ''incident_response'', ''security_emergency'', ''service_outage'']"

definition DefaultTemplateOptionsForLevel :: "CapabilityLevel \<Rightarrow> TemplateOptions" where
  "DefaultTemplateOptionsForLevel level =
     (case level of
        CapDiagnose \<Rightarrow> zero_options\<lparr>op_ExecutionClassRequired := ExecDiagnoseSandbox,
          op_SandboxRequired := True, op_ApprovalMode := ApprovalMutationGate\<rparr>
      | CapRemediate \<Rightarrow> zero_options\<lparr>op_ExecutionClassRequired := ExecRemediateSandbox,
          op_SandboxRequired := True, op_ApprovalMode := ApprovalMutationGate\<rparr>
      | _ \<Rightarrow> zero_options\<lparr>op_ExecutionClassRequired := ExecObserveDirect,
          op_SandboxRequired := False, op_ApprovalMode := ApprovalNone\<rparr>)"

definition MergeTemplateOptions :: "TemplateOptions \<Rightarrow> TemplateOptions \<Rightarrow> TemplateOptions" where
  "MergeTemplateOptions base override =
     base\<lparr>op_ExecutionClassRequired :=
            (if op_ExecutionClassRequired override \<noteq> ExecOther [] then op_ExecutionClassRequired override
             else op_ExecutionClassRequired base),
          op_ApprovalMode :=
            (if op_ApprovalMode override \<noteq> ApprovalOther [] then op_ApprovalMode override
             else op_ApprovalMode base),
          op_SandboxRequired := (if op_SandboxRequired override then True else op_SandboxRequired base),
          op_RequireSecondApprover :=
            (if op_RequireSecondApproverSet override \<or> op_RequireSecondApprover override
             then op_RequireSecondApprover override else op_RequireSecondApprover base),
          op_Breakglass :=
            (if bg_Enabled (op_Breakglass override) \<or> bg_RequireTypedConfirmation (op_Breakglass override)
                \<or> bg_AllowedReasons (op_Breakglass override) \<noteq> []
             then op_Breakglass override else op_Breakglass base),
          op_MaxRuntimeSec :=
            (if op_MaxRuntimeSec override \<noteq> 0 then op_MaxRuntimeSec override else op_MaxRuntimeSec base),
          op_AllowedScopes :=
            (if op_AllowedScopes override \<noteq> None then copy_slice (op_AllowedScopes override)
             else op_AllowedScopes base)\<rparr>"

text \<open>The loop of \<^verbatim>\<open>normalizeStringSlice\<close>: \<open>seen\<close> holds the values kept so far.\<close>

fun normalize_loop :: "string list \<Rightarrow> string list \<Rightarrow> string list" where
  "normalize_loop seen [] = []"
| "normalize_loop seen (v # vs) =
     (let n = trim_space (to_lower v)
      in if n = [] \<or> n \<in> set seen then normalize_loop seen vs
         else n # normalize_loop (n # seen) vs)"

definition normalizeStringSlice :: "string list \<Rightarrow> string list" where
  "normalizeStringSlice values = normalize_loop [] values"

definition NormalizeTemplateOptions :: "TemplateOptions \<Rightarrow> TemplateOptions" where
  "NormalizeTemplateOptions opts =
     opts\<lparr>op_ExecutionClassRequired := trim_exec (op_ExecutionClassRequired opts),
          op_ApprovalMode := trim_mode (op_ApprovalMode opts),
          op_Breakglass := (op_Breakglass opts)\<lparr>bg_AllowedReasons :=
            normalizeStringSlice (bg_AllowedReasons (op_Breakglass opts))\<rparr>,
          op_AllowedScopes :=
            copy_slice (Some (normalizeStringSlice (slice_list (op_AllowedScopes opts)))),
          op_MaxRuntimeSec := (if op_MaxRuntimeSec opts < 0 then 0 else op_MaxRuntimeSec opts)\<rparr>"

definition ValidateExecutionClass :: "ExecutionClass \<Rightarrow> bool" where
  "ValidateExecutionClass c \<longleftrightarrow> (case c of ExecOther t \<Rightarrow> t = [] | _ \<Rightarrow> True)"

definition ValidateApprovalMode :: "ApprovalMode \<Rightarrow> bool" where
  "ValidateApprovalMode m \<longleftrightarrow> (case m of ApprovalOther t \<Rightarrow> t = [] | _ \<Rightarrow> True)"

text \<open>The validators that return an error say which; no error is \<open>None\<close>.\<close>

datatype policy_error =
    ReasonsRequired
  | ReasonEmpty
  | InvalidReason string
  | ScopeEmpty
  | InvalidScope string
  | TemplateNotFound string

fun check_reasons :: "string list \<Rightarrow> policy_error option" where
  "check_reasons [] = None"
| "check_reasons (r # rs) =
     (let reason = trim_space r
      in if reason = [] then Some ReasonEmpty
         else if reason \<notin> set AllowedBreakglassReasons then Some (InvalidReason reason)
         else check_reasons rs)"

definition ValidateBreakglass :: "BreakglassPolicy \<Rightarrow> policy_error option" where
  "ValidateBreakglass bg =
     (if \<not> bg_Enabled bg then None
      else if bg_AllowedReasons bg = [] then Some ReasonsRequired
      else check_reasons (bg_AllowedReasons bg))"

definition scope_first_char :: "char \<Rightarrow> bool" where
  "scope_first_char c \<longleftrightarrow>
     97 \<le> (of_char c :: nat) \<and> (of_char c :: nat) \<le> 122 \<or> 48 \<le> (of_char c :: nat) \<and> (of_char c :: nat) \<le> 57"

text \<open>The pattern \<^verbatim>\<open>^[a-z0-9][a-z0-9:_./\-*]{0,127}$\<close>.\<close>

definition allowedScopePattern :: "string \<Rightarrow> bool" where
  "allowedScopePattern s \<longleftrightarrow>
     s \<noteq> [] \<and> length s \<le> 128 \<and> scope_first_char (hd s) \<and>
     list_all (\<lambda>c. scope_first_char c \<or> c \<in> set '':_./-*'') (tl s)"

fun ValidateAllowedScopes :: "string list \<Rightarrow> policy_error option" where
  "ValidateAllowedScopes [] = None"
| "ValidateAllowedScopes (s # ss) =
     (let scope = trim_space s
      in if scope = [] then Some ScopeEmpty
         else if \<not> allowedScopePattern scope then Some (InvalidScope scope)
         else ValidateAllowedScopes ss)"

section \<open>The store\<close>

record Store =
  ts_templates :: "Template gmap"
  ts_nextID :: nat

definition applyOptions :: "TemplateOptions \<Rightarrow> Template \<Rightarrow> Template" where
  "applyOptions opts0 tpl =
     (let opts = NormalizeTemplateOptions
                   (MergeTemplateOptions (DefaultTemplateOptionsForLevel (tp_Level tpl)) opts0)
      in tpl\<lparr>tp_ExecutionClassRequired := op_ExecutionClassRequired opts,
             tp_SandboxRequired := op_SandboxRequired opts,
             tp_ApprovalMode := op_ApprovalMode opts,
             tp_RequireSecondApprover := op_RequireSecondApprover opts,
             tp_Breakglass := op_Breakglass opts,
             tp_MaxRuntimeSec := op_MaxRuntimeSec opts,
             tp_AllowedScopes := slice_list (op_AllowedScopes opts),
             tp_RuntimeClass :=
               (if op_RuntimeClass opts \<noteq> [] then op_RuntimeClass opts else tp_RuntimeClass tpl),
             tp_CPUMillis := (if op_CPUMillis opts \<noteq> 0 then op_CPUMillis opts else tp_CPUMillis tpl),
             tp_MemoryMiB := (if op_MemoryMiB opts \<noteq> 0 then op_MemoryMiB opts else tp_MemoryMiB tpl),
             tp_AllowedCapabilities :=
               (case op_AllowedCapabilities opts of
                  Some cs \<Rightarrow> cs | None \<Rightarrow> tp_AllowedCapabilities tpl)\<rparr>)"

definition new_template ::
  "string \<Rightarrow> string \<Rightarrow> string \<Rightarrow> CapabilityLevel \<Rightarrow> string list \<Rightarrow> string list \<Rightarrow> string list \<Rightarrow> time \<Rightarrow> Template" where
  "new_template tid name desc level allowed blocked paths now =
     \<lparr>tp_ID = tid, tp_Name = name, tp_Description = desc, tp_Level = level, tp_Allowed = allowed,
      tp_Blocked = blocked, tp_Paths = paths, tp_ExecutionClassRequired = ExecOther [],
      tp_SandboxRequired = False, tp_ApprovalMode = ApprovalOther [],
      tp_RequireSecondApprover = False, tp_Breakglass = no_breakglass, tp_MaxRuntimeSec = 0,
      tp_AllowedScopes = [], tp_RuntimeClass = [], tp_CPUMillis = 0, tp_MemoryMiB = 0,
      tp_AllowedCapabilities = [], tp_CreatedAt = now, tp_UpdatedAt = now\<rparr>"

definition builtin_templates :: "time \<Rightarrow> Template list" where
  "builtin_templates now =
     [applyOptions (zero_options\<lparr>op_ExecutionClassRequired := ExecObserveDirect,
          op_ApprovalMode := ApprovalNone\<rparr>)
        (new_template ''observe-only'' ''Observe Only'' ''Read-only access. Cannot modify system state.''
          CapObserve [] [''rm'', ''kill'', ''reboot'', ''shutdown'', ''mkfs'', ''dd'', ''systemctl stop'',
            ''systemctl restart''] [] now),
      applyOptions (zero_options\<lparr>op_ExecutionClassRequired := ExecDiagnoseSandbox,
          op_SandboxRequired := True, op_ApprovalMode := ApprovalMutationGate\<rparr>)
        (new_template ''diagnose'' ''Diagnose''
          ''Read access plus diagnostic tools (strace, tcpdump, etc).'' CapDiagnose []
          [''rm -rf'', ''mkfs'', ''dd if='', ''reboot'', ''shutdown'', ''systemctl stop'',
           ''systemctl restart''] [] now),
      applyOptions (zero_options\<lparr>op_ExecutionClassRequired := ExecRemediateSandbox,
          op_SandboxRequired := True, op_ApprovalMode := ApprovalMutationGate\<rparr>)
        (new_template ''full-remediate'' ''Full Remediate''
          ''Full access including service restarts and package management. Use with approval queue.''
          CapRemediate [] [''rm -rf /'', ''mkfs'', ''dd if=/dev/zero of=/dev/sd''] [] now),
      applyOptions (zero_options\<lparr>op_ExecutionClassRequired := ExecWasmSandbox,
          op_SandboxRequired := True, op_ApprovalMode := ApprovalMutationGate,
          op_MaxRuntimeSec := 300, op_AllowedScopes := Some [''wasm:exec'', ''wasm:read'']\<rparr>)
        ((new_template ''wasm-fast-lane'' ''WASM Fast Lane''
          ''Lightweight WASM sandbox with wasmtime runtime class. Minimal capabilities, strict resource limits, no host-direct mutations.''
          CapDiagnose [] [''rm -rf'', ''mkfs'', ''dd'', ''reboot'', ''shutdown'', ''mount'', ''chroot''] [] now)
          \<lparr>tp_RuntimeClass := ''wasmtime'', tp_CPUMillis := 500, tp_MemoryMiB := 256\<rparr>)]"

definition NewStore :: "time \<Rightarrow> Store" where
  "NewStore now =
     \<lparr>ts_templates = fold (\<lambda>t m. gput (tp_ID t) t m) (builtin_templates now) [], ts_nextID = 100\<rparr>"

definition tpl_Get :: "string \<Rightarrow> Store \<Rightarrow> Template option" where
  "tpl_Get tid s = gget (ts_templates s) tid"

definition tpl_List :: "string list \<Rightarrow> Store \<Rightarrow> Template list" where
  "tpl_List ks s = grange ks (ts_templates s)"

definition policy_id :: "nat \<Rightarrow> string" where
  "policy_id n = ''pol-'' @ nat_text n"

definition tpl_Create ::
  "time \<Rightarrow> string \<Rightarrow> string \<Rightarrow> CapabilityLevel \<Rightarrow> string list \<Rightarrow> string list \<Rightarrow> string list \<Rightarrow> TemplateOptions \<Rightarrow>
   Store \<Rightarrow> Template \<times> Store" where
  "tpl_Create now name desc level allowed blocked paths opts s =
     (let n = Suc (ts_nextID s);
          t = applyOptions opts (new_template (policy_id n) name desc level allowed blocked paths now)
      in (t, \<lparr>ts_templates = gput (policy_id n) t (ts_templates s), ts_nextID = n\<rparr>))"

definition tpl_Update ::
  "time \<Rightarrow> string \<Rightarrow> string \<Rightarrow> string \<Rightarrow> CapabilityLevel \<Rightarrow> string list \<Rightarrow> string list \<Rightarrow> string list \<Rightarrow>
   TemplateOptions \<Rightarrow> Store \<Rightarrow> (policy_error + Template) \<times> Store" where
  "tpl_Update now tid name desc level allowed blocked paths opts s =
     (case gget (ts_templates s) tid of
        None \<Rightarrow> (Err (TemplateNotFound tid), s)
      | Some t0 \<Rightarrow>
          let t = (applyOptions opts (t0\<lparr>tp_Name := name, tp_Description := desc, tp_Level := level,
                     tp_Allowed := allowed, tp_Blocked := blocked, tp_Paths := paths\<rparr>))
                    \<lparr>tp_UpdatedAt := now\<rparr>
          in (Ok t, s\<lparr>ts_templates := gput tid t (ts_templates s)\<rparr>))"

definition tpl_Delete :: "string \<Rightarrow> Store \<Rightarrow> (policy_error + unit) \<times> Store" where
  "tpl_Delete tid s =
     (case gget (ts_templates s) tid of
        None \<Rightarrow> (Err (TemplateNotFound tid), s)
      | Some _ \<Rightarrow> (Ok (), s\<lparr>ts_templates := gdel tid (ts_templates s)\<rparr>))"

definition ToPolicy :: "Template \<Rightarrow> PolicyUpdatePayload" where
  "ToPolicy t =
     \<lparr>pu_PolicyID = tp_ID t, pu_Level = tp_Level t, pu_Allowed = tp_Allowed t,
      pu_Blocked = tp_Blocked t, pu_Paths = tp_Paths t,
      pu_ExecutionClassRequired = tp_ExecutionClassRequired t,
      pu_SandboxRequired = tp_SandboxRequired t, pu_ApprovalMode = tp_ApprovalMode t,
      pu_RequireSecondApprover = tp_RequireSecondApprover t, pu_Breakglass = tp_Breakglass t,
      pu_MaxRuntimeSec = tp_MaxRuntimeSec t, pu_AllowedScopes = tp_AllowedScopes t\<rparr>"

section \<open>Persistence\<close>

record PersistentStore =
  ps_store :: Store
  ps_rows :: "Template list"

text \<open>
  The row of a template: the columns that exist, with the times cut to the second by
  \<^verbatim>\<open>RFC3339\<close>.
\<close>

definition template_row :: "Template \<Rightarrow> Template" where
  "template_row t =
     t\<lparr>tp_RuntimeClass := [], tp_CPUMillis := 0, tp_MemoryMiB := 0, tp_AllowedCapabilities := [],
       tp_CreatedAt := tp_CreatedAt t - tp_CreatedAt t mod Second,
       tp_UpdatedAt := tp_UpdatedAt t - tp_UpdatedAt t mod Second\<rparr>"

definition tpl_persist :: "Template \<Rightarrow> Template list \<Rightarrow> Template list" where
  "tpl_persist t rows =
     (if list_ex (\<lambda>r. tp_ID r = tp_ID t) rows
      then tbl_update (\<lambda>r. tp_ID r = tp_ID t)
             (\<lambda>r. (template_row t)\<lparr>tp_CreatedAt := tp_CreatedAt r\<rparr>) rows
      else rows @ [template_row t])"

definition loaded_template :: "Template \<Rightarrow> Template" where
  "loaded_template r =
     (let defaults = DefaultTemplateOptionsForLevel (tp_Level r);
          cls = trim_exec (tp_ExecutionClassRequired r);
          mode = trim_mode (tp_ApprovalMode r);
          opts = NormalizeTemplateOptions (zero_options
            \<lparr>op_ExecutionClassRequired :=
               (if cls = ExecOther [] then op_ExecutionClassRequired defaults else cls),
             op_SandboxRequired :=
               (if cls = ExecOther [] \<and> mode = ApprovalOther [] \<and> \<not> tp_SandboxRequired r
                then op_SandboxRequired defaults else tp_SandboxRequired r),
             op_ApprovalMode := (if mode = ApprovalOther [] then op_ApprovalMode defaults else mode),
             op_RequireSecondApprover := tp_RequireSecondApprover r,
             op_MaxRuntimeSec := tp_MaxRuntimeSec r,
             op_Breakglass := tp_Breakglass r,
             op_AllowedScopes := Some (tp_AllowedScopes r)\<rparr>)
      in (new_template (tp_ID r) (tp_Name r) (tp_Description r) (tp_Level r) (tp_Allowed r)
            (tp_Blocked r) (tp_Paths r) (tp_CreatedAt r))
          \<lparr>tp_ExecutionClassRequired := op_ExecutionClassRequired opts,
           tp_SandboxRequired := op_SandboxRequired opts,
           tp_ApprovalMode := op_ApprovalMode opts,
           tp_RequireSecondApprover := op_RequireSecondApprover opts,
           tp_Breakglass := op_Breakglass opts,
           tp_MaxRuntimeSec := op_MaxRuntimeSec opts,
           tp_AllowedScopes := slice_list (op_AllowedScopes opts),
           tp_UpdatedAt := tp_UpdatedAt r\<rparr>)"

definition loadFromDB :: "Template list \<Rightarrow> Store \<Rightarrow> Store" where
  "loadFromDB rows s =
     s\<lparr>ts_templates := fold (\<lambda>r m. gput (tp_ID r) (loaded_template r) m) rows (ts_templates s)\<rparr>"

definition NewPersistentStore :: "time \<Rightarrow> Template list \<Rightarrow> PersistentStore" where
  "NewPersistentStore now rows = \<lparr>ps_store = loadFromDB rows (NewStore now), ps_rows = rows\<rparr>"

definition ps_Create ::
  "time \<Rightarrow> string \<Rightarrow> string \<Rightarrow> CapabilityLevel \<Rightarrow> string list \<Rightarrow> string list \<Rightarrow> string list \<Rightarrow> TemplateOptions \<Rightarrow>
   PersistentStore \<Rightarrow> Template \<times> PersistentStore" where
  "ps_Create now name desc level allowed blocked paths opts ps =
     (let (t, s) = tpl_Create now name desc level allowed blocked paths opts (ps_store ps)
      in (t, \<lparr>ps_store = s, ps_rows = tpl_persist t (ps_rows ps)\<rparr>))"

definition ps_Update ::
  "time \<Rightarrow> string \<Rightarrow> string \<Rightarrow> string \<Rightarrow> CapabilityLevel \<Rightarrow> string list \<Rightarrow> string list \<Rightarrow> string list \<Rightarrow>
   TemplateOptions \<Rightarrow> PersistentStore \<Rightarrow> (policy_error + Template) \<times> PersistentStore" where
  "ps_Update now tid name desc level allowed blocked paths opts ps =
     (case tpl_Update now tid name desc level allowed blocked paths opts (ps_store ps) of
        (Err e, s) \<Rightarrow> (Err e, ps\<lparr>ps_store := s\<rparr>)
      | (Ok t, s) \<Rightarrow> (Ok t, \<lparr>ps_store = s, ps_rows = tpl_persist t (ps_rows ps)\<rparr>))"

definition ps_Delete :: "string \<Rightarrow> PersistentStore \<Rightarrow> (policy_error + unit) \<times> PersistentStore" where
  "ps_Delete tid ps =
     (case tpl_Delete tid (ps_store ps) of
        (Err e, s) \<Rightarrow> (Err e, ps\<lparr>ps_store := s\<rparr>)
      | (Ok u, s) \<Rightarrow> (Ok u, \<lparr>ps_store = s, ps_rows = tbl_delete (\<lambda>r. tp_ID r = tid) (ps_rows ps)\<rparr>))"

section \<open>Sandbox enforcement\<close>

record BreakglassConfirmation =
  bc_Confirmed :: bool
  bc_Method :: string
  bc_Reason :: string

definition IsHostDirectLane :: "ExecutionClass \<Rightarrow> bool" where
  "IsHostDirectLane lane \<longleftrightarrow>
     (case lane of ExecObserveDirect \<Rightarrow> True | ExecBreakglassDirect \<Rightarrow> True | _ \<Rightarrow> False)"

definition IsMutationCategory :: "string \<Rightarrow> bool" where
  "IsMutationCategory category \<longleftrightarrow> equal_fold (trim_space category) ''mutation''"

definition RequiresBreakglassConfirmation :: "string \<Rightarrow> ExecutionClass \<Rightarrow> bool" where
  "RequiresBreakglassConfirmation category lane \<longleftrightarrow> IsMutationCategory category \<and> IsHostDirectLane lane"

definition ResolveBreakglassConfirmation :: "string \<Rightarrow> string \<Rightarrow> BreakglassConfirmation" where
  "ResolveBreakglassConfirmation reason0 token0 =
     (let reason = trim_space reason0; token = trim_space token0
      in if reason \<noteq> [] then \<lparr>bc_Confirmed = True, bc_Method = ''breakglass_reason'', bc_Reason = reason\<rparr>
         else if token \<noteq> [] then \<lparr>bc_Confirmed = True, bc_Method = ''breakglass_token'', bc_Reason = token\<rparr>
         else \<lparr>bc_Confirmed = False, bc_Method = [], bc_Reason = []\<rparr>)"

definition BreakglassReasonAllowed :: "string \<Rightarrow> string list \<Rightarrow> bool" where
  "BreakglassReasonAllowed reason0 allowed =
     (let reason = to_lower (trim_space reason0)
      in if allowed = [] then True
         else if reason = [] then False
         else list_ex (\<lambda>c. reason = to_lower (trim_space c)) allowed)"

definition IsWasmLane :: "ExecutionClass \<Rightarrow> bool" where
  "IsWasmLane lane \<longleftrightarrow> lane = ExecWasmSandbox"

definition WasmLaneRejectsHostDirect :: "ExecutionClass \<Rightarrow> ExecutionClass \<Rightarrow> string \<Rightarrow> bool" where
  "WasmLaneRejectsHostDirect sandboxLane requestedLane category \<longleftrightarrow>
     IsWasmLane sandboxLane \<and> IsHostDirectLane requestedLane \<and> IsMutationCategory category"

text \<open>Histories of the in-memory store.\<close>

datatype tpl_op =
    TopCreate time string string CapabilityLevel "string list" "string list" "string list" TemplateOptions
  | TopUpdate time string string string CapabilityLevel "string list" "string list" "string list" TemplateOptions
  | TopDelete string

fun tpl_exec :: "tpl_op \<Rightarrow> PersistentStore \<Rightarrow> PersistentStore" where
  "tpl_exec (TopCreate now n d l a b p opts) ps = snd (ps_Create now n d l a b p opts ps)"
| "tpl_exec (TopUpdate now tid n d l a b p opts) ps = snd (ps_Update now tid n d l a b p opts ps)"
| "tpl_exec (TopDelete tid) ps = snd (ps_Delete tid ps)"

text \<open>Every custom id in use is at most the counter, and every stored template is under its own id.\<close>

definition tpl_ok :: "PersistentStore \<Rightarrow> bool" where
  "tpl_ok ps \<longleftrightarrow>
     (\<forall>n. gget (ts_templates (ps_store ps)) (policy_id n) \<noteq> None \<longrightarrow> n \<le> ts_nextID (ps_store ps)) \<and>
     (\<forall>k t. gget (ts_templates (ps_store ps)) k = Some t \<longrightarrow> tp_ID t = k)"

definition demo_template_row :: Template where
  "demo_template_row = new_template ''pol-101'' ''Operators'' [] CapRemediate [] [] [] 0"

definition norm_text :: "string \<Rightarrow> string" where
  "norm_text v = trim_space (to_lower v)"

section \<open>Lemmas\<close>

lemma policy_id_inj [simp]: "policy_id m = policy_id n \<longleftrightarrow> m = n"
  by (simp add: policy_id_def)

lemma applyOptions_id [simp]:
  "tp_ID (applyOptions opts t) = tp_ID t" "tp_Level (applyOptions opts t) = tp_Level t"
  by (simp_all add: applyOptions_def Let_def)

lemma new_template_id [simp]: "tp_ID (new_template tid n d l a b p now) = tid"
  "tp_Level (new_template tid n d l a b p now) = l"
  by (simp_all add: new_template_def)

lemma builtin_ids:
  "map tp_ID (builtin_templates now) = [''observe-only'', ''diagnose'', ''full-remediate'', ''wasm-fast-lane'']"
  by (simp add: builtin_templates_def)

lemma fold_gput_get:
  "gget (fold (\<lambda>t m. gput (tp_ID t) (f t) m) ts m) k =
   (case find (\<lambda>t. tp_ID t = k) (rev ts) of Some t \<Rightarrow> Some (f t) | None \<Rightarrow> gget m k)"
proof (induction ts rule: rev_induct)
  case (snoc t ts)
  then show ?case by (auto simp: gget_gput)
qed simp

lemma NewStore_get:
  "gget (ts_templates (NewStore now)) k = Some t \<Longrightarrow> t \<in> set (builtin_templates now) \<and> tp_ID t = k"
  using fold_gput_get [of "\<lambda>t. t" "builtin_templates now" "[]" k]
  by (auto simp: NewStore_def find_Some_iff split: option.splits) (metis nth_mem set_rev length_rev)+

lemma NewStore_ok: "tpl_ok (NewPersistentStore now [])"
proof -
  have "gget (ts_templates (NewStore now)) (policy_id n) = None" for n
  proof (rule ccontr)
    assume "gget (ts_templates (NewStore now)) (policy_id n) \<noteq> None"
    then obtain t where "t \<in> set (builtin_templates now)" "tp_ID t = policy_id n"
      using NewStore_get by blast
    then have "policy_id n \<in> set (map tp_ID (builtin_templates now))" by force
    then show False unfolding builtin_ids by (auto simp: policy_id_def)
  qed
  then show ?thesis
    using NewStore_get [of now] by (auto simp: tpl_ok_def NewPersistentStore_def loadFromDB_def)
qed

lemma tpl_exec_ok: "tpl_ok ps \<Longrightarrow> tpl_ok (tpl_exec p ps)"
proof (induction p ps rule: tpl_exec.induct)
  case (1 now n d l a b p opts ps)
  then show ?case
    by (auto simp: tpl_ok_def ps_Create_def tpl_Create_def Let_def gget_gput split: if_splits)
next
  case (2 now tid n d l a b p opts ps)
  then show ?case
    by (cases "gget (ts_templates (ps_store ps)) tid")
      (auto simp: tpl_ok_def ps_Update_def tpl_Update_def Let_def gget_gput split: if_splits)
next
  case (3 tid ps)
  then show ?case
    by (cases "gget (ts_templates (ps_store ps)) tid")
      (auto simp: tpl_ok_def ps_Delete_def tpl_Delete_def gget_gdel split: if_splits)
qed

lemma tpl_run_ok: "tpl_ok (fold tpl_exec ops (NewPersistentStore now []))"
proof -
  have "tpl_ok ps \<Longrightarrow> tpl_ok (fold tpl_exec ops ps)" for ps
    by (induction ops arbitrary: ps) (auto simp: tpl_exec_ok)
  then show ?thesis using NewStore_ok by blast
qed

lemma norm_text_idem: "norm_text (norm_text v) = norm_text v"
  by (simp add: norm_text_def trim_space_to_lower)

lemma normalize_loop_norm:
  "normalize_loop seen (v # vs) =
   (if norm_text v = [] \<or> norm_text v \<in> set seen then normalize_loop seen vs
    else norm_text v # normalize_loop (norm_text v # seen) vs)"
  by (simp add: norm_text_def Let_def)

lemma normalize_loop_out:
  "set (normalize_loop seen vs) \<inter> set seen = {} \<and> distinct (normalize_loop seen vs) \<and>
   (\<forall>n \<in> set (normalize_loop seen vs). n \<noteq> [] \<and> norm_text n = n)"
proof (induction vs arbitrary: seen)
  case (Cons v vs)
  show ?case
    using Cons.IH [of seen] Cons.IH [of "norm_text v # seen"]
    by (auto simp: normalize_loop_norm norm_text_idem simp del: normalize_loop.simps(2))
qed simp

lemma normalize_loop_fixed:
  "set vs \<inter> set seen = {} \<Longrightarrow> distinct vs \<Longrightarrow> \<forall>n \<in> set vs. n \<noteq> [] \<and> norm_text n = n \<Longrightarrow>
   normalize_loop seen vs = vs"
  by (induction vs arbitrary: seen) (simp_all add: normalize_loop_norm del: normalize_loop.simps(2))

lemma normalizeStringSlice_idem [simp]:
  "normalizeStringSlice (normalizeStringSlice vs) = normalizeStringSlice vs"
  unfolding normalizeStringSlice_def
  using normalize_loop_out [of "[]" vs] by (intro normalize_loop_fixed) auto

lemma trim_exec_idem [simp]: "trim_exec (trim_exec c) = trim_exec c"
  by (cases c) (auto simp: exec_of_text_def)

lemma trim_mode_idem [simp]: "trim_mode (trim_mode m) = trim_mode m"
  by (cases m) (auto simp: mode_of_text_def)

lemma slice_list_copy [simp]: "slice_list (copy_slice xs) = slice_list xs"
  by (auto simp: slice_list_def copy_slice_def split: option.splits list.splits)

lemma slice_list_Some [simp]: "slice_list (Some xs) = xs"
  by (simp add: slice_list_def)

lemma merge_runtime [simp]:
  "op_RuntimeClass (MergeTemplateOptions b opts) = op_RuntimeClass b"
  "op_CPUMillis (MergeTemplateOptions b opts) = op_CPUMillis b"
  "op_MemoryMiB (MergeTemplateOptions b opts) = op_MemoryMiB b"
  "op_AllowedCapabilities (MergeTemplateOptions b opts) = op_AllowedCapabilities b"
  by (simp_all add: MergeTemplateOptions_def)

lemma normalize_runtime [simp]:
  "op_RuntimeClass (NormalizeTemplateOptions opts) = op_RuntimeClass opts"
  "op_CPUMillis (NormalizeTemplateOptions opts) = op_CPUMillis opts"
  "op_MemoryMiB (NormalizeTemplateOptions opts) = op_MemoryMiB opts"
  "op_AllowedCapabilities (NormalizeTemplateOptions opts) = op_AllowedCapabilities opts"
  by (simp_all add: NormalizeTemplateOptions_def)

lemma default_runtime [simp]:
  "op_RuntimeClass (DefaultTemplateOptionsForLevel l) = []" "op_CPUMillis (DefaultTemplateOptionsForLevel l) = 0"
  "op_MemoryMiB (DefaultTemplateOptionsForLevel l) = 0"
  "op_AllowedCapabilities (DefaultTemplateOptionsForLevel l) = None"
  by (simp_all add: DefaultTemplateOptionsForLevel_def zero_options_def split: CapabilityLevel.splits)

lemma applyOptions_runtime:
  "tp_RuntimeClass (applyOptions opts t) = tp_RuntimeClass t"
  "tp_CPUMillis (applyOptions opts t) = tp_CPUMillis t"
  "tp_MemoryMiB (applyOptions opts t) = tp_MemoryMiB t"
  "tp_AllowedCapabilities (applyOptions opts t) = tp_AllowedCapabilities t"
  by (simp_all add: applyOptions_def Let_def)

lemma applyOptions_sandbox:
  "tp_Level t = CapDiagnose \<or> tp_Level t = CapRemediate \<Longrightarrow> tp_SandboxRequired (applyOptions opts t)"
  by (auto simp: applyOptions_def Let_def NormalizeTemplateOptions_def MergeTemplateOptions_def
      DefaultTemplateOptionsForLevel_def)

lemma normalized_template:
  assumes "t = applyOptions opts t0"
  shows "trim_exec (tp_ExecutionClassRequired t) = tp_ExecutionClassRequired t"
    "trim_mode (tp_ApprovalMode t) = tp_ApprovalMode t"
    "normalizeStringSlice (bg_AllowedReasons (tp_Breakglass t)) = bg_AllowedReasons (tp_Breakglass t)"
    "normalizeStringSlice (tp_AllowedScopes t) = tp_AllowedScopes t"
    "\<not> tp_MaxRuntimeSec t < 0"
  unfolding assms applyOptions_def Let_def NormalizeTemplateOptions_def by simp_all

lemma loaded_row:
  assumes "tp_ExecutionClassRequired t \<noteq> ExecOther []" "tp_ApprovalMode t \<noteq> ApprovalOther []"
    and t: "t = applyOptions opts (new_template tid n d l a b p now)"
  shows "loaded_template (template_row t) =
    t\<lparr>tp_CreatedAt := tp_CreatedAt t - tp_CreatedAt t mod Second,
      tp_UpdatedAt := tp_UpdatedAt t - tp_UpdatedAt t mod Second\<rparr>"
proof -
  have r: "tp_RuntimeClass t = []" "tp_CPUMillis t = 0" "tp_MemoryMiB t = 0" "tp_AllowedCapabilities t = []"
    unfolding t applyOptions_runtime by (simp_all add: new_template_def)
  show ?thesis
    using normalized_template [OF t] assms(1,2) r
    by (cases t) (simp add: loaded_template_def template_row_def NormalizeTemplateOptions_def Let_def
        new_template_def)
qed

section \<open>Properties\<close>

text \<open>
  A created template survives a restart: where its id is new to the table and its lane
  and mode are not blank, loading the table again gives the template that \<^verbatim>\<open>Create\<close> returned,
  with its two times cut to the second.
\<close>

lemma template_survives_restart:
  assumes "ps_Create now n d l a b p opts ps = (t, ps')"
    and "list_all (\<lambda>r. tp_ID r \<noteq> tp_ID t) (ps_rows ps)"
    and "tp_ExecutionClassRequired t \<noteq> ExecOther []" and "tp_ApprovalMode t \<noteq> ApprovalOther []"
  shows "tpl_Get (tp_ID t) (ps_store (NewPersistentStore now' (ps_rows ps'))) =
    Some (t\<lparr>tp_CreatedAt := tp_CreatedAt t - tp_CreatedAt t mod Second,
      tp_UpdatedAt := tp_UpdatedAt t - tp_UpdatedAt t mod Second\<rparr>)"
proof -
  have t: "t = applyOptions opts (new_template (policy_id (Suc (ts_nextID (ps_store ps)))) n d l a b p now)"
    and ps': "ps_rows ps' = tpl_persist t (ps_rows ps)"
    using assms(1) by (auto simp: ps_Create_def tpl_Create_def Let_def)
  have "\<not> list_ex (\<lambda>r. tp_ID r = tp_ID t) (ps_rows ps)"
    using assms(2) by (auto simp: list_ex_iff list_all_iff)
  then have "ps_rows ps' = ps_rows ps @ [template_row t]" by (simp add: ps' tpl_persist_def)
  then show ?thesis
    using loaded_row [OF assms(3,4) t]
    by (simp add: tpl_Get_def NewPersistentStore_def loadFromDB_def gget_gput template_row_def)
qed

lemma template_survives_restart_witness:
  "tpl_Get ''pol-101'' (ps_store (NewPersistentStore 9
     (ps_rows (snd (ps_Create 7 ''Ops'' [] CapRemediate [] [] [] zero_options (NewPersistentStore 5 [])))))) \<noteq> None"
proof -
  let ?c = "ps_Create 7 ''Ops'' [] CapRemediate [] [] [] zero_options (NewPersistentStore 5 [])"
  have f: "tp_ID (fst ?c) = ''pol-101''" "tp_ExecutionClassRequired (fst ?c) \<noteq> ExecOther []"
    "tp_ApprovalMode (fst ?c) \<noteq> ApprovalOther []" by code_simp+
  have "list_all (\<lambda>r. tp_ID r \<noteq> tp_ID (fst ?c)) (ps_rows (NewPersistentStore 5 []))"
    by (simp add: NewPersistentStore_def)
  from template_survives_restart [OF surjective_pairing this f(2,3), of 9] f(1) show ?thesis by simp
qed

text \<open>
  Within one run of the control plane a new template gets a fresh id: after any history
  of creations, updates and deletions from an empty table, \<^verbatim>\<open>Create\<close> overwrites no template.
\<close>

lemma create_uses_fresh_id:
  "let ps = fold tpl_exec ops (NewPersistentStore now0 []);
       (t, ps') = ps_Create now n d l a b p opts ps
   in tpl_Get (tp_ID t) (ps_store ps) = None \<and> tpl_Get (tp_ID t) (ps_store ps') = Some t"
proof -
  let ?ps = "fold tpl_exec ops (NewPersistentStore now0 [])"
  have "gget (ts_templates (ps_store ?ps)) (policy_id (Suc (ts_nextID (ps_store ?ps)))) = None"
    using tpl_run_ok [of ops now0] unfolding tpl_ok_def by (metis Suc_n_not_le_n)
  then show ?thesis by (simp add: tpl_Get_def ps_Create_def tpl_Create_def Let_def gget_gput)
qed

text \<open>
  After a restart the id counter starts again at 100, whatever the table holds: the
  first template created then takes the id \<^verbatim>\<open>pol-101\<close> and replaces the template that was
  stored under it, in memory and in the table.
\<close>

lemma restart_reuses_policy_ids:
  assumes "ps = NewPersistentStore now0 rows" and "list_ex (\<lambda>r. tp_ID r = ''pol-101'') rows"
    and "ps_Create now n d l a b p opts ps = (t, ps')"
  shows "tp_ID t = ''pol-101'' \<and> tpl_Get ''pol-101'' (ps_store ps) \<noteq> None \<and>
    tpl_Get ''pol-101'' (ps_store ps') = Some t \<and> length (ps_rows ps') = length rows \<and>
    list_all (\<lambda>r. tp_ID r = ''pol-101'' \<longrightarrow> tp_Name r = n) (ps_rows ps')"
proof -
  have pid: "policy_id 101 = ''pol-101''" by code_simp
  have t: "t = applyOptions opts (new_template ''pol-101'' n d l a b p now)"
    and ps': "ps_rows ps' = tpl_persist t rows" "tpl_Get ''pol-101'' (ps_store ps') = Some t"
    using assms(1,3) pid
    by (auto simp: ps_Create_def tpl_Create_def Let_def NewPersistentStore_def loadFromDB_def NewStore_def
        tpl_Get_def gget_gput)
  have "find (\<lambda>r. tp_ID r = ''pol-101'') (rev rows) \<noteq> None"
    using assms(2) by (auto simp: find_None_iff list_ex_iff)
  then have "tpl_Get ''pol-101'' (ps_store ps) \<noteq> None"
    by (auto simp: assms(1) tpl_Get_def NewPersistentStore_def loadFromDB_def fold_gput_get split: option.splits)
  moreover have "tp_Name t = n" by (simp add: t applyOptions_def Let_def new_template_def)
  moreover have "tp_ID t = ''pol-101''" by (simp add: t)
  ultimately show ?thesis
    using assms(2) ps' by (auto simp: tpl_persist_def list_all_iff set_tbl_update template_row_def)
qed

lemma restart_reuses_policy_ids_witness:
  "tp_ID (fst (ps_Create 7 ''New'' [] CapObserve [] [] [] zero_options
     (NewPersistentStore 5 [demo_template_row]))) = tp_ID demo_template_row"
proof -
  let ?c = "ps_Create 7 ''New'' [] CapObserve [] [] [] zero_options (NewPersistentStore 5 [demo_template_row])"
  have l: "list_ex (\<lambda>r. tp_ID r = ''pol-101'') [demo_template_row]" by (simp add: demo_template_row_def)
  have c: "?c = (fst ?c, snd ?c)" by simp
  from restart_reuses_policy_ids [OF refl l c] show ?thesis by (simp add: demo_template_row_def)
qed

text \<open>
  The run time class, the CPU and memory limits and the capabilities given to
  \<^verbatim>\<open>Create\<close> are lost: \<^verbatim>\<open>MergeTemplateOptions\<close> does not copy them, so the created
  template has none of them.
\<close>

lemma runtime_options_dropped:
  "let t = fst (ps_Create now n d l a b p opts ps) in
   tp_RuntimeClass t = [] \<and> tp_CPUMillis t = 0 \<and> tp_MemoryMiB t = 0 \<and> tp_AllowedCapabilities t = []"
  by (simp add: ps_Create_def tpl_Create_def Let_def applyOptions_runtime case_prod_beta)
     (simp add: new_template_def)

end
