(* ===== verification/Approval_Policy.thy ===== *)
theory Approval_Policy
  imports Complex_Main Approval_Queue Command_Classifier Policy_Templates
begin

text \<open>
  The policy decision of \<^verbatim>\<open>internal/controlplane/core/approvalpolicy\<close>: the control plane's own
  command classifier, the choice of the execution lane, the capacity signals
  (\<^verbatim>\<open>capacity_policy.go\<close>) and the service that submits a command for approval, decides it and
  dispatches it (\<^verbatim>\<open>service.go\<close>). Coverage figures are rational numbers. The provider of
  capacity signals, the dispatch function and the hooks are parameters.
\<close>

section \<open>The control plane's classifier\<close>

definition cp_remediatePrefixes :: "string list" where
  "cp_remediatePrefixes =
     [''rm '', ''rm'' @ [CHR 0x09], ''mv '', ''mv'' @ [CHR 0x09], ''cp '', ''cp'' @ [CHR 0x09],
      ''chmod '', ''chown '', ''chgrp '',
      ''mkdir '', ''touch '', ''tee '',
      ''apt '', ''apt-get '', ''dpkg '', ''yum '', ''dnf '', ''rpm '',
      ''pip '', ''pip3 '', ''npm '', ''gem '',
      ''systemctl start'', ''systemctl stop'', ''systemctl restart'',
      ''systemctl enable'', ''systemctl disable'', ''systemctl mask'',
      ''service '', ''reboot'', ''shutdown'', ''poweroff'', ''halt'', ''init '',
      ''kill '', ''pkill '', ''killall '',
      ''iptables '', ''ip6tables '', ''ufw '', ''firewall-cmd '',
      ''sed -i'', ''dd '', ''mkfs'', ''mount '',
      ''useradd'', ''userdel'', ''usermod'', ''groupadd'', ''groupdel'',
      ''passwd '', ''chpasswd'', ''crontab '', ''kubeflow cancel'']"

definition cp_observePrefixes :: "string list" where
  "cp_observePrefixes =
     [''ip addr'', ''ip route'', ''ip link'', ''ip neigh'',
      ''systemctl status'', ''systemctl is-active'', ''systemctl is-enabled'',
      ''systemctl list-units'', ''systemctl list-timers'',
      ''docker ps'', ''docker images'', ''docker inspect'',
      ''podman ps'', ''podman images'', ''podman inspect'']"

definition cp_observeCommands :: "string list" where
  "cp_observeCommands =
     [''cat'', ''ls'', ''head'', ''tail'', ''df'', ''du'', ''free'', ''uptime'', ''uname'',
      ''hostname'', ''whoami'', ''id'', ''ps'', ''top'', ''netstat'', ''ss'',
      ''lsof'', ''file'', ''stat'', ''wc'', ''grep'', ''find'', ''journalctl'',
      ''which'', ''type'', ''echo'', ''date'', ''env'', ''printenv'', ''lsb_release'',
      ''arch'', ''nproc'', ''getent'', ''groups'', ''last'', ''w'', ''sleep'', ''true'', ''false'',
      ''sh'', ''bash'']"

definition cp_diagnosePrefixes :: "string list" where
  "cp_diagnosePrefixes = [''curl'', ''wget'', ''fdisk -l'', ''mount'', ''kubeflow submit'']"

definition cp_diagnoseCommands :: "string list" where
  "cp_diagnoseCommands =
     [''strace'', ''ltrace'', ''tcpdump'', ''dig'', ''nslookup'', ''traceroute'',
      ''tracepath'', ''ping'', ''openssl'', ''nc'', ''ncat'', ''nmap'',
      ''iotop'', ''vmstat'', ''iostat'', ''sar'', ''dmesg'', ''lsblk'',
      ''blkid'', ''ss'', ''perf'', ''iftop'', ''nethogs'']"

definition normalizeCommandParts :: "string \<Rightarrow> string list \<Rightarrow> string \<times> string" where
  "normalizeCommandParts command args =
     (let trimmed = trim_space command;
          full = (if args \<noteq> [] then trimmed @ '' '' @ join_str args '' '' else trimmed)
      in (to_lower (trim_space full), to_lower (trim_space (first_word trimmed))))"

definition classifyCommandWithMetadata :: "string \<Rightarrow> string list \<Rightarrow> CommandClassification" where
  "classifyCommandWithMetadata command args =
     (let (full, base) = normalizeCommandParts command args
      in if list_ex (\<lambda>p. has_prefix full p \<or> has_prefix base p) cp_remediatePrefixes
         then \<lparr>cc_Level = CapRemediate, cc_Category = ''mutation'', cc_SignatureKnown = True,
               cc_ReasonCode = ''classifier.remediate_prefix''\<rparr>
         else if any_prefix cp_observePrefixes full
         then \<lparr>cc_Level = CapObserve, cc_Category = ''observe'', cc_SignatureKnown = True,
               cc_ReasonCode = ''classifier.observe_prefix''\<rparr>
         else if base \<in> set cp_observeCommands
         then (if base = ''find'' \<and> (contains_str full ''-exec'' \<or> contains_str full ''-delete'')
               then \<lparr>cc_Level = CapRemediate, cc_Category = ''mutation'', cc_SignatureKnown = True,
                     cc_ReasonCode = ''classifier.find_mutation_flags''\<rparr>
               else \<lparr>cc_Level = CapObserve, cc_Category = ''observe'', cc_SignatureKnown = True,
                     cc_ReasonCode = ''classifier.observe_command''\<rparr>)
         else if any_prefix cp_diagnosePrefixes full
         then (if has_prefix base ''wget'' \<and> contains_str full '' -o''
               then \<lparr>cc_Level = CapRemediate, cc_Category = ''mutation'', cc_SignatureKnown = True,
                     cc_ReasonCode = ''classifier.wget_output_file''\<rparr>
               else \<lparr>cc_Level = CapDiagnose, cc_Category = ''diagnose'', cc_SignatureKnown = True,
                     cc_ReasonCode = ''classifier.diagnose_prefix''\<rparr>)
         else if base \<in> set cp_diagnoseCommands
         then \<lparr>cc_Level = CapDiagnose, cc_Category = ''diagnose'', cc_SignatureKnown = True,
               cc_ReasonCode = ''classifier.diagnose_command''\<rparr>
         else \<lparr>cc_Level = CapRemediate, cc_Category = ''mutation'', cc_SignatureKnown = False,
               cc_ReasonCode = ''classifier.unknown_mutation_signature''\<rparr>)"

section \<open>Outcomes and lanes\<close>

datatype CommandPolicyDecisionOutcome =
    CommandPolicyDecisionAllow | CommandPolicyDecisionDeny | CommandPolicyDecisionQueue

datatype CommandPolicyGateOutcome =
    CommandPolicyGateAllowed | CommandPolicyGateBlocked | CommandPolicyGatePendingApproval

definition outcome_text :: "CommandPolicyDecisionOutcome \<Rightarrow> string" where
  "outcome_text o' =
     (case o' of CommandPolicyDecisionAllow \<Rightarrow> ''allow'' | CommandPolicyDecisionDeny \<Rightarrow> ''deny''
      | CommandPolicyDecisionQueue \<Rightarrow> ''queue'')"

definition decisionOutcomeFromGate :: "CommandPolicyGateOutcome \<Rightarrow> CommandPolicyDecisionOutcome" where
  "decisionOutcomeFromGate g =
     (case g of CommandPolicyGateBlocked \<Rightarrow> CommandPolicyDecisionDeny
      | CommandPolicyGatePendingApproval \<Rightarrow> CommandPolicyDecisionQueue
      | CommandPolicyGateAllowed \<Rightarrow> CommandPolicyDecisionAllow)"

definition decisionGateFromOutcome :: "CommandPolicyDecisionOutcome \<Rightarrow> CommandPolicyGateOutcome" where
  "decisionGateFromOutcome o' =
     (case o' of CommandPolicyDecisionDeny \<Rightarrow> CommandPolicyGateBlocked
      | CommandPolicyDecisionQueue \<Rightarrow> CommandPolicyGatePendingApproval
      | CommandPolicyDecisionAllow \<Rightarrow> CommandPolicyGateAllowed)"

definition riskTierForLevel :: "string \<Rightarrow> nat" where
  "riskTierForLevel risk =
     (let r = trim_space (to_lower risk)
      in if r = ''low'' then 1 else if r = ''medium'' then 2 else if r = ''high'' then 3
         else if r = ''critical'' then 4 else 2)"

definition outcome_rank :: "CommandPolicyDecisionOutcome \<Rightarrow> nat" where
  "outcome_rank o' =
     (case o' of CommandPolicyDecisionAllow \<Rightarrow> 1 | CommandPolicyDecisionQueue \<Rightarrow> 2
      | CommandPolicyDecisionDeny \<Rightarrow> 3)"

definition mergeDecisionOutcome ::
  "CommandPolicyDecisionOutcome \<Rightarrow> CommandPolicyDecisionOutcome \<Rightarrow> CommandPolicyDecisionOutcome" where
  "mergeDecisionOutcome current candidate =
     (if outcome_rank candidate > outcome_rank current then candidate else current)"

record CommandPolicyProfile =
  pp_PolicyID :: string
  pp_ExecutionClassRequired :: ExecutionClass
  pp_SandboxRequired :: bool
  pp_ApprovalMode :: ApprovalMode
  pp_RequireSecondApprover :: bool
  pp_Breakglass :: BreakglassPolicy

record laneResolutionResult =
  lr_SelectedLane :: ExecutionClass
  lr_GateOutcome :: CommandPolicyGateOutcome
  lr_ReasonCode :: string

definition laneFromCapability :: "CapabilityLevel \<Rightarrow> ExecutionClass" where
  "laneFromCapability l =
     (case l of CapDiagnose \<Rightarrow> ExecDiagnoseSandbox | CapRemediate \<Rightarrow> ExecRemediateSandbox
      | _ \<Rightarrow> ExecObserveDirect)"

definition lane_rank :: "ExecutionClass \<Rightarrow> nat" where
  "lane_rank c =
     (case c of ExecObserveDirect \<Rightarrow> 1 | ExecDiagnoseSandbox \<Rightarrow> 2 | ExecRemediateSandbox \<Rightarrow> 3
      | ExecBreakglassDirect \<Rightarrow> 4 | _ \<Rightarrow> 0)"

definition stricterLane :: "ExecutionClass \<Rightarrow> ExecutionClass \<Rightarrow> ExecutionClass" where
  "stricterLane current candidate =
     (if current = ExecOther [] then candidate
      else if candidate = ExecOther [] then current
      else if candidate = ExecBreakglassDirect then candidate
      else if lane_rank candidate > lane_rank current then candidate else current)"

definition select_lane :: "CommandClassification \<Rightarrow> CommandPolicyProfile \<Rightarrow> ExecutionClass" where
  "select_lane c profile =
     (let lane = laneFromCapability (cc_Level c)
      in if pp_ExecutionClassRequired profile = ExecBreakglassDirect then ExecBreakglassDirect
         else if pp_ExecutionClassRequired profile \<noteq> ExecOther []
         then stricterLane lane (pp_ExecutionClassRequired profile)
         else lane)"

text \<open>
  \<^verbatim>\<open>resolveLaneDecision\<close> in its three parts: the checks of a mutation, the sandbox
  requirement with the check of a breakglass lane, and the approval mode. A part returns
  \<open>Inl\<close> where the function returns there, and \<open>Inr\<close> the result so far otherwise.
\<close>

definition mutation_checks ::
  "CommandClassification \<Rightarrow> CommandPolicyProfile \<Rightarrow> laneResolutionResult \<Rightarrow>
   laneResolutionResult + laneResolutionResult" where
  "mutation_checks c profile r =
     (let block = (\<lambda>r code. Inl (r\<lparr>lr_GateOutcome := CommandPolicyGateBlocked, lr_ReasonCode := code\<rparr>))
      in if cc_Level c \<noteq> CapRemediate then Inr r
         else if \<not> cc_SignatureKnown c
         then block (if lr_SelectedLane r = ExecOther []
                     then r\<lparr>lr_SelectedLane := ExecRemediateSandbox\<rparr> else r) ''policy.lane_unmapped''
         else if lr_SelectedLane r = ExecBreakglassDirect
         then (if \<not> bg_Enabled (pp_Breakglass profile) then block r ''policy.breakglass_disabled''
               else if pp_SandboxRequired profile then block r ''policy.sandbox_required''
               else Inl (r\<lparr>lr_GateOutcome := CommandPolicyGatePendingApproval,
                           lr_ReasonCode := ''approval.breakglass_required''\<rparr>))
         else if lr_SelectedLane r = ExecObserveDirect then block r ''policy.lane_unmapped''
         else if lr_SelectedLane r = ExecDiagnoseSandbox
         then Inr (r\<lparr>lr_SelectedLane := ExecRemediateSandbox, lr_ReasonCode := ''policy.lane_escalated''\<rparr>)
         else Inr r)"

definition sandbox_checks ::
  "CommandClassification \<Rightarrow> CommandPolicyProfile \<Rightarrow> laneResolutionResult \<Rightarrow>
   laneResolutionResult + laneResolutionResult" where
  "sandbox_checks c profile r =
     (if pp_SandboxRequired profile \<and> lr_SelectedLane r = ExecBreakglassDirect
      then Inl (r\<lparr>lr_GateOutcome := CommandPolicyGateBlocked, lr_ReasonCode := ''policy.sandbox_required''\<rparr>)
      else
        let r1 = (if pp_SandboxRequired profile \<and> lr_SelectedLane r = ExecObserveDirect
                  then r\<lparr>lr_SelectedLane := ExecDiagnoseSandbox,
                         lr_ReasonCode := (if lr_ReasonCode r = ''policy.allowed''
                           then ''policy.sandbox_escalated'' else lr_ReasonCode r)\<rparr>
                  else r)
        in if cc_Level c \<noteq> CapRemediate \<and> lr_SelectedLane r1 = ExecBreakglassDirect
           then Inl (r1\<lparr>lr_GateOutcome := CommandPolicyGateBlocked,
                        lr_ReasonCode := ''policy.breakglass_not_applicable''\<rparr>)
           else if lr_GateOutcome r1 = CommandPolicyGateBlocked then Inl r1
           else Inr r1)"

definition approval_gate ::
  "CommandClassification \<Rightarrow> CommandPolicyProfile \<Rightarrow> laneResolutionResult \<Rightarrow> laneResolutionResult" where
  "approval_gate c profile r =
     (let pending = (\<lambda>code. r\<lparr>lr_GateOutcome := CommandPolicyGatePendingApproval, lr_ReasonCode := code\<rparr>);
          r1 = (case pp_ApprovalMode profile of
                  ApprovalNone \<Rightarrow> r
                | ApprovalMutationGate \<Rightarrow>
                    if cc_Level c = CapRemediate \<or> lr_SelectedLane r = ExecBreakglassDirect
                    then pending ''approval.required.mutation_gate'' else r
                | ApprovalPlanFirst \<Rightarrow> pending ''approval.required.plan_first''
                | ApprovalEveryAction \<Rightarrow> pending ''approval.required.every_action''
                | ApprovalTwoPerson \<Rightarrow> pending ''approval.required.two_person''
                | ApprovalOther _ \<Rightarrow>
                    if cc_Level c = CapRemediate then pending ''approval.required.mutation_gate'' else r)
      in if lr_ReasonCode r1 = [] then r1\<lparr>lr_ReasonCode := ''policy.allowed''\<rparr> else r1)"

definition resolveLaneDecision ::
  "CommandClassification \<Rightarrow> CommandPolicyProfile \<Rightarrow> laneResolutionResult" where
  "resolveLaneDecision c profile =
     (case mutation_checks c profile
             \<lparr>lr_SelectedLane = select_lane c profile, lr_GateOutcome = CommandPolicyGateAllowed,
              lr_ReasonCode = ''policy.allowed''\<rparr> of
        Inl r \<Rightarrow> r
      | Inr r \<Rightarrow>
          (case sandbox_checks c profile r of
             Inl r \<Rightarrow> r
           | Inr r \<Rightarrow> approval_gate c profile r))"

section \<open>Capacity\<close>

record CapacityThresholds =
  ct_MinDatasourceCount :: int
  ct_MinDashboardCoverage :: rat
  ct_MinQueryCoverage :: rat

definition DefaultCapacityThresholds :: CapacityThresholds where
  "DefaultCapacityThresholds =
     \<lparr>ct_MinDatasourceCount = 1, ct_MinDashboardCoverage = 1 / 2, ct_MinQueryCoverage = 1 / 4\<rparr>"

definition thresholds_normalized :: "CapacityThresholds \<Rightarrow> CapacityThresholds" where
  "thresholds_normalized t =
     \<lparr>ct_MinDatasourceCount = (if ct_MinDatasourceCount t \<le> 0 then 1 else ct_MinDatasourceCount t),
      ct_MinDashboardCoverage =
        (if ct_MinDashboardCoverage t \<le> 0 \<or> ct_MinDashboardCoverage t > 1 then 1 / 2
         else ct_MinDashboardCoverage t),
      ct_MinQueryCoverage =
        (if ct_MinQueryCoverage t \<le> 0 \<or> ct_MinQueryCoverage t > 1 then 1 / 4
         else ct_MinQueryCoverage t)\<rparr>"

record CapacitySignals =
  cs_Source :: string
  cs_Availability :: string
  cs_DashboardCoverage :: rat
  cs_QueryCoverage :: rat
  cs_DatasourceCount :: int
  cs_Partial :: bool
  cs_Warnings :: "string list"

text \<open>What a call of the provider gives: there may be none, and it may fail or return nil.\<close>

datatype capacity_reading = NoProvider | ProviderError string | ProviderNil | ProviderOk CapacitySignals

definition capacitySource :: "string \<Rightarrow> string" where
  "capacitySource source = (if trim_space source = [] then ''grafana'' else trim_space source)"

definition readCapacitySignals :: "capacity_reading \<Rightarrow> string + CapacitySignals option" where
  "readCapacitySignals reading =
     (case reading of
        NoProvider \<Rightarrow> Ok None
      | ProviderError e \<Rightarrow> Err e
      | ProviderNil \<Rightarrow> Ok None
      | ProviderOk s \<Rightarrow> Ok (Some (s\<lparr>cs_Source := capacitySource (cs_Source s),
          cs_Availability := to_lower (trim_space (cs_Availability s))\<rparr>)))"

section \<open>The decision\<close>

datatype indicator_value = VNone | VText string | VInt int | VNum rat | VBool bool

record CommandPolicyIndicator =
  in_Name :: string
  in_Source :: string
  in_Value :: indicator_value
  in_Comparator :: string
  in_Threshold :: indicator_value
  in_Severity :: string
  in_Effect :: "CommandPolicyDecisionOutcome option"
  in_DroveOutcome :: bool
  in_Message :: string

definition indicator :: "string \<Rightarrow> string \<Rightarrow> indicator_value \<Rightarrow> string \<Rightarrow> CommandPolicyIndicator" where
  "indicator name source v msg =
     \<lparr>in_Name = name, in_Source = source, in_Value = v, in_Comparator = [], in_Threshold = VNone,
      in_Severity = ''info'', in_Effect = None, in_DroveOutcome = False, in_Message = msg\<rparr>"

record CommandPolicyRationale =
  ra_Policy :: string
  ra_Summary :: string
  ra_Fallback :: bool
  ra_Indicators :: "CommandPolicyIndicator list"
  ra_Capacity :: "CapacitySignals option"
  ra_Thresholds :: CapacityThresholds
  ra_Lane :: laneResolutionResult

record CommandPolicyDecision =
  de_Outcome :: CommandPolicyDecisionOutcome
  de_GateOutcome :: CommandPolicyGateOutcome
  de_Lane :: ExecutionClass
  de_RiskLevel :: string
  de_RiskTier :: nat
  de_ReasonCode :: string
  de_Classification :: CommandClassification
  de_Policy :: CommandPolicyProfile
  de_Rationale :: CommandPolicyRationale

definition summarizeDecision :: "CommandPolicyDecisionOutcome \<Rightarrow> CommandPolicyIndicator list \<Rightarrow> string" where
  "summarizeDecision outcome indicators =
     (let drivers = map (\<lambda>i. if trim_space (in_Message i) = [] then in_Name i
                             else trim_space (in_Message i)) (filter in_DroveOutcome indicators)
      in if drivers = []
         then (case outcome of
                 CommandPolicyDecisionAllow \<Rightarrow> ''command allowed by policy''
               | CommandPolicyDecisionQueue \<Rightarrow> ''command queued for approval''
               | CommandPolicyDecisionDeny \<Rightarrow> ''command denied by policy'')
         else outcome_text outcome @ '' ('' @ join_str drivers ''; '' @ '')'')"

definition mergeDecisionWithReason ::
  "CommandPolicyDecision \<Rightarrow> CommandPolicyDecisionOutcome \<Rightarrow> string \<Rightarrow> CommandPolicyDecision" where
  "mergeDecisionWithReason d candidate code =
     (let merged = mergeDecisionOutcome (de_Outcome d) candidate;
          d1 = (if merged \<noteq> de_Outcome d
                then d\<lparr>de_Outcome := merged, de_GateOutcome := decisionGateFromOutcome merged,
                       de_ReasonCode := (if trim_space code \<noteq> [] then code else de_ReasonCode d)\<rparr>
                else d)
      in if de_ReasonCode d1 = [] then d1\<lparr>de_ReasonCode := ''policy.allowed''\<rparr> else d1)"

definition add_indicator :: "CommandPolicyIndicator \<Rightarrow> CommandPolicyDecision \<Rightarrow> CommandPolicyDecision" where
  "add_indicator i d =
     d\<lparr>de_Rationale := (de_Rationale d)\<lparr>ra_Indicators := ra_Indicators (de_Rationale d) @ [i]\<rparr>\<rparr>"

definition summarized :: "CommandPolicyDecision \<Rightarrow> CommandPolicyDecision" where
  "summarized d =
     d\<lparr>de_Rationale := (de_Rationale d)
         \<lparr>ra_Summary := summarizeDecision (de_Outcome d) (ra_Indicators (de_Rationale d))\<rparr>\<rparr>"

text \<open>
  The steps of \<^verbatim>\<open>evaluateCommandPolicy\<close> after the lane is known, each with its indicator: the
  risk, then the four capacity checks and the note on a partial snapshot.
\<close>

definition risk_step :: "string \<Rightarrow> CommandPolicyDecision \<Rightarrow> CommandPolicyDecision" where
  "risk_step risk d =
     (let i = indicator ''command_risk'' ''risk_classifier'' (VText risk) ''command risk classification''
      in if (risk = ''high'' \<or> risk = ''critical'') \<and> de_Outcome d = CommandPolicyDecisionAllow
         then add_indicator (i\<lparr>in_Effect := Some CommandPolicyDecisionQueue, in_DroveOutcome := True,
                in_Severity := ''warn'', in_Message := ''high-risk command requires human approval''\<rparr>)
              (d\<lparr>de_Outcome := CommandPolicyDecisionQueue,
                 de_GateOutcome := decisionGateFromOutcome CommandPolicyDecisionQueue,
                 de_ReasonCode := ''approval.required.risk_high''\<rparr>)
         else add_indicator i d)"

text \<open>A capacity check that failed: it denies (critical) or queues (a warning) with a reason.\<close>

definition capacity_fail ::
  "bool \<Rightarrow> string \<Rightarrow> string \<Rightarrow> CommandPolicyIndicator \<Rightarrow> CommandPolicyDecision \<Rightarrow> CommandPolicyDecision" where
  "capacity_fail denies msg code i d =
     add_indicator
       (i\<lparr>in_Severity := (if denies then ''critical'' else ''warn''),
          in_Effect := Some (if denies then CommandPolicyDecisionDeny else CommandPolicyDecisionQueue),
          in_DroveOutcome := (if denies then de_Outcome d \<noteq> CommandPolicyDecisionDeny
                              else de_Outcome d = CommandPolicyDecisionAllow),
          in_Message := msg\<rparr>)
       (mergeDecisionWithReason d
          (if denies then CommandPolicyDecisionDeny else CommandPolicyDecisionQueue) code)"

definition availability_step :: "CapacitySignals \<Rightarrow> CommandPolicyDecision \<Rightarrow> CommandPolicyDecision" where
  "availability_step c d =
     (let a = to_lower (trim_space (cs_Availability c));
          i = indicator ''availability'' (capacitySource (cs_Source c)) (VText a)
                ''Grafana availability signal''
      in if a = ''degraded''
         then capacity_fail True ''capacity degraded; command denied by policy''
                ''capacity.availability_degraded'' i d
         else if a = ''limited'' \<or> a = ''insufficient''
         then capacity_fail False ''capacity limited; command queued for operator decision''
                ''capacity.availability_limited'' i d
         else add_indicator i d)"

definition datasource_step ::
  "CapacityThresholds \<Rightarrow> CapacitySignals \<Rightarrow> CommandPolicyDecision \<Rightarrow> CommandPolicyDecision" where
  "datasource_step th c d =
     (let i = (indicator ''datasource_count'' (capacitySource (cs_Source c)) (VInt (cs_DatasourceCount c))
                ''minimum datasource count check'')
                \<lparr>in_Comparator := ''>='', in_Threshold := VInt (ct_MinDatasourceCount th)\<rparr>
      in if cs_DatasourceCount c < ct_MinDatasourceCount th
         then capacity_fail True ''insufficient datasource coverage; command denied''
                ''capacity.datasource_insufficient'' i d
         else add_indicator i d)"

definition dashboard_step ::
  "CapacityThresholds \<Rightarrow> CapacitySignals \<Rightarrow> CommandPolicyDecision \<Rightarrow> CommandPolicyDecision" where
  "dashboard_step th c d =
     (if cs_DashboardCoverage c > 0
      then
        let i = (indicator ''dashboard_coverage'' (capacitySource (cs_Source c))
                  (VNum (cs_DashboardCoverage c)) ''dashboard coverage threshold'')
                  \<lparr>in_Comparator := ''>='', in_Threshold := VNum (ct_MinDashboardCoverage th)\<rparr>
        in if cs_DashboardCoverage c < ct_MinDashboardCoverage th
           then capacity_fail False ''dashboard coverage below threshold; command queued''
                  ''capacity.dashboard_coverage_low'' i d
           else add_indicator i d
      else d)"

definition query_step ::
  "CapacityThresholds \<Rightarrow> CapacitySignals \<Rightarrow> CommandPolicyDecision \<Rightarrow> CommandPolicyDecision" where
  "query_step th c d =
     (if cs_QueryCoverage c > 0
      then
        let i = (indicator ''query_coverage'' (capacitySource (cs_Source c))
                  (VNum (cs_QueryCoverage c)) ''query coverage threshold'')
                  \<lparr>in_Comparator := ''>='', in_Threshold := VNum (ct_MinQueryCoverage th)\<rparr>
        in if cs_QueryCoverage c < ct_MinQueryCoverage th
           then capacity_fail False ''query coverage below threshold; command queued''
                  ''capacity.query_coverage_low'' i d
           else add_indicator i d
      else d)"

definition partial_step :: "CapacitySignals \<Rightarrow> CommandPolicyDecision \<Rightarrow> CommandPolicyDecision" where
  "partial_step c d =
     (if cs_Partial c
      then add_indicator ((indicator ''partial_snapshot'' (capacitySource (cs_Source c)) (VBool True)
             ''capacity snapshot is partial; non-deny safeguards remain active'')\<lparr>in_Severity := ''warn''\<rparr>) d
      else d)"

definition capacity_steps ::
  "CapacityThresholds \<Rightarrow> CapacitySignals \<Rightarrow> CommandPolicyDecision \<Rightarrow> CommandPolicyDecision" where
  "capacity_steps th c d =
     partial_step c (query_step th c (dashboard_step th c (datasource_step th c (availability_step c
       (d\<lparr>de_Rationale := (de_Rationale d)\<lparr>ra_Capacity := Some c\<rparr>\<rparr>)))))"

text \<open>No signals: the decision stands, and the rationale says so.\<close>

definition fallback_step :: "string option \<Rightarrow> CommandPolicyDecision \<Rightarrow> CommandPolicyDecision" where
  "fallback_step err d =
     (let d1 = d\<lparr>de_Rationale := (de_Rationale d)\<lparr>ra_Fallback := True\<rparr>\<rparr>
      in add_indicator (indicator ''capacity_signals'' ''grafana_adapter''
           (VText (case err of None \<Rightarrow> ''unavailable'' | Some e \<Rightarrow> e))
           ''Grafana capacity signals unavailable; using risk-only fallback'') d1)"

type_synonym applied_policies = "(string \<times> TemplateOptions) gmap"

record Service =
  sv_thresholds :: CapacityThresholds
  sv_twoPersonMode :: bool
  sv_applied :: applied_policies

definition appliedPolicyForProbe :: "Service \<Rightarrow> string \<Rightarrow> (string \<times> TemplateOptions) option" where
  "appliedPolicyForProbe s probeID = (if probeID = [] then None else gget (sv_applied s) probeID)"

definition resolvePolicyProfile ::
  "Service \<Rightarrow> string \<Rightarrow> CapabilityLevel \<Rightarrow> CommandPolicyProfile option \<Rightarrow> CommandPolicyProfile" where
  "resolvePolicyProfile s probeID level override =
     (let defaults = DefaultTemplateOptionsForLevel level;
          p0 = \<lparr>pp_PolicyID = [], pp_ExecutionClassRequired = op_ExecutionClassRequired defaults,
                pp_SandboxRequired = op_SandboxRequired defaults,
                pp_ApprovalMode = op_ApprovalMode defaults,
                pp_RequireSecondApprover = op_RequireSecondApprover defaults,
                pp_Breakglass = no_breakglass\<rparr>;
          p1 = (case appliedPolicyForProbe s probeID of
                  None \<Rightarrow> p0
                | Some (pid, opts) \<Rightarrow>
                    \<lparr>pp_PolicyID = trim_space pid,
                     pp_ExecutionClassRequired = trim_exec (op_ExecutionClassRequired opts),
                     pp_SandboxRequired = op_SandboxRequired opts,
                     pp_ApprovalMode = trim_mode (op_ApprovalMode opts),
                     pp_RequireSecondApprover = op_RequireSecondApprover opts,
                     pp_Breakglass = op_Breakglass opts\<rparr>);
          p2 = (case override of
                  None \<Rightarrow> p1
                | Some ov \<Rightarrow>
                    \<lparr>pp_PolicyID =
                       (if trim_space (pp_PolicyID ov) \<noteq> [] then trim_space (pp_PolicyID ov)
                        else pp_PolicyID p1),
                     pp_ExecutionClassRequired =
                       (if trim_exec (pp_ExecutionClassRequired ov) \<noteq> ExecOther []
                        then trim_exec (pp_ExecutionClassRequired ov)
                        else pp_ExecutionClassRequired p1),
                     pp_SandboxRequired = pp_SandboxRequired ov,
                     pp_ApprovalMode =
                       (if trim_mode (pp_ApprovalMode ov) \<noteq> ApprovalOther []
                        then trim_mode (pp_ApprovalMode ov) else pp_ApprovalMode p1),
                     pp_RequireSecondApprover = pp_RequireSecondApprover ov,
                     pp_Breakglass = pp_Breakglass ov\<rparr>)
      in p2\<lparr>pp_ExecutionClassRequired :=
              (if pp_ExecutionClassRequired p2 = ExecOther [] then op_ExecutionClassRequired defaults
               else pp_ExecutionClassRequired p2),
            pp_ApprovalMode :=
              (if pp_ApprovalMode p2 = ApprovalOther [] then op_ApprovalMode defaults
               else pp_ApprovalMode p2)\<rparr>)"

definition initial_decision ::
  "CapacityThresholds \<Rightarrow> CommandPayload \<Rightarrow> CommandPolicyProfile \<Rightarrow> CommandPolicyDecision" where
  "initial_decision th cmd profile =
     (let c = classifyCommandWithMetadata (cmd_Command cmd) (cmd_Args cmd);
          risk = ClassifyRisk cmd;
          r = resolveLaneDecision c profile
      in \<lparr>de_Outcome = decisionOutcomeFromGate (lr_GateOutcome r), de_GateOutcome = lr_GateOutcome r,
          de_Lane = lr_SelectedLane r, de_RiskLevel = risk, de_RiskTier = riskTierForLevel risk,
          de_ReasonCode = (if lr_ReasonCode r = [] then ''policy.allowed'' else lr_ReasonCode r),
          de_Classification = c, de_Policy = profile,
          de_Rationale = \<lparr>ra_Policy = ''capacity-policy-v1'', ra_Summary = [], ra_Fallback = False,
            ra_Indicators = [], ra_Capacity = None, ra_Thresholds = th, ra_Lane = r\<rparr>\<rparr>)"

definition evaluateCommandPolicy ::
  "Service \<Rightarrow> capacity_reading \<Rightarrow> string \<Rightarrow> CommandPayload \<Rightarrow> CapabilityLevel \<Rightarrow>
   CommandPolicyProfile option \<Rightarrow> CommandPolicyDecision" where
  "evaluateCommandPolicy s reading probeID cmd level override =
     (let th = thresholds_normalized (sv_thresholds s);
          d = risk_step (ClassifyRisk cmd)
                (initial_decision th cmd (resolvePolicyProfile s probeID level override))
      in if de_Outcome d = CommandPolicyDecisionDeny \<and> has_prefix (de_ReasonCode d) ''policy.''
         then summarized d
         else case readCapacitySignals reading of
                Err e \<Rightarrow> summarized (fallback_step (Some e) d)
              | Ok None \<Rightarrow> summarized (fallback_step None d)
              | Ok (Some c) \<Rightarrow> summarized (capacity_steps th c d))"

definition EvaluateCommandPolicyForProbe ::
  "Service \<Rightarrow> capacity_reading \<Rightarrow> string \<Rightarrow> CommandPayload \<Rightarrow> CapabilityLevel \<Rightarrow> CommandPolicyDecision" where
  "EvaluateCommandPolicyForProbe s reading probeID cmd level =
     evaluateCommandPolicy s reading probeID cmd level None"

definition EvaluateCommandPolicy ::
  "Service \<Rightarrow> capacity_reading \<Rightarrow> CommandPayload \<Rightarrow> CapabilityLevel \<Rightarrow> CommandPolicyDecision" where
  "EvaluateCommandPolicy s reading cmd level = evaluateCommandPolicy s reading [] cmd level None"

definition EvaluateCommandPolicyPreview ::
  "Service \<Rightarrow> capacity_reading \<Rightarrow> string \<Rightarrow> CommandPayload \<Rightarrow> CapabilityLevel \<Rightarrow>
   CommandPolicyProfile option \<Rightarrow> CommandPolicyDecision" where
  "EvaluateCommandPolicyPreview s reading probeID cmd level override =
     evaluateCommandPolicy s reading probeID cmd level override"

section \<open>The service\<close>

text \<open>
  The constructor with the thresholds and the two-person mode its options set. The command of a
  request is never nil here, and the dispatch function is always given.
\<close>

definition NewService :: "CapacityThresholds option \<Rightarrow> bool \<Rightarrow> Service" where
  "NewService th twoPerson =
     \<lparr>sv_thresholds = (case th of None \<Rightarrow> DefaultCapacityThresholds | Some t \<Rightarrow> t),
      sv_twoPersonMode = twoPerson, sv_applied = []\<rparr>"

text \<open>
  Submission: a command that the policy queues becomes a request of the approval queue. The times and
  the id are those of the queue's \<^verbatim>\<open>Submit\<close>.
\<close>

definition SubmitCommandApprovalWithContext ::
  "Service \<Rightarrow> capacity_reading \<Rightarrow> time \<Rightarrow> time \<Rightarrow> string \<Rightarrow> string \<Rightarrow> CommandPayload \<Rightarrow> CapabilityLevel \<Rightarrow>
   string \<Rightarrow> string \<Rightarrow> CommandPolicyRationale Queue \<Rightarrow>
   (CommandPolicyDecision \<times> (queue_error + CommandPolicyRationale Request option)) \<times>
   CommandPolicyRationale Queue" where
  "SubmitCommandApprovalWithContext s reading tevict now uuid probeID cmd level reason requester q =
     (let d = EvaluateCommandPolicyForProbe s reading probeID cmd level
      in if de_Outcome d \<noteq> CommandPolicyDecisionQueue then ((d, Ok None), q)
         else
           let second = (sv_twoPersonMode s \<and> de_RiskTier d \<ge> 3 \<and> pp_RequireSecondApprover (de_Policy d))
           in case SubmitWithPolicyDetailsAndOptions tevict now uuid q probeID cmd reason
                     (de_RiskLevel d) requester (outcome_text (de_Outcome d)) (Some (de_Rationale d))
                     \<lparr>so_RequireSecondApprover = second\<rparr> of
                (Err e, q') \<Rightarrow> ((d, Err e), q')
              | (Ok req, q') \<Rightarrow> ((d, Ok (Some req)), q'))"

definition SubmitCommandApproval ::
  "Service \<Rightarrow> capacity_reading \<Rightarrow> time \<Rightarrow> time \<Rightarrow> string \<Rightarrow> string \<Rightarrow> CommandPayload \<Rightarrow> CapabilityLevel \<Rightarrow>
   string \<Rightarrow> string \<Rightarrow> CommandPolicyRationale Queue \<Rightarrow>
   (CommandPolicyRationale Request option \<times> bool \<times> queue_error option) \<times> CommandPolicyRationale Queue" where
  "SubmitCommandApproval s reading tevict now uuid probeID cmd level reason requester q =
     (case SubmitCommandApprovalWithContext s reading tevict now uuid probeID cmd level reason requester q of
        ((d, Err e), q') \<Rightarrow> ((None, de_Outcome d = CommandPolicyDecisionQueue, Some e), q')
      | ((d, Ok req), q') \<Rightarrow> ((req, de_Outcome d = CommandPolicyDecisionQueue, None), q'))"

record 'r ApprovalDecisionResult =
  dr_Request :: "'r Request"
  dr_RequiresDispatch :: bool

definition DecideApproval ::
  "time \<Rightarrow> time \<Rightarrow> 'r Queue \<Rightarrow> string \<Rightarrow> Decision \<Rightarrow> string \<Rightarrow>
   (queue_error + 'r ApprovalDecisionResult) \<times> 'r Queue" where
  "DecideApproval tcheck now q rid decision decidedBy =
     (case Decide tcheck now q rid decision decidedBy of
        (Err e, q') \<Rightarrow> (Err e, q')
      | (Ok req, q') \<Rightarrow>
          (Ok \<lparr>dr_Request = req, dr_RequiresDispatch = (req_Decision req = DecisionApproved)\<rparr>, q'))"

text \<open>
  What a decision does to the outside, in order: the hook on the recorded decision, the dispatch of
  the command, the hook on the dispatch. Each may fail with a text.
\<close>

datatype 'r decision_effect =
    DecisionRecorded "'r Request"
  | CommandDispatched string CommandPayload
  | ApprovedDispatchDone "'r Request"

datatype decide_error =
    DecideQueueError queue_error
  | DecisionHookError bool string
  | ApprovedDispatchError string

record 'r decision_world =
  dw_recorded :: "'r ApprovalDecisionResult \<Rightarrow> string option"
  dw_dispatch :: "string \<Rightarrow> CommandPayload \<Rightarrow> string option"
  dw_dispatched :: "'r ApprovalDecisionResult \<Rightarrow> string option"

definition DecideAndDispatch ::
  "'r decision_world \<Rightarrow> time \<Rightarrow> time \<Rightarrow> 'r Queue \<Rightarrow> string \<Rightarrow> Decision \<Rightarrow> string \<Rightarrow>
   ('r ApprovalDecisionResult option \<times> decide_error option) \<times> 'r decision_effect list \<times> 'r Queue" where
  "DecideAndDispatch w tcheck now q rid decision decidedBy =
     (case DecideApproval tcheck now q rid decision decidedBy of
        (Err e, q') \<Rightarrow> ((None, Some (DecideQueueError e)), [], q')
      | (Ok result, q') \<Rightarrow>
          let req = dr_Request result; recorded = DecisionRecorded req
          in (case dw_recorded w result of
                Some e \<Rightarrow> ((Some result, Some (DecisionHookError False e)), [recorded], q')
              | None \<Rightarrow>
                  if \<not> dr_RequiresDispatch result then ((Some result, None), [recorded], q')
                  else
                    let sent = CommandDispatched (req_ProbeID req) (req_Command req)
                    in (case dw_dispatch w (req_ProbeID req) (req_Command req) of
                          Some e \<Rightarrow> ((Some result, Some (ApprovedDispatchError e)), [recorded, sent], q')
                        | None \<Rightarrow>
                            ((Some result, map_option (DecisionHookError True) (dw_dispatched w result)),
                             [recorded, sent, ApprovedDispatchDone req], q'))))"

datatype apply_error = ErrProbeNotFound | ErrPolicyTemplateNotFound

definition template_context :: "Template \<Rightarrow> string \<times> TemplateOptions" where
  "template_context tpl =
     (tp_ID tpl, zero_options\<lparr>op_ExecutionClassRequired := tp_ExecutionClassRequired tpl,
        op_SandboxRequired := tp_SandboxRequired tpl, op_ApprovalMode := tp_ApprovalMode tpl,
        op_RequireSecondApprover := tp_RequireSecondApprover tpl,
        op_Breakglass := tp_Breakglass tpl, op_MaxRuntimeSec := tp_MaxRuntimeSec tpl,
        op_AllowedScopes := copy_slice (Some (tp_AllowedScopes tpl))\<rparr>)"

definition rememberAppliedPolicy :: "string \<Rightarrow> Template \<Rightarrow> Service \<Rightarrow> Service" where
  "rememberAppliedPolicy probeID tpl s =
     (if probeID = [] then s
      else s\<lparr>sv_applied := gput probeID (template_context tpl) (sv_applied s)\<rparr>)"

text \<open>
  \<open>levels\<close> is the fleet's view: the policy level of every known probe. The policy that is
  pushed to the probe is the result's third part, where the push succeeded.
\<close>

definition ApplyPolicyTemplate ::
  "(string \<Rightarrow> PolicyUpdatePayload \<Rightarrow> bool) option \<Rightarrow> string \<Rightarrow> string \<Rightarrow> Store \<Rightarrow> CapabilityLevel gmap \<Rightarrow> Service \<Rightarrow>
   (apply_error + Template \<times> bool) \<times> PolicyUpdatePayload option \<times> CapabilityLevel gmap \<times> Service" where
  "ApplyPolicyTemplate push probeID policyID templates levels s =
     (if gget levels probeID = None then (Err ErrProbeNotFound, None, levels, s)
      else case tpl_Get policyID templates of
             None \<Rightarrow> (Err ErrPolicyTemplateNotFound, None, levels, s)
           | Some tpl \<Rightarrow>
               let levels' = gput probeID (tp_Level tpl) levels;
                   s' = rememberAppliedPolicy probeID tpl s
               in (case push of
                     None \<Rightarrow> (Ok (tpl, True), None, levels', s')
                   | Some f \<Rightarrow>
                       if f probeID (ToPolicy tpl) then (Ok (tpl, True), Some (ToPolicy tpl), levels', s')
                       else (Ok (tpl, False), None, levels', s')))"

text \<open>What the capacity figures alone ask for.\<close>

definition capacity_denies :: "CapacityThresholds \<Rightarrow> CapacitySignals \<Rightarrow> bool" where
  "capacity_denies th c \<longleftrightarrow>
     to_lower (trim_space (cs_Availability c)) = ''degraded'' \<or> cs_DatasourceCount c < ct_MinDatasourceCount th"

definition capacity_queues :: "CapacityThresholds \<Rightarrow> CapacitySignals \<Rightarrow> bool" where
  "capacity_queues th c \<longleftrightarrow>
     to_lower (trim_space (cs_Availability c)) \<in> {''limited'', ''insufficient''} \<or>
     0 < cs_DashboardCoverage c \<and> cs_DashboardCoverage c < ct_MinDashboardCoverage th \<or>
     0 < cs_QueryCoverage c \<and> cs_QueryCoverage c < ct_MinQueryCoverage th"

definition demo_service :: Service where
  "demo_service = NewService None True"

section \<open>Lemmas\<close>

subsection \<open>The two classifiers\<close>

lemma contains_str_append: "contains_str s (t @ u) \<Longrightarrow> contains_str s t"
proof (induction s)
  case (Cons c s)
  then show ?case by (auto intro: append_prefixD)
qed simp

lemma contains_wget: "contains_str s '' -o'' \<or> contains_str s '' -o '' \<longleftrightarrow> contains_str s '' -o''"
  using contains_str_append [of s "'' -o''" "'' ''"] by auto

lemma cp_lists:
  "cp_remediatePrefixes = remediatePrefixes" "cp_observePrefixes = observePrefixes"
  "cp_diagnosePrefixes = diagnosePrefixes" "cp_diagnoseCommands = diagnoseCommands"
  "cp_observeCommands = observeCommands @ [''sh'', ''bash'']"
  by (simp_all add: cp_remediatePrefixes_def remediatePrefixes_def cp_observePrefixes_def observePrefixes_def
      cp_diagnosePrefixes_def diagnosePrefixes_def cp_diagnoseCommands_def diagnoseCommands_def
      cp_observeCommands_def observeCommands_def)

lemma cp_parts: "normalizeCommandParts = normalizedCommand"
  by (intro ext) (simp add: normalizeCommandParts_def normalizedCommand_def)

lemma classify_same:
  assumes "snd (normalizedCommand command args) \<noteq> ''sh''" "snd (normalizedCommand command args) \<noteq> ''bash''"
  shows "classifyCommandWithMetadata command args = ClassifyCommandWithMetadata command args"
proof -
  obtain full base where n: "normalizedCommand command args = (full, base)" by fastforce
  have m: "base \<in> set (observeCommands @ [''sh'', ''bash'']) \<longleftrightarrow> base \<in> set observeCommands"
    using assms n by auto
  show ?thesis
    unfolding classifyCommandWithMetadata_def ClassifyCommandWithMetadata_def cp_parts cp_lists n Let_def
      prod.case contains_wget m ..
qed

lemma classify_shell:
  assumes "normalizedCommand command args = (full, base)" "base = ''sh'' \<or> base = ''bash''"
    and "cc_Level (classifyCommandWithMetadata command args) = CapRemediate"
  shows "cc_Level (ClassifyCommandWithMetadata command args) = CapRemediate"
proof -
  have "list_ex (\<lambda>p. has_prefix full p \<or> has_prefix base p) remediatePrefixes"
  proof (rule ccontr)
    assume "\<not> list_ex (\<lambda>p. has_prefix full p \<or> has_prefix base p) remediatePrefixes"
    then show False
      using assms by (auto simp: classifyCommandWithMetadata_def cp_parts cp_lists split: if_splits)
  qed
  then show ?thesis by (simp add: ClassifyCommandWithMetadata_def assms(1))
qed

lemma classify_remediate:
  assumes "cc_Level (classifyCommandWithMetadata command args) = CapRemediate"
  shows "ClassifyCommand command args = CapRemediate"
proof (cases "snd (normalizedCommand command args) = ''sh'' \<or> snd (normalizedCommand command args) = ''bash''")
  case True
  then show ?thesis
    using classify_shell [OF prod.collapse [symmetric] _ assms] by (simp add: ClassifyCommand_def)
next
  case False
  then show ?thesis using assms classify_same by (simp add: ClassifyCommand_def)
qed

subsection \<open>Outcomes\<close>

lemma outcome_add [simp]:
  "de_Outcome (add_indicator i d) = de_Outcome d" "de_ReasonCode (add_indicator i d) = de_ReasonCode d"
  "de_GateOutcome (add_indicator i d) = de_GateOutcome d" "de_Lane (add_indicator i d) = de_Lane d"
  "de_Classification (add_indicator i d) = de_Classification d"
  by (simp_all add: add_indicator_def)

lemma outcome_merge_reason [simp]:
  "de_Outcome (mergeDecisionWithReason d o' code) = mergeDecisionOutcome (de_Outcome d) o'"
  by (simp add: mergeDecisionWithReason_def Let_def)

lemma outcome_capacity_fail [simp]:
  "de_Outcome (capacity_fail b msg code i d) =
   mergeDecisionOutcome (de_Outcome d) (if b then CommandPolicyDecisionDeny else CommandPolicyDecisionQueue)"
  by (simp add: capacity_fail_def)

lemma outcome_summarized [simp]:
  "de_Outcome (summarized d) = de_Outcome d" "de_Lane (summarized d) = de_Lane d"
  "de_GateOutcome (summarized d) = de_GateOutcome d" "de_ReasonCode (summarized d) = de_ReasonCode d"
  "de_Classification (summarized d) = de_Classification d"
  by (simp_all add: summarized_def)

lemma outcome_fallback [simp]:
  "de_Outcome (fallback_step err d) = de_Outcome d" "de_Lane (fallback_step err d) = de_Lane d"
  by (simp_all add: fallback_step_def Let_def)

lemma merge_simps [simp]:
  "mergeDecisionOutcome o' CommandPolicyDecisionDeny = CommandPolicyDecisionDeny"
  "mergeDecisionOutcome CommandPolicyDecisionDeny o' = CommandPolicyDecisionDeny"
  "mergeDecisionOutcome CommandPolicyDecisionAllow o' = o'"
  "mergeDecisionOutcome o' CommandPolicyDecisionAllow = o'"
  "mergeDecisionOutcome CommandPolicyDecisionQueue CommandPolicyDecisionQueue = CommandPolicyDecisionQueue"
  by (cases o'; simp add: mergeDecisionOutcome_def outcome_rank_def)+


lemma outcome_steps:
  "de_Outcome (availability_step c d) =
   mergeDecisionOutcome (de_Outcome d)
     (let a = to_lower (trim_space (cs_Availability c)) in
      if a = ''degraded'' then CommandPolicyDecisionDeny
      else if a = ''limited'' \<or> a = ''insufficient'' then CommandPolicyDecisionQueue
      else CommandPolicyDecisionAllow)"
  "de_Outcome (datasource_step th c d) =
   mergeDecisionOutcome (de_Outcome d)
     (if cs_DatasourceCount c < ct_MinDatasourceCount th then CommandPolicyDecisionDeny
      else CommandPolicyDecisionAllow)"
  "de_Outcome (dashboard_step th c d) =
   mergeDecisionOutcome (de_Outcome d)
     (if 0 < cs_DashboardCoverage c \<and> cs_DashboardCoverage c < ct_MinDashboardCoverage th
      then CommandPolicyDecisionQueue else CommandPolicyDecisionAllow)"
  "de_Outcome (query_step th c d) =
   mergeDecisionOutcome (de_Outcome d)
     (if 0 < cs_QueryCoverage c \<and> cs_QueryCoverage c < ct_MinQueryCoverage th
      then CommandPolicyDecisionQueue else CommandPolicyDecisionAllow)"
  "de_Outcome (partial_step c d) = de_Outcome d"
  by (simp_all add: availability_step_def datasource_step_def dashboard_step_def query_step_def
      partial_step_def Let_def del: One_nat_def)

lemma outcome_capacity_steps:
  "de_Outcome (capacity_steps th c d) =
   (if capacity_denies th c then CommandPolicyDecisionDeny
    else if capacity_queues th c then mergeDecisionOutcome (de_Outcome d) CommandPolicyDecisionQueue
    else de_Outcome d)"
proof -
  define a where "a = to_lower (trim_space (cs_Availability c))"
  have "de_Outcome (capacity_steps th c d) =
    mergeDecisionOutcome (mergeDecisionOutcome (mergeDecisionOutcome (mergeDecisionOutcome (de_Outcome d)
      (if a = ''degraded'' then CommandPolicyDecisionDeny
       else if a = ''limited'' \<or> a = ''insufficient'' then CommandPolicyDecisionQueue
       else CommandPolicyDecisionAllow))
      (if cs_DatasourceCount c < ct_MinDatasourceCount th then CommandPolicyDecisionDeny
       else CommandPolicyDecisionAllow))
      (if 0 < cs_DashboardCoverage c \<and> cs_DashboardCoverage c < ct_MinDashboardCoverage th
       then CommandPolicyDecisionQueue else CommandPolicyDecisionAllow))
      (if 0 < cs_QueryCoverage c \<and> cs_QueryCoverage c < ct_MinQueryCoverage th
       then CommandPolicyDecisionQueue else CommandPolicyDecisionAllow)"
    by (simp add: capacity_steps_def outcome_steps a_def Let_def)
  then show ?thesis
    unfolding capacity_denies_def capacity_queues_def a_def [symmetric]
    by (cases "de_Outcome d") (simp_all split: if_split)
qed


lemma outcome_risk_step:
  "de_Outcome (risk_step risk d) =
   (if risk = ''high'' \<or> risk = ''critical'' then mergeDecisionOutcome (de_Outcome d) CommandPolicyDecisionQueue
    else de_Outcome d)"
  by (cases "de_Outcome d") (simp_all add: risk_step_def Let_def)

lemma lane_merge [simp]: "de_Lane (mergeDecisionWithReason d o' code) = de_Lane d"
  by (simp add: mergeDecisionWithReason_def Let_def)

lemma lane_fail [simp]: "de_Lane (capacity_fail b msg code i d) = de_Lane d"
  by (simp add: capacity_fail_def)

lemma lane_one_step [simp]:
  "de_Lane (risk_step risk d) = de_Lane d" "de_Lane (availability_step c d) = de_Lane d"
  "de_Lane (datasource_step th c d) = de_Lane d" "de_Lane (dashboard_step th c d) = de_Lane d"
  "de_Lane (query_step th c d) = de_Lane d" "de_Lane (partial_step c d) = de_Lane d"
  by (simp_all add: risk_step_def availability_step_def datasource_step_def dashboard_step_def
      query_step_def partial_step_def Let_def)

lemma lane_steps [simp]: "de_Lane (capacity_steps th c d) = de_Lane d"
  by (simp add: capacity_steps_def)

lemma outcome_from_gate [simp]:
  "decisionOutcomeFromGate g = CommandPolicyDecisionAllow \<longleftrightarrow> g = CommandPolicyGateAllowed"
  "decisionOutcomeFromGate g = CommandPolicyDecisionDeny \<longleftrightarrow> g = CommandPolicyGateBlocked"
  "decisionOutcomeFromGate g = CommandPolicyDecisionQueue \<longleftrightarrow> g = CommandPolicyGatePendingApproval"
  by (cases g; simp add: decisionOutcomeFromGate_def)+

text \<open>The outcome in closed form: the lane's gate, tightened by the risk and by the capacity.\<close>

lemma evaluate_outcome:
  fixes s probeID cmd level ov
  defines "g \<equiv> lr_GateOutcome (resolveLaneDecision
      (classifyCommandWithMetadata (cmd_Command cmd) (cmd_Args cmd)) (resolvePolicyProfile s probeID level ov))"
    and "th \<equiv> thresholds_normalized (sv_thresholds s)"
  shows "de_Outcome (evaluateCommandPolicy s reading probeID cmd level ov) =
   (let base = (if ClassifyRisk cmd = ''high'' \<or> ClassifyRisk cmd = ''critical''
                then mergeDecisionOutcome (decisionOutcomeFromGate g) CommandPolicyDecisionQueue
                else decisionOutcomeFromGate g)
    in case readCapacitySignals reading of
         Ok (Some c) \<Rightarrow>
           if capacity_denies th c then CommandPolicyDecisionDeny
           else if capacity_queues th c then mergeDecisionOutcome base CommandPolicyDecisionQueue
           else base
       | _ \<Rightarrow> base)"
proof -
  define d where "d = risk_step (ClassifyRisk cmd)
      (initial_decision th cmd (resolvePolicyProfile s probeID level ov))"
  have d: "de_Outcome d = (if ClassifyRisk cmd = ''high'' \<or> ClassifyRisk cmd = ''critical''
      then mergeDecisionOutcome (decisionOutcomeFromGate g) CommandPolicyDecisionQueue
      else decisionOutcomeFromGate g)"
    by (simp add: d_def outcome_risk_step initial_decision_def Let_def g_def)
  show ?thesis
    unfolding evaluateCommandPolicy_def th_def [symmetric] Let_def d_def [symmetric] d [symmetric]
    by (auto simp: outcome_capacity_steps split: sum.split option.split)
qed

lemma evaluate_lane:
  "de_Lane (evaluateCommandPolicy s reading probeID cmd level ov) =
   lr_SelectedLane (resolveLaneDecision
      (classifyCommandWithMetadata (cmd_Command cmd) (cmd_Args cmd)) (resolvePolicyProfile s probeID level ov))"
  by (auto simp: evaluateCommandPolicy_def initial_decision_def Let_def split: sum.split option.split)

lemma merge_queue:
  "mergeDecisionOutcome o' CommandPolicyDecisionQueue \<noteq> CommandPolicyDecisionAllow"
  "mergeDecisionOutcome o' CommandPolicyDecisionQueue = CommandPolicyDecisionDeny \<longleftrightarrow> o' = CommandPolicyDecisionDeny"
  by (cases o'; simp add: mergeDecisionOutcome_def outcome_rank_def)+

subsection \<open>Lanes\<close>

lemma selected_lane:
  "select_lane c p \<in> {ExecObserveDirect, ExecDiagnoseSandbox, ExecRemediateSandbox, ExecBreakglassDirect}"
  by (cases "cc_Level c"; cases "pp_ExecutionClassRequired p")
     (simp_all add: select_lane_def laneFromCapability_def stricterLane_def lane_rank_def)

lemma approval_gate_lane [simp]:
  "lr_SelectedLane (approval_gate c p r) = lr_SelectedLane r"
  by (simp add: approval_gate_def Let_def split: ApprovalMode.split)

lemma approval_gate_free:
  "lr_GateOutcome r = CommandPolicyGateAllowed \<Longrightarrow>
   lr_GateOutcome (approval_gate c p r) \<noteq> CommandPolicyGateBlocked \<and>
   (lr_GateOutcome (approval_gate c p r) = CommandPolicyGateAllowed \<longrightarrow>
     pp_ApprovalMode p = ApprovalNone \<or>
     cc_Level c \<noteq> CapRemediate \<and>
       pp_ApprovalMode p \<notin> {ApprovalPlanFirst, ApprovalEveryAction, ApprovalTwoPerson})"
  by (cases "pp_ApprovalMode p") (simp_all add: approval_gate_def Let_def)

lemma lane_cases:
  fixes c p
  defines "r \<equiv> resolveLaneDecision c p"
  obtains
    (blocked) "lr_GateOutcome r = CommandPolicyGateBlocked"
      "lr_SelectedLane r \<in> {ExecObserveDirect, ExecDiagnoseSandbox, ExecRemediateSandbox, ExecBreakglassDirect}"
  | (breakglass) "lr_GateOutcome r = CommandPolicyGatePendingApproval" "lr_SelectedLane r = ExecBreakglassDirect"
      "cc_Level c = CapRemediate" "cc_SignatureKnown c" "bg_Enabled (pp_Breakglass p)" "\<not> pp_SandboxRequired p"
  | (sandboxed) r0 where "lr_GateOutcome r0 = CommandPolicyGateAllowed" "r = approval_gate c p r0"
      "lr_SelectedLane r0 \<in> {ExecDiagnoseSandbox, ExecRemediateSandbox}"
      "cc_Level c = CapRemediate \<longrightarrow> cc_SignatureKnown c \<and> lr_SelectedLane r0 = ExecRemediateSandbox"
  | (direct) r0 where "lr_GateOutcome r0 = CommandPolicyGateAllowed" "r = approval_gate c p r0"
      "lr_SelectedLane r0 = ExecObserveDirect" "cc_Level c \<noteq> CapRemediate" "\<not> pp_SandboxRequired p"
proof -
  let ?r0 = "\<lambda>l code. \<lparr>lr_SelectedLane = l, lr_GateOutcome = CommandPolicyGateAllowed, lr_ReasonCode = code\<rparr>"
  note defs = r_def resolveLaneDecision_def mutation_checks_def sandbox_checks_def Let_def
  define l where "l = select_lane c p"
  have l: "l \<in> {ExecObserveDirect, ExecDiagnoseSandbox, ExecRemediateSandbox, ExecBreakglassDirect}"
    using selected_lane l_def by simp
  show thesis
  proof (cases "cc_Level c = CapRemediate")
    case lev: True
    show thesis
    proof (cases "cc_SignatureKnown c \<and> l \<noteq> ExecObserveDirect")
      case known: True
      consider "l = ExecBreakglassDirect" | "l = ExecDiagnoseSandbox" | "l = ExecRemediateSandbox"
        using l known by blast
      then show thesis
      proof cases
        case 1
        show thesis
        proof (cases "bg_Enabled (pp_Breakglass p) \<and> \<not> pp_SandboxRequired p")
          case True
          with 1 lev known show thesis by (intro breakglass) (simp_all add: defs l_def)
        next
          case False
          with 1 lev known show thesis by (intro blocked) (auto simp: defs l_def)
        qed
      next
        case 2
        with lev known show thesis
          by (intro sandboxed [of "?r0 ExecRemediateSandbox ''policy.lane_escalated''"]) (simp_all add: defs l_def)
      next
        case 3
        with lev known show thesis
          by (intro sandboxed [of "?r0 l ''policy.allowed''"]) (simp_all add: defs l_def)
      qed
    next
      case False
      with lev l show thesis by (intro blocked) (auto simp: defs l_def)
    qed
  next
    case lev: False
    consider "l = ExecBreakglassDirect" | "l = ExecObserveDirect" "pp_SandboxRequired p"
      | "l = ExecObserveDirect" "\<not> pp_SandboxRequired p"
      | "l = ExecDiagnoseSandbox \<or> l = ExecRemediateSandbox" using l by blast
    then show thesis
    proof cases
      case 1
      with lev show thesis by (intro blocked) (simp_all add: defs l_def)
    next
      case 2
      with lev show thesis
        by (intro sandboxed [of "?r0 ExecDiagnoseSandbox ''policy.sandbox_escalated''"]) (simp_all add: defs l_def)
    next
      case 3
      with lev show thesis
        by (intro direct [of "?r0 l ''policy.allowed''"]) (simp_all add: defs l_def)
    next
      case 4
      with lev show thesis
        by (intro sandboxed [of "?r0 l ''policy.allowed''"]) (auto simp: defs l_def)
    qed
  qed
qed


subsection \<open>Dispatch\<close>

lemma dispatch_cases:
  assumes "DecideAndDispatch w tc now q rid d decidedBy = (res, effects, q')"
    and "CommandDispatched p c \<in> set effects"
  obtains r0 where "gget (q_requests q) rid = Some r0" "req_Decision r0 = DecisionPending"
    "tc \<le> req_ExpiresAt r0" "d = DecisionApproved" "p = req_ProbeID r0" "c = req_Command r0"
    "gget (q_requests q') rid = Some (approve_request now (trim_space decidedBy) r0)"
    "req_Decision (approve_request now (trim_space decidedBy) r0) = DecisionApproved"
    "q' = snd (Decide tc now q rid d decidedBy)"
    "filter (\<lambda>e. case e of CommandDispatched _ _ \<Rightarrow> True | _ \<Rightarrow> False) effects = [CommandDispatched p c]"
proof (cases rule: Decide_cases [of tc now q rid d decidedBy])
  case (approved r)
  define r' where "r' = approve_request now (trim_space decidedBy) r"
  have r': "req_ProbeID r' = req_ProbeID r" "req_Command r' = req_Command r"
    by (simp_all add: r'_def approve_request_def Let_def)
  have "req_Decision r' = DecisionApproved \<and> p = req_ProbeID r \<and> c = req_Command r \<and>
     q' = q\<lparr>q_requests := gput rid r' (q_requests q)\<rparr> \<and>
     filter (\<lambda>e. case e of CommandDispatched _ _ \<Rightarrow> True | _ \<Rightarrow> False) effects = [CommandDispatched p c]"
    using assms unfolding DecideAndDispatch_def DecideApproval_def approved(7) r'_def [symmetric]
    by (auto simp: Let_def r' split: option.splits if_splits)
  then show ?thesis
    using that [of r] approved r'_def by (simp add: gget_gput)
next
  case (denied r)
  define r' where "r' = deny_request now (trim_space decidedBy) r"
  have "req_Decision r' \<noteq> DecisionApproved" by (simp add: r'_def deny_request_def)
  then show ?thesis
    using assms unfolding DecideAndDispatch_def DecideApproval_def denied(6) r'_def [symmetric]
    by (auto simp: Let_def split: option.splits)
next
  case (expired r)
  show ?thesis using assms unfolding DecideAndDispatch_def DecideApproval_def expired(4) by simp
next
  case (unchanged e)
  show ?thesis using assms unfolding DecideAndDispatch_def DecideApproval_def unchanged by simp
qed

lemma no_dispatch_decided:
  assumes "gget (q_requests q) rid = None \<or> gget (q_requests q) rid = Some r \<and> req_Decision r \<noteq> DecisionPending"
  shows "fst (snd (DecideAndDispatch w tc now q rid d decidedBy)) = []"
  using assms by (auto simp: DecideAndDispatch_def DecideApproval_def Decide_def Let_def)

section \<open>Properties\<close>

text \<open>
  Property C14. The control plane and the probe classify a command alike, down to the reason, as long
  as the command is not a shell (\<^verbatim>\<open>sh\<close>, \<^verbatim>\<open>bash\<close>); and a
  command that the control plane takes for a mutation is one for the probe as well, shell or not.
\<close>

theorem classifiers_agree:
  "(snd (normalizedCommand command args) \<notin> {''sh'', ''bash''} \<longrightarrow>
      classifyCommandWithMetadata command args = ClassifyCommandWithMetadata command args) \<and>
   (cc_Level (classifyCommandWithMetadata command args) = CapRemediate \<longrightarrow>
      ClassifyCommand command args = CapRemediate)"
  using classify_same classify_remediate by blast

theorem classifiers_agree_witness:
  "classifyCommandWithMetadata ''/bin/rm'' [''-rf'', ''/''] = ClassifyCommandWithMetadata ''/bin/rm'' [''-rf'', ''/''] \<and>
   ClassifyCommand ''rm'' [''-rf'', ''/''] = CapRemediate"
proof -
  have "snd (normalizedCommand ''/bin/rm'' [''-rf'', ''/'']) \<notin> {''sh'', ''bash''}"
    "cc_Level (classifyCommandWithMetadata ''rm'' [''-rf'', ''/'']) = CapRemediate" by code_simp+
  then show ?thesis
    using classifiers_agree [of "''/bin/rm''"] classifiers_agree [of "''rm''"] by blast
qed

text \<open>
  Property C12. What decides a command. It goes out at once exactly when the lane's gate is open, its
  risk is neither high nor critical and the capacity signals, if there are any, neither deny nor
  queue it. It is denied exactly when the gate is blocked or the capacity signals deny it. Capacity
  signals that cannot be read never loosen the outcome: it is the outcome of the gate and the risk.
\<close>

theorem command_policy_outcome:
  "let g = lr_GateOutcome (resolveLaneDecision
             (classifyCommandWithMetadata (cmd_Command cmd) (cmd_Args cmd))
             (resolvePolicyProfile s probeID level ov));
       th = thresholds_normalized (sv_thresholds s);
       outcome = de_Outcome (evaluateCommandPolicy s reading probeID cmd level ov)
   in (outcome = CommandPolicyDecisionAllow \<longleftrightarrow>
        g = CommandPolicyGateAllowed \<and> ClassifyRisk cmd \<noteq> ''high'' \<and> ClassifyRisk cmd \<noteq> ''critical'' \<and>
        (case readCapacitySignals reading of
           Ok (Some c) \<Rightarrow> \<not> capacity_denies th c \<and> \<not> capacity_queues th c | _ \<Rightarrow> True)) \<and>
      (outcome = CommandPolicyDecisionDeny \<longleftrightarrow>
        g = CommandPolicyGateBlocked \<or>
        (case readCapacitySignals reading of Ok (Some c) \<Rightarrow> capacity_denies th c | _ \<Rightarrow> False))"
  unfolding evaluate_outcome Let_def
  by (auto simp: merge_queue split: sum.split option.split)

text \<open>
  Property C6. What the choice of a lane guarantees for every command it does not block. A policy that
  requires the sandbox never selects a lane on the host. A mutation has a known signature, never runs
  in the observe lane, and runs on the host only through an enabled breakglass and with an approval;
  it passes without any approval only where the policy's approval mode is none. The lane is always
  one of the four the ranking knows, so the WebAssembly lane is never selected.
\<close>

theorem lane_is_safe:
  fixes c p
  defines "r \<equiv> resolveLaneDecision c p"
  assumes "lr_GateOutcome r \<noteq> CommandPolicyGateBlocked"
  shows "(pp_SandboxRequired p \<longrightarrow> lr_SelectedLane r \<in> {ExecDiagnoseSandbox, ExecRemediateSandbox}) \<and>
    (cc_Level c = CapRemediate \<longrightarrow> cc_SignatureKnown c \<and>
      (lr_SelectedLane r = ExecRemediateSandbox \<or>
       lr_SelectedLane r = ExecBreakglassDirect \<and> bg_Enabled (pp_Breakglass p) \<and> \<not> pp_SandboxRequired p \<and>
         lr_GateOutcome r = CommandPolicyGatePendingApproval) \<and>
      (lr_GateOutcome r = CommandPolicyGateAllowed \<longrightarrow> pp_ApprovalMode p = ApprovalNone)) \<and>
    lr_SelectedLane r \<in> {ExecObserveDirect, ExecDiagnoseSandbox, ExecRemediateSandbox, ExecBreakglassDirect}"
proof (cases rule: lane_cases [of c p])
  case blocked
  then show ?thesis using assms(2) by (simp add: r_def)
next
  case breakglass
  then show ?thesis by (simp add: r_def)
next
  case (sandboxed r0)
  then show ?thesis using approval_gate_free [of r0 c p] by (auto simp: r_def)
next
  case (direct r0)
  then show ?thesis using approval_gate_free [of r0 c p] by (auto simp: r_def)
qed

theorem lane_is_safe_witness:
  "let c = classifyCommandWithMetadata ''systemctl'' [''restart'', ''nginx''];
       p = resolvePolicyProfile demo_service ''p1'' CapRemediate None in
   pp_SandboxRequired p \<and> lr_SelectedLane (resolveLaneDecision c p) \<in> {ExecDiagnoseSandbox, ExecRemediateSandbox}"
proof -
  let ?c = "classifyCommandWithMetadata ''systemctl'' [''restart'', ''nginx'']"
  let ?p = "resolvePolicyProfile demo_service ''p1'' CapRemediate None"
  have "lr_GateOutcome (resolveLaneDecision ?c ?p) \<noteq> CommandPolicyGateBlocked" by code_simp
  moreover have "pp_SandboxRequired ?p" by code_simp
  ultimately show ?thesis using lane_is_safe [of ?c ?p] by (simp add: Let_def)
qed



end
