(* ===== verification/Timestamps.thy ===== *)
theory Timestamps
  imports Go_Prelude
begin

text \<open>
  The stores keep a time as the text of \<^verbatim>\<open>Format(time.RFC3339Nano)\<close> in UTC and let
  SQLite compare the texts byte by byte. The text up to the second has a fixed width for the years
  0 to 9999, so it compares as the number of seconds does; what follows is the fraction without
  trailing zeros (nothing when it is zero) and the letter \<open>Z\<close>. \<open>text_le\<close> is the order
  of the texts on times.
\<close>

fun bytes_le :: "string \<Rightarrow> string \<Rightarrow> bool" where
  "bytes_le [] t \<longleftrightarrow> True"
| "bytes_le (c # s) [] \<longleftrightarrow> False"
| "bytes_le (c # s) (d # t) \<longleftrightarrow>
     (of_char c :: nat) < of_char d \<or> c = d \<and> bytes_le s t"

definition digit_char :: "nat \<Rightarrow> char" where
  "digit_char n = char_of (48 + n mod 10)"

text \<open>The nine digits of the nanoseconds of a second, the least significant first.\<close>

definition nano_digits :: "nat \<Rightarrow> nat list" where
  "nano_digits n = map (\<lambda>i. n div 10 ^ i mod 10) [0..<9]"

definition frac_text :: "nat \<Rightarrow> string" where
  "frac_text n =
     (let ds = dropWhile (\<lambda>d. d = 0) (nano_digits n)
      in if ds = [] then [] else CHR ''.'' # map digit_char (rev ds))"

definition ts_tail :: "time \<Rightarrow> string" where
  "ts_tail t = frac_text (nat (t mod Second)) @ ''Z''"

definition text_le :: "time \<Rightarrow> time \<Rightarrow> bool" where
  "text_le t u \<longleftrightarrow>
     t div Second < u div Second \<or>
     t div Second = u div Second \<and> bytes_le (ts_tail t) (ts_tail u)"

text \<open>\<^verbatim>\<open>ORDER BY\<close> on such a column; rows with the same text stay in insertion order.\<close>

fun insert_by :: "('a \<Rightarrow> 'a \<Rightarrow> bool) \<Rightarrow> 'a \<Rightarrow> 'a list \<Rightarrow> 'a list" where
  "insert_by le x [] = [x]"
| "insert_by le x (y # ys) = (if le x y then x # y # ys else y # insert_by le x ys)"

definition sort_by :: "('a \<Rightarrow> 'a \<Rightarrow> bool) \<Rightarrow> 'a list \<Rightarrow> 'a list" where
  "sort_by le xs = foldr (insert_by le) xs []"

section \<open>Lemmas\<close>

lemma bytes_le_refl [simp]: "bytes_le s s"
  by (induction s) auto

lemma bytes_le_total: "bytes_le s t \<or> bytes_le t s"
proof (induction s t rule: bytes_le.induct)
  case (3 c s d t)
  consider "(of_char c :: nat) < of_char d" | "(of_char d :: nat) < of_char c"
    | "(of_char c :: nat) = of_char d" by linarith
  then show ?case using 3 by cases auto
qed auto

lemma bytes_le_trans: "bytes_le s t \<Longrightarrow> bytes_le t u \<Longrightarrow> bytes_le s u"
proof (induction s t arbitrary: u rule: bytes_le.induct)
  case (3 c s d t)
  then show ?case by (cases u) auto
qed auto

lemma bytes_le_antisym: "bytes_le s t \<Longrightarrow> bytes_le t s \<Longrightarrow> s = t"
proof (induction s t rule: bytes_le.induct)
  case (1 t)
  then show ?case by (cases t) auto
qed auto

lemma text_le_refl [simp]: "text_le t t"
  by (simp add: text_le_def)

lemma text_le_total: "text_le t u \<or> text_le u t"
  using bytes_le_total by (auto simp: text_le_def)

lemma text_le_trans: "text_le t u \<Longrightarrow> text_le u v \<Longrightarrow> text_le t v"
  by (auto simp: text_le_def intro: bytes_le_trans)

text \<open>The text order is right up to the second \<dots>\<close>

lemma text_le_seconds: "text_le t u \<Longrightarrow> t div Second \<le> u div Second"
  by (auto simp: text_le_def)

lemma text_le_later: "text_le t u \<Longrightarrow> t < u + Second"
proof -
  assume "text_le t u"
  then have "t div Second \<le> u div Second" by (rule text_le_seconds)
  moreover have "t = 1000000000 * (t div Second) + t mod Second"
    "u = 1000000000 * (u div Second) + u mod Second"
    "t mod Second < 1000000000" "0 \<le> u mod Second"
    by (simp_all add: Second_def)
  ultimately show ?thesis unfolding Second_def by linarith
qed

lemma text_le_of_seconds: "t div Second < u div Second \<Longrightarrow> text_le t u \<and> \<not> text_le u t"
  by (auto simp: text_le_def)

text \<open>\<dots> and wrong inside it: a fraction sorts before the whole second it follows.\<close>

lemma frac_text_dot: "n \<noteq> 0 \<Longrightarrow> n < 10 ^ 9 \<Longrightarrow> \<exists>ds. frac_text n = CHR ''.'' # ds"
proof -
  assume n: "n \<noteq> 0" "n < 10 ^ 9"
  have "\<not> (\<forall>i < 9. n div 10 ^ i mod 10 = 0)"
  proof
    assume z: "\<forall>i < 9. n div 10 ^ i mod 10 = 0"
    have "n mod 10 ^ k = 0" if "k \<le> 9" for k
      using that
    proof (induction k)
      case (Suc k)
      have "n mod 10 ^ Suc k = 10 ^ k * (n div 10 ^ k mod 10) + n mod 10 ^ k"
        by (simp only: power_Suc2 mod_mult2_eq)
      then show ?case using Suc z by simp
    qed simp
    from this [of 9] n show False by simp
  qed
  then have "dropWhile (\<lambda>d. d = 0) (nano_digits n) \<noteq> []"
    by (auto simp: nano_digits_def)
  then show ?thesis by (simp add: frac_text_def Let_def)
qed

lemma frac_text_0: "frac_text 0 = []"
  by (simp add: frac_text_def nano_digits_def Let_def)

lemma text_order_inverted:
  assumes "t mod Second \<noteq> 0"
  shows "text_le t (t - t mod Second) \<and> \<not> text_le (t - t mod Second) t"
proof -
  have "nat (t mod Second) \<noteq> 0" "nat (t mod Second) < 10 ^ 9"
    using assms by (auto simp: Second_def)
  then obtain ds where ds: "frac_text (nat (t mod Second)) = CHR ''.'' # ds"
    using frac_text_dot by blast
  have "(t - t mod Second) div Second = t div Second" "(t - t mod Second) mod Second = 0"
    by (simp_all add: Second_def minus_mod_eq_mult_div mod_mult_self1_is_0)
  then show ?thesis by (simp add: text_le_def ts_tail_def ds frac_text_0)
qed

lemma set_insert_by [simp]: "set (insert_by le x xs) = insert x (set xs)"
  by (induction xs) auto

lemma mset_insert_by [simp]: "mset (insert_by le x xs) = add_mset x (mset xs)"
  by (induction xs) auto

lemma mset_sort_by [simp]: "mset (sort_by le xs) = mset xs"
  by (induction xs) (auto simp: sort_by_def)

lemma set_sort_by [simp]: "set (sort_by le xs) = set xs"
  by (metis mset_sort_by set_mset_mset)

lemma length_sort_by [simp]: "length (sort_by le xs) = length xs"
  by (metis mset_sort_by size_mset)

lemma sorted_insert_by:
  assumes total: "\<And>a b. le a b \<or> le b a" and trans: "\<And>a b c. le a b \<Longrightarrow> le b c \<Longrightarrow> le a c"
  shows "sorted_wrt le xs \<Longrightarrow> sorted_wrt le (insert_by le x xs)"
proof (induction xs)
  case (Cons y ys)
  show ?case
  proof (cases "le x y")
    case True
    then show ?thesis using Cons.prems by (auto intro: trans)
  next
    case False
    then have "le y x" using total by blast
    then show ?thesis using False Cons by auto
  qed
qed simp

lemma sorted_sort_by:
  assumes "\<And>a b. le a b \<or> le b a" and "\<And>a b c. le a b \<Longrightarrow> le b c \<Longrightarrow> le a c"
  shows "sorted_wrt le (sort_by le xs)"
proof (induction xs)
  case (Cons x xs)
  have "sorted_wrt le (insert_by le x (sort_by le xs))"
    using assms Cons by (intro sorted_insert_by) blast+
  then show ?case by (simp add: sort_by_def)
qed (simp add: sort_by_def)

text \<open>Sorting keeps the order of equal rows, so it commutes with a selection.\<close>

lemma filter_insert_by:
  assumes "sorted_wrt le xs" and trans: "\<And>a b c. le a b \<Longrightarrow> le b c \<Longrightarrow> le a c"
  shows "filter P (insert_by le x xs) = (if P x then insert_by le x (filter P xs) else filter P xs)"
  using assms(1)
proof (induction xs)
  case (Cons y ys)
  show ?case
  proof (cases "le x y")
    case True
    then have "\<forall>z \<in> set (filter P (y # ys)). le x z" using Cons.prems trans by auto
    then have "insert_by le x (filter P (y # ys)) = x # filter P (y # ys)"
      by (cases "filter P (y # ys)") simp_all
    with True show ?thesis by simp
  next
    case False
    with Cons show ?thesis by simp
  qed
qed simp

lemma filter_sort_by:
  assumes "\<And>a b. le a b \<or> le b a" and "\<And>a b c. le a b \<Longrightarrow> le b c \<Longrightarrow> le a c"
  shows "filter P (sort_by le xs) = sort_by le (filter P xs)"
proof (induction xs)
  case (Cons x xs)
  have "sorted_wrt le (sort_by le xs)" using assms by (rule sorted_sort_by)
  from filter_insert_by [of le, OF this assms(2)] Cons show ?case by (simp add: sort_by_def)
qed (simp add: sort_by_def)

end
