(* ===== verification/Async_Jobs.thy ===== *)
theory Async_Jobs
  imports Protocol Lifecycle Timestamps
begin

text \<open>
  The durable async jobs of \<^verbatim>\<open>internal/controlplane/jobs\<close>: the states and the table of
  moves (\<^verbatim>\<open>async_types.go\<close>), the table \<^verbatim>\<open>async_jobs\<close> and its
  statements (\<^verbatim>\<open>async_store.go\<close>) and the manager on top of it
  (\<^verbatim>\<open>async_manager.go\<close>). The store is the list of rows; every operation is one
  transaction on it. Each operation takes the clock, the ids \<^verbatim>\<open>uuid.NewString\<close> hands
  out and the rows, and returns its result with the rows after it. The arguments of a job are kept
  as the list that their JSON column encodes.
\<close>

section \<open>States\<close>

text \<open>\<open>AsyncJobStateRaw\<close> is a Go value whose text is none of the constants.\<close>

datatype AsyncJobState =
    AsyncJobStateQueued
  | AsyncJobStateRunning
  | AsyncJobStateWaitingApproval
  | AsyncJobStateSucceeded
  | AsyncJobStateFailed
  | AsyncJobStateExpired
  | AsyncJobStateCancelled
  | AsyncJobStateRaw string

definition async_state_of_text :: "string \<Rightarrow> AsyncJobState" where
  "async_state_of_text t =
     (if t = ''queued'' then AsyncJobStateQueued
      else if t = ''running'' then AsyncJobStateRunning
      else if t = ''waiting_approval'' then AsyncJobStateWaitingApproval
      else if t = ''succeeded'' then AsyncJobStateSucceeded
      else if t = ''failed'' then AsyncJobStateFailed
      else if t = ''expired'' then AsyncJobStateExpired
      else if t = ''cancelled'' then AsyncJobStateCancelled
      else AsyncJobStateRaw t)"

fun async_IsTerminal :: "AsyncJobState \<Rightarrow> bool" where
  "async_IsTerminal AsyncJobStateSucceeded \<longleftrightarrow> True"
| "async_IsTerminal AsyncJobStateFailed \<longleftrightarrow> True"
| "async_IsTerminal AsyncJobStateExpired \<longleftrightarrow> True"
| "async_IsTerminal AsyncJobStateCancelled \<longleftrightarrow> True"
| "async_IsTerminal _ \<longleftrightarrow> False"

fun normalizeAsyncJobState :: "AsyncJobState \<Rightarrow> AsyncJobState" where
  "normalizeAsyncJobState (AsyncJobStateRaw t) = async_state_of_text (trim_space t)"
| "normalizeAsyncJobState s = s"

definition isKnownAsyncJobState :: "AsyncJobState \<Rightarrow> bool" where
  "isKnownAsyncJobState s \<longleftrightarrow>
     (case normalizeAsyncJobState s of AsyncJobStateRaw _ \<Rightarrow> False | _ \<Rightarrow> True)"

definition canTransitionAsyncJob :: "AsyncJobState \<Rightarrow> AsyncJobState \<Rightarrow> bool" where
  "canTransitionAsyncJob from0 to0 =
     (let from = normalizeAsyncJobState from0; to = normalizeAsyncJobState to0
      in if from = to then True
         else if \<not> isKnownAsyncJobState from \<or> \<not> isKnownAsyncJobState to then False
         else case from of
           AsyncJobStateQueued \<Rightarrow>
             to \<in> {AsyncJobStateRunning, AsyncJobStateWaitingApproval, AsyncJobStateCancelled,
                   AsyncJobStateExpired, AsyncJobStateFailed}
         | AsyncJobStateWaitingApproval \<Rightarrow>
             to \<in> {AsyncJobStateRunning, AsyncJobStateCancelled, AsyncJobStateExpired,
                   AsyncJobStateFailed}
         | AsyncJobStateRunning \<Rightarrow>
             to \<in> {AsyncJobStateSucceeded, AsyncJobStateFailed, AsyncJobStateExpired,
                   AsyncJobStateCancelled}
         | _ \<Rightarrow> False)"

section \<open>Jobs and errors\<close>

record AsyncJob =
  aj_ID :: string
  aj_WorkspaceID :: string
  aj_ProbeID :: string
  aj_RequestID :: string
  aj_Command :: string
  aj_Args :: "string list"
  aj_Level :: string
  aj_State :: AsyncJobState
  aj_StatusReason :: string
  aj_ApprovalID :: string
  aj_ExitCode :: "int option"
  aj_Output :: string
  aj_CreatedAt :: time
  aj_UpdatedAt :: time
  aj_StartedAt :: "time option"
  aj_FinishedAt :: "time option"
  aj_ExpiresAt :: "time option"
  aj_ApprovedBy :: string
  aj_RejectedBy :: string
  aj_RejectionReason :: string
  aj_ApprovalDeadline :: "time option"

record AsyncJobTransitionOptions =
  to_StatusReason :: string
  to_ApprovalID :: string
  to_ExitCode :: "int option"
  to_Output :: string
  to_StartedAt :: "time option"
  to_FinishedAt :: "time option"
  to_ExpiresAt :: "time option"
  to_ApprovedBy :: string
  to_RejectedBy :: string
  to_RejectionReason :: string
  to_ApprovalDeadline :: "time option"

definition no_options :: AsyncJobTransitionOptions where
  "no_options = \<lparr>to_StatusReason = [], to_ApprovalID = [], to_ExitCode = None, to_Output = [],
     to_StartedAt = None, to_FinishedAt = None, to_ExpiresAt = None, to_ApprovedBy = [],
     to_RejectedBy = [], to_RejectionReason = [], to_ApprovalDeadline = None\<rparr>"

datatype async_error =
    ProbeIDRequired
  | CommandRequired
  | JobIDRequired
  | RequestIDRequired
  | WorkspaceIDRequired
  | InvalidAsyncJobState AsyncJobState
  | InsertFailed
  | ErrNoRows
  | ErrInvalidAsyncJobTransition AsyncJobState AsyncJobState
  | AsyncJobConflictError string AsyncJobState string
  | AsyncQueueSaturatedError nat int
  | AsyncWorkspaceMismatch

definition IsAsyncJobConflict :: "async_error \<Rightarrow> bool" where
  "IsAsyncJobConflict e \<longleftrightarrow> (case e of AsyncJobConflictError _ _ _ \<Rightarrow> True | _ \<Rightarrow> False)"

definition IsAsyncQueueSaturated :: "async_error \<Rightarrow> bool" where
  "IsAsyncQueueSaturated e \<longleftrightarrow> (case e of AsyncQueueSaturatedError _ _ \<Rightarrow> True | _ \<Rightarrow> False)"

definition IsNotFound :: "async_error \<Rightarrow> bool" where
  "IsNotFound e \<longleftrightarrow> e = ErrNoRows"

definition is_invalid_async_transition :: "async_error \<Rightarrow> bool" where
  "is_invalid_async_transition e \<longleftrightarrow>
     (case e of ErrInvalidAsyncJobTransition _ _ \<Rightarrow> True | _ \<Rightarrow> False)"

type_synonym async_rows = "AsyncJob list"

definition maxRunOutputBytes :: nat where "maxRunOutputBytes = 10 * 1024"
abbreviation defaultAsyncJobListLimit :: int where "defaultAsyncJobListLimit \<equiv> 50"
abbreviation maxAsyncJobListLimit :: int where "maxAsyncJobListLimit \<equiv> 500"

definition truncateOutput :: "string \<Rightarrow> string" where
  "truncateOutput output =
     (if length output \<le> maxRunOutputBytes then output
      else if maxRunOutputBytes \<le> 16 then take maxRunOutputBytes output
      else take (maxRunOutputBytes - 16) output @ CHR 0x0A # ''...[truncated]'')"

definition normalizeAsyncJobLimit :: "int \<Rightarrow> int" where
  "normalizeAsyncJobLimit limit =
     (if limit \<le> 0 then defaultAsyncJobListLimit
      else if limit > maxAsyncJobListLimit then maxAsyncJobListLimit else limit)"

section \<open>The store\<close>

text \<open>A row as \<^verbatim>\<open>scanAsyncJob\<close> reads it.\<close>

definition scanAsyncJob :: "AsyncJob \<Rightarrow> AsyncJob" where
  "scanAsyncJob row =
     row\<lparr>aj_State := normalizeAsyncJobState (aj_State row),
         aj_WorkspaceID := to_lower (trim_space (aj_WorkspaceID row)),
         aj_ApprovedBy := trim_space (aj_ApprovedBy row),
         aj_RejectedBy := trim_space (aj_RejectedBy row),
         aj_RejectionReason := trim_space (aj_RejectionReason row)\<rparr>"

definition GetAsyncJob :: "string \<Rightarrow> async_rows \<Rightarrow> async_error + AsyncJob" where
  "GetAsyncJob id0 rows =
     (let jid = trim_space id0
      in if jid = [] then Err JobIDRequired
         else case tbl_first (\<lambda>r. aj_ID r = jid) rows of
           None \<Rightarrow> Err ErrNoRows
         | Some row \<Rightarrow> Ok (scanAsyncJob row))"

definition GetAsyncJobInWorkspace ::
  "string \<Rightarrow> string \<Rightarrow> async_rows \<Rightarrow> async_error + AsyncJob" where
  "GetAsyncJobInWorkspace id0 ws0 rows =
     (let jid = trim_space id0; ws = to_lower (trim_space ws0)
      in if jid = [] then Err JobIDRequired
         else if ws = [] then Err WorkspaceIDRequired
         else case tbl_first (\<lambda>r. aj_ID r = jid \<and> aj_WorkspaceID r = ws) rows of
           None \<Rightarrow> Err ErrNoRows
         | Some row \<Rightarrow> Ok (scanAsyncJob row))"

definition GetAsyncJobByRequestID :: "string \<Rightarrow> async_rows \<Rightarrow> async_error + AsyncJob" where
  "GetAsyncJobByRequestID req0 rows =
     (let req = trim_space req0
      in if req = [] then Err RequestIDRequired
         else case tbl_first (\<lambda>r. aj_RequestID r = req) rows of
           None \<Rightarrow> Err ErrNoRows
         | Some row \<Rightarrow> Ok (scanAsyncJob row))"

definition GetAsyncJobCheckWorkspace ::
  "string \<Rightarrow> string \<Rightarrow> async_rows \<Rightarrow> async_error + AsyncJob" where
  "GetAsyncJobCheckWorkspace id0 expected rows =
     (case GetAsyncJob id0 rows of
        Err e \<Rightarrow> Err e
      | Ok job \<Rightarrow>
          if expected = [] then Ok job
          else if aj_WorkspaceID job \<noteq> [] \<and> aj_WorkspaceID job \<noteq> expected
          then Err AsyncWorkspaceMismatch
          else Ok job)"

text \<open>The row \<^verbatim>\<open>CreateAsyncJob\<close> inserts; \<open>reqid\<close> and \<open>newid\<close> are fresh ids.\<close>

definition async_row_of :: "string \<Rightarrow> string \<Rightarrow> time \<Rightarrow> AsyncJob \<Rightarrow> AsyncJob" where
  "async_row_of reqid newid now job =
     (let state = normalizeAsyncJobState (aj_State job)
      in job\<lparr>
        aj_ProbeID := trim_space (aj_ProbeID job),
        aj_Command := trim_space (aj_Command job),
        aj_RequestID :=
          (if trim_space (aj_RequestID job) = [] then ''job-'' @ reqid
           else trim_space (aj_RequestID job)),
        aj_Level := trim_space (aj_Level job),
        aj_WorkspaceID := to_lower (trim_space (to_lower (trim_space (aj_WorkspaceID job)))),
        aj_ID := (if trim_space (aj_ID job) = [] then newid else aj_ID job),
        aj_State := (if state = AsyncJobStateRaw [] then AsyncJobStateQueued else state),
        aj_CreatedAt := (if aj_CreatedAt job = zero_time then now else aj_CreatedAt job),
        aj_UpdatedAt := now,
        aj_StatusReason := trim_space (aj_StatusReason job),
        aj_ApprovalID := trim_space (aj_ApprovalID job),
        aj_Output := truncateOutput (aj_Output job),
        aj_ApprovedBy := trim_space (aj_ApprovedBy job),
        aj_RejectedBy := trim_space (aj_RejectedBy job),
        aj_RejectionReason := trim_space (aj_RejectionReason job)\<rparr>)"

definition CreateAsyncJob ::
  "string \<Rightarrow> string \<Rightarrow> time \<Rightarrow> AsyncJob \<Rightarrow> async_rows \<Rightarrow> (async_error + AsyncJob) \<times> async_rows" where
  "CreateAsyncJob reqid newid now job rows =
     (if trim_space (aj_ProbeID job) = [] then (Err ProbeIDRequired, rows)
      else if trim_space (aj_Command job) = [] then (Err CommandRequired, rows)
      else
        let row = async_row_of reqid newid now job
        in if \<not> isKnownAsyncJobState (aj_State row)
           then (Err (InvalidAsyncJobState (aj_State row)), rows)
           else if list_ex (\<lambda>r. aj_ID r = aj_ID row \<or> aj_RequestID r = aj_RequestID row) rows
           then (Err InsertFailed, rows)
           else let rows' = rows @ [row] in (GetAsyncJob (aj_ID row) rows', rows'))"

definition async_newest_first :: "AsyncJob \<Rightarrow> AsyncJob \<Rightarrow> bool" where
  "async_newest_first a b \<longleftrightarrow> text_le (aj_CreatedAt b) (aj_CreatedAt a)"

definition async_oldest_first :: "AsyncJob \<Rightarrow> AsyncJob \<Rightarrow> bool" where
  "async_oldest_first a b \<longleftrightarrow> text_le (aj_CreatedAt a) (aj_CreatedAt b)"

definition ListAsyncJobs :: "int \<Rightarrow> async_rows \<Rightarrow> AsyncJob list" where
  "ListAsyncJobs limit rows =
     map scanAsyncJob
       (take (nat (normalizeAsyncJobLimit limit)) (sort_by async_newest_first rows))"

definition ListAsyncJobsByWorkspace ::
  "string \<Rightarrow> int \<Rightarrow> async_rows \<Rightarrow> async_error + AsyncJob list" where
  "ListAsyncJobsByWorkspace ws0 limit rows =
     (let ws = to_lower (trim_space ws0)
      in if ws = [] then Err WorkspaceIDRequired
         else Ok (map scanAsyncJob
           (take (nat (normalizeAsyncJobLimit limit))
             (sort_by async_newest_first (filter (\<lambda>r. aj_WorkspaceID r = ws) rows)))))"

definition ListAsyncJobsByState ::
  "AsyncJobState \<Rightarrow> int \<Rightarrow> async_rows \<Rightarrow> async_error + AsyncJob list" where
  "ListAsyncJobsByState state0 limit rows =
     (let state = normalizeAsyncJobState state0
      in if \<not> isKnownAsyncJobState state then Err (InvalidAsyncJobState state)
         else Ok (map scanAsyncJob
           (take (nat (normalizeAsyncJobLimit limit))
             (sort_by async_oldest_first (filter (\<lambda>r. aj_State r = state) rows)))))"

definition CountAsyncJobsByState :: "AsyncJobState list \<Rightarrow> async_rows \<Rightarrow> nat" where
  "CountAsyncJobsByState states rows =
     (let normalized = filter isKnownAsyncJobState (map normalizeAsyncJobState states)
      in if normalized = [] then 0 else tbl_count (\<lambda>r. aj_State r \<in> set normalized) rows)"

text \<open>\<^verbatim>\<open>GROUP BY state\<close>, keeping the known states that occur.\<close>

definition AsyncJobStateCounts :: "async_rows \<Rightarrow> (AsyncJobState \<times> nat) list" where
  "AsyncJobStateCounts rows =
     map (\<lambda>s. (normalizeAsyncJobState s, tbl_count (\<lambda>r. aj_State r = s) rows))
       (filter isKnownAsyncJobState (remdups (map aj_State rows)))"

definition running_on :: "string \<Rightarrow> AsyncJob \<Rightarrow> bool" where
  "running_on p r \<longleftrightarrow> aj_State r = AsyncJobStateRunning \<and> aj_ProbeID r = p"

definition RunningAsyncJobsByProbe :: "async_rows \<Rightarrow> nat gmap" where
  "RunningAsyncJobsByProbe rows =
     fold (\<lambda>p m. gput (trim_space p) (tbl_count (running_on p) rows) m)
       (remdups (map aj_ProbeID (filter (\<lambda>r. aj_State r = AsyncJobStateRunning) rows))) []"

definition set_if_text :: "string \<Rightarrow> string \<Rightarrow> string" where
  "set_if_text new old = (if trim_space new \<noteq> [] then trim_space new else old)"

definition set_if_some :: "'a option \<Rightarrow> 'a option \<Rightarrow> 'a option" where
  "set_if_some new old = (case new of Some v \<Rightarrow> Some v | None \<Rightarrow> old)"

text \<open>The \<^verbatim>\<open>SET\<close> clauses of \<^verbatim>\<open>TransitionAsyncJob\<close>.\<close>

definition transition_row ::
  "time \<Rightarrow> AsyncJobState \<Rightarrow> AsyncJobTransitionOptions \<Rightarrow> AsyncJob \<Rightarrow> AsyncJob" where
  "transition_row now toState opts r =
     r\<lparr>aj_State := toState,
       aj_UpdatedAt := now,
       aj_StatusReason := set_if_text (to_StatusReason opts) (aj_StatusReason r),
       aj_ApprovalID := set_if_text (to_ApprovalID opts) (aj_ApprovalID r),
       aj_ExitCode := set_if_some (to_ExitCode opts) (aj_ExitCode r),
       aj_Output :=
         (if trim_space (to_Output opts) \<noteq> [] then truncateOutput (trim_space (to_Output opts))
          else aj_Output r),
       aj_StartedAt :=
         (case to_StartedAt opts of
            Some t \<Rightarrow> Some t
          | None \<Rightarrow> if toState = AsyncJobStateRunning then Some now else aj_StartedAt r),
       aj_FinishedAt :=
         (case to_FinishedAt opts of
            Some t \<Rightarrow> Some t
          | None \<Rightarrow> if async_IsTerminal toState then Some now else aj_FinishedAt r),
       aj_ExpiresAt :=
         (case to_ExpiresAt opts of
            Some t \<Rightarrow> Some t
          | None \<Rightarrow> if toState \<noteq> AsyncJobStateWaitingApproval then None else aj_ExpiresAt r),
       aj_ApprovedBy := set_if_text (to_ApprovedBy opts) (aj_ApprovedBy r),
       aj_RejectedBy := set_if_text (to_RejectedBy opts) (aj_RejectedBy r),
       aj_RejectionReason := set_if_text (to_RejectionReason opts) (aj_RejectionReason r),
       aj_ApprovalDeadline := set_if_some (to_ApprovalDeadline opts) (aj_ApprovalDeadline r)\<rparr>"

definition TransitionAsyncJob ::
  "time \<Rightarrow> string \<Rightarrow> AsyncJobState \<Rightarrow> AsyncJobTransitionOptions \<Rightarrow> async_rows \<Rightarrow>
   (async_error + AsyncJob) \<times> async_rows" where
  "TransitionAsyncJob now id0 toState0 opts rows =
     (let jid = trim_space id0; toState = normalizeAsyncJobState toState0
      in if jid = [] then (Err JobIDRequired, rows)
         else if \<not> isKnownAsyncJobState toState then (Err (InvalidAsyncJobState toState), rows)
         else case tbl_first (\<lambda>r. aj_ID r = jid) rows of
           None \<Rightarrow> (Err ErrNoRows, rows)
         | Some row \<Rightarrow>
             let fromState = normalizeAsyncJobState (aj_State row)
             in if fromState = toState then (GetAsyncJob jid rows, rows)
                else if \<not> canTransitionAsyncJob fromState toState
                then (Err (ErrInvalidAsyncJobTransition fromState toState), rows)
                else
                  let P = (\<lambda>r. aj_ID r = jid \<and> aj_State r = fromState)
                  in if tbl_count P rows = 0
                     then (Err (ErrInvalidAsyncJobTransition (aj_State row) toState), rows)
                     else let rows' = tbl_update P (transition_row now toState opts) rows
                          in (GetAsyncJob jid rows', rows'))"

definition CancelAsyncJob ::
  "time \<Rightarrow> string \<Rightarrow> string \<Rightarrow> async_rows \<Rightarrow> (async_error + AsyncJob) \<times> async_rows" where
  "CancelAsyncJob now id0 reason0 rows =
     (let reason = (if trim_space reason0 = [] then ''cancelled by request'' else trim_space reason0)
      in TransitionAsyncJob now id0 AsyncJobStateCancelled
           (no_options\<lparr>to_StatusReason := reason\<rparr>) rows)"

definition expire_row :: "time \<Rightarrow> string \<Rightarrow> AsyncJob \<Rightarrow> AsyncJob" where
  "expire_row now reason r =
     r\<lparr>aj_State := AsyncJobStateExpired, aj_StatusReason := reason, aj_UpdatedAt := now,
       aj_FinishedAt := Some now\<rparr>"

definition ExpireRunningAsyncJobs :: "time \<Rightarrow> string \<Rightarrow> async_rows \<Rightarrow> nat \<times> async_rows" where
  "ExpireRunningAsyncJobs now reason0 rows =
     (let reason = (if trim_space reason0 = [] then ''expired while control plane was unavailable''
                    else trim_space reason0);
          P = (\<lambda>r. aj_State r = AsyncJobStateRunning)
      in (tbl_count P rows, tbl_update P (expire_row now reason) rows))"

definition approval_overdue :: "time \<Rightarrow> AsyncJob \<Rightarrow> bool" where
  "approval_overdue now r \<longleftrightarrow>
     aj_State r = AsyncJobStateWaitingApproval \<and>
     (case aj_ExpiresAt r of None \<Rightarrow> False | Some t \<Rightarrow> text_le t now)"

definition ExpireWaitingApprovalAsyncJobs ::
  "time \<Rightarrow> string \<Rightarrow> async_rows \<Rightarrow> nat \<times> async_rows" where
  "ExpireWaitingApprovalAsyncJobs now reason0 rows =
     (let reason = (if trim_space reason0 = [] then ''approval window expired''
                    else trim_space reason0)
      in (tbl_count (approval_overdue now) rows,
          tbl_update (approval_overdue now) (expire_row now reason) rows))"

definition async_deadline_first :: "AsyncJob \<Rightarrow> AsyncJob \<Rightarrow> bool" where
  "async_deadline_first a b \<longleftrightarrow>
     (case (aj_ExpiresAt a, aj_ExpiresAt b) of (Some t, Some u) \<Rightarrow> text_le t u | _ \<Rightarrow> True)"

definition ListExpiredWaitingApprovalJobs :: "time \<Rightarrow> int \<Rightarrow> async_rows \<Rightarrow> AsyncJob list" where
  "ListExpiredWaitingApprovalJobs now limit rows =
     map scanAsyncJob (take (nat (normalizeAsyncJobLimit limit))
       (sort_by async_deadline_first (filter (approval_overdue now) rows)))"

definition waiting_job :: "string \<Rightarrow> AsyncJob \<Rightarrow> bool" where
  "waiting_job jid r \<longleftrightarrow> aj_ID r = jid \<and> aj_State r = AsyncJobStateWaitingApproval"

definition ApproveAsyncJob ::
  "time \<Rightarrow> string \<Rightarrow> async_rows \<Rightarrow> (async_error + AsyncJob) \<times> async_rows" where
  "ApproveAsyncJob now id0 rows =
     (let jid = trim_space id0
      in if jid = [] then (Err JobIDRequired, rows)
         else
           let rows' = tbl_update (waiting_job jid)
                 (\<lambda>r. r\<lparr>aj_State := AsyncJobStateRunning, aj_StartedAt := Some now,
                         aj_UpdatedAt := now\<rparr>) rows
           in if tbl_count (waiting_job jid) rows = 0
              then (case GetAsyncJob jid rows' of
                      Err e \<Rightarrow> (Err e, rows')
                    | Ok existing \<Rightarrow>
                        (Err (AsyncJobConflictError jid (aj_State existing) ''approve''), rows'))
              else (GetAsyncJob jid rows', rows'))"

definition RejectAsyncJob ::
  "time \<Rightarrow> string \<Rightarrow> string \<Rightarrow> async_rows \<Rightarrow> (async_error + AsyncJob) \<times> async_rows" where
  "RejectAsyncJob now id0 reason0 rows =
     (let jid = trim_space id0
      in if jid = [] then (Err JobIDRequired, rows)
         else
           let reason = trim_space reason0;
               rows' = tbl_update (waiting_job jid)
                 (\<lambda>r. r\<lparr>aj_State := AsyncJobStateFailed, aj_StatusReason := reason,
                         aj_RejectionReason := reason, aj_FinishedAt := Some now,
                         aj_UpdatedAt := now\<rparr>) rows
           in if tbl_count (waiting_job jid) rows = 0
              then (case GetAsyncJob jid rows' of
                      Err e \<Rightarrow> (Err e, rows')
                    | Ok existing \<Rightarrow>
                        (Err (AsyncJobConflictError jid (aj_State existing) ''reject''), rows'))
              else (GetAsyncJob jid rows', rows'))"

definition ExtendApprovalExpiry ::
  "time \<Rightarrow> string \<Rightarrow> time \<Rightarrow> async_rows \<Rightarrow> (async_error + unit) \<times> async_rows" where
  "ExtendApprovalExpiry now id0 newExpiry rows =
     (let jid = trim_space id0
      in if jid = [] then (Err JobIDRequired, rows)
         else (Ok (), tbl_update (waiting_job jid)
                 (\<lambda>r. r\<lparr>aj_ExpiresAt := Some newExpiry, aj_UpdatedAt := now\<rparr>) rows))"

section \<open>The manager\<close>

text \<open>\<open>maxDepth\<close> is the manager's \<^verbatim>\<open>maxQueueDepth\<close>; 0 means no limit.\<close>

definition async_CreateJob ::
  "int \<Rightarrow> string \<Rightarrow> string \<Rightarrow> time \<Rightarrow> AsyncJob \<Rightarrow> async_rows \<Rightarrow>
   (async_error + AsyncJob) \<times> async_rows" where
  "async_CreateJob maxDepth reqid newid now job0 rows =
     (let job = job0\<lparr>aj_State := AsyncJobStateQueued\<rparr>;
          queued = CountAsyncJobsByState [AsyncJobStateQueued] rows
      in if maxDepth > 0 \<and> int queued \<ge> maxDepth
         then (Err (AsyncQueueSaturatedError queued maxDepth), rows)
         else CreateAsyncJob reqid newid now job rows)"

definition level_text :: "CapabilityLevel \<Rightarrow> string" where
  "level_text l =
     (case l of CapObserve \<Rightarrow> ''observe'' | CapDiagnose \<Rightarrow> ''diagnose''
      | CapRemediate \<Rightarrow> ''remediate'' | CapOther s \<Rightarrow> s)"

definition empty_job :: AsyncJob where
  "empty_job = \<lparr>aj_ID = [], aj_WorkspaceID = [], aj_ProbeID = [], aj_RequestID = [],
     aj_Command = [], aj_Args = [], aj_Level = [], aj_State = AsyncJobStateRaw [],
     aj_StatusReason = [], aj_ApprovalID = [], aj_ExitCode = None, aj_Output = [],
     aj_CreatedAt = zero_time, aj_UpdatedAt = zero_time, aj_StartedAt = None,
     aj_FinishedAt = None, aj_ExpiresAt = None, aj_ApprovedBy = [], aj_RejectedBy = [],
     aj_RejectionReason = [], aj_ApprovalDeadline = None\<rparr>"

definition CreateForCommandInWorkspace ::
  "int \<Rightarrow> string \<Rightarrow> string \<Rightarrow> time \<Rightarrow> string \<Rightarrow> string \<Rightarrow> CommandPayload \<Rightarrow> async_rows \<Rightarrow>
   (async_error + AsyncJob) \<times> async_rows" where
  "CreateForCommandInWorkspace maxDepth reqid newid now probeID workspaceID cmd rows =
     async_CreateJob maxDepth reqid newid now
       (empty_job\<lparr>aj_ProbeID := trim_space probeID,
         aj_WorkspaceID := to_lower (trim_space workspaceID),
         aj_RequestID := trim_space (cmd_RequestID cmd),
         aj_Command := trim_space (cmd_Command cmd),
         aj_Args := cmd_Args cmd,
         aj_Level := level_text (cmd_Level cmd)\<rparr>) rows"

definition CreateForCommand ::
  "int \<Rightarrow> string \<Rightarrow> string \<Rightarrow> time \<Rightarrow> string \<Rightarrow> CommandPayload \<Rightarrow> async_rows \<Rightarrow>
   (async_error + AsyncJob) \<times> async_rows" where
  "CreateForCommand maxDepth reqid newid now probeID cmd rows =
     CreateForCommandInWorkspace maxDepth reqid newid now probeID [] cmd rows"

definition transitionByRequestID ::
  "time \<Rightarrow> string \<Rightarrow> AsyncJobState \<Rightarrow> AsyncJobTransitionOptions \<Rightarrow> async_rows \<Rightarrow>
   (async_error + AsyncJob) \<times> async_rows" where
  "transitionByRequestID now requestID to opts rows =
     (case GetAsyncJobByRequestID requestID rows of
        Err e \<Rightarrow> (Err e, rows)
      | Ok job \<Rightarrow> TransitionAsyncJob now (aj_ID job) to opts rows)"

definition MarkRunning ::
  "time \<Rightarrow> string \<Rightarrow> async_rows \<Rightarrow> (async_error + AsyncJob) \<times> async_rows" where
  "MarkRunning now jobID rows = TransitionAsyncJob now jobID AsyncJobStateRunning no_options rows"

definition MarkRunningByRequestID ::
  "time \<Rightarrow> string \<Rightarrow> async_rows \<Rightarrow> (async_error + AsyncJob) \<times> async_rows" where
  "MarkRunningByRequestID now requestID rows =
     transitionByRequestID now requestID AsyncJobStateRunning no_options rows"

definition MarkWaitingApproval ::
  "time \<Rightarrow> string \<Rightarrow> string \<Rightarrow> string \<Rightarrow> time option \<Rightarrow> async_rows \<Rightarrow>
   (async_error + AsyncJob) \<times> async_rows" where
  "MarkWaitingApproval now jobID approvalID reason expiresAt rows =
     TransitionAsyncJob now jobID AsyncJobStateWaitingApproval
       (no_options\<lparr>to_StatusReason := reason, to_ApprovalID := approvalID,
         to_ExpiresAt := expiresAt\<rparr>) rows"

definition MarkSucceededByRequestID ::
  "time \<Rightarrow> string \<Rightarrow> int \<Rightarrow> string \<Rightarrow> async_rows \<Rightarrow> (async_error + AsyncJob) \<times> async_rows" where
  "MarkSucceededByRequestID now requestID exitCode output rows =
     transitionByRequestID now requestID AsyncJobStateSucceeded
       (no_options\<lparr>to_ExitCode := Some exitCode, to_Output := output\<rparr>) rows"

definition MarkFailedByRequestID ::
  "time \<Rightarrow> string \<Rightarrow> string \<Rightarrow> string \<Rightarrow> int option \<Rightarrow> async_rows \<Rightarrow>
   (async_error + AsyncJob) \<times> async_rows" where
  "MarkFailedByRequestID now requestID reason output exitCode rows =
     transitionByRequestID now requestID AsyncJobStateFailed
       (no_options\<lparr>to_StatusReason := reason, to_ExitCode := exitCode, to_Output := output\<rparr>) rows"

definition ExpireStale :: "time \<Rightarrow> time \<Rightarrow> async_rows \<Rightarrow> (nat \<times> nat) \<times> async_rows" where
  "ExpireStale tnow now rows =
     (let (a, rows1) = ExpireRunningAsyncJobs tnow
            ''control plane restarted before command completed'' rows;
          (b, rows2) = ExpireWaitingApprovalAsyncJobs now
            ''approval window expired while control plane restarted'' rows1
      in ((a, b), rows2))"

definition async_ApproveJob ::
  "time \<Rightarrow> string \<Rightarrow> async_rows \<Rightarrow> (async_error + AsyncJob) \<times> async_rows" where
  "async_ApproveJob now jobID rows =
     (if trim_space jobID = [] then (Err JobIDRequired, rows)
      else ApproveAsyncJob now (trim_space jobID) rows)"

definition async_RejectJob ::
  "time \<Rightarrow> string \<Rightarrow> string \<Rightarrow> async_rows \<Rightarrow> (async_error + AsyncJob) \<times> async_rows" where
  "async_RejectJob now jobID reason rows =
     (if trim_space jobID = [] then (Err JobIDRequired, rows)
      else RejectAsyncJob now (trim_space jobID) (trim_space reason) rows)"

section \<open>Runs and the invariant\<close>

text \<open>
  The operations that write the table, as data, so that a history of the store is a list of
  operations. The manager's \<^verbatim>\<open>Mark\<close> functions, its cancellation and expiry, and the
  scheduler are compositions of them.
\<close>

datatype async_op =
    AopCreate int string string time AsyncJob
  | AopTransition time string AsyncJobState AsyncJobTransitionOptions
  | AopExpireRunning time string
  | AopExpireWaiting time string
  | AopApprove time string
  | AopReject time string string
  | AopExtend time string time

fun async_exec :: "async_op \<Rightarrow> async_rows \<Rightarrow> async_rows" where
  "async_exec (AopCreate d reqid newid now job) rows = snd (async_CreateJob d reqid newid now job rows)"
| "async_exec (AopTransition now jid to opts) rows = snd (TransitionAsyncJob now jid to opts rows)"
| "async_exec (AopExpireRunning now reason) rows = snd (ExpireRunningAsyncJobs now reason rows)"
| "async_exec (AopExpireWaiting now reason) rows = snd (ExpireWaitingApprovalAsyncJobs now reason rows)"
| "async_exec (AopApprove now jid) rows = snd (ApproveAsyncJob now jid rows)"
| "async_exec (AopReject now jid reason) rows = snd (RejectAsyncJob now jid reason rows)"
| "async_exec (AopExtend now jid t) rows = snd (ExtendApprovalExpiry now jid t rows)"

definition async_look :: "async_rows \<Rightarrow> string \<Rightarrow> AsyncJob option" where
  "async_look rows k = tbl_first (\<lambda>r. aj_ID r = k) rows"

definition async_state :: "async_rows \<Rightarrow> string \<Rightarrow> AsyncJobState option" where
  "async_state rows k = map_option aj_State (async_look rows k)"

definition named_state :: "AsyncJobState \<Rightarrow> bool" where
  "named_state s \<longleftrightarrow> (case s of AsyncJobStateRaw _ \<Rightarrow> False | _ \<Rightarrow> True)"

definition async_can :: "AsyncJobState \<Rightarrow> AsyncJobState \<Rightarrow> bool" where
  "async_can s t \<longleftrightarrow> s = t \<or> named_state s \<and> named_state t \<and> canTransitionAsyncJob s t"

fun async_rank :: "AsyncJobState \<Rightarrow> nat" where
  "async_rank AsyncJobStateQueued = 0"
| "async_rank AsyncJobStateWaitingApproval = 1"
| "async_rank AsyncJobStateRunning = 2"
| "async_rank (AsyncJobStateRaw _) = 0"
| "async_rank _ = 3"

definition async_row_ok :: "AsyncJob \<Rightarrow> bool" where
  "async_row_ok r \<longleftrightarrow>
     named_state (aj_State r) \<and> scanAsyncJob r = r \<and>
     trim_space (aj_ProbeID r) = aj_ProbeID r \<and>
     length (aj_Output r) \<le> maxRunOutputBytes \<and>
     (aj_State r = AsyncJobStateRunning \<longrightarrow> aj_StartedAt r \<noteq> None) \<and>
     (async_IsTerminal (aj_State r) \<longrightarrow> aj_FinishedAt r \<noteq> None)"

definition async_ok :: "async_rows \<Rightarrow> bool" where
  "async_ok rows \<longleftrightarrow>
     distinct (map aj_ID rows) \<and> distinct (map aj_RequestID rows) \<and> list_all async_row_ok rows"

definition safe_update :: "async_rows \<Rightarrow> (AsyncJob \<Rightarrow> bool) \<Rightarrow> (AsyncJob \<Rightarrow> AsyncJob) \<Rightarrow> bool" where
  "safe_update rows P f \<longleftrightarrow>
     (\<forall>r. aj_ID (f r) = aj_ID r \<and> aj_RequestID (f r) = aj_RequestID r) \<and>
     (\<forall>r \<in> set rows. P r \<longrightarrow>
        \<not> async_IsTerminal (aj_State r) \<and> async_row_ok (f r) \<and>
        async_can (aj_State r) (aj_State (f r)) \<and> aj_State (f r) \<noteq> AsyncJobStateQueued)"

definition demo_job :: AsyncJob where
  "demo_job = empty_job\<lparr>aj_ProbeID := ''p1'', aj_Command := ''systemctl restart nginx''\<rparr>"

definition demo_ops :: "async_op list" where
  "demo_ops =
     [AopCreate 2 ''r1'' ''j1'' 5 demo_job,
      AopCreate 2 ''r2'' ''j2'' 6 demo_job,
      AopTransition 7 ''j1'' AsyncJobStateWaitingApproval (no_options\<lparr>to_ExpiresAt := Some 100\<rparr>)]"

definition creates_with :: "int \<Rightarrow> async_op \<Rightarrow> bool" where
  "creates_with d p \<longleftrightarrow> (case p of AopCreate e _ _ _ _ \<Rightarrow> e = d | _ \<Rightarrow> True)"

text \<open>The manager's operations as data.\<close>

datatype mgr_op =
    MopCreate int string string time string string CommandPayload
  | MopMarkRunning time string
  | MopMarkRunningByRequestID time string
  | MopMarkWaitingApproval time string string string "time option"
  | MopMarkSucceeded time string int string
  | MopMarkFailed time string string string "int option"
  | MopCancel time string string
  | MopExpireStale time time
  | MopApprove time string
  | MopReject time string string

fun mgr_exec :: "mgr_op \<Rightarrow> async_rows \<Rightarrow> async_rows" where
  "mgr_exec (MopCreate d reqid newid now p ws cmd) rows =
     snd (CreateForCommandInWorkspace d reqid newid now p ws cmd rows)"
| "mgr_exec (MopMarkRunning now jid) rows = snd (MarkRunning now jid rows)"
| "mgr_exec (MopMarkRunningByRequestID now req) rows = snd (MarkRunningByRequestID now req rows)"
| "mgr_exec (MopMarkWaitingApproval now jid aid reason t) rows =
     snd (MarkWaitingApproval now jid aid reason t rows)"
| "mgr_exec (MopMarkSucceeded now req code out) rows = snd (MarkSucceededByRequestID now req code out rows)"
| "mgr_exec (MopMarkFailed now req reason out code) rows =
     snd (MarkFailedByRequestID now req reason out code rows)"
| "mgr_exec (MopCancel now jid reason) rows = snd (CancelAsyncJob now jid reason rows)"
| "mgr_exec (MopExpireStale tnow now) rows = snd (ExpireStale tnow now rows)"
| "mgr_exec (MopApprove now jid) rows = snd (async_ApproveJob now jid rows)"
| "mgr_exec (MopReject now jid reason) rows = snd (async_RejectJob now jid reason rows)"

section \<open>Lemmas\<close>

lemma named_state_known: "named_state s \<Longrightarrow> isKnownAsyncJobState s \<and> normalizeAsyncJobState s = s"
  by (cases s) (auto simp: named_state_def isKnownAsyncJobState_def)

lemma known_named: "isKnownAsyncJobState s \<longleftrightarrow> named_state (normalizeAsyncJobState s)"
  by (simp add: named_state_def isKnownAsyncJobState_def)

lemma named_state_terminal: "async_IsTerminal s \<Longrightarrow> named_state s"
  by (cases s) (auto simp: named_state_def)

interpretation async: lifecycle async_can async_IsTerminal async_rank
proof
  show "t = s" if "async_IsTerminal s" "async_can s t" for s t
    using that
    by (cases s; cases t) (auto simp: async_can_def named_state_def canTransitionAsyncJob_def isKnownAsyncJobState_def)
  show "async_rank s < async_rank t" if "async_can s t" "t \<noteq> s" for s t
    using that
    by (cases s; cases t) (auto simp: async_can_def named_state_def canTransitionAsyncJob_def isKnownAsyncJobState_def)
qed

lemma length_truncateOutput: "length (truncateOutput s) \<le> maxRunOutputBytes"
  by (simp add: truncateOutput_def maxRunOutputBytes_def)

lemma set_if_text_trim: "trim_space old = old \<Longrightarrow> trim_space (set_if_text new old) = set_if_text new old"
  by (simp add: set_if_text_def)

lemma scan_fixed:
  "scanAsyncJob r = r \<longleftrightarrow>
   normalizeAsyncJobState (aj_State r) = aj_State r \<and>
   to_lower (trim_space (aj_WorkspaceID r)) = aj_WorkspaceID r \<and>
   trim_space (aj_ApprovedBy r) = aj_ApprovedBy r \<and>
   trim_space (aj_RejectedBy r) = aj_RejectedBy r \<and>
   trim_space (aj_RejectionReason r) = aj_RejectionReason r"
  by (cases r) (auto simp: scanAsyncJob_def)

text \<open>Updates that keep the ids and the row invariant keep the store's invariant.\<close>

lemma async_ok_update:
  assumes "async_ok rows"
    and "\<And>r. aj_ID (f r) = aj_ID r" "\<And>r. aj_RequestID (f r) = aj_RequestID r"
    and "\<And>r. r \<in> set rows \<Longrightarrow> P r \<Longrightarrow> async_row_ok r \<Longrightarrow> async_row_ok (f r)"
  shows "async_ok (tbl_update P f rows)"
  using assms
  by (auto simp: async_ok_def table_simps tbl_update_ids [of aj_ID] tbl_update_ids [of aj_RequestID]
      list_all_iff)

lemma async_look_update:
  "(\<And>r. aj_ID (f r) = aj_ID r) \<Longrightarrow>
   async_look (tbl_update P f rows) k = map_option (\<lambda>r. if P r then f r else r) (async_look rows k)"
  unfolding async_look_def by (rule tbl_first_update)

lemma transition_row_ids [simp]:
  "aj_ID (transition_row now to opts r) = aj_ID r"
  "aj_RequestID (transition_row now to opts r) = aj_RequestID r"
  "aj_State (transition_row now to opts r) = to"
  by (simp_all add: transition_row_def)

lemma expire_row_ids [simp]:
  "aj_ID (expire_row now reason r) = aj_ID r"
  "aj_RequestID (expire_row now reason r) = aj_RequestID r"
  "aj_State (expire_row now reason r) = AsyncJobStateExpired"
  by (simp_all add: expire_row_def)

lemma transition_row_ok:
  "async_row_ok r \<Longrightarrow> named_state to \<Longrightarrow> async_row_ok (transition_row now to opts r)"
  using length_truncateOutput
  by (auto simp: async_row_ok_def scan_fixed transition_row_def set_if_text_trim named_state_known
      split: option.splits)

lemma expire_row_ok: "async_row_ok r \<Longrightarrow> async_row_ok (expire_row now reason r)"
  by (simp add: async_row_ok_def scan_fixed expire_row_def named_state_def)

lemma TransitionAsyncJob_shape:
  obtains (same) "snd (TransitionAsyncJob now jid to opts rows) = rows"
  | (moved) st0 where
      "snd (TransitionAsyncJob now jid to opts rows) =
         tbl_update (\<lambda>r. aj_ID r = trim_space jid \<and> aj_State r = st0)
           (transition_row now (normalizeAsyncJobState to) opts) rows"
      "named_state (normalizeAsyncJobState to)" "st0 \<noteq> normalizeAsyncJobState to"
      "canTransitionAsyncJob st0 (normalizeAsyncJobState to)"
proof (cases "tbl_first (\<lambda>r. aj_ID r = trim_space jid) rows")
  case None
  then have "snd (TransitionAsyncJob now jid to opts rows) = rows"
    by (simp add: TransitionAsyncJob_def Let_def)
  then show thesis by (rule same)
next
  case (Some row)
  let ?to = "normalizeAsyncJobState to" and ?from = "normalizeAsyncJobState (aj_State row)"
  show thesis
  proof (cases "trim_space jid \<noteq> [] \<and> isKnownAsyncJobState ?to \<and> ?from \<noteq> ?to \<and>
      canTransitionAsyncJob ?from ?to \<and> tbl_count (\<lambda>r. aj_ID r = trim_space jid \<and> aj_State r = ?from) rows \<noteq> 0")
    case True
    have nn: "normalizeAsyncJobState ?to = ?to"
      by (cases to) (auto simp: async_state_of_text_def)
    show thesis
    proof (rule moved [of ?from])
      show "snd (TransitionAsyncJob now jid to opts rows) =
         tbl_update (\<lambda>r. aj_ID r = trim_space jid \<and> aj_State r = ?from)
           (transition_row now ?to opts) rows"
        using True Some by (simp add: TransitionAsyncJob_def Let_def)
    qed (use True nn in \<open>auto simp: known_named\<close>)
  next
    case False
    then have "snd (TransitionAsyncJob now jid to opts rows) = rows"
      using Some by (auto simp: TransitionAsyncJob_def Let_def)
    then show thesis by (rule same)
  qed
qed

lemma async_CreateJob_shape:
  obtains (same) "snd (async_CreateJob d reqid newid now job rows) = rows"
  | (insert) row where
      "snd (async_CreateJob d reqid newid now job rows) = rows @ [row]"
      "row = async_row_of reqid newid now (job\<lparr>aj_State := AsyncJobStateQueued\<rparr>)"
      "aj_ID row \<notin> aj_ID ` set rows" "aj_RequestID row \<notin> aj_RequestID ` set rows"
      "d > 0 \<Longrightarrow> int (CountAsyncJobsByState [AsyncJobStateQueued] rows) < d"
proof -
  let ?j = "job\<lparr>aj_State := AsyncJobStateQueued\<rparr>"
  let ?row = "async_row_of reqid newid now ?j"
  show thesis
  proof (cases "snd (async_CreateJob d reqid newid now job rows) = rows")
    case True
    then show thesis by (rule same)
  next
    case False
    then have c: "snd (async_CreateJob d reqid newid now job rows) = rows @ [?row]"
        "\<not> list_ex (\<lambda>r. aj_ID r = aj_ID ?row \<or> aj_RequestID r = aj_RequestID ?row) rows"
        "\<not> (d > 0 \<and> int (CountAsyncJobsByState [AsyncJobStateQueued] rows) \<ge> d)"
      by (auto simp: async_CreateJob_def CreateAsyncJob_def Let_def split: if_splits)
    show thesis
      by (rule insert [OF c(1) refl]) (use c in \<open>auto simp: list_ex_iff\<close>)
  qed
qed

lemma async_row_of_ok:
  assumes "aj_State job = AsyncJobStateQueued"
  shows "async_row_ok (async_row_of reqid newid now job)"
    and "aj_State (async_row_of reqid newid now job) = AsyncJobStateQueued"
  using assms
  by (simp_all add: async_row_of_def Let_def async_row_ok_def scan_fixed named_state_def
      length_truncateOutput go_string)

text \<open>
  Every write of an existing row is a safe update: it keeps the ids, touches no row in a terminal
  state, keeps the row invariant and moves the state along the table, never back to queued.
\<close>

lemma async_ok_row: "async_ok rows \<Longrightarrow> r \<in> set rows \<Longrightarrow> async_row_ok r"
  by (simp add: async_ok_def list_all_iff)

lemma async_can_moves:
  "async_can AsyncJobStateRunning AsyncJobStateExpired"
  "async_can AsyncJobStateWaitingApproval AsyncJobStateExpired"
  "async_can AsyncJobStateWaitingApproval AsyncJobStateRunning"
  "async_can AsyncJobStateWaitingApproval AsyncJobStateFailed"
  by (simp_all add: async_can_def named_state_def canTransitionAsyncJob_def isKnownAsyncJobState_def)

lemma async_can_refl: "async_can s s"
  by (simp add: async_can_def)

lemma safe_transition:
  assumes ok: "async_ok rows" and to: "named_state to" "st0 \<noteq> to" "canTransitionAsyncJob st0 to"
  shows "safe_update rows (\<lambda>r. aj_ID r = jid \<and> aj_State r = st0) (transition_row now to opts)"
proof -
  have "\<not> async_IsTerminal st0 \<and> async_row_ok (transition_row now to opts r) \<and>
      async_can st0 to \<and> to \<noteq> AsyncJobStateQueued"
    if r: "r \<in> set rows" "aj_State r = st0" for r
  proof -
    have "named_state st0" using async_ok_row [OF ok r(1)] r(2) by (simp add: async_row_ok_def)
    then have can: "async_can st0 to" using to by (simp add: async_can_def)
    then show ?thesis
      using to(2) transition_row_ok [OF async_ok_row [OF ok r(1)] to(1)] async.rank_step [OF can]
        async.terminal_final [OF _ can] by auto
  qed
  then show ?thesis by (auto simp: safe_update_def)
qed

lemma safe_expire:
  assumes "async_ok rows"
    and P: "\<And>r. P r \<Longrightarrow> aj_State r = AsyncJobStateRunning \<or> aj_State r = AsyncJobStateWaitingApproval"
  shows "safe_update rows P (expire_row now reason)"
proof -
  have "\<not> async_IsTerminal (aj_State r) \<and> async_can (aj_State r) AsyncJobStateExpired" if "P r" for r
    using P [OF that] by (auto simp: async_can_moves)
  then show ?thesis
    using async_ok_row [OF assms(1)] by (simp add: safe_update_def expire_row_ok)
qed

lemma safe_waiting:
  assumes "async_ok rows"
  shows "safe_update rows (\<lambda>r. c \<and> waiting_job jid r)
      (\<lambda>r. r\<lparr>aj_State := AsyncJobStateRunning, aj_StartedAt := Some now, aj_UpdatedAt := now\<rparr>)"
    and "safe_update rows (\<lambda>r. c \<and> waiting_job jid r)
      (\<lambda>r. r\<lparr>aj_State := AsyncJobStateFailed, aj_StatusReason := trim_space reason,
         aj_RejectionReason := trim_space reason, aj_FinishedAt := Some now, aj_UpdatedAt := now\<rparr>)"
    and "safe_update rows (\<lambda>r. c \<and> waiting_job jid r)
      (\<lambda>r. r\<lparr>aj_ExpiresAt := Some t, aj_UpdatedAt := now\<rparr>)"
  using async_ok_row [OF assms]
  by (auto simp: safe_update_def waiting_job_def async_can_moves async_row_ok_def scan_fixed
      named_state_def async_can_refl)

lemma async_exec_waiting:
  "async_exec (AopApprove now jid) rows =
     tbl_update (\<lambda>r. trim_space jid \<noteq> [] \<and> waiting_job (trim_space jid) r)
       (\<lambda>r. r\<lparr>aj_State := AsyncJobStateRunning, aj_StartedAt := Some now, aj_UpdatedAt := now\<rparr>) rows"
  "async_exec (AopReject now jid reason) rows =
     tbl_update (\<lambda>r. trim_space jid \<noteq> [] \<and> waiting_job (trim_space jid) r)
       (\<lambda>r. r\<lparr>aj_State := AsyncJobStateFailed, aj_StatusReason := trim_space reason,
          aj_RejectionReason := trim_space reason, aj_FinishedAt := Some now, aj_UpdatedAt := now\<rparr>) rows"
  "async_exec (AopExtend now jid t) rows =
     tbl_update (\<lambda>r. trim_space jid \<noteq> [] \<and> waiting_job (trim_space jid) r)
       (\<lambda>r. r\<lparr>aj_ExpiresAt := Some t, aj_UpdatedAt := now\<rparr>) rows"
  by (auto simp: ApproveAsyncJob_def RejectAsyncJob_def ExtendApprovalExpiry_def Let_def tbl_update_def
      split: sum.splits)

lemma async_exec_shape:
  assumes ok: "async_ok rows"
  obtains (same) "async_exec p rows = rows"
  | (insert) row where "async_exec p rows = rows @ [row]"
      "aj_ID row \<notin> aj_ID ` set rows" "aj_RequestID row \<notin> aj_RequestID ` set rows"
      "async_row_ok row" "aj_State row = AsyncJobStateQueued"
  | (update) P f where "async_exec p rows = tbl_update P f rows" "safe_update rows P f"
proof (cases p)
  case (AopCreate d reqid newid now job)
  then show thesis
    using same insert
    by (cases rule: async_CreateJob_shape [of d reqid newid now job rows]) (auto simp: async_row_of_ok)
next
  case (AopTransition now jid to opts)
  then show thesis
    using same update safe_transition [OF ok]
    by (cases rule: TransitionAsyncJob_shape [of now jid to opts rows]) auto
next
  case (AopExpireRunning now reason)
  then show thesis
    using update [OF _ safe_expire [OF ok]] by (simp add: ExpireRunningAsyncJobs_def Let_def)
next
  case (AopExpireWaiting now reason)
  then show thesis
    using update [OF _ safe_expire [OF ok, of "approval_overdue now"]]
    by (simp add: ExpireWaitingApprovalAsyncJobs_def Let_def approval_overdue_def)
next
  case (AopApprove now jid)
  then show thesis using update [OF _ safe_waiting(1) [OF ok]] async_exec_waiting(1) by blast
next
  case (AopReject now jid reason)
  then show thesis using update [OF _ safe_waiting(2) [OF ok]] async_exec_waiting(2) by blast
next
  case (AopExtend now jid t)
  then show thesis using update [OF _ safe_waiting(3) [OF ok]] async_exec_waiting(3) by blast
qed

lemma safe_update_ok: "async_ok rows \<Longrightarrow> safe_update rows P f \<Longrightarrow> async_ok (tbl_update P f rows)"
  by (rule async_ok_update) (auto simp: safe_update_def)

lemma async_ok_insert:
  "async_ok rows \<Longrightarrow> aj_ID row \<notin> aj_ID ` set rows \<Longrightarrow> aj_RequestID row \<notin> aj_RequestID ` set rows \<Longrightarrow>
   async_row_ok row \<Longrightarrow> async_ok (rows @ [row])"
  by (simp add: async_ok_def)

lemma async_exec_ok: "async_ok rows \<Longrightarrow> async_ok (async_exec p rows)"
  by (rule async_exec_shape [of rows p]) (auto intro: safe_update_ok async_ok_insert)

lemma safe_update_look:
  "safe_update rows P f \<Longrightarrow>
   async_look (tbl_update P f rows) k = map_option (\<lambda>r. if P r then f r else r) (async_look rows k)"
  by (rule async_look_update) (simp add: safe_update_def)

lemma async_look_in: "async_look rows k = Some r \<Longrightarrow> r \<in> set rows \<and> aj_ID r = k"
  unfolding async_look_def by (rule tbl_firstD)

lemma async_look_append:
  "async_look rows k = Some r \<Longrightarrow> async_look (rows @ [row]) k = Some r"
  by (simp add: async_look_def tbl_first_append)

lemma async_exec_step:
  assumes ok: "async_ok rows" and r: "async_look rows k = Some r"
  shows "\<exists>r'. async_look (async_exec p rows) k = Some r' \<and> async_can (aj_State r) (aj_State r') \<and>
    (async_IsTerminal (aj_State r) \<longrightarrow> r' = r)"
proof (rule async_exec_shape [OF ok, of p])
  assume "async_exec p rows = rows"
  then show ?thesis using r by (simp add: async_can_def)
next
  fix row
  assume "async_exec p rows = rows @ [row]"
  then show ?thesis using async_look_append [OF r] by (simp add: async_can_def)
next
  fix P f
  assume u: "async_exec p rows = tbl_update P f rows" "safe_update rows P f"
  then show ?thesis
    using r async_look_in [OF r] by (auto simp: safe_update_look safe_update_def async_can_def)
qed

interpretation async: ranked_store async_can async_IsTerminal async_rank async_ok async_state async_exec
proof
  show "async_ok (async_exec p m)" if "async_ok m" for p m
    using that by (rule async_exec_ok)
  show "\<exists>t. async_state (async_exec p m) k = Some t \<and> async_can\<^sup>*\<^sup>* s t"
    if "async_ok m" "async_state m k = Some s" for p m k s
    using that async_exec_step [of m k _ p] by (fastforce simp: async_state_def)
qed

lemma async_run_ok: "async_ok (fold async_exec ps [])"
  by (rule async.run_inv) (simp add: async_ok_def)

lemma async_run_frozen:
  "async_ok rows \<Longrightarrow> async_look rows k = Some r \<Longrightarrow> async_IsTerminal (aj_State r) \<Longrightarrow>
   async_look (fold async_exec ps rows) k = Some r"
proof (induction ps arbitrary: rows)
  case (Cons p ps)
  have "async_look (async_exec p rows) k = Some r"
    using async_exec_step [OF Cons.prems(1,2), of p] Cons.prems(3) by auto
  then show ?case using Cons.IH [OF async_exec_ok [OF Cons.prems(1)]] Cons.prems(3) by simp
qed simp

lemma GetAsyncJob_look:
  assumes ok: "async_ok rows" and k: "trim_space k = k" "k \<noteq> []"
  shows "GetAsyncJob k rows = (case async_look rows k of None \<Rightarrow> Err ErrNoRows | Some r \<Rightarrow> Ok r)"
proof (cases "async_look rows k")
  case None
  then show ?thesis using k by (simp add: GetAsyncJob_def async_look_def)
next
  case (Some r)
  then have "scanAsyncJob r = r"
    using async_ok_row [OF ok] async_look_in [OF Some] by (simp add: async_row_ok_def)
  then show ?thesis using Some k by (simp add: GetAsyncJob_def async_look_def)
qed

lemma async_look_mem: "async_ok rows \<Longrightarrow> r \<in> set rows \<Longrightarrow> async_look rows (aj_ID r) = Some r"
  by (simp add: async_look_def async_ok_def tbl_first_unique)

lemma waiting_count:
  assumes ok: "async_ok rows"
  shows "tbl_count (waiting_job k) rows = 0 \<longleftrightarrow> async_state rows k \<noteq> Some AsyncJobStateWaitingApproval"
proof
  assume 0: "tbl_count (waiting_job k) rows = 0"
  show "async_state rows k \<noteq> Some AsyncJobStateWaitingApproval"
  proof
    assume "async_state rows k = Some AsyncJobStateWaitingApproval"
    then obtain r where "async_look rows k = Some r" "aj_State r = AsyncJobStateWaitingApproval"
      by (auto simp: async_state_def)
    with async_look_in [OF this(1)] 0 show False by (auto simp: tbl_count_0 waiting_job_def)
  qed
next
  assume "async_state rows k \<noteq> Some AsyncJobStateWaitingApproval"
  then show "tbl_count (waiting_job k) rows = 0"
    using async_look_mem [OF ok] by (force simp: tbl_count_0 waiting_job_def async_state_def)
qed

lemma decide_waiting:
  assumes ok: "async_ok rows" and jid: "trim_space jid \<noteq> []"
    and w: "async_state rows (trim_space jid) = Some AsyncJobStateWaitingApproval"
  shows "async_state (snd (ApproveAsyncJob now jid rows)) (trim_space jid) = Some AsyncJobStateRunning"
    and "async_state (snd (RejectAsyncJob now jid reason rows)) (trim_space jid) = Some AsyncJobStateFailed"
proof -
  obtain r where r: "async_look rows (trim_space jid) = Some r" "aj_State r = AsyncJobStateWaitingApproval"
      "aj_ID r = trim_space jid"
    using w async_look_in by (fastforce simp: async_state_def)
  show "async_state (snd (ApproveAsyncJob now jid rows)) (trim_space jid) = Some AsyncJobStateRunning"
    using async_exec_waiting(1) [of now jid rows] r jid
    by (simp add: async_state_def async_look_update waiting_job_def)
  show "async_state (snd (RejectAsyncJob now jid reason rows)) (trim_space jid) = Some AsyncJobStateFailed"
    using async_exec_waiting(2) [of now jid reason rows] r jid
    by (simp add: async_state_def async_look_update waiting_job_def)
qed

lemma decide_settled:
  assumes ok: "async_ok rows" and jid: "trim_space jid \<noteq> []"
    and s: "async_state rows (trim_space jid) = Some s" "s \<noteq> AsyncJobStateWaitingApproval"
  shows "ApproveAsyncJob now jid rows = (Err (AsyncJobConflictError (trim_space jid) s ''approve''), rows)"
    and "RejectAsyncJob now jid reason rows = (Err (AsyncJobConflictError (trim_space jid) s ''reject''), rows)"
proof -
  have 0: "tbl_count (waiting_job (trim_space jid)) rows = 0"
    using s waiting_count [OF ok] by simp
  have g: "\<exists>r. GetAsyncJob (trim_space jid) rows = Ok r \<and> aj_State r = s"
    using s(1) jid GetAsyncJob_look [OF ok, of "trim_space jid"]
    by (auto simp: async_state_def go_string)
  show "ApproveAsyncJob now jid rows = (Err (AsyncJobConflictError (trim_space jid) s ''approve''), rows)"
    and "RejectAsyncJob now jid reason rows = (Err (AsyncJobConflictError (trim_space jid) s ''reject''), rows)"
    using g 0 jid by (auto simp: ApproveAsyncJob_def RejectAsyncJob_def Let_def tbl_update_none)
qed

lemma decide_ok_waiting:
  assumes ok: "async_ok rows"
    and "fst (ApproveAsyncJob now jid rows) = Ok job \<or> fst (RejectAsyncJob now jid reason rows) = Ok job"
  shows "trim_space jid \<noteq> [] \<and> async_state rows (trim_space jid) = Some AsyncJobStateWaitingApproval"
proof -
  have j: "trim_space jid \<noteq> []"
    using assms(2) by (auto simp: ApproveAsyncJob_def RejectAsyncJob_def)
  then have "tbl_count (waiting_job (trim_space jid)) rows \<noteq> 0"
    using assms(2)
    by (auto simp: ApproveAsyncJob_def RejectAsyncJob_def Let_def split: if_splits sum.splits)
  then show ?thesis using j waiting_count [OF ok, of "trim_space jid"] by simp
qed

lemma not_waiting_again:
  assumes ok: "async_ok rows" and s: "async_state rows k = Some s" "async_rank s \<ge> 2"
  shows "\<exists>t. async_state (fold async_exec qs rows) k = Some t \<and> t \<noteq> AsyncJobStateWaitingApproval"
proof -
  obtain t where t: "async_state (fold async_exec qs rows) k = Some t" "async_can\<^sup>*\<^sup>* s t"
    using async.run_reach [OF ok s(1), of qs] by blast
  then have "async_rank t \<ge> 2" using async.rank_reach [OF t(2)] s(2) by auto
  then show ?thesis using t(1) by auto
qed

lemma queued_count:
  "CountAsyncJobsByState [AsyncJobStateQueued] rows = tbl_count (\<lambda>r. aj_State r = AsyncJobStateQueued) rows"
  by (simp add: CountAsyncJobsByState_def isKnownAsyncJobState_def)

lemma queued_exec:
  assumes ok: "async_ok rows" and d: "d > 0" and p: "creates_with d p"
    and le: "int (CountAsyncJobsByState [AsyncJobStateQueued] rows) \<le> d"
  shows "int (CountAsyncJobsByState [AsyncJobStateQueued] (async_exec p rows)) \<le> d"
proof (cases "\<exists>e reqid newid now job. p = AopCreate e reqid newid now job")
  case True
  then obtain reqid newid now job where "p = AopCreate d reqid newid now job"
    using p by (auto simp: creates_with_def)
  then show ?thesis
    using le d
    by (cases rule: async_CreateJob_shape [of d reqid newid now job rows])
      (auto simp: queued_count tbl_count_def)
next
  case False
  have len: "length (async_exec p rows) = length rows"
    using False
    by (cases p) (auto simp: TransitionAsyncJob_def ExpireRunningAsyncJobs_def Let_def
        ExpireWaitingApprovalAsyncJobs_def ApproveAsyncJob_def RejectAsyncJob_def
        ExtendApprovalExpiry_def split: option.splits if_splits sum.splits)
  show ?thesis
  proof (rule async_exec_shape [OF ok, of p])
    fix P f
    assume "async_exec p rows = tbl_update P f rows" "safe_update rows P f"
    then show ?thesis
      using le tbl_count_update_le [of rows P "\<lambda>r. aj_State r = AsyncJobStateQueued" f]
      by (auto simp: queued_count safe_update_def)
  qed (use le len in auto)
qed

lemma queued_run:
  assumes d: "d > 0"
  shows "async_ok rows \<Longrightarrow> list_all (creates_with d) ps \<Longrightarrow>
    int (CountAsyncJobsByState [AsyncJobStateQueued] rows) \<le> d \<Longrightarrow>
    int (CountAsyncJobsByState [AsyncJobStateQueued] (fold async_exec ps rows)) \<le> d"
  by (induction ps arbitrary: rows) (auto simp: async_exec_ok queued_exec [OF _ d])

lemma decided_elsewhere:
  assumes ok: "async_ok rows" and jid: "trim_space jid \<noteq> []"
    and s: "async_state rows (trim_space jid) = Some s" "async_rank s \<ge> 2"
    and later: "later = fold async_exec qs rows"
  shows "\<exists>t. async_state later (trim_space jid) = Some t \<and>
    ApproveAsyncJob now jid later = (Err (AsyncJobConflictError (trim_space jid) t ''approve''), later) \<and>
    RejectAsyncJob now jid reason later = (Err (AsyncJobConflictError (trim_space jid) t ''reject''), later)"
proof -
  obtain t where t: "async_state later (trim_space jid) = Some t" "t \<noteq> AsyncJobStateWaitingApproval"
    using not_waiting_again [OF ok s, of qs] later by auto
  have "async_ok later" using async.run_inv [OF ok] later by simp
  from t(1) decide_settled [OF this jid t] show ?thesis by blast
qed

lemma approve_then_reject:
  assumes ok: "async_ok rows" and a: "fst (ApproveAsyncJob now jid rows) = Ok job"
  shows "\<exists>s. async_state (fold async_exec qs (snd (ApproveAsyncJob now jid rows))) (trim_space jid) = Some s \<and>
    RejectAsyncJob now' jid reason (fold async_exec qs (snd (ApproveAsyncJob now jid rows))) =
      (Err (AsyncJobConflictError (trim_space jid) s ''reject''),
       fold async_exec qs (snd (ApproveAsyncJob now jid rows)))"
proof -
  from decide_ok_waiting [OF ok disjI1 [OF a]] have j: "trim_space jid \<noteq> []"
    and s: "async_state (snd (ApproveAsyncJob now jid rows)) (trim_space jid) = Some AsyncJobStateRunning"
    using decide_waiting(1) [OF ok] by auto
  have "async_ok (snd (ApproveAsyncJob now jid rows))"
    using async_exec_ok [OF ok, of "AopApprove now jid"] by simp
  from decided_elsewhere [OF this j s _ refl, of qs now' reason] show ?thesis by auto
qed

lemma reject_then_approve:
  assumes ok: "async_ok rows" and a: "fst (RejectAsyncJob now jid reason rows) = Ok job"
  shows "\<exists>s. async_state (fold async_exec qs (snd (RejectAsyncJob now jid reason rows))) (trim_space jid) = Some s \<and>
    ApproveAsyncJob now' jid (fold async_exec qs (snd (RejectAsyncJob now jid reason rows))) =
      (Err (AsyncJobConflictError (trim_space jid) s ''approve''),
       fold async_exec qs (snd (RejectAsyncJob now jid reason rows)))"
proof -
  from decide_ok_waiting [OF ok disjI2 [OF a]] have j: "trim_space jid \<noteq> []"
    and s: "async_state (snd (RejectAsyncJob now jid reason rows)) (trim_space jid) = Some AsyncJobStateFailed"
    using decide_waiting(2) [OF ok] by auto
  have "async_ok (snd (RejectAsyncJob now jid reason rows))"
    using async_exec_ok [OF ok, of "AopReject now jid reason"] by simp
  from decided_elsewhere [OF this j s _ refl, of qs now'] show ?thesis by auto
qed

lemma normalize_state_idem: "normalizeAsyncJobState (normalizeAsyncJobState s) = normalizeAsyncJobState s"
  by (cases s) (auto simp: async_state_of_text_def)

lemma known_normalize: "isKnownAsyncJobState (normalizeAsyncJobState s) = isKnownAsyncJobState s"
  by (simp add: isKnownAsyncJobState_def normalize_state_idem)

lemma tbl_update_key:
  assumes "distinct (map key rows)" and r: "r \<in> set rows" "P r" and P: "\<And>x. P x \<Longrightarrow> key x = key r"
  shows "tbl_update P f rows = tbl_update (\<lambda>x. key x = key r) (\<lambda>_. f r) rows"
proof -
  have "x = r" if "x \<in> set rows" "key x = key r" for x
    using assms(1) r(1) that by (simp add: distinct_map inj_on_def)
  then have "(if P x then f x else x) = (if key x = key r then f r else x)" if "x \<in> set rows" for x
    using that P r(2) by metis
  then show ?thesis unfolding tbl_update_def by simp
qed

lemma transition_stored:
  assumes ok: "async_ok rows" and r: "async_look rows (trim_space jid) = Some r"
    and jid: "trim_space jid \<noteq> []" and to: "isKnownAsyncJobState to" "normalizeAsyncJobState to = to"
  shows "TransitionAsyncJob now jid to opts rows =
    (if aj_State r = to then (Ok r, rows)
     else if canTransitionAsyncJob (aj_State r) to
     then (Ok (transition_row now to opts r),
       tbl_update (\<lambda>x. aj_ID x = trim_space jid) (\<lambda>_. transition_row now to opts r) rows)
     else (Err (ErrInvalidAsyncJobTransition (aj_State r) to), rows))"
proof -
  have mem: "r \<in> set rows" "aj_ID r = trim_space jid" using async_look_in [OF r] by auto
  have nf: "normalizeAsyncJobState (aj_State r) = aj_State r"
    using async_ok_row [OF ok mem(1)] by (simp add: async_row_ok_def named_state_known)
  let ?P = "\<lambda>x. aj_ID x = trim_space jid \<and> aj_State x = aj_State r"
  let ?rows' = "tbl_update ?P (transition_row now to opts) rows"
  have cnt: "tbl_count ?P rows \<noteq> 0" using mem by (auto simp: tbl_count_0)
  have same: "?rows' = tbl_update (\<lambda>x. aj_ID x = trim_space jid) (\<lambda>_. transition_row now to opts r) rows"
    using tbl_update_key [of aj_ID rows r ?P "transition_row now to opts"] ok mem by (simp add: async_ok_def)
  have get: "GetAsyncJob (trim_space jid) rows = Ok r"
    using GetAsyncJob_look [OF ok] r jid by simp
  have get': "GetAsyncJob (trim_space jid) ?rows' = Ok (transition_row now to opts r)"
    if "aj_State r \<noteq> to" "canTransitionAsyncJob (aj_State r) to"
  proof -
    have "async_ok ?rows'"
      using safe_update_ok [OF ok safe_transition [OF ok _ that(1) that(2)]] to
      by (simp add: known_named)
    moreover have "async_look ?rows' (trim_space jid) = Some (transition_row now to opts r)"
      using r mem by (simp add: async_look_update)
    ultimately show ?thesis using GetAsyncJob_look jid by simp
  qed
  show ?thesis
    using jid to r nf cnt get get' unfolding same [symmetric]
    by (simp add: TransitionAsyncJob_def async_look_def Let_def)
qed

lemma create_get:
  assumes ok: "async_ok rows" and created: "snd (async_CreateJob d reqid newid now job rows) \<noteq> rows"
    and id: "trim_space (aj_ID job) = aj_ID job" "trim_space newid = newid" "newid \<noteq> []"
  defines "row \<equiv> async_row_of reqid newid now (job\<lparr>aj_State := AsyncJobStateQueued\<rparr>)"
  shows "async_CreateJob d reqid newid now job rows = (Ok row, rows @ [row])"
    and "async_ok (rows @ [row])"
proof -
  have full: "\<not> (d > 0 \<and> int (CountAsyncJobsByState [AsyncJobStateQueued] rows) \<ge> d)"
    and c: "CreateAsyncJob reqid newid now (job\<lparr>aj_State := AsyncJobStateQueued\<rparr>) rows =
      (GetAsyncJob (aj_ID row) (rows @ [row]), rows @ [row])"
    using created
    by (auto simp: async_CreateJob_def CreateAsyncJob_def Let_def row_def split: if_splits)
  show rok: "async_ok (rows @ [row])"
    using async_exec_ok [OF ok, of "AopCreate d reqid newid now job"] full c
    by (simp add: async_CreateJob_def)
  have "trim_space (aj_ID row) = aj_ID row \<and> aj_ID row \<noteq> []"
    using id by (simp add: row_def async_row_of_def Let_def)
  then have "GetAsyncJob (aj_ID row) (rows @ [row]) = Ok row"
    using GetAsyncJob_look [OF rok] async_look_mem [OF rok, of row] by simp
  then show "async_CreateJob d reqid newid now job rows = (Ok row, rows @ [row])"
    using full c by (simp add: async_CreateJob_def Let_def)
qed

lemma get_by_request:
  assumes ok: "async_ok rows" and r: "r \<in> set rows" "trim_space (aj_RequestID r) = aj_RequestID r"
    "aj_RequestID r \<noteq> []"
  shows "GetAsyncJobByRequestID (aj_RequestID r) rows = Ok r"
proof -
  have "tbl_first (\<lambda>x. aj_RequestID x = aj_RequestID r) rows = Some r"
    using ok r(1) by (simp add: async_ok_def tbl_first_unique)
  moreover have "scanAsyncJob r = r"
    using async_ok_row [OF ok r(1)] by (simp add: async_row_ok_def)
  ultimately show ?thesis using r by (simp add: GetAsyncJobByRequestID_def)
qed

lemma one_op: "async_exec p rows = rows' \<Longrightarrow> \<exists>ps. rows' = fold async_exec ps rows"
  by (rule exI [of _ "[p]"]) simp

lemma no_op: "\<exists>ps. rows = fold async_exec ps rows"
  by (rule exI [of _ "[]"]) simp

lemma by_request_ops: "\<exists>ps. snd (transitionByRequestID now req to opts rows) = fold async_exec ps rows"
proof (cases "GetAsyncJobByRequestID req rows")
  case (Inl e)
  then show ?thesis using no_op by (simp add: transitionByRequestID_def)
next
  case (Inr job)
  then show ?thesis
    using one_op [of "AopTransition now (aj_ID job) to opts" rows] by (simp add: transitionByRequestID_def)
qed

lemma expire_stale_ops:
  "snd (ExpireStale tnow now rows) =
   fold async_exec [AopExpireRunning tnow ''control plane restarted before command completed'',
     AopExpireWaiting now ''approval window expired while control plane restarted''] rows"
  by (simp add: ExpireStale_def case_prod_beta Let_def)

lemma decide_ops:
  "\<exists>ps. snd (async_ApproveJob now jid rows) = fold async_exec ps rows"
  "\<exists>ps. snd (async_RejectJob now jid reason rows) = fold async_exec ps rows"
  using no_op [of rows] one_op [of "AopApprove now (trim_space jid)" rows]
    one_op [of "AopReject now (trim_space jid) (trim_space reason)" rows]
  by (simp_all add: async_ApproveJob_def async_RejectJob_def)

lemma mgr_exec_ops: "\<exists>ps. mgr_exec m rows = fold async_exec ps rows"
proof (cases m)
  case (MopCreate d reqid newid now p ws cmd)
  show ?thesis
    unfolding MopCreate mgr_exec.simps CreateForCommandInWorkspace_def
    by (rule one_op) (rule async_exec.simps(1))
next
  case (MopExpireStale tnow now)
  show ?thesis unfolding MopExpireStale mgr_exec.simps expire_stale_ops by (rule exI) (rule refl)
qed (auto simp: MarkRunning_def MarkWaitingApproval_def CancelAsyncJob_def MarkRunningByRequestID_def
    MarkSucceededByRequestID_def MarkFailedByRequestID_def decide_ops
    intro!: by_request_ops one_op [OF async_exec.simps(2)])

lemma ExpireStale_look:
  "async_look (snd (ExpireStale tnow now rows)) k =
   map_option (\<lambda>r.
     if aj_State r = AsyncJobStateRunning
     then expire_row tnow ''control plane restarted before command completed'' r
     else if approval_overdue now r
     then expire_row now ''approval window expired while control plane restarted'' r
     else r) (async_look rows k)"
proof -
  have n: "trim_space ''control plane restarted before command completed'' = ''control plane restarted before command completed''"
    "trim_space ''approval window expired while control plane restarted'' = ''approval window expired while control plane restarted''"
    by code_simp+
  have o: "\<not> approval_overdue now (expire_row t reason r)" for t reason r
    by (simp add: approval_overdue_def)
  show ?thesis
    by (cases "async_look rows k")
      (simp_all add: ExpireStale_def ExpireRunningAsyncJobs_def ExpireWaitingApprovalAsyncJobs_def Let_def
        async_look_update n o)
qed

lemma not_text_le_later: "\<not> text_le t u \<Longrightarrow> u < t + Second"
  using text_le_total text_le_later by blast

section \<open>Properties\<close>

text \<open>
  Property C5. A job in a terminal state is final: once a history of the store has brought a job to
  succeeded, failed, expired or cancelled, no continuation of the history, whatever its operations,
  changes anything in the job's row.
\<close>

theorem terminal_job_is_final:
  assumes "async_look (fold async_exec ps []) k = Some r" and "async_IsTerminal (aj_State r)"
  shows "async_look (fold async_exec (ps @ qs) []) k = Some r"
  using async_run_frozen [OF async_run_ok assms] by simp

theorem terminal_job_is_final_witness:
  "async_look (fold async_exec
     ((demo_ops @ [AopReject 9 ''j1'' ''no'']) @ [AopApprove 10 ''j1'', AopExpireRunning 11 []]) []) ''j1'' =
   async_look (fold async_exec (demo_ops @ [AopReject 9 ''j1'' ''no'']) []) ''j1'' \<and>
   async_state (fold async_exec (demo_ops @ [AopReject 9 ''j1'' ''no'']) []) ''j1'' = Some AsyncJobStateFailed"
proof -
  have s: "async_state (fold async_exec (demo_ops @ [AopReject 9 ''j1'' ''no'']) []) ''j1'' = Some AsyncJobStateFailed"
    by code_simp
  then obtain r where "async_look (fold async_exec (demo_ops @ [AopReject 9 ''j1'' ''no'']) []) ''j1'' = Some r"
      "aj_State r = AsyncJobStateFailed"
    by (auto simp: async_state_def)
  then show ?thesis
    using s terminal_job_is_final [of "demo_ops @ [AopReject 9 ''j1'' ''no'']" "''j1''" r
        "[AopApprove 10 ''j1'', AopExpireRunning 11 []]"]
    by (simp del: fold_append)
qed

text \<open>
  Property C10. Approval and rejection exclude each other for good: after \<^verbatim>\<open>ApproveJob\<close> has
  succeeded on a job, a \<^verbatim>\<open>RejectJob\<close> on it, after any further operations, writes
  nothing and returns the conflict error with the state the job is then in, and the same with the
  two exchanged.
\<close>

theorem approve_reject_exclusive:
  assumes "rows = fold async_exec ps []"
  shows "(fst (async_ApproveJob now jid rows) = Ok job \<longrightarrow>
      (let later = fold async_exec qs (snd (async_ApproveJob now jid rows)) in
       \<exists>s. async_state later (trim_space jid) = Some s \<and>
         async_RejectJob now' jid reason later =
           (Err (AsyncJobConflictError (trim_space jid) s ''reject''), later))) \<and>
    (fst (async_RejectJob now jid reason rows) = Ok job \<longrightarrow>
      (let later = fold async_exec qs (snd (async_RejectJob now jid reason rows)) in
       \<exists>s. async_state later (trim_space jid) = Some s \<and>
         async_ApproveJob now' jid later =
           (Err (AsyncJobConflictError (trim_space jid) s ''approve''), later)))"
proof -
  have ok: "async_ok rows" using assms async_run_ok by simp
  show ?thesis
    unfolding async_ApproveJob_def async_RejectJob_def Let_def
    using approve_then_reject [OF ok, of now "trim_space jid" job] reject_then_approve [OF ok, of now "trim_space jid" "trim_space reason" job]
    by auto
qed

theorem approve_reject_exclusive_witness:
  "\<exists>s. async_RejectJob 40 ''j1'' ''late''
      (fold async_exec [AopExpireRunning 30 []] (snd (async_ApproveJob 20 ''j1'' (fold async_exec demo_ops [])))) =
    (Err (AsyncJobConflictError ''j1'' s ''reject''),
     fold async_exec [AopExpireRunning 30 []] (snd (async_ApproveJob 20 ''j1'' (fold async_exec demo_ops []))))"
proof -
  have o: "\<not> isl (fst (async_ApproveJob 20 ''j1'' (fold async_exec demo_ops [])))" by code_simp
  then obtain job where j: "fst (async_ApproveJob 20 ''j1'' (fold async_exec demo_ops [])) = Ok job"
    by (cases "fst (async_ApproveJob 20 ''j1'' (fold async_exec demo_ops []))") auto
  have t: "trim_space ''j1'' = ''j1''" by code_simp
  show ?thesis
    using approve_reject_exclusive [OF refl, of 20 "''j1''" demo_ops job "[AopExpireRunning 30 []]" 40 "''late''"] j
    unfolding t Let_def by blast
qed

text \<open>
  Property C11. The invariant of the store holds along every history: the job ids are distinct and so
  are the request ids, every stored state is one of the seven named states, a running job has its
  start time, a job in a terminal state has its finish time and no stored output is longer than the
  limit.
\<close>

theorem async_store_invariant:
  "distinct (map aj_ID (fold async_exec ps [])) \<and> distinct (map aj_RequestID (fold async_exec ps [])) \<and>
   list_all (\<lambda>r. named_state (aj_State r) \<and>
       (aj_State r = AsyncJobStateRunning \<longrightarrow> aj_StartedAt r \<noteq> None) \<and>
       (async_IsTerminal (aj_State r) \<longrightarrow> aj_FinishedAt r \<noteq> None) \<and>
       length (aj_Output r) \<le> maxRunOutputBytes) (fold async_exec ps [])"
  using async_run_ok [of ps] by (auto simp: async_ok_def list_all_iff async_row_ok_def)

theorem async_store_invariant_witness:
  "list_all (\<lambda>r. aj_State r = AsyncJobStateRunning \<longrightarrow> aj_StartedAt r \<noteq> None)
     (fold async_exec (demo_ops @ [AopApprove 9 ''j1'']) []) \<and>
   async_state (fold async_exec (demo_ops @ [AopApprove 9 ''j1'']) []) ''j1'' = Some AsyncJobStateRunning"
proof -
  have s: "async_state (fold async_exec (demo_ops @ [AopApprove 9 ''j1'']) []) ''j1'' = Some AsyncJobStateRunning"
    by code_simp
  show ?thesis
    using s async_store_invariant [of "demo_ops @ [AopApprove 9 ''j1'']"] unfolding list_all_iff by blast
qed

text \<open>
  Jobs only move forward: the state of a job is found again after any continuation of a
  history, equal to the earlier one or further along queued, waiting for approval, running, finished;
  and a state that has been left never comes back.
\<close>

lemma job_states_move_forward:
  assumes "async_state (fold async_exec ps []) k = Some s"
  shows "(\<exists>t. async_state (fold async_exec (ps @ qs) []) k = Some t \<and>
      (t = s \<or> async_rank s < async_rank t)) \<and>
    (async_state (fold async_exec (ps @ qs) []) k \<noteq> Some s \<longrightarrow>
      async_state (fold async_exec (ps @ qs @ rs) []) k \<noteq> Some s)"
proof
  show "\<exists>t. async_state (fold async_exec (ps @ qs) []) k = Some t \<and> (t = s \<or> async_rank s < async_rank t)"
    using async.run_reach [OF async_run_ok assms, of qs] async.rank_reach by auto
  then show "async_state (fold async_exec (ps @ qs) []) k \<noteq> Some s \<longrightarrow>
      async_state (fold async_exec (ps @ qs @ rs) []) k \<noteq> Some s"
    using async.run_no_return [OF async_run_ok assms, of qs _ rs] by auto
qed

lemma job_states_move_forward_witness:
  "async_state (fold async_exec (demo_ops @ [AopApprove 9 ''j1''] @ [AopExpireRunning 11 []]) []) ''j1'' \<noteq>
     Some AsyncJobStateWaitingApproval"
proof -
  have "async_state (fold async_exec demo_ops []) ''j1'' = Some AsyncJobStateWaitingApproval"
    and "async_state (fold async_exec (demo_ops @ [AopApprove 9 ''j1'']) []) ''j1'' = Some AsyncJobStateRunning"
    by code_simp+
  then show ?thesis
    using job_states_move_forward [of demo_ops "''j1''" AsyncJobStateWaitingApproval
        "[AopApprove 9 ''j1'']" "[AopExpireRunning 11 []]"] by simp
qed

text \<open>
  The queue limit holds: where every job is created through a manager whose maximum
  depth is \<open>d > 0\<close>, the number of queued jobs never exceeds \<open>d\<close>, whatever other
  operations run in between.
\<close>

lemma queue_depth_bounded:
  assumes "d > 0" and "list_all (creates_with d) ps"
  shows "int (CountAsyncJobsByState [AsyncJobStateQueued] (fold async_exec ps [])) \<le> d"
  by (rule queued_run [OF assms(1) _ assms(2)])
    (use assms(1) in \<open>auto simp: async_ok_def queued_count tbl_count_def\<close>)

text \<open>
  \<^verbatim>\<open>TransitionAsyncJob\<close> on a stored job and a known target state has three
  outcomes. A job already in the target state is returned and nothing is written; a move that the
  table allows writes exactly the job's row and returns it; any other move is refused with
  both states in the error and nothing is written.
\<close>

lemma transition_outcomes:
  assumes "rows = fold async_exec ps []" and "isKnownAsyncJobState to" and "normalizeAsyncJobState to = to"
    and "async_look rows (trim_space jid) = Some r" and "trim_space jid \<noteq> []"
  shows "TransitionAsyncJob now jid to opts rows =
    (if aj_State r = to then (Ok r, rows)
     else if canTransitionAsyncJob (aj_State r) to
     then (Ok (transition_row now to opts r),
       tbl_update (\<lambda>x. aj_ID x = trim_space jid) (\<lambda>_. transition_row now to opts r) rows)
     else (Err (ErrInvalidAsyncJobTransition (aj_State r) to), rows))"
  using transition_stored [OF _ assms(4,5,2,3)] async_run_ok [of ps] assms(1) by blast

lemma transition_outcomes_witness:
  "fst (TransitionAsyncJob 50 ''j1'' AsyncJobStateSucceeded no_options (fold async_exec demo_ops [])) =
     Err (ErrInvalidAsyncJobTransition AsyncJobStateWaitingApproval AsyncJobStateSucceeded)"
proof -
  have s: "async_state (fold async_exec demo_ops []) ''j1'' = Some AsyncJobStateWaitingApproval"
    by code_simp
  then obtain r where r: "async_look (fold async_exec demo_ops []) ''j1'' = Some r"
      "aj_State r = AsyncJobStateWaitingApproval"
    by (auto simp: async_state_def)
  have t: "trim_space ''j1'' = ''j1''" by code_simp
  have c: "\<not> canTransitionAsyncJob AsyncJobStateWaitingApproval AsyncJobStateSucceeded" by code_simp
  show ?thesis
    using transition_outcomes [OF refl, of AsyncJobStateSucceeded demo_ops "''j1''" r 50 no_options] r c
    by (simp add: t isKnownAsyncJobState_def)
qed

text \<open>
  A created job can be read back: where the manager accepts a job, the result is the
  queued row it stored at the end of the table, \<^verbatim>\<open>GetJob\<close> with the returned id gives the same
  job, and so does the lookup by request id where the caller gave one.
\<close>

lemma created_job_reads_back:
  assumes "rows = fold async_exec ps []"
    and "trim_space (aj_ID job) = aj_ID job" and "trim_space newid = newid" and "newid \<noteq> []"
    and "snd (async_CreateJob d reqid newid now job rows) \<noteq> rows"
  shows "\<exists>row. async_CreateJob d reqid newid now job rows = (Ok row, rows @ [row]) \<and>
    aj_State row = AsyncJobStateQueued \<and> aj_Command row = trim_space (aj_Command job) \<and>
    GetAsyncJob (aj_ID row) (rows @ [row]) = Ok row \<and>
    (trim_space (aj_RequestID job) \<noteq> [] \<longrightarrow>
       GetAsyncJobByRequestID (aj_RequestID job) (rows @ [row]) = Ok row)"
proof -
  let ?row = "async_row_of reqid newid now (job\<lparr>aj_State := AsyncJobStateQueued\<rparr>)"
  have ok: "async_ok rows" using assms(1) async_run_ok by simp
  note c = create_get [OF ok assms(5,2,3,4)]
  have "trim_space (aj_ID ?row) = aj_ID ?row \<and> aj_ID ?row \<noteq> []"
    using assms(2,3,4) by (simp add: async_row_of_def Let_def)
  then have g: "GetAsyncJob (aj_ID ?row) (rows @ [?row]) = Ok ?row"
    using GetAsyncJob_look [OF c(2)] async_look_mem [OF c(2), of ?row] by simp
  have q: "GetAsyncJobByRequestID (aj_RequestID job) (rows @ [?row]) = Ok ?row"
    if "trim_space (aj_RequestID job) \<noteq> []"
    using get_by_request [OF c(2), of ?row] that
    by (simp add: async_row_of_def Let_def GetAsyncJobByRequestID_def)
  show ?thesis
    using c(1) g q async_row_of_ok(2) [of "job\<lparr>aj_State := AsyncJobStateQueued\<rparr>"]
    by (intro exI [of _ ?row]) (simp add: async_row_of_def Let_def)
qed

lemma created_job_reads_back_witness:
  "\<exists>row. snd (async_CreateJob 0 ''r9'' ''j9'' 60 demo_job (fold async_exec demo_ops [])) =
      fold async_exec demo_ops [] @ [row] \<and>
    GetAsyncJob (aj_ID row) (fold async_exec demo_ops [] @ [row]) = Ok row"
proof -
  have 1: "trim_space (aj_ID demo_job) = aj_ID demo_job" "trim_space ''j9'' = ''j9''" by code_simp+
  have "length (snd (async_CreateJob 0 ''r9'' ''j9'' 60 demo_job (fold async_exec demo_ops []))) \<noteq>
      length (fold async_exec demo_ops [])" by code_simp
  then have 2: "snd (async_CreateJob 0 ''r9'' ''j9'' 60 demo_job (fold async_exec demo_ops [])) \<noteq>
      fold async_exec demo_ops []" by auto
  from created_job_reads_back [OF refl 1 _ 2] show ?thesis by auto
qed

text \<open>
  Restart recovery: \<^verbatim>\<open>ExpireStale\<close> expires every running job and every waiting
  job that the deadline comparison finds overdue, with its two status reasons, and leaves all other
  jobs as they were. The comparison is right for every deadline at least one second away from the clock:
  a job whose deadline is a second or more in the past is expired and a job whose deadline is a
  second or more in the future is kept.
\<close>

lemma expire_stale_outcome:
  assumes "async_look rows k = Some r"
  shows "(aj_State r = AsyncJobStateRunning \<longrightarrow>
      async_look (snd (ExpireStale tnow now rows)) k =
        Some (expire_row tnow ''control plane restarted before command completed'' r)) \<and>
    (\<forall>t. aj_State r = AsyncJobStateWaitingApproval \<and> aj_ExpiresAt r = Some t \<and> t + Second \<le> now \<longrightarrow>
      async_look (snd (ExpireStale tnow now rows)) k =
        Some (expire_row now ''approval window expired while control plane restarted'' r)) \<and>
    (aj_State r \<noteq> AsyncJobStateRunning \<and>
      (aj_State r = AsyncJobStateWaitingApproval \<longrightarrow> (\<forall>t. aj_ExpiresAt r = Some t \<longrightarrow> now + Second \<le> t)) \<longrightarrow>
      async_look (snd (ExpireStale tnow now rows)) k = Some r)"
proof -
  have past: "approval_overdue now r" if "aj_State r = AsyncJobStateWaitingApproval" "aj_ExpiresAt r = Some t" "t + Second \<le> now" for t
    using that not_text_le_later [of t now] by (auto simp: approval_overdue_def)
  have future: "\<not> approval_overdue now r"
    if "aj_State r = AsyncJobStateWaitingApproval \<longrightarrow> (\<forall>t. aj_ExpiresAt r = Some t \<longrightarrow> now + Second \<le> t)"
    using that text_le_later by (fastforce simp: approval_overdue_def split: option.splits)
  show ?thesis
    using past future by (auto simp: ExpireStale_look assms)
qed

text \<open>
  Inside the last second the deadline comparison, which compares RFC 3339 texts, can
  be wrong: a waiting job whose deadline has a fraction of a second is found overdue at the whole
  second before it, so it is expired before its deadline.
\<close>

lemma approval_expires_early:
  assumes "aj_State r = AsyncJobStateWaitingApproval" and "aj_ExpiresAt r = Some t" and "t mod Second \<noteq> 0"
    and "now = t - t mod Second"
  shows "now < t \<and> approval_overdue now r \<and>
    aj_State (hd (snd (ExpireWaitingApprovalAsyncJobs now reason [r]))) = AsyncJobStateExpired"
proof -
  have "0 < t mod Second" using assms(3) by (simp add: Second_def order_less_le)
  then have "now < t" using assms(4) by simp
  moreover have o: "approval_overdue now r"
    using text_order_inverted [OF assms(3)] assms(1,2,4) by (simp add: approval_overdue_def)
  moreover have "aj_State (hd (snd (ExpireWaitingApprovalAsyncJobs now reason [r]))) = AsyncJobStateExpired"
    using o by (simp add: ExpireWaitingApprovalAsyncJobs_def Let_def tbl_update_def)
  ultimately show ?thesis by blast
qed

lemma approval_expires_early_witness:
  "approval_overdue (2 * Second)
     (demo_job\<lparr>aj_State := AsyncJobStateWaitingApproval, aj_ExpiresAt := Some (2 * Second + 5)\<rparr>)"
  using approval_expires_early [of "demo_job\<lparr>aj_State := AsyncJobStateWaitingApproval,
      aj_ExpiresAt := Some (2 * Second + 5)\<rparr>" "2 * Second + 5" "2 * Second"]
  by (simp add: Second_def)


end
