(* ===== verification/Async_Scheduler.thy ===== *)
theory Async_Scheduler
  imports Async_Jobs
begin

text \<open>
  The worker scheduler of the async jobs, \<^verbatim>\<open>internal/controlplane/jobs/async_scheduler.go\<close>.
  The scheduler's mutex makes its passes exclusive, but the server writes the same table without
  it. A pass therefore takes the operations that other goroutines commit meanwhile as arguments:
  \<open>mid\<close> between the two queries of a pass and \<open>env c\<close> before the claim of the
  candidate \<open>c\<close>, which happens at \<open>clock c\<close>. The dispatcher is a parameter: it may change the table and returns
  the text of an error or none. Durations of the histograms are nanoseconds.
\<close>

section \<open>Configuration and results\<close>

abbreviation defaultAsyncSchedulerMaxInFlight :: int where
  "defaultAsyncSchedulerMaxInFlight \<equiv> 8"
abbreviation defaultAsyncSchedulerPollInterval :: duration where
  "defaultAsyncSchedulerPollInterval \<equiv> 200 * 1000000"
abbreviation defaultAsyncSchedulerFetchBatch :: int where
  "defaultAsyncSchedulerFetchBatch \<equiv> 64"

record AsyncWorkerConfig =
  wc_MaxInFlight :: int
  wc_MaxPerProbe :: int
  wc_PollInterval :: duration
  wc_FetchBatchSize :: int

definition normalized :: "AsyncWorkerConfig \<Rightarrow> AsyncWorkerConfig" where
  "normalized c =
     (let inflight = (if wc_MaxInFlight c \<le> 0 then defaultAsyncSchedulerMaxInFlight
                      else wc_MaxInFlight c);
          perprobe = (if wc_MaxPerProbe c < 0 then 0 else wc_MaxPerProbe c);
          poll = (if wc_PollInterval c \<le> 0 then defaultAsyncSchedulerPollInterval
                  else wc_PollInterval c);
          b0 = (if wc_FetchBatchSize c \<le> 0 then defaultAsyncSchedulerFetchBatch
                else wc_FetchBatchSize c);
          b1 = (if b0 < inflight then inflight else b0);
          b2 = (if b1 > maxAsyncJobListLimit then maxAsyncJobListLimit else b1)
      in \<lparr>wc_MaxInFlight = inflight, wc_MaxPerProbe = perprobe, wc_PollInterval = poll,
          wc_FetchBatchSize = b2\<rparr>)"

datatype AsyncDispatchOutcome = AsyncDispatchOutcomeStarted | AsyncDispatchOutcomeQueued

record AsyncDispatchResult =
  dr_Outcome :: AsyncDispatchOutcome
  dr_Reason :: string
  dr_Job :: "AsyncJob option"

section \<open>Histograms\<close>

record durationHistogram =
  h_buckets :: "duration list"
  h_counts :: "nat list"
  h_sum :: duration
  h_count :: nat

definition newDurationHistogram :: "duration list \<Rightarrow> durationHistogram" where
  "newDurationHistogram buckets =
     (let pos = filter (\<lambda>b. b > 0) buckets;
          out = (if pos = [] then [100000000, 250000000, 500000000, 1000000000, 2500000000, 5000000000]
                 else pos)
      in \<lparr>h_buckets = out, h_counts = replicate (length out + 1) 0, h_sum = 0, h_count = 0\<rparr>)"

definition hist_observe :: "duration \<Rightarrow> durationHistogram \<Rightarrow> durationHistogram" where
  "hist_observe d h =
     (let s = (if d < 0 then 0 else d);
          bumped = map (\<lambda>(b, c). if s \<le> b then Suc c else c) (zip (h_buckets h) (h_counts h))
                   @ drop (length (h_buckets h)) (h_counts h)
      in h\<lparr>h_count := Suc (h_count h), h_sum := h_sum h + s,
           h_counts := butlast bumped @ [Suc (last bumped)]\<rparr>)"

record asyncSchedulerMetrics =
  m_queueLatency :: durationHistogram
  m_dispatchLatency :: durationHistogram

definition newAsyncSchedulerMetrics :: "duration list \<Rightarrow> asyncSchedulerMetrics" where
  "newAsyncSchedulerMetrics buckets =
     \<lparr>m_queueLatency = newDurationHistogram buckets, m_dispatchLatency = newDurationHistogram buckets\<rparr>"

definition observeQueueLatency :: "duration \<Rightarrow> asyncSchedulerMetrics \<Rightarrow> asyncSchedulerMetrics" where
  "observeQueueLatency d m = m\<lparr>m_queueLatency := hist_observe d (m_queueLatency m)\<rparr>"

definition observeDispatchLatency :: "duration \<Rightarrow> asyncSchedulerMetrics \<Rightarrow> asyncSchedulerMetrics" where
  "observeDispatchLatency d m = m\<lparr>m_dispatchLatency := hist_observe d (m_dispatchLatency m)\<rparr>"

section \<open>Claiming and dispatching\<close>

text \<open>
  The state of a pass: the table, the metrics, the running total and the running jobs by probe
  that the pass counted at its start and keeps up to date.
\<close>

record sched_state =
  ss_rows :: async_rows
  ss_metrics :: asyncSchedulerMetrics
  ss_total :: int
  ss_byProbe :: "nat gmap"

definition probe_count :: "nat gmap \<Rightarrow> string \<Rightarrow> nat" where
  "probe_count m p = (case gget m p of None \<Rightarrow> 0 | Some n \<Rightarrow> n)"

definition claimQueuedJob ::
  "AsyncWorkerConfig \<Rightarrow> time \<Rightarrow> AsyncJob \<Rightarrow> sched_state \<Rightarrow>
   (async_error + AsyncJob option \<times> string) \<times> sched_state" where
  "claimQueuedJob cfg now candidate st =
     (if ss_total st \<ge> wc_MaxInFlight cfg then (Ok (None, ''global_limit''), st)
      else if wc_MaxPerProbe cfg > 0 \<and>
              int (probe_count (ss_byProbe st) (aj_ProbeID candidate)) \<ge> wc_MaxPerProbe cfg
      then (Ok (None, ''probe_limit''), st)
      else
        let (res, rows') =
              TransitionAsyncJob now (aj_ID candidate) AsyncJobStateRunning no_options (ss_rows st);
            st1 = st\<lparr>ss_rows := rows'\<rparr>
        in case res of
             Err e \<Rightarrow>
               if IsNotFound e \<or> is_invalid_async_transition e
               then (Ok (None, ''state_changed''), st1) else (Err e, st1)
           | Ok claimed \<Rightarrow>
               let p = aj_ProbeID claimed;
                   st2 = st1\<lparr>ss_total := ss_total st1 + 1,
                             ss_byProbe := gput p (probe_count (ss_byProbe st1) p + 1) (ss_byProbe st1)\<rparr>;
                   st3 = (case aj_StartedAt claimed of
                            Some t \<Rightarrow> st2\<lparr>ss_metrics :=
                              observeQueueLatency (t - aj_CreatedAt claimed) (ss_metrics st2)\<rparr>
                          | None \<Rightarrow> st2)
               in (Ok (Some claimed, []), st3))"

text \<open>The loop of \<^verbatim>\<open>drainQueued\<close>; the first result lists the claimed jobs in order.\<close>

fun drain_loop ::
  "AsyncWorkerConfig \<Rightarrow> (AsyncJob \<Rightarrow> time) \<Rightarrow> (AsyncJob \<Rightarrow> async_op list) \<Rightarrow> int \<Rightarrow> int \<Rightarrow> AsyncJob list \<Rightarrow> sched_state \<Rightarrow>
   AsyncJob list \<times> sched_state" where
  "drain_loop cfg clock env available started [] st = ([], st)"
| "drain_loop cfg clock env available started (c # cs) st =
     (if started \<ge> available then ([], st)
      else
        let st0 = st\<lparr>ss_rows := fold async_exec (env c) (ss_rows st)\<rparr>
        in case claimQueuedJob cfg (clock c) c st0 of
             (Ok (Some claimed, _), st') \<Rightarrow>
               let (rest, st'') = drain_loop cfg clock env available (started + 1) cs st'
               in (claimed # rest, st'')
           | (_, st') \<Rightarrow> drain_loop cfg clock env available started cs st')"

definition drainQueued ::
  "AsyncWorkerConfig \<Rightarrow> (AsyncJob \<Rightarrow> time) \<Rightarrow> async_op list \<Rightarrow> (AsyncJob \<Rightarrow> async_op list) \<Rightarrow>
   async_rows \<Rightarrow> asyncSchedulerMetrics \<Rightarrow> AsyncJob list \<times> async_rows \<times> asyncSchedulerMetrics" where
  "drainQueued cfg clock mid env rows metrics =
     (let byProbe = RunningAsyncJobsByProbe rows;
          total = int (sum_list (map snd byProbe));
          available = wc_MaxInFlight cfg - total
      in if available \<le> 0 then ([], rows, metrics)
         else
           let rows1 = fold async_exec mid rows
           in case ListAsyncJobsByState AsyncJobStateQueued (wc_FetchBatchSize cfg) rows1 of
                Err e \<Rightarrow> ([], rows1, metrics)
              | Ok queued \<Rightarrow>
                  let (claimed, st) = drain_loop cfg clock env available 0 queued
                        \<lparr>ss_rows = rows1, ss_metrics = metrics, ss_total = total, ss_byProbe = byProbe\<rparr>
                  in (claimed, ss_rows st, ss_metrics st))"

type_synonym dispatcher = "AsyncJob \<Rightarrow> async_rows \<Rightarrow> string option \<times> async_rows"

definition dispatchClaimedSync ::
  "dispatcher \<Rightarrow> duration \<Rightarrow> time \<Rightarrow> AsyncJob \<Rightarrow> async_rows \<Rightarrow> asyncSchedulerMetrics \<Rightarrow>
   string option \<times> async_rows \<times> asyncSchedulerMetrics" where
  "dispatchClaimedSync dispatch elapsed now job rows metrics =
     (let (err, rows1) = dispatch job rows;
          metrics1 = observeDispatchLatency elapsed metrics
      in case err of
           None \<Rightarrow> (None, rows1, metrics1)
         | Some msg \<Rightarrow>
             let (_, rows2) = TransitionAsyncJob now (aj_ID job) AsyncJobStateFailed
                   (no_options\<lparr>to_StatusReason := msg, to_Output := msg\<rparr>) rows1
             in (Some msg, rows2, metrics1))"

datatype dispatch_error = SchedStoreError async_error | SchedDispatchError string

text \<open>
  \<^verbatim>\<open>DispatchNow\<close> returns a result together with an optional error, as the Go
  function does.
\<close>

definition DispatchNow ::
  "AsyncWorkerConfig \<Rightarrow> dispatcher \<Rightarrow> duration \<Rightarrow> time \<Rightarrow> time \<Rightarrow> string \<Rightarrow> async_rows \<Rightarrow> asyncSchedulerMetrics \<Rightarrow>
   (AsyncDispatchResult option \<times> dispatch_error option) \<times> async_rows \<times> asyncSchedulerMetrics" where
  "DispatchNow cfg dispatch elapsed now1 now2 jobID0 rows metrics =
     (let jobID = trim_space jobID0
      in if jobID = [] then ((None, Some (SchedStoreError JobIDRequired)), rows, metrics)
         else case GetAsyncJob jobID rows of
           Err e \<Rightarrow> ((None, Some (SchedStoreError e)), rows, metrics)
         | Ok job \<Rightarrow>
             if aj_State job \<noteq> AsyncJobStateQueued
             then ((Some \<lparr>dr_Outcome = AsyncDispatchOutcomeQueued, dr_Reason = ''job_not_queued'',
                       dr_Job = Some job\<rparr>, None), rows, metrics)
             else
               let byProbe = RunningAsyncJobsByProbe rows
               in case claimQueuedJob cfg now1 job
                    \<lparr>ss_rows = rows, ss_metrics = metrics,
                     ss_total = int (sum_list (map snd byProbe)), ss_byProbe = byProbe\<rparr> of
                    (Err e, st) \<Rightarrow> ((None, Some (SchedStoreError e)), ss_rows st, ss_metrics st)
                  | (Ok (None, reason), st) \<Rightarrow>
                      ((Some \<lparr>dr_Outcome = AsyncDispatchOutcomeQueued, dr_Reason = reason,
                          dr_Job = Some job\<rparr>, None), ss_rows st, ss_metrics st)
                  | (Ok (Some claimed, _), st) \<Rightarrow>
                      let (err, out) = dispatchClaimedSync dispatch elapsed now2 claimed
                            (ss_rows st) (ss_metrics st)
                      in ((Some \<lparr>dr_Outcome = AsyncDispatchOutcomeStarted, dr_Reason = [],
                             dr_Job = Some claimed\<rparr>, map_option SchedDispatchError err), out))"

definition sched_AsyncJobStateCounts :: "async_rows \<Rightarrow> (AsyncJobState \<times> nat) list" where
  "sched_AsyncJobStateCounts rows =
     map (\<lambda>s. (s, case map_of (rev (AsyncJobStateCounts rows)) s of None \<Rightarrow> 0 | Some n \<Rightarrow> n))
       [AsyncJobStateQueued, AsyncJobStateRunning, AsyncJobStateSucceeded, AsyncJobStateFailed,
        AsyncJobStateCancelled, AsyncJobStateWaitingApproval, AsyncJobStateExpired]"

definition is_running :: "AsyncJob \<Rightarrow> bool" where
  "is_running r \<longleftrightarrow> aj_State r = AsyncJobStateRunning"

text \<open>Ids as the manager makes them: not empty and without space around them.\<close>

definition clean_ids :: "async_rows \<Rightarrow> bool" where
  "clean_ids rows \<longleftrightarrow> list_all (\<lambda>r. trim_space (aj_ID r) = aj_ID r \<and> aj_ID r \<noteq> []) rows"

definition sched_inv :: "sched_state \<Rightarrow> bool" where
  "sched_inv st \<longleftrightarrow>
     async_ok (ss_rows st) \<and> clean_ids (ss_rows st) \<and>
     ss_total st = int (tbl_count is_running (ss_rows st)) \<and>
     (\<forall>p. probe_count (ss_byProbe st) p = tbl_count (running_on p) (ss_rows st))"

subsection \<open>A pass without interference\<close>

abbreviation quiet :: "AsyncJob \<Rightarrow> async_op list" where "quiet \<equiv> \<lambda>_. []"

definition candidates :: "AsyncJob list \<Rightarrow> async_rows \<Rightarrow> bool" where
  "candidates cs rows \<longleftrightarrow>
     distinct (map aj_ID cs) \<and> (\<forall>c \<in> set cs. c \<in> set rows \<and> aj_State c = AsyncJobStateQueued)"

definition is_queued :: "AsyncJob \<Rightarrow> bool" where
  "is_queued r \<longleftrightarrow> aj_State r = AsyncJobStateQueued"

definition queue_list :: "async_rows \<Rightarrow> AsyncJob list" where
  "queue_list rows = sort_by async_oldest_first (filter is_queued rows)"

definition demo_cfg :: AsyncWorkerConfig where
  "demo_cfg = normalized \<lparr>wc_MaxInFlight = 2, wc_MaxPerProbe = 0, wc_PollInterval = 0, wc_FetchBatchSize = 0\<rparr>"

definition hist_ok :: "durationHistogram \<Rightarrow> bool" where
  "hist_ok h \<longleftrightarrow>
     length (h_counts h) = length (h_buckets h) + 1 \<and> last (h_counts h) = h_count h \<and>
     h_sum h \<ge> 0 \<and> (sorted (h_buckets h) \<longrightarrow> sorted (h_counts h))"

text \<open>
  Rounds of the scheduler: a pass, then the operations that others commit before the next one.
  \<open>queue_index\<close> is the place of a job in the queue, and a round is fair to the job when a slot is
  free, ids stay clean, and the others leave the job in the queue and put no other job before it.
\<close>

type_synonym sched_round = "(AsyncJob \<Rightarrow> time) \<times> async_op list"

definition queue_index :: "string \<Rightarrow> async_rows \<Rightarrow> nat" where
  "queue_index jid rows = length (takeWhile (\<lambda>r. aj_ID r \<noteq> jid) (queue_list rows))"

definition in_queue :: "string \<Rightarrow> async_rows \<Rightarrow> bool" where
  "in_queue jid rows \<longleftrightarrow> jid \<in> set (map aj_ID (queue_list rows))"

fun passes ::
  "AsyncWorkerConfig \<Rightarrow> sched_round list \<Rightarrow> async_rows \<times> asyncSchedulerMetrics \<Rightarrow> async_rows \<times> asyncSchedulerMetrics" where
  "passes cfg [] s = s"
| "passes cfg ((clock, work) # rs) (rows, m) =
     (let (claimed, rows', m') = drainQueued cfg clock [] quiet rows m in passes cfg rs (fold async_exec work rows', m'))"

definition fair_round :: "AsyncWorkerConfig \<Rightarrow> string \<Rightarrow> sched_round \<Rightarrow> async_rows \<Rightarrow> asyncSchedulerMetrics \<Rightarrow> bool" where
  "fair_round cfg jid r rows m \<longleftrightarrow>
     (let rows' = fst (snd (drainQueued cfg (fst r) [] quiet rows m)); rows'' = fold async_exec (snd r) rows' in
      int (tbl_count is_running rows) < wc_MaxInFlight cfg \<and> clean_ids rows'' \<and>
      (in_queue jid rows' \<longrightarrow> in_queue jid rows'' \<and> queue_index jid rows'' \<le> queue_index jid rows'))"

fun fair_rounds :: "AsyncWorkerConfig \<Rightarrow> string \<Rightarrow> sched_round list \<Rightarrow> async_rows \<times> asyncSchedulerMetrics \<Rightarrow> bool" where
  "fair_rounds cfg jid [] s \<longleftrightarrow> True"
| "fair_rounds cfg jid (r # rs) (rows, m) \<longleftrightarrow>
     fair_round cfg jid r rows m \<and> fair_rounds cfg jid rs (passes cfg [r] (rows, m))"

definition one_slot :: AsyncWorkerConfig where
  "one_slot = normalized \<lparr>wc_MaxInFlight = 1, wc_MaxPerProbe = 0, wc_PollInterval = 0, wc_FetchBatchSize = 0\<rparr>"

definition two_queued :: "async_op list" where
  "two_queued = [AopCreate 2 ''r1'' ''j1'' Second demo_job, AopCreate 2 ''r2'' ''j2'' (3 * Second) demo_job]"

definition demo_rounds :: "sched_round list" where
  "demo_rounds =
     [(\<lambda>_. 5 * Second, [AopTransition (7 * Second) ''j1'' AsyncJobStateSucceeded no_options,
         AopCreate 2 ''r3'' ''j3'' (9 * Second) demo_job]),
      (\<lambda>_. 11 * Second, [])]"

section \<open>Lemmas\<close>

subsection \<open>The counts at the start of a pass\<close>

lemma gput_new: "gget m k = None \<Longrightarrow> gput k v m = m @ [(k, v)]"
  by (induction m) (auto simp: gget_def gput_def)

lemma fold_gput:
  assumes "distinct ps" and "\<forall>p \<in> set ps. g p = p \<and> gget m p = None"
  shows "fold (\<lambda>p m. gput (g p) (f p) m) ps m = m @ map (\<lambda>p. (p, f p)) ps"
  using assms
proof (induction ps arbitrary: m)
  case (Cons p ps)
  then have "gget (gput p (f p) m) q = None" if "q \<in> set ps" for q
    using that by (auto simp: gget_gput)
  then show ?case using Cons by (simp add: gput_new)
qed simp

lemma running_by_probe:
  assumes "async_ok rows"
  shows "RunningAsyncJobsByProbe rows =
    map (\<lambda>p. (p, tbl_count (running_on p) rows))
      (remdups (map aj_ProbeID (filter is_running rows)))"
proof -
  have "trim_space (aj_ProbeID r) = aj_ProbeID r" if "r \<in> set rows" for r
    using async_ok_row [OF assms that] by (simp add: async_row_ok_def)
  then have "\<forall>p \<in> set (remdups (map aj_ProbeID (filter is_running rows))). trim_space p = p \<and> gget [] p = None"
    by auto
  from fold_gput [OF distinct_remdups this] show ?thesis
    by (simp add: RunningAsyncJobsByProbe_def is_running_def [abs_def])
qed

lemma running_on_count:
  "tbl_count (running_on p) rows = count_list (map aj_ProbeID (filter is_running rows)) p"
  by (induction rows) (auto simp: tbl_count_def running_on_def is_running_def)

lemma running_total:
  assumes "async_ok rows"
  shows "sum_list (map snd (RunningAsyncJobsByProbe rows)) = tbl_count is_running rows"
proof -
  let ?xs = "map aj_ProbeID (filter is_running rows)"
  have "sum_list (map snd (RunningAsyncJobsByProbe rows)) = (\<Sum>p\<leftarrow>remdups ?xs. count_list ?xs p)"
    by (simp add: running_by_probe [OF assms] running_on_count comp_def)
  also have "\<dots> = (\<Sum>p\<in>set ?xs. count_list ?xs p)"
    by (simp only: sum_list_distinct_conv_sum_set [OF distinct_remdups] set_remdups)
  also have "\<dots> = length ?xs" by (rule sum_count_set) auto
  finally show ?thesis by (simp add: tbl_count_def)
qed

lemma running_probe:
  assumes "async_ok rows"
  shows "probe_count (RunningAsyncJobsByProbe rows) p = tbl_count (running_on p) rows"
proof -
  let ?ps = "remdups (map aj_ProbeID (filter is_running rows))"
  have "map_of (map (\<lambda>p. (p, tbl_count (running_on p) rows)) ?ps) p =
      (if p \<in> set ?ps then Some (tbl_count (running_on p) rows) else None)"
    by (induction ?ps) (auto simp: map_of_map_restrict restrict_map_def)
  moreover have "tbl_count (running_on p) rows = 0" if "p \<notin> set ?ps"
    using that by (auto simp: tbl_count_0 running_on_def is_running_def)
  ultimately show ?thesis
    by (auto simp: probe_count_def gget_def running_by_probe [OF assms])
qed

lemma sched_inv_start:
  "async_ok rows \<Longrightarrow> clean_ids rows \<Longrightarrow>
   sched_inv \<lparr>ss_rows = rows, ss_metrics = m,
     ss_total = int (sum_list (map snd (RunningAsyncJobsByProbe rows))),
     ss_byProbe = RunningAsyncJobsByProbe rows\<rparr>"
  by (simp add: sched_inv_def running_total running_probe)

subsection \<open>A claim\<close>

lemma tbl_count_row:
  assumes "distinct (map key rows)" and "r \<in> set rows"
  shows "tbl_count Q (tbl_update (\<lambda>x. key x = key r) (\<lambda>_. r') rows) + (if Q r then 1 else 0) =
    tbl_count Q rows + (if Q r' then 1 else 0)"
  using assms
proof (induction rows)
  case (Cons x rows)
  show ?case
  proof (cases "x = r")
    case True
    then have "\<forall>y \<in> set rows. key y \<noteq> key r" using Cons.prems(1) by (simp, metis imageI)
    then have "tbl_update (\<lambda>x. key x = key r) (\<lambda>_. r') rows = rows"
      by (auto simp: tbl_update_def intro: map_idI)
    then show ?thesis using True by (simp add: tbl_count_def tbl_update_def)
  next
    case False
    then have "r \<in> set rows" using Cons.prems(2) by simp
    moreover from this have "key x \<noteq> key r" using Cons.prems(1) by (simp, metis imageI)
    ultimately show ?thesis using Cons by (simp add: tbl_count_def tbl_update_def)
  qed
qed simp

abbreviation started :: "time \<Rightarrow> AsyncJob \<Rightarrow> AsyncJob" where
  "started now c \<equiv> transition_row now AsyncJobStateRunning no_options c"

abbreviation start_row :: "time \<Rightarrow> AsyncJob \<Rightarrow> async_rows \<Rightarrow> async_rows" where
  "start_row now c rows \<equiv> tbl_update (\<lambda>x. aj_ID x = aj_ID c) (\<lambda>_. started now c) rows"

lemma transition_queued:
  assumes ok: "async_ok rows" "clean_ids rows" and c: "c \<in> set rows" "aj_State c = AsyncJobStateQueued"
  shows "TransitionAsyncJob now (aj_ID c) AsyncJobStateRunning no_options rows =
    (Ok (started now c), start_row now c rows)"
proof -
  have id: "trim_space (aj_ID c) = aj_ID c" "aj_ID c \<noteq> []"
    using ok(2) c(1) by (auto simp: clean_ids_def list_all_iff)
  have can: "canTransitionAsyncJob AsyncJobStateQueued AsyncJobStateRunning" by code_simp
  show ?thesis
    using transition_stored [OF ok(1), of "aj_ID c" c AsyncJobStateRunning now no_options]
      async_look_mem [OF ok(1) c(1)] id c(2) can
    by (simp add: isKnownAsyncJobState_def)
qed

lemma start_row_inv:
  assumes ok: "async_ok rows" "clean_ids rows" and c: "c \<in> set rows" "aj_State c = AsyncJobStateQueued"
  shows "async_ok (start_row now c rows)" "clean_ids (start_row now c rows)"
    and "tbl_count is_running (start_row now c rows) = Suc (tbl_count is_running rows)"
    and "tbl_count (running_on p) (start_row now c rows) =
      tbl_count (running_on p) rows + (if p = aj_ProbeID c then 1 else 0)"
proof -
  show "async_ok (start_row now c rows)"
    using async_exec_ok [OF ok(1), of "AopTransition now (aj_ID c) AsyncJobStateRunning no_options"]
    by (simp add: transition_queued [OF ok c])
  show "clean_ids (start_row now c rows)"
    using ok(2) c(1) by (auto simp: clean_ids_def list_all_iff set_tbl_update)
  have d: "distinct (map aj_ID rows)" using ok(1) by (simp add: async_ok_def)
  show "tbl_count is_running (start_row now c rows) = Suc (tbl_count is_running rows)"
    using tbl_count_row [OF d c(1), of is_running "started now c"] c(2)
    by (simp add: is_running_def transition_row_def)
  show "tbl_count (running_on p) (start_row now c rows) =
      tbl_count (running_on p) rows + (if p = aj_ProbeID c then 1 else 0)"
    using tbl_count_row [OF d c(1), of "running_on p" "started now c"] c(2)
    by (auto simp: running_on_def transition_row_def)
qed

lemma claim_queued:
  assumes inv: "sched_inv st" and c: "c \<in> set (ss_rows st)" "aj_State c = AsyncJobStateQueued"
    and cap: "ss_total st < wc_MaxInFlight cfg"
      "\<not> (wc_MaxPerProbe cfg > 0 \<and> int (probe_count (ss_byProbe st) (aj_ProbeID c)) \<ge> wc_MaxPerProbe cfg)"
  obtains st' where "claimQueuedJob cfg now c st = (Ok (Some (started now c), []), st')"
    "sched_inv st'" "ss_total st' = ss_total st + 1" "ss_rows st' = start_row now c (ss_rows st)"
proof -
  have ok: "async_ok (ss_rows st)" "clean_ids (ss_rows st)" using inv by (auto simp: sched_inv_def)
  let ?st' = "st\<lparr>ss_rows := start_row now c (ss_rows st), ss_total := ss_total st + 1,
    ss_byProbe := gput (aj_ProbeID c) (probe_count (ss_byProbe st) (aj_ProbeID c) + 1) (ss_byProbe st),
    ss_metrics := observeQueueLatency (now - aj_CreatedAt c) (ss_metrics st)\<rparr>"
  have s: "aj_StartedAt (started now c) = Some now" "aj_ProbeID (started now c) = aj_ProbeID c"
    "aj_CreatedAt (started now c) = aj_CreatedAt c"
    by (simp_all add: transition_row_def no_options_def)
  have "claimQueuedJob cfg now c st = (Ok (Some (started now c), []), ?st')"
    using cap by (simp add: claimQueuedJob_def transition_queued [OF ok c] s Let_def)
  moreover have "sched_inv ?st'"
    using inv start_row_inv [OF ok c]
    by (simp add: sched_inv_def probe_count_def gget_gput)
  ultimately show thesis using that by simp
qed

lemma candidates_start:
  assumes "candidates (c # cs) rows"
  shows "candidates cs (start_row now c rows)"
  using assms
  by (force simp: candidates_def set_tbl_update image_iff)

lemma candidates_tl: "candidates (c # cs) rows \<Longrightarrow> candidates cs rows"
  by (simp add: candidates_def)

text \<open>A claim on a candidate either defers it and leaves the state alone, or starts it.\<close>

lemma claim_cases:
  assumes inv: "sched_inv st" and c: "c \<in> set (ss_rows st)" "aj_State c = AsyncJobStateQueued"
  obtains (deferred) reason where "claimQueuedJob cfg now c st = (Ok (None, reason), st)"
      "ss_total st \<ge> wc_MaxInFlight cfg \<or> wc_MaxPerProbe cfg > 0"
  | (claimed) st' where "claimQueuedJob cfg now c st = (Ok (Some (started now c), []), st')"
      "sched_inv st'" "ss_total st' = ss_total st + 1" "ss_rows st' = start_row now c (ss_rows st)"
      "ss_total st < wc_MaxInFlight cfg"
      "wc_MaxPerProbe cfg > 0 \<Longrightarrow>
        int (tbl_count (running_on (aj_ProbeID c)) (ss_rows st)) < wc_MaxPerProbe cfg"
proof (cases "ss_total st \<ge> wc_MaxInFlight cfg \<or>
    wc_MaxPerProbe cfg > 0 \<and> int (probe_count (ss_byProbe st) (aj_ProbeID c)) \<ge> wc_MaxPerProbe cfg")
  case True
  then have "claimQueuedJob cfg now c st =
      (Ok (None, if ss_total st \<ge> wc_MaxInFlight cfg then ''global_limit'' else ''probe_limit''), st)"
    by (cases "ss_total st \<ge> wc_MaxInFlight cfg") (simp_all add: claimQueuedJob_def)
  then show thesis using deferred True by blast
next
  case False
  then have cap: "ss_total st < wc_MaxInFlight cfg"
    "\<not> (wc_MaxPerProbe cfg > 0 \<and> int (probe_count (ss_byProbe st) (aj_ProbeID c)) \<ge> wc_MaxPerProbe cfg)"
    by auto
  from claim_queued [OF inv c cap, of now] obtain st' where st':
    "claimQueuedJob cfg now c st = (Ok (Some (started now c), []), st')"
    "sched_inv st'" "ss_total st' = ss_total st + 1" "ss_rows st' = start_row now c (ss_rows st)" .
  have "wc_MaxPerProbe cfg > 0 \<Longrightarrow>
      int (tbl_count (running_on (aj_ProbeID c)) (ss_rows st)) < wc_MaxPerProbe cfg"
    using cap(2) inv by (simp add: sched_inv_def)
  then show thesis using claimed [OF st' cap(1)] by blast
qed

lemma drain_limits:
  assumes "sched_inv st" and "candidates cs (ss_rows st)"
  shows "sched_inv (snd (drain_loop cfg clock quiet available n cs st)) \<and>
    ss_total (snd (drain_loop cfg clock quiet available n cs st)) \<le> max (wc_MaxInFlight cfg) (ss_total st) \<and>
    (wc_MaxPerProbe cfg > 0 \<longrightarrow>
      (\<forall>p. int (tbl_count (running_on p) (ss_rows (snd (drain_loop cfg clock quiet available n cs st))))
        \<le> max (wc_MaxPerProbe cfg) (int (tbl_count (running_on p) (ss_rows st)))))"
  using assms
proof (induction cs arbitrary: st n)
  case (Cons c cs)
  have c: "c \<in> set (ss_rows st)" "aj_State c = AsyncJobStateQueued"
    using Cons.prems(2) by (auto simp: candidates_def)
  show ?case
  proof (cases rule: claim_cases [OF Cons.prems(1) c, of cfg "clock c"])
    case (1 reason)
    then show ?thesis
      using Cons.IH [OF Cons.prems(1) candidates_tl [OF Cons.prems(2)], of n] Cons.prems(1) by simp
  next
    case (2 st')
    have ok: "async_ok (ss_rows st)" "clean_ids (ss_rows st)"
      using Cons.prems(1) by (auto simp: sched_inv_def)
    have IH: "sched_inv (snd (drain_loop cfg clock quiet available (n + 1) cs st'))"
      "ss_total (snd (drain_loop cfg clock quiet available (n + 1) cs st')) \<le> max (wc_MaxInFlight cfg) (ss_total st')"
      "wc_MaxPerProbe cfg > 0 \<Longrightarrow>
        int (tbl_count (running_on p) (ss_rows (snd (drain_loop cfg clock quiet available (n + 1) cs st'))))
        \<le> max (wc_MaxPerProbe cfg) (int (tbl_count (running_on p) (ss_rows st')))" for p
      using Cons.IH [OF 2(2), of "n + 1"] candidates_start [OF Cons.prems(2)] 2(4) by auto
    have probe: "max (wc_MaxPerProbe cfg) (int (tbl_count (running_on p) (ss_rows st'))) \<le>
        max (wc_MaxPerProbe cfg) (int (tbl_count (running_on p) (ss_rows st)))"
      if "wc_MaxPerProbe cfg > 0" for p
      using start_row_inv(4) [OF ok c, of p "clock c"] 2(4) 2(6) [OF that] by auto
    show ?thesis
      using IH(1,2) order_trans [OF IH(3) probe] 2(1,3,5) Cons.prems(1)
      by (auto simp: case_prod_beta)
  qed
qed simp

lemma drain_takes_first:
  assumes "wc_MaxPerProbe cfg \<le> 0" "sched_inv st" and "candidates cs (ss_rows st)"
    and "ss_total st + (available - n) \<le> wc_MaxInFlight cfg"
  shows "fst (drain_loop cfg clock quiet available n cs st) =
    map (\<lambda>c. started (clock c) c) (take (nat (available - n)) cs)"
  using assms(2-4)
proof (induction cs arbitrary: st n)
  case (Cons c cs)
  have c: "c \<in> set (ss_rows st)" "aj_State c = AsyncJobStateQueued"
    using Cons.prems(2) by (auto simp: candidates_def)
  show ?case
  proof (cases "n \<ge> available")
    case True
    then show ?thesis by simp
  next
    case False
    then have room: "ss_total st < wc_MaxInFlight cfg" using Cons.prems(3) by simp
    from claim_cases [OF Cons.prems(1) c, of cfg "clock c"] room assms(1)
    obtain st' where st': "claimQueuedJob cfg (clock c) c st = (Ok (Some (started (clock c) c), []), st')"
      "sched_inv st'" "ss_total st' = ss_total st + 1" "ss_rows st' = start_row (clock c) c (ss_rows st)"
      by (metis linorder_not_less)
    have "nat (available - n) = Suc (nat (available - (n + 1)))" using False by simp
    then show ?thesis
      using Cons.IH [OF st'(2), of "n + 1"] candidates_start [OF Cons.prems(2)] st' Cons.prems(3) False
      by (simp add: case_prod_beta)
  qed
qed simp

lemma list_queued:
  assumes "async_ok rows"
  shows "ListAsyncJobsByState AsyncJobStateQueued b rows =
    Ok (take (nat (normalizeAsyncJobLimit b)) (queue_list rows))"
proof -
  have "scanAsyncJob r = r" if "r \<in> set (queue_list rows)" for r
    using that async_ok_row [OF assms, of r] by (auto simp: queue_list_def async_row_ok_def)
  then have "map scanAsyncJob (take n (queue_list rows)) = take n (queue_list rows)" for n
    by (auto intro: map_idI dest: in_set_takeD)
  then show ?thesis
    by (simp add: ListAsyncJobsByState_def isKnownAsyncJobState_def queue_list_def is_queued_def [abs_def])
qed

lemma candidates_queue:
  assumes "async_ok rows"
  shows "candidates (take n (queue_list rows)) rows"
proof -
  have "mset (map aj_ID (queue_list rows)) = mset (map aj_ID (filter is_queued rows))"
    by (simp add: queue_list_def)
  moreover have "distinct (map aj_ID (filter is_queued rows))"
    using assms by (simp add: async_ok_def distinct_map_filter)
  ultimately have "distinct (map aj_ID (queue_list rows))"
    by (metis mset_eq_imp_distinct_iff)
  then have "distinct (map aj_ID (take n (queue_list rows)))" by (metis take_map distinct_take)
  then show ?thesis
    by (auto simp: candidates_def queue_list_def is_queued_def dest!: in_set_takeD)
qed

text \<open>A quiet pass over a store that satisfies the invariant, in one equation.\<close>

lemma drain_quiet:
  fixes m :: asyncSchedulerMetrics and cfg :: AsyncWorkerConfig
  assumes ok: "async_ok rows"
  defines "st \<equiv> \<lparr>ss_rows = rows, ss_metrics = m, ss_total = int (tbl_count is_running rows),
      ss_byProbe = RunningAsyncJobsByProbe rows\<rparr>"
    and "avail \<equiv> wc_MaxInFlight cfg - int (tbl_count is_running rows)"
  shows "drainQueued cfg clock [] quiet rows m =
    (if avail \<le> 0 then ([], rows, m)
     else let (claimed, st') = drain_loop cfg clock quiet avail 0
              (take (nat (normalizeAsyncJobLimit (wc_FetchBatchSize cfg))) (queue_list rows)) st
          in (claimed, ss_rows st', ss_metrics st'))"
  by (simp add: drainQueued_def running_total [OF ok] list_queued [OF ok] st_def avail_def Let_def)

lemma drain_keeps:
  assumes "r \<in> set (ss_rows st)" "aj_ID r \<notin> aj_ID ` set cs"
    and "sched_inv st" "candidates cs (ss_rows st)"
  shows "r \<in> set (ss_rows (snd (drain_loop cfg clock quiet available n cs st)))"
  using assms
proof (induction cs arbitrary: st n)
  case (Cons c cs)
  have c: "c \<in> set (ss_rows st)" "aj_State c = AsyncJobStateQueued"
    using Cons.prems(4) by (auto simp: candidates_def)
  show ?case
  proof (cases rule: claim_cases [OF Cons.prems(3) c, of cfg "clock c"])
    case (1 reason)
    then show ?thesis
      using Cons.IH [of st n] Cons.prems candidates_tl [OF Cons.prems(4)] by simp
  next
    case (2 st')
    have "r \<in> set (ss_rows st')" using Cons.prems(1,2) 2(4) by (force simp: set_tbl_update)
    then show ?thesis
      using Cons.IH [of st' "n + 1"] Cons.prems(1,2) 2 candidates_start [OF Cons.prems(4)]
      by (simp add: case_prod_beta)
  qed
qed simp

lemma drain_claimed_stored:
  assumes "sched_inv st" "candidates cs (ss_rows st)"
  shows "set (fst (drain_loop cfg clock quiet available n cs st)) \<subseteq>
    set (ss_rows (snd (drain_loop cfg clock quiet available n cs st)))"
  using assms
proof (induction cs arbitrary: st n)
  case (Cons c cs)
  have c: "c \<in> set (ss_rows st)" "aj_State c = AsyncJobStateQueued" "aj_ID c \<notin> aj_ID ` set cs"
    using Cons.prems(2) by (auto simp: candidates_def)
  show ?case
  proof (cases rule: claim_cases [OF Cons.prems(1) c(1,2), of cfg "clock c"])
    case (1 reason)
    then show ?thesis
      using Cons.IH [of st n] Cons.prems candidates_tl [OF Cons.prems(2)] by simp
  next
    case (2 st')
    have "started (clock c) c \<in> set (ss_rows st')" using c(1) 2(4) by (force simp: set_tbl_update)
    then have "started (clock c) c \<in> set (ss_rows (snd (drain_loop cfg clock quiet available (n + 1) cs st')))"
      using drain_keeps c(3) 2 candidates_start [OF Cons.prems(2)] by simp
    then show ?thesis
      using Cons.IH [of st' "n + 1"] 2 candidates_start [OF Cons.prems(2)]
      by (simp add: case_prod_beta)
  qed
qed simp

subsection \<open>A pass with interference\<close>

lemma claim_history:
  "\<exists>ps. ss_rows (snd (claimQueuedJob cfg now c st)) = fold async_exec ps (ss_rows st)"
proof (cases "ss_rows (snd (claimQueuedJob cfg now c st)) = ss_rows st")
  case True
  then show ?thesis by (intro exI [of _ "[]"]) simp
next
  case False
  then have "ss_rows (snd (claimQueuedJob cfg now c st)) =
      snd (TransitionAsyncJob now (aj_ID c) AsyncJobStateRunning no_options (ss_rows st))"
    by (auto simp: claimQueuedJob_def Let_def split: if_splits prod.splits sum.splits option.splits)
  then show ?thesis
    by (intro exI [of _ "[AopTransition now (aj_ID c) AsyncJobStateRunning no_options]"]) simp
qed

lemma drain_step_history:
  "\<exists>ps. ss_rows (snd (claimQueuedJob cfg now c (st\<lparr>ss_rows := fold async_exec qs (ss_rows st)\<rparr>))) =
     fold async_exec ps (ss_rows st)"
proof -
  obtain ps where "ss_rows (snd (claimQueuedJob cfg now c (st\<lparr>ss_rows := fold async_exec qs (ss_rows st)\<rparr>))) =
      fold async_exec ps (fold async_exec qs (ss_rows st))"
    using claim_history [of cfg now c "st\<lparr>ss_rows := fold async_exec qs (ss_rows st)\<rparr>"] by auto
  then show ?thesis by (intro exI [of _ "qs @ ps"]) simp
qed

lemma drain_cases:
  obtains (stop) "drain_loop cfg clock env available n (c # cs) st = ([], st)"
  | (skip) st' where "drain_loop cfg clock env available n (c # cs) st =
        drain_loop cfg clock env available n cs st'"
      "\<exists>ps. ss_rows st' = fold async_exec ps (ss_rows st)"
  | (claim) j st' where "drain_loop cfg clock env available n (c # cs) st =
        (j # fst (drain_loop cfg clock env available (n + 1) cs st'),
         snd (drain_loop cfg clock env available (n + 1) cs st'))"
      "\<exists>ps. ss_rows st' = fold async_exec ps (ss_rows st)" "n < available"
proof (cases "n \<ge> available")
  case True
  then show thesis using stop by simp
next
  case False
  obtain res st' where r: "claimQueuedJob cfg (clock c) c (st\<lparr>ss_rows := fold async_exec (env c) (ss_rows st)\<rparr>) = (res, st')"
    by fastforce
  have h: "\<exists>ps. ss_rows st' = fold async_exec ps (ss_rows st)"
    using drain_step_history [of cfg "clock c" c "env c" st] r by simp
  show thesis
  proof (cases "\<exists>j reason. res = Ok (Some j, reason)")
    case True
    then show thesis using claim [OF _ h] r False by (auto simp: case_prod_beta)
  next
    case no: False
    then have "drain_loop cfg clock env available n (c # cs) st = drain_loop cfg clock env available n cs st'"
      using r False by (auto split: sum.splits option.splits)
    then show thesis using skip h by blast
  qed
qed

lemma pass_history_trans:
  "\<exists>ps. a = fold async_exec ps b \<Longrightarrow> \<exists>ps. b = fold async_exec ps c \<Longrightarrow> \<exists>ps. a = fold async_exec ps c"
  by (metis comp_apply fold_append)

lemma drain_history:
  "\<exists>ps. ss_rows (snd (drain_loop cfg clock env available n cs st)) = fold async_exec ps (ss_rows st)"
proof (induction cs arbitrary: st n)
  case Nil
  show ?case using no_op by simp
next
  case (Cons c cs)
  show ?case
    by (rule drain_cases [of cfg clock env available n c cs st])
      (use no_op pass_history_trans [OF Cons.IH] in auto)
qed

lemma drain_claim_bound:
  "int (length (fst (drain_loop cfg clock env available n cs st))) \<le> max 0 (available - n)"
proof (induction cs arbitrary: st n)
  case (Cons c cs)
  show ?case
  proof (rule drain_cases [of cfg clock env available n c cs st])
    fix j st'
    assume "drain_loop cfg clock env available n (c # cs) st =
        (j # fst (drain_loop cfg clock env available (n + 1) cs st'),
         snd (drain_loop cfg clock env available (n + 1) cs st'))" "n < available"
    then show ?thesis using Cons.IH [of "n + 1" st'] by simp
  qed (use Cons.IH in auto)
qed simp

lemma mark_waiting_running:
  assumes ok: "async_ok rows" "clean_ids rows" and r: "r \<in> set rows" "aj_State r = AsyncJobStateRunning"
  shows "MarkWaitingApproval now (aj_ID r) aid reason t rows =
    (Err (ErrInvalidAsyncJobTransition AsyncJobStateRunning AsyncJobStateWaitingApproval), rows)"
proof -
  have id: "trim_space (aj_ID r) = aj_ID r" "aj_ID r \<noteq> []"
    using ok(2) r(1) by (auto simp: clean_ids_def list_all_iff)
  have can: "\<not> canTransitionAsyncJob AsyncJobStateRunning AsyncJobStateWaitingApproval" by code_simp
  show ?thesis
    using transition_stored [OF ok(1), of "aj_ID r" r AsyncJobStateWaitingApproval now]
      async_look_mem [OF ok(1) r(1)] id r(2) can
    by (simp add: MarkWaitingApproval_def isKnownAsyncJobState_def)
qed

lemma started_fields:
  "aj_ID (started now c) = aj_ID c" "aj_State (started now c) = AsyncJobStateRunning"
  by (simp_all add: transition_row_def)

lemma drain_all:
  assumes ok: "async_ok rows" "clean_ids rows" and cfg: "wc_MaxPerProbe cfg \<le> 0"
    and room: "int (tbl_count is_running rows) + int (tbl_count is_queued rows) \<le> wc_MaxInFlight cfg"
      "int (tbl_count is_queued rows) \<le> normalizeAsyncJobLimit (wc_FetchBatchSize cfg)"
    and j: "j \<in> set rows" "is_queued j"
  shows "started (clock j) j \<in> set (fst (drainQueued cfg clock [] quiet rows m)) \<and>
    started (clock j) j \<in> set (fst (snd (drainQueued cfg clock [] quiet rows m)))"
proof -
  let ?st = "\<lparr>ss_rows = rows, ss_metrics = m, ss_total = int (tbl_count is_running rows),
      ss_byProbe = RunningAsyncJobsByProbe rows\<rparr>"
  let ?avail = "wc_MaxInFlight cfg - int (tbl_count is_running rows)"
  let ?cs = "take (nat (normalizeAsyncJobLimit (wc_FetchBatchSize cfg))) (queue_list rows)"
  have len: "length (queue_list rows) = tbl_count is_queued rows"
    by (simp add: queue_list_def tbl_count_def)
  have pos: "tbl_count is_queued rows > 0"
    using j tbl_count_0 [of is_queued rows] by auto
  have mem: "j \<in> set (take (nat ?avail) ?cs)"
    using room len j by (auto simp: queue_list_def)
  have inv: "sched_inv ?st" using sched_inv_start [OF ok, of m] by (simp add: running_total [OF ok(1)])
  have cand: "candidates ?cs (ss_rows ?st)" using candidates_queue [OF ok(1)] by simp
  have "fst (drain_loop cfg clock quiet ?avail 0 ?cs ?st) = map (\<lambda>c. started (clock c) c) (take (nat ?avail) ?cs)"
    using drain_takes_first [OF cfg inv cand, of ?avail 0 clock] by simp
  then have "started (clock j) j \<in> set (fst (drain_loop cfg clock quiet ?avail 0 ?cs ?st))"
    using mem by auto
  then show ?thesis
    using drain_claimed_stored [OF inv cand, of cfg clock ?avail 0] room pos
    by (auto simp: drain_quiet [OF ok(1)] case_prod_beta)
qed

lemma drain_end_inv:
  assumes ok: "async_ok rows" "clean_ids rows"
  shows "async_ok (fst (snd (drainQueued cfg clock [] quiet rows m))) \<and>
    clean_ids (fst (snd (drainQueued cfg clock [] quiet rows m)))"
proof -
  let ?st = "\<lparr>ss_rows = rows, ss_metrics = m, ss_total = int (tbl_count is_running rows),
      ss_byProbe = RunningAsyncJobsByProbe rows\<rparr>"
  let ?cs = "take (nat (normalizeAsyncJobLimit (wc_FetchBatchSize cfg))) (queue_list rows)"
  have inv: "sched_inv ?st" using sched_inv_start [OF ok, of m] by (simp add: running_total [OF ok(1)])
  have "sched_inv (snd (drain_loop cfg clock quiet n 0 ?cs ?st))" for n
    using drain_limits [OF inv, of ?cs cfg clock n 0] candidates_queue [OF ok(1)] by simp
  then show ?thesis
    using ok by (auto simp: drain_quiet [OF ok(1)] case_prod_beta sched_inv_def)
qed

lemma clean_create:
  assumes "clean_ids rows" "trim_space (aj_ID job) = aj_ID job" "trim_space newid = newid" "newid \<noteq> []"
  shows "clean_ids (rows @ [async_row_of reqid newid now job])"
  using assms by (simp add: clean_ids_def async_row_of_def Let_def)

lemma hist_bumped:
  assumes "length cs = length bs + 1"
  shows "map (\<lambda>(b, c). if s \<le> b then Suc c else c) (zip bs cs) @ drop (length bs) cs =
    map (\<lambda>(b, c). if s \<le> b then Suc c else c) (zip bs (butlast cs)) @ [last cs]"
proof -
  obtain ys y where cs: "cs = ys @ [y]" using assms by (cases cs rule: rev_cases) auto
  then show ?thesis using assms by (simp add: zip_append2)
qed

lemma hist_observe_counts:
  assumes "length (h_counts h) = length (h_buckets h) + 1"
  shows "h_counts (hist_observe d h) =
    map (\<lambda>(b, c). if max d 0 \<le> b then Suc c else c) (zip (h_buckets h) (butlast (h_counts h)))
      @ [Suc (last (h_counts h))]"
proof -
  have s: "(if d < 0 then 0 else d) = max d 0" by auto
  show ?thesis by (simp only: hist_observe_def Let_def s hist_bumped [OF assms]) simp
qed

lemma sorted_bump:
  assumes "length cs = length bs" "sorted bs" "sorted cs"
  shows "sorted (map (\<lambda>(b, c). if (s :: int) \<le> b then Suc c else c) (zip bs cs))"
  unfolding sorted_iff_nth_mono
proof (intro allI impI)
  fix i j
  assume ij: "i \<le> j" "j < length (map2 (\<lambda>b c. if s \<le> b then Suc c else c) bs cs)"
  then have "bs ! i \<le> bs ! j" "cs ! i \<le> cs ! j"
    using assms by (auto intro: sorted_nth_mono)
  then show "map2 (\<lambda>b c. if s \<le> b then Suc c else c) bs cs ! i \<le>
      map2 (\<lambda>b c. if s \<le> b then Suc c else c) bs cs ! j"
    using ij assms(1) by auto
qed

lemma hist_new_ok: "hist_ok (newDurationHistogram bs)"
proof -
  have "hist_ok \<lparr>h_buckets = xs, h_counts = replicate (length xs + 1) 0, h_sum = 0, h_count = 0\<rparr>" for xs
    by (auto simp: hist_ok_def last_replicate)
  then show ?thesis unfolding newDurationHistogram_def Let_def by blast
qed

lemma hist_observe_ok:
  assumes "hist_ok h"
  shows "hist_ok (hist_observe d h)"
proof -
  have len: "length (h_counts h) = length (h_buckets h) + 1" using assms by (simp add: hist_ok_def)
  then obtain cs c where c: "h_counts h = cs @ [c]" "length cs = length (h_buckets h)"
    by (cases "h_counts h" rule: rev_cases) auto
  have "sorted (h_counts (hist_observe d h))" if b: "sorted (h_buckets h)"
  proof -
    have "sorted (cs @ [c])" using assms b unfolding hist_ok_def c(1) by blast
    then have "sorted cs" "\<forall>x \<in> set cs. x \<le> c" by (auto simp: sorted_append)
    then show ?thesis
      unfolding hist_observe_counts [OF len] c(1)
      using sorted_bump [OF c(2) b, of "max d 0"]
      by (auto simp: sorted_append set_zip c(2) intro: nth_mem le_SucI)
  qed
  moreover have "h_sum (hist_observe d h) \<ge> 0" "h_buckets (hist_observe d h) = h_buckets h"
      "h_count (hist_observe d h) = Suc (h_count h)"
    using assms by (simp_all add: hist_observe_def hist_ok_def Let_def)
  ultimately show ?thesis
    using assms hist_observe_counts [OF len, of d] len by (simp add: hist_ok_def)
qed

lemma queued_start:
  "filter is_queued (start_row now c rows) = filter (\<lambda>r. is_queued r \<and> aj_ID r \<noteq> aj_ID c) rows"
  by (induction rows) (auto simp: tbl_update_def is_queued_def)

lemma drain_queue:
  assumes "wc_MaxPerProbe cfg \<le> 0" "sched_inv st" and "candidates cs (ss_rows st)"
    and "ss_total st + (available - n) \<le> wc_MaxInFlight cfg"
  shows "filter is_queued (ss_rows (snd (drain_loop cfg clock quiet available n cs st))) =
    filter (\<lambda>r. is_queued r \<and> aj_ID r \<notin> aj_ID ` set (take (nat (available - n)) cs)) (ss_rows st)"
  using assms(2-4)
proof (induction cs arbitrary: st n)
  case (Cons c cs)
  have c: "c \<in> set (ss_rows st)" "aj_State c = AsyncJobStateQueued"
    using Cons.prems(2) by (auto simp: candidates_def)
  show ?case
  proof (cases "n \<ge> available")
    case False
    then have room: "ss_total st < wc_MaxInFlight cfg" using Cons.prems(3) by simp
    from claim_cases [OF Cons.prems(1) c, of cfg "clock c"] room assms(1)
    obtain st' where st': "claimQueuedJob cfg (clock c) c st = (Ok (Some (started (clock c) c), []), st')"
      "sched_inv st'" "ss_total st' = ss_total st + 1" "ss_rows st' = start_row (clock c) c (ss_rows st)"
      by (metis linorder_not_less)
    let ?ids = "aj_ID ` set (take (nat (available - (n + 1))) cs)"
    have "filter (\<lambda>r. is_queued r \<and> aj_ID r \<notin> ?ids) (ss_rows st') =
        filter (\<lambda>r. aj_ID r \<notin> ?ids) (filter is_queued (ss_rows st'))" by (simp add: conj_commute)
    also have "\<dots> = filter (\<lambda>r. is_queued r \<and> aj_ID r \<noteq> aj_ID c \<and> aj_ID r \<notin> ?ids) (ss_rows st)"
      by (simp only: st' queued_start) (simp add: conj_ac)
    finally have step: "filter (\<lambda>r. is_queued r \<and> aj_ID r \<notin> ?ids) (ss_rows st') =
        filter (\<lambda>r. is_queued r \<and> aj_ID r \<noteq> aj_ID c \<and> aj_ID r \<notin> ?ids) (ss_rows st)" .
    have "nat (available - n) = Suc (nat (available - (n + 1)))" using False by simp
    then show ?thesis
      using Cons.IH [OF st'(2), of "n + 1"] candidates_start [OF Cons.prems(2)] st' Cons.prems(3) False step
      by (simp add: case_prod_beta)
  qed simp
qed simp

lemma oldest_first_order:
  "async_oldest_first a b \<or> async_oldest_first b a"
  "async_oldest_first a b \<Longrightarrow> async_oldest_first b c \<Longrightarrow> async_oldest_first a c"
  unfolding async_oldest_first_def by (metis text_le_total, metis text_le_trans)

lemma drop_distinct:
  assumes "distinct (map f xs)"
  shows "filter (\<lambda>x. f x \<notin> f ` set (take k xs)) xs = drop k xs"
proof -
  have "distinct (map f (take k xs @ drop k xs))" using assms by simp
  then have "f ` set (take k xs) \<inter> f ` set (drop k xs) = {}" by (simp only: map_append distinct_append set_map)
  then have "filter (\<lambda>x. f x \<notin> f ` set (take k xs)) (take k xs @ drop k xs) = [] @ drop k xs"
    by (simp only: filter_append) (intro arg_cong2 [of _ _ _ _ append]; auto simp: filter_empty_conv filter_id_conv)
  then show ?thesis by simp
qed

lemma pass_queue:
  assumes ok: "async_ok rows" "clean_ids rows" and cfg: "wc_MaxPerProbe cfg \<le> 0"
    and free: "int (tbl_count is_running rows) < wc_MaxInFlight cfg"
  obtains k where "k > 0" "map aj_ID (fst (drainQueued cfg clock [] quiet rows m)) = map aj_ID (take k (queue_list rows))"
    "queue_list (fst (snd (drainQueued cfg clock [] quiet rows m))) = drop k (queue_list rows)"
proof
  let ?st = "\<lparr>ss_rows = rows, ss_metrics = m, ss_total = int (tbl_count is_running rows),
      ss_byProbe = RunningAsyncJobsByProbe rows\<rparr>"
  let ?avail = "wc_MaxInFlight cfg - int (tbl_count is_running rows)"
  let ?lim = "nat (normalizeAsyncJobLimit (wc_FetchBatchSize cfg))"
  let ?cs = "take ?lim (queue_list rows)" and ?k = "min (nat ?avail) ?lim"
  show "?k > 0" using free by (simp add: normalizeAsyncJobLimit_def)
  have inv: "sched_inv ?st" using sched_inv_start [OF ok, of m] by (simp add: running_total [OF ok(1)])
  have cand: "candidates ?cs (ss_rows ?st)" using candidates_queue [OF ok(1)] by simp
  have "map aj_ID (map (\<lambda>c. started (clock c) c) cs) = map aj_ID cs" for cs by (simp add: started_fields)
  then show "map aj_ID (fst (drainQueued cfg clock [] quiet rows m)) = map aj_ID (take ?k (queue_list rows))"
    using drain_takes_first [OF cfg inv cand, of ?avail 0 clock] free
    by (simp add: drain_quiet [OF ok(1)] case_prod_beta del: map_map)
  let ?rows' = "fst (snd (drainQueued cfg clock [] quiet rows m))"
  have "filter is_queued ?rows' = filter (\<lambda>r. is_queued r \<and> aj_ID r \<notin> aj_ID ` set (take ?k (queue_list rows))) rows"
    using drain_queue [OF cfg inv cand, of ?avail 0 clock] free by (simp add: drain_quiet [OF ok(1)] case_prod_beta)
  also have "\<dots> = filter (\<lambda>r. aj_ID r \<notin> aj_ID ` set (take ?k (queue_list rows))) (filter is_queued rows)"
    by (simp add: conj_commute)
  finally have "queue_list ?rows' = filter (\<lambda>r. aj_ID r \<notin> aj_ID ` set (take ?k (queue_list rows))) (queue_list rows)"
    by (simp add: queue_list_def filter_sort_by [OF oldest_first_order])
  moreover have "distinct (map aj_ID (queue_list rows))"
    using candidates_queue [OF ok(1), of "length (queue_list rows)"] by (simp add: candidates_def)
  ultimately show "queue_list ?rows' = drop ?k (queue_list rows)" by (simp add: drop_distinct)
qed

lemma index_drop:
  assumes "x \<in> set (map f xs)" "x \<notin> set (map f (take k xs))"
  shows "x \<in> set (map f (drop k xs)) \<and>
    length (takeWhile (\<lambda>r. f r \<noteq> x) (drop k xs)) + min k (length xs) = length (takeWhile (\<lambda>r. f r \<noteq> x) xs)"
proof -
  have "takeWhile (\<lambda>r. f r \<noteq> x) (take k xs @ drop k xs) = take k xs @ takeWhile (\<lambda>r. f r \<noteq> x) (drop k xs)"
    using assms(2) by (intro takeWhile_append2) auto
  then have "length (takeWhile (\<lambda>r. f r \<noteq> x) xs) = min k (length xs) + length (takeWhile (\<lambda>r. f r \<noteq> x) (drop k xs))"
    by (simp add: min.commute)
  moreover have "set xs = set (take k xs) \<union> set (drop k xs)" by (metis append_take_drop_id set_append)
  ultimately show ?thesis using assms by auto
qed

lemma claimed_or_closer:
  assumes "async_ok rows" "clean_ids rows" "wc_MaxPerProbe cfg \<le> 0" "in_queue jid rows"
    and "fair_round cfg jid (clock, work) rows m"
  shows "jid \<in> aj_ID ` set (fst (drainQueued cfg clock [] quiet rows m)) \<or>
    (let rows' = fst (passes cfg [(clock, work)] (rows, m)) in
     async_ok rows' \<and> clean_ids rows' \<and> in_queue jid rows' \<and> queue_index jid rows' < queue_index jid rows)"
proof (cases "jid \<in> aj_ID ` set (fst (drainQueued cfg clock [] quiet rows m))")
  case False
  let ?mid = "fst (snd (drainQueued cfg clock [] quiet rows m))"
  from assms(5) have free: "int (tbl_count is_running rows) < wc_MaxInFlight cfg" by (simp add: fair_round_def Let_def)
  obtain k where k: "k > 0" "map aj_ID (fst (drainQueued cfg clock [] quiet rows m)) = map aj_ID (take k (queue_list rows))"
    "queue_list ?mid = drop k (queue_list rows)"
    by (rule pass_queue [OF assms(1-3) free])
  from False k(2) have "jid \<notin> set (map aj_ID (take k (queue_list rows)))" by (metis set_map)
  with assms(4) k(3) index_drop [of jid aj_ID "queue_list rows" k]
  have mid: "in_queue jid ?mid" "queue_index jid ?mid + min k (length (queue_list rows)) = queue_index jid rows"
    unfolding in_queue_def queue_index_def by auto
  have "length (queue_list rows) > 0" using assms(4) by (auto simp: in_queue_def)
  with mid k(1) have "queue_index jid ?mid < queue_index jid rows" by linarith
  moreover have "async_ok (fold async_exec work ?mid)"
    using drain_end_inv [OF assms(1,2), of cfg clock m] async_exec_ok by (induction work rule: rev_induct) auto
  moreover have "fst (passes cfg [(clock, work)] (rows, m)) = fold async_exec work ?mid" by (simp add: case_prod_beta)
  ultimately show ?thesis using assms(5) mid(1) by (auto simp: fair_round_def Let_def)
qed simp

section \<open>Properties\<close>

text \<open>
  Property C9. The limits hold: a pass of the scheduler that no other writer interrupts leaves at
  most \<^verbatim>\<open>MaxInFlight\<close> jobs running, and with a per-probe limit at most
  \<^verbatim>\<open>MaxPerProbe\<close> of them on any probe, unless more were running already, and then it
  adds none.
\<close>

theorem scheduler_respects_limits:
  assumes "rows = fold async_exec ps []" and "clean_ids rows"
    and "drainQueued cfg clock [] quiet rows m = (claimed, rows', m')"
  shows "int (tbl_count is_running rows') \<le> max (wc_MaxInFlight cfg) (int (tbl_count is_running rows)) \<and>
    (wc_MaxPerProbe cfg > 0 \<longrightarrow>
      (\<forall>p. int (tbl_count (running_on p) rows') \<le>
        max (wc_MaxPerProbe cfg) (int (tbl_count (running_on p) rows))))"
proof -
  have ok: "async_ok rows" using assms(1) async_run_ok by simp
  let ?st = "\<lparr>ss_rows = rows, ss_metrics = m, ss_total = int (tbl_count is_running rows),
      ss_byProbe = RunningAsyncJobsByProbe rows\<rparr>"
  have inv: "sched_inv ?st"
    using sched_inv_start [OF ok assms(2), of m] by (simp add: running_total [OF ok])
  let ?cs = "take (nat (normalizeAsyncJobLimit (wc_FetchBatchSize cfg))) (queue_list rows)"
  let ?last = "snd (drain_loop cfg clock quiet (wc_MaxInFlight cfg - int (tbl_count is_running rows)) 0 ?cs ?st)"
  have lim: "sched_inv ?last" "ss_total ?last \<le> max (wc_MaxInFlight cfg) (int (tbl_count is_running rows))"
    "wc_MaxPerProbe cfg > 0 \<longrightarrow> (\<forall>p. int (tbl_count (running_on p) (ss_rows ?last)) \<le>
        max (wc_MaxPerProbe cfg) (int (tbl_count (running_on p) rows)))"
    using drain_limits [OF inv, of ?cs cfg clock _ 0] candidates_queue [OF ok] by simp_all
  have "rows' = rows \<or> rows' = ss_rows ?last"
    using assms(3) by (auto simp: drain_quiet [OF ok] case_prod_beta split: if_splits)
  then show ?thesis using lim by (auto simp: sched_inv_def)
qed

theorem scheduler_respects_limits_witness:
  "int (tbl_count is_running (fst (snd (drainQueued demo_cfg (\<lambda>_. 50) [] quiet (fold async_exec demo_ops [])
     (newAsyncSchedulerMetrics []))))) \<le> 2"
proof -
  obtain claimed rows' m' where d: "drainQueued demo_cfg (\<lambda>_. 50) [] quiet (fold async_exec demo_ops [])
     (newAsyncSchedulerMetrics []) = (claimed, rows', m')"
    by (metis prod.exhaust)
  have "clean_ids (fold async_exec demo_ops [])" "tbl_count is_running (fold async_exec demo_ops []) = 0"
      "wc_MaxInFlight demo_cfg = 2"
    by code_simp+
  with scheduler_respects_limits [OF refl _ d] d show ?thesis by simp
qed

text \<open>
  The queue is served in order: without a per-probe limit and without interruption, a
  pass claims exactly the first jobs of the queue, sorted by creation time, as many as there are
  free slots and as the fetch batch holds, and it moves exactly these to running.
\<close>

lemma scheduler_serves_oldest_first:
  assumes "rows = fold async_exec ps []" and "clean_ids rows" and "wc_MaxPerProbe cfg \<le> 0"
  shows "fst (drainQueued cfg clock [] quiet rows m) =
    map (\<lambda>c. started (clock c) c)
      (take (nat (wc_MaxInFlight cfg - int (tbl_count is_running rows)))
        (take (nat (normalizeAsyncJobLimit (wc_FetchBatchSize cfg))) (queue_list rows)))"
proof -
  have ok: "async_ok rows" using assms(1) async_run_ok by simp
  have inv: "sched_inv \<lparr>ss_rows = rows, ss_metrics = m, ss_total = int (tbl_count is_running rows),
      ss_byProbe = RunningAsyncJobsByProbe rows\<rparr>"
    using sched_inv_start [OF ok assms(2), of m] by (simp add: running_total [OF ok])
  show ?thesis
    using drain_takes_first [OF assms(3) inv _, of _ "wc_MaxInFlight cfg - int (tbl_count is_running rows)" 0 clock]
      candidates_queue [OF ok]
    by (simp add: drain_quiet [OF ok] case_prod_beta)
qed

lemma scheduler_serves_oldest_first_witness:
  "map aj_ID (fst (drainQueued demo_cfg (\<lambda>_. 50) [] quiet (fold async_exec demo_ops [])
     (newAsyncSchedulerMetrics []))) = [''j2'']"
proof -
  have 1: "clean_ids (fold async_exec demo_ops [])" "wc_MaxPerProbe demo_cfg \<le> 0"
    by code_simp+
  have 2: "nat (wc_MaxInFlight demo_cfg - int (tbl_count is_running (fold async_exec demo_ops []))) = 2"
    "nat (normalizeAsyncJobLimit (wc_FetchBatchSize demo_cfg)) = 64"
    "map aj_ID (filter is_queued (fold async_exec demo_ops [])) = [''j2'']"
    by code_simp+
  have "length (filter is_queued (fold async_exec demo_ops [])) = 1" using arg_cong [OF 2(3), of length] by simp
  then obtain j where "filter is_queued (fold async_exec demo_ops []) = [j]"
    by (cases "filter is_queued (fold async_exec demo_ops [])") auto
  then have "queue_list (fold async_exec demo_ops []) = [j]" "aj_ID j = ''j2''"
    using 2(3) by (simp_all add: queue_list_def sort_by_def)
  then show ?thesis
    using scheduler_serves_oldest_first [OF refl 1, of "\<lambda>_. 50"] 2 by (simp add: started_fields)
qed

text \<open>
  The latency histograms are well formed after any observations: there is one count
  per bucket and one for infinity, the count for infinity is the number of observations, the sum is
  not negative, and for ascending buckets the counts ascend, as a cumulative histogram requires.
\<close>

lemma histogram_cumulative:
  "let h = fold hist_observe ds (newDurationHistogram bs) in
   length (h_counts h) = length (h_buckets h) + 1 \<and> last (h_counts h) = h_count h \<and>
   h_count h = length ds \<and> h_sum h \<ge> 0 \<and> (sorted (h_buckets h) \<longrightarrow> sorted (h_counts h))"
proof -
  have ok: "hist_ok h \<Longrightarrow> hist_ok (fold hist_observe ds h)" for h
    by (induction ds arbitrary: h) (auto intro: hist_observe_ok)
  have n: "h_count (fold hist_observe ds h) = h_count h + length ds" for h
    by (induction ds arbitrary: h) (auto simp: hist_observe_def Let_def)
  have "h_count (newDurationHistogram bs) = 0" by (simp add: newDurationHistogram_def Let_def)
  then show ?thesis
    using ok [OF hist_new_ok, of bs] n [of "newDurationHistogram bs"] by (simp add: hist_ok_def Let_def)
qed

text \<open>
  Interruptions do not unbind a pass: whatever other goroutines commit between the
  scheduler's statements, a pass claims no more jobs than it counted free slots, and the table it
  leaves is the result of a history of the store's operations, so every invariant of the store holds.
\<close>

lemma interrupted_pass_bounded:
  "int (length (fst (drainQueued cfg clock mid env rows m))) \<le>
     max 0 (wc_MaxInFlight cfg - int (sum_list (map snd (RunningAsyncJobsByProbe rows)))) \<and>
   (\<exists>ps. fst (snd (drainQueued cfg clock mid env rows m)) = fold async_exec ps rows)"
proof -
  have fin: "\<exists>ps. fold async_exec qs (fold async_exec mid rows) = fold async_exec ps rows" for qs
    by (rule exI [of _ "mid @ qs"]) simp
  let ?total = "int (sum_list (map snd (RunningAsyncJobsByProbe rows)))"
  let ?rows1 = "fold async_exec mid rows"
  show ?thesis
  proof (cases "wc_MaxInFlight cfg - ?total \<le> 0")
    case True
    then show ?thesis using no_op [of rows] by (simp add: drainQueued_def Let_def)
  next
    case room: False
    show ?thesis
    proof (cases "ListAsyncJobsByState AsyncJobStateQueued (wc_FetchBatchSize cfg) ?rows1")
      case (Inl e)
      then show ?thesis using room fin [of "[]"] by (simp add: drainQueued_def Let_def)
    next
      case (Inr queued)
      let ?st = "\<lparr>ss_rows = ?rows1, ss_metrics = m, ss_total = ?total,
        ss_byProbe = RunningAsyncJobsByProbe rows\<rparr>"
      obtain qs where "ss_rows (snd (drain_loop cfg clock env (wc_MaxInFlight cfg - ?total) 0 queued ?st)) =
          fold async_exec qs ?rows1"
        using drain_history [of cfg clock env "wc_MaxInFlight cfg - ?total" 0 queued ?st] by auto
      then show ?thesis
        using Inr room fin [of qs] drain_claim_bound [of cfg clock env "wc_MaxInFlight cfg - ?total" 0 queued ?st]
        by (simp add: drainQueued_def Let_def case_prod_beta)
    qed
  qed
qed

text \<open>
  The dispatch gap: a command's job is stored as queued before the server acts on the
  policy decision, so a scheduler pass in between, with room for the queued jobs, claims and
  dispatches it; the server's later \<^verbatim>\<open>MarkWaitingApproval\<close> is then refused, and the command
  runs without the approval.
\<close>

lemma queued_before_approval_can_run:
  assumes "rows = fold async_exec ps []" and "clean_ids rows"
    and "async_CreateJob d reqid newid now job rows = (Ok row, rows1)" and "rows1 \<noteq> rows"
    and "trim_space (aj_ID job) = aj_ID job" and "trim_space newid = newid" and "newid \<noteq> []"
    and "wc_MaxPerProbe cfg \<le> 0"
    and "int (tbl_count is_running rows1) + int (tbl_count is_queued rows1) \<le> wc_MaxInFlight cfg"
    and "int (tbl_count is_queued rows1) \<le> normalizeAsyncJobLimit (wc_FetchBatchSize cfg)"
  shows "aj_ID row \<in> aj_ID ` set (fst (drainQueued cfg clock [] quiet rows1 m)) \<and>
    MarkWaitingApproval t (aj_ID row) aid reason expiry (fst (snd (drainQueued cfg clock [] quiet rows1 m))) =
      (Err (ErrInvalidAsyncJobTransition AsyncJobStateRunning AsyncJobStateWaitingApproval),
       fst (snd (drainQueued cfg clock [] quiet rows1 m)))"
proof -
  have ok: "async_ok rows" using assms(1) async_run_ok by simp
  have "snd (async_CreateJob d reqid newid now job rows) \<noteq> rows" using assms(3,4) by simp
  from create_get [OF ok this assms(5-7)] assms(3)
  have row: "row = async_row_of reqid newid now (job\<lparr>aj_State := AsyncJobStateQueued\<rparr>)"
    and rows1: "rows1 = rows @ [row]" and ok1: "async_ok rows1" by auto
  have clean1: "clean_ids rows1"
    unfolding rows1 row by (rule clean_create) (use assms(2,5-7) in auto)
  have j: "row \<in> set rows1" "is_queued row"
    using async_row_of_ok(2) by (auto simp: rows1 row is_queued_def)
  let ?last = "fst (snd (drainQueued cfg clock [] quiet rows1 m))"
  note d = drain_all [OF ok1 clean1 assms(8-10) j, of clock m]
  have "async_ok ?last" "clean_ids ?last"
    using drain_end_inv [OF ok1 clean1, of cfg clock m] by auto
  from mark_waiting_running [OF this conjunct2 [OF d]]
  have "MarkWaitingApproval t (aj_ID row) aid reason expiry ?last =
      (Err (ErrInvalidAsyncJobTransition AsyncJobStateRunning AsyncJobStateWaitingApproval), ?last)"
    by (simp add: started_fields)
  moreover have "aj_ID row \<in> aj_ID ` set (fst (drainQueued cfg clock [] quiet rows1 m))"
    using imageI [OF conjunct1 [OF d], of aj_ID] by (simp add: started_fields)
  ultimately show ?thesis by blast
qed

lemma queued_before_approval_can_run_witness:
  "''j1'' \<in> aj_ID ` set (fst (drainQueued demo_cfg (\<lambda>_. 50) [] quiet
     (snd (async_CreateJob 5 ''r1'' ''j1'' 5 demo_job [])) (newAsyncSchedulerMetrics [])))"
proof -
  let ?rows1 = "snd (async_CreateJob 5 ''r1'' ''j1'' 5 demo_job [])"
  have f: "\<not> isl (fst (async_CreateJob 5 ''r1'' ''j1'' 5 demo_job []))" "aj_ID (projr (fst (async_CreateJob 5 ''r1'' ''j1'' 5 demo_job []))) = ''j1''"
    "length ?rows1 \<noteq> 0" "clean_ids []"
    "trim_space (aj_ID demo_job) = aj_ID demo_job" "trim_space ''j1'' = ''j1''" "wc_MaxPerProbe demo_cfg \<le> 0"
    "int (tbl_count is_running ?rows1) + int (tbl_count is_queued ?rows1) \<le> wc_MaxInFlight demo_cfg"
    "int (tbl_count is_queued ?rows1) \<le> normalizeAsyncJobLimit (wc_FetchBatchSize demo_cfg)"
    by code_simp+
  then obtain row where row: "async_CreateJob 5 ''r1'' ''j1'' 5 demo_job [] = (Ok row, ?rows1)" "aj_ID row = ''j1''"
    by (cases "async_CreateJob 5 ''r1'' ''j1'' 5 demo_job []"; cases "fst (async_CreateJob 5 ''r1'' ''j1'' 5 demo_job [])") auto
  have ne: "?rows1 \<noteq> []" using f(3) by auto
  show ?thesis
    using queued_before_approval_can_run [of "[]" "[]", OF _ f(4) row(1) ne f(5,6) _ f(7,8,9)] row(2) by auto
qed

text \<open>
  \<^verbatim>\<open>DispatchNow\<close> on a stored job: a job that is not queued is reported and nothing
  happens; with no free slot the job stays queued; otherwise the job is moved to running and
  handed to the dispatcher exactly in that state, and if the dispatcher fails on a job that is
  still running, the job is failed with the dispatcher's message as reason and output.
\<close>

lemma dispatch_now_outcomes:
  assumes "rows = fold async_exec ps []" and "clean_ids rows" and "j \<in> set rows"
    and "wc_MaxPerProbe cfg \<le> 0"
  shows "(aj_State j \<noteq> AsyncJobStateQueued \<longrightarrow>
      DispatchNow cfg dispatch el now1 now2 (aj_ID j) rows m =
        ((Some \<lparr>dr_Outcome = AsyncDispatchOutcomeQueued, dr_Reason = ''job_not_queued'', dr_Job = Some j\<rparr>, None),
         rows, m)) \<and>
    (aj_State j = AsyncJobStateQueued \<and> int (tbl_count is_running rows) \<ge> wc_MaxInFlight cfg \<longrightarrow>
      DispatchNow cfg dispatch el now1 now2 (aj_ID j) rows m =
        ((Some \<lparr>dr_Outcome = AsyncDispatchOutcomeQueued, dr_Reason = ''global_limit'', dr_Job = Some j\<rparr>, None),
         rows, m)) \<and>
    (aj_State j = AsyncJobStateQueued \<and> int (tbl_count is_running rows) < wc_MaxInFlight cfg \<longrightarrow>
      (let (res, rows', m') = DispatchNow cfg dispatch el now1 now2 (aj_ID j) rows m;
           (err, rows2) = dispatch (started now1 j) (start_row now1 j rows)
       in res = (Some \<lparr>dr_Outcome = AsyncDispatchOutcomeStarted, dr_Reason = [],
                   dr_Job = Some (started now1 j)\<rparr>, map_option SchedDispatchError err) \<and>
          rows' = (case err of None \<Rightarrow> rows2
                   | Some msg \<Rightarrow> snd (TransitionAsyncJob now2 (aj_ID j) AsyncJobStateFailed
                       (no_options\<lparr>to_StatusReason := msg, to_Output := msg\<rparr>) rows2))))"
proof -
  have ok: "async_ok rows" using assms(1) async_run_ok by simp
  have id: "trim_space (aj_ID j) = aj_ID j" "aj_ID j \<noteq> []"
    using assms(2,3) by (auto simp: clean_ids_def list_all_iff)
  have get: "GetAsyncJob (aj_ID j) rows = Ok j"
    using GetAsyncJob_look [OF ok id] async_look_mem [OF ok assms(3)] by simp
  let ?st = "\<lparr>ss_rows = rows, ss_metrics = m, ss_total = int (tbl_count is_running rows),
      ss_byProbe = RunningAsyncJobsByProbe rows\<rparr>"
  have inv: "sched_inv ?st"
    using sched_inv_start [OF ok assms(2), of m] by (simp add: running_total [OF ok])
  have full: "claimQueuedJob cfg now1 j ?st = (Ok (None, ''global_limit''), ?st)"
    if "int (tbl_count is_running rows) \<ge> wc_MaxInFlight cfg"
    using that by (simp add: claimQueuedJob_def)
  have start: "\<exists>st'. claimQueuedJob cfg now1 j ?st = (Ok (Some (started now1 j), []), st') \<and>
      ss_rows st' = start_row now1 j rows"
    if "aj_State j = AsyncJobStateQueued" "int (tbl_count is_running rows) < wc_MaxInFlight cfg"
    using claim_queued [OF inv, of j cfg now1] that assms(3,4) by (metis linorder_not_less select_convs(1) select_convs(3))
  show ?thesis
    using get id full start
    by (auto simp: DispatchNow_def running_total [OF ok] dispatchClaimedSync_def started_fields Let_def
        case_prod_beta split: option.split)
qed

text \<open>
  A claim does not exclude a second dispatch: a candidate that another writer has moved
  to running after the pass listed it is claimed again, because a transition to the state a job is
  already in counts as success, and it is dispatched a second time.
\<close>

lemma running_job_claimed_again:
  assumes "ss_rows st = fold async_exec ps []" and "clean_ids (ss_rows st)"
    and "r \<in> set (ss_rows st)" and "aj_State r = AsyncJobStateRunning" and "aj_ID c = aj_ID r"
    and "ss_total st < wc_MaxInFlight cfg" and "wc_MaxPerProbe cfg \<le> 0"
  shows "fst (claimQueuedJob cfg now c st) = Ok (Some r, [])"
proof -
  have ok: "async_ok (ss_rows st)" using assms(1) async_run_ok by simp
  have id: "trim_space (aj_ID r) = aj_ID r" "aj_ID r \<noteq> []"
    using assms(2,3) by (auto simp: clean_ids_def list_all_iff)
  have "TransitionAsyncJob now (aj_ID c) AsyncJobStateRunning no_options (ss_rows st) = (Ok r, ss_rows st)"
    using transition_stored [OF ok, of "aj_ID r" r AsyncJobStateRunning now no_options]
      async_look_mem [OF ok assms(3)] id assms(4,5) by (simp add: isKnownAsyncJobState_def)
  then show ?thesis
    using assms(6,7) by (simp add: claimQueuedJob_def Let_def)
qed

lemma running_job_claimed_again_witness:
  "let rows = fold async_exec (demo_ops @ [AopTransition 8 ''j2'' AsyncJobStateRunning no_options]) [] in
   \<exists>r. fst (claimQueuedJob demo_cfg 50 (demo_job\<lparr>aj_ID := ''j2''\<rparr>)
     \<lparr>ss_rows = rows, ss_metrics = newAsyncSchedulerMetrics [], ss_total = 0, ss_byProbe = []\<rparr>) = Ok (Some r, [])"
proof -
  let ?ops = "demo_ops @ [AopTransition 8 ''j2'' AsyncJobStateRunning no_options]"
  let ?rows = "fold async_exec ?ops []"
  have s: "async_state ?rows ''j2'' = Some AsyncJobStateRunning"
    "clean_ids ?rows" "wc_MaxPerProbe demo_cfg \<le> 0" "0 < wc_MaxInFlight demo_cfg"
    by code_simp+
  then obtain r where r: "async_look ?rows ''j2'' = Some r" "aj_State r = AsyncJobStateRunning"
    by (auto simp: async_state_def)
  have m: "r \<in> set ?rows" "aj_ID r = ''j2''" using async_look_in [OF r(1)] by auto
  have "fst (claimQueuedJob demo_cfg 50 (demo_job\<lparr>aj_ID := ''j2''\<rparr>)
     \<lparr>ss_rows = ?rows, ss_metrics = newAsyncSchedulerMetrics [], ss_total = 0, ss_byProbe = []\<rparr>) = Ok (Some r, [])"
    by (rule running_job_claimed_again [where ps = ?ops])
      (use m r(2) s in \<open>simp_all del: fold_append fold.simps\<close>)
  then show ?thesis unfolding Let_def by blast
qed

text \<open>
  The normalised configuration is usable: at least one slot, no negative per-probe
  limit, a positive poll interval, a fetch batch between one and the list limit that covers all
  slots up to that limit; and normalising again changes nothing.
\<close>

lemma normalized_config:
  "let n = normalized c in
   wc_MaxInFlight n > 0 \<and> wc_MaxPerProbe n \<ge> 0 \<and> wc_PollInterval n > 0 \<and>
   1 \<le> wc_FetchBatchSize n \<and> wc_FetchBatchSize n \<le> maxAsyncJobListLimit \<and>
   min (wc_MaxInFlight n) maxAsyncJobListLimit \<le> wc_FetchBatchSize n \<and>
   normalizeAsyncJobLimit (wc_FetchBatchSize n) = wc_FetchBatchSize n \<and> normalized n = n"
  by (cases c) (auto simp: normalized_def Let_def normalizeAsyncJobLimit_def)

text \<open>
  Property C33. A queued job is claimed: without a per-probe limit, when every pass finds a free slot and
  nobody else cancels the job or puts another one before it, the job is claimed after at most as
  many further passes as there are jobs before it in the queue.
\<close>

theorem queued_job_is_claimed:
  assumes "rows = fold async_exec ps []" "clean_ids rows" "wc_MaxPerProbe cfg \<le> 0" "in_queue jid rows"
    and "fair_rounds cfg jid rs (rows, m)" "queue_index jid rows < length rs"
  shows "\<exists>k \<le> queue_index jid rows. case passes cfg (take k rs) (rows, m) of
    (rows', m') \<Rightarrow> jid \<in> aj_ID ` set (fst (drainQueued cfg (fst (rs ! k)) [] quiet rows' m'))"
proof -
  have "async_ok rows" using assms(1) async_run_ok by simp
  then show ?thesis using assms(2-6)
  proof (induction rs arbitrary: rows m)
    case (Cons r rs)
    obtain clock work where r: "r = (clock, work)" by (cases r)
    obtain rows' m' where step: "passes cfg [(clock, work)] (rows, m) = (rows', m')" by (metis prod.collapse)
    show ?case
    proof (cases "jid \<in> aj_ID ` set (fst (drainQueued cfg clock [] quiet rows m))")
      case True
      then show ?thesis by (intro exI [of _ 0]) (simp add: r)
    next
      case False
      with claimed_or_closer [of rows cfg jid clock work m] Cons.prems r step
      have closer: "async_ok rows'" "clean_ids rows'" "in_queue jid rows'" "queue_index jid rows' < queue_index jid rows"
        by (auto simp: Let_def)
      moreover have "fair_rounds cfg jid rs (rows', m')" using Cons.prems(5) r step by simp
      ultimately obtain k where k: "k \<le> queue_index jid rows'" "case passes cfg (take k rs) (rows', m') of
          (rows', m') \<Rightarrow> jid \<in> aj_ID ` set (fst (drainQueued cfg (fst (rs ! k)) [] quiet rows' m'))"
        using Cons.IH [of rows' m'] Cons.prems(3,6) by auto
      have "passes cfg (take (Suc k) (r # rs)) (rows, m) = passes cfg (take k rs) (rows', m')"
        using step by (simp add: r case_prod_beta)
      with k closer(4) show ?thesis by (intro exI [of _ "Suc k"]) simp
    qed
  qed simp
qed

theorem queued_job_is_claimed_witness:
  "\<exists>k \<le> 1. case passes one_slot (take k demo_rounds) (fold async_exec two_queued [], newAsyncSchedulerMetrics []) of
    (rows', m') \<Rightarrow> ''j2'' \<in> aj_ID ` set (fst (drainQueued one_slot (fst (demo_rounds ! k)) [] quiet rows' m'))"
proof -
  have "clean_ids (fold async_exec two_queued [])" "wc_MaxPerProbe one_slot \<le> 0" "in_queue ''j2'' (fold async_exec two_queued [])"
    "fair_rounds one_slot ''j2'' demo_rounds (fold async_exec two_queued [], newAsyncSchedulerMetrics [])"
    "queue_index ''j2'' (fold async_exec two_queued []) = 1" "length demo_rounds = 2"
    by code_simp+
  then show ?thesis
    using queued_job_is_claimed [OF refl, of two_queued one_slot "''j2''" demo_rounds "newAsyncSchedulerMetrics []"] by simp
qed

end
