(* ===== verification/Encoding.thy ===== *)
theory Encoding
  imports Go_Prelude Timestamps "HOL-Library.Word"
begin

unbundle bit_operations_syntax

text \<open>
  The parts of Go's standard library on which the signatures and the audit chain rest, on byte
  strings: \<^verbatim>\<open>encoding/hex\<close>, \<^verbatim>\<open>crypto/sha256\<close> and
  \<^verbatim>\<open>crypto/hmac\<close> as FIPS 180-4 and RFC 2104 define them,
  \<^verbatim>\<open>encoding/json\<close> (\<^verbatim>\<open>Marshal\<close>, and what reading a marshalled
  value back into \<^verbatim>\<open>any\<close> gives) and the RFC 3339 text of a time. A JSON number is an
  integer that a \<^verbatim>\<open>float64\<close> holds exactly.
\<close>

section \<open>Hexadecimal text\<close>

definition hex_digit :: "nat \<Rightarrow> char" where
  "hex_digit n = (if n < 10 then char_of (48 + n) else char_of (87 + n))"

definition hex_byte :: "char \<Rightarrow> string" where
  "hex_byte c = [hex_digit (of_char c div 16), hex_digit (of_char c mod 16)]"

definition hex_EncodeToString :: "string \<Rightarrow> string" where
  "hex_EncodeToString s = concat (map hex_byte s)"

definition hex_value :: "char \<Rightarrow> nat option" where
  "hex_value c =
     (let n = of_char c :: nat
      in if 48 \<le> n \<and> n \<le> 57 then Some (n - 48)
         else if 97 \<le> n \<and> n \<le> 102 then Some (n - 87)
         else if 65 \<le> n \<and> n \<le> 70 then Some (n - 55)
         else None)"

text \<open>\<open>None\<close> is the error of \<^verbatim>\<open>hex.DecodeString\<close>: a byte that is no digit, or an odd length.\<close>

fun hex_DecodeString :: "string \<Rightarrow> string option" where
  "hex_DecodeString [] = Some []"
| "hex_DecodeString [c] = None"
| "hex_DecodeString (c # d # s) =
     (case (hex_value c, hex_value d, hex_DecodeString s) of
        (Some m, Some n, Some t) \<Rightarrow> Some (char_of (16 * m + n) # t)
      | _ \<Rightarrow> None)"

section \<open>SHA-256\<close>

type_synonym w32 = "32 word"

definition rotr :: "nat \<Rightarrow> w32 \<Rightarrow> w32" where
  "rotr n x = drop_bit n x OR push_bit (32 - n) x"

text \<open>
  The constants, as the standard defines them: the first 32 bits of the fractional parts of the
  cube roots of the first 64 primes, and of the square roots of the first 8.
\<close>

definition int_root :: "nat \<Rightarrow> nat \<Rightarrow> nat" where
  "int_root k n = fold (\<lambda>i r. if (r + 2 ^ i) ^ k \<le> n then r + 2 ^ i else r) (rev [0..<40]) 0"

definition root_fraction :: "nat \<Rightarrow> nat \<Rightarrow> w32" where
  "root_fraction k p = of_nat (int_root k (p * 2 ^ (32 * k)))"

definition is_prime :: "nat \<Rightarrow> bool" where
  "is_prime p \<longleftrightarrow> 2 \<le> p \<and> list_all (\<lambda>d. \<not> d dvd p) [2..<p]"

definition round_constants :: "w32 list" where
  "round_constants = map (root_fraction 3) (filter is_prime [2..<312])"

definition initial_hash :: "w32 list" where
  "initial_hash = map (root_fraction 2) [2, 3, 5, 7, 11, 13, 17, 19]"

text \<open>The message schedule, with the newest word first.\<close>

fun schedule :: "nat \<Rightarrow> w32 list \<Rightarrow> w32 list" where
  "schedule 0 ws = rev ws"
| "schedule (Suc n) ws =
     (let s0 = rotr 7 (ws ! 14) XOR rotr 18 (ws ! 14) XOR drop_bit 3 (ws ! 14);
          s1 = rotr 17 (ws ! 1) XOR rotr 19 (ws ! 1) XOR drop_bit 10 (ws ! 1)
      in schedule n ((ws ! 15 + s0 + ws ! 6 + s1) # ws))"

fun rounds ::
  "(w32 \<times> w32) list \<Rightarrow> w32 \<Rightarrow> w32 \<Rightarrow> w32 \<Rightarrow> w32 \<Rightarrow> w32 \<Rightarrow> w32 \<Rightarrow> w32 \<Rightarrow> w32 \<Rightarrow> w32 list" where
  "rounds [] a b c d e f g h = [a, b, c, d, e, f, g, h]"
| "rounds ((k, w) # kws) a b c d e f g h =
     (let s1 = rotr 6 e XOR rotr 11 e XOR rotr 25 e;
          ch = (e AND f) XOR (NOT e AND g);
          t1 = h + s1 + ch + k + w;
          s0 = rotr 2 a XOR rotr 13 a XOR rotr 22 a;
          maj = (a AND b) XOR (a AND c) XOR (b AND c)
      in rounds kws (t1 + (s0 + maj)) a b c (d + t1) e f g)"

definition compress :: "w32 list \<Rightarrow> w32 list \<Rightarrow> w32 list" where
  "compress blk hs =
     map2 (+) hs (rounds (zip round_constants (schedule 48 (rev blk)))
       (hs ! 0) (hs ! 1) (hs ! 2) (hs ! 3) (hs ! 4) (hs ! 5) (hs ! 6) (hs ! 7))"

fun words_of :: "string \<Rightarrow> w32 list" where
  "words_of (a # b # c # d # s) =
     of_nat (((of_char a * 256 + of_char b) * 256 + of_char c) * 256 + of_char d) # words_of s"
| "words_of _ = []"

fun blocks_of :: "w32 list \<Rightarrow> w32 list list" where
  "blocks_of ws = (if length ws < 16 then [] else take 16 ws # blocks_of (drop 16 ws))"

declare blocks_of.simps [simp del]

definition big_endian :: "nat \<Rightarrow> nat \<Rightarrow> string" where
  "big_endian k n = map (\<lambda>i. char_of (n div 256 ^ (k - Suc i) mod 256)) [0..<k]"

definition sha_padding :: "nat \<Rightarrow> string" where
  "sha_padding n = CHR 0x80 # replicate ((119 - n mod 64) mod 64) (CHR 0x00) @ big_endian 8 (8 * n)"

definition sha256 :: "string \<Rightarrow> string" where
  "sha256 m =
     concat (map (\<lambda>w. big_endian 4 (unat w))
       (fold compress (blocks_of (words_of (m @ sha_padding (length m)))) initial_hash))"

section \<open>HMAC\<close>

definition hmac_key :: "string \<Rightarrow> string" where
  "hmac_key key =
     (let k = (if length key > 64 then sha256 key else key)
      in k @ replicate (64 - length k) (CHR 0x00))"

definition xor_pad :: "nat \<Rightarrow> string \<Rightarrow> string" where
  "xor_pad p k = map (\<lambda>c. char_of ((of_char c :: nat) XOR p)) k"

definition hmac_sha256 :: "string \<Rightarrow> string \<Rightarrow> string" where
  "hmac_sha256 key m =
     sha256 (xor_pad 0x5c (hmac_key key) @ sha256 (xor_pad 0x36 (hmac_key key) @ m))"

text \<open>A key under which two messages have the same code.\<close>

definition mac_collision :: "string \<Rightarrow> bool" where
  "mac_collision key \<longleftrightarrow> (\<exists>m m'. m \<noteq> m' \<and> hmac_sha256 key m = hmac_sha256 key m')"

section \<open>JSON\<close>

text \<open>
  The length of the UTF-8 encoded rune at the front of a string; 0 where there is none or the bytes
  are no encoding, the case in which \<^verbatim>\<open>utf8.DecodeRune\<close> returns the error rune of width 1.
\<close>

definition byte_in :: "nat \<Rightarrow> nat \<Rightarrow> string \<Rightarrow> nat \<Rightarrow> bool" where
  "byte_in lo hi s i \<longleftrightarrow> i < length s \<and> lo \<le> of_char (s ! i) \<and> of_char (s ! i) \<le> hi"

definition rune_size :: "string \<Rightarrow> nat" where
  "rune_size s =
     (if byte_in 0 0x7F s 0 then 1
      else if byte_in 0xC2 0xDF s 0 \<and> byte_in 0x80 0xBF s 1 then 2
      else if (byte_in 0xE0 0xE0 s 0 \<and> byte_in 0xA0 0xBF s 1 \<or>
               byte_in 0xE1 0xEC s 0 \<and> byte_in 0x80 0xBF s 1 \<or>
               byte_in 0xED 0xED s 0 \<and> byte_in 0x80 0x9F s 1 \<or>
               byte_in 0xEE 0xEF s 0 \<and> byte_in 0x80 0xBF s 1) \<and> byte_in 0x80 0xBF s 2 then 3
      else if (byte_in 0xF0 0xF0 s 0 \<and> byte_in 0x90 0xBF s 1 \<or>
               byte_in 0xF1 0xF3 s 0 \<and> byte_in 0x80 0xBF s 1 \<or>
               byte_in 0xF4 0xF4 s 0 \<and> byte_in 0x80 0x8F s 1) \<and>
              byte_in 0x80 0xBF s 2 \<and> byte_in 0x80 0xBF s 3 then 4
      else 0)"

definition error_rune :: string where "error_rune = [CHR 0xEF, CHR 0xBF, CHR 0xBD]"

text \<open>An ASCII byte as \<^verbatim>\<open>Marshal\<close> writes it, with the HTML escapes.\<close>

definition json_ascii :: "char \<Rightarrow> string" where
  "json_ascii c =
     (let n = of_char c :: nat; bs = CHR 0x5C
      in if c = CHR 0x22 \<or> c = bs then [bs, c]
         else if n = 8 then [bs, CHR ''b''] else if n = 12 then [bs, CHR ''f'']
         else if n = 10 then [bs, CHR ''n''] else if n = 13 then [bs, CHR ''r'']
         else if n = 9 then [bs, CHR ''t'']
         else if n < 32 \<or> c = CHR ''<'' \<or> c = CHR ''>'' \<or> c = CHR ''&''
         then [bs, CHR ''u'', CHR ''0'', CHR ''0''] @ hex_byte c
         else [c])"

text \<open>A rune: one byte, the line and paragraph separators, or its bytes as they are.\<close>

definition json_rune :: "string \<Rightarrow> string" where
  "json_rune r =
     (if length r = 1 then json_ascii (hd r)
      else if r = [CHR 0xE2, CHR 0x80, CHR 0xA8] then [CHR 0x5C] @ ''u2028''
      else if r = [CHR 0xE2, CHR 0x80, CHR 0xA9] then [CHR 0x5C] @ ''u2029''
      else r)"

text \<open>
  The runes of a string; a byte that starts none is \<open>None\<close>. \<^verbatim>\<open>Marshal\<close> writes such
  a byte as the escape of the error rune, and reading the text back gives the rune itself.
\<close>

function runes :: "string \<Rightarrow> string option list" where
  "runes s =
     (if s = [] then []
      else if rune_size s = 0 then None # runes (tl s)
      else Some (take (rune_size s) s) # runes (drop (rune_size s) s))"
  by pat_completeness auto
termination
  by (relation "measure length") auto

declare runes.simps [simp del]

definition json_string :: "string \<Rightarrow> string" where
  "json_string s =
     [CHR 0x22] @ concat (map (\<lambda>r. case r of None \<Rightarrow> [CHR 0x5C] @ ''ufffd'' | Some r \<Rightarrow> json_rune r) (runes s))
     @ [CHR 0x22]"

definition utf8_valid :: "string \<Rightarrow> bool" where
  "utf8_valid s \<longleftrightarrow> None \<notin> set (runes s)"

definition utf8_repair :: "string \<Rightarrow> string" where
  "utf8_repair s = concat (map (\<lambda>r. case r of None \<Rightarrow> error_rune | Some r \<Rightarrow> r) (runes s))"

text \<open>A value of type \<^verbatim>\<open>any\<close>; an object is a Go map, whose keys are written in order.\<close>

datatype json =
    JNull
  | JBool bool
  | JInt int
  | JStr string
  | JArr "json list"
  | JMap "(string \<times> json) list"

definition int_text :: "int \<Rightarrow> string" where
  "int_text n = (if n < 0 then ''-'' @ nat_text (nat (- n)) else nat_text (nat n))"

definition json_member :: "string \<times> string \<Rightarrow> string" where
  "json_member m = json_string (fst m) @ '':'' @ snd m"

definition json_object :: "(string \<times> string) list \<Rightarrow> string" where
  "json_object ms = ''{'' @ join_str (map json_member ms) '','' @ ''}''"

fun Marshal :: "json \<Rightarrow> string" where
  "Marshal JNull = ''null''"
| "Marshal (JBool b) = (if b then ''true'' else ''false'')"
| "Marshal (JInt n) = int_text n"
| "Marshal (JStr s) = json_string s"
| "Marshal (JArr vs) = ''['' @ join_str (map Marshal vs) '','' @ '']''"
| "Marshal (JMap kvs) =
     json_object (sort_by (\<lambda>m m'. bytes_le (fst m) (fst m'))
       (map (map_prod (\<lambda>k. k) Marshal) kvs))"

text \<open>What \<^verbatim>\<open>Unmarshal\<close> into \<^verbatim>\<open>any\<close> makes of the text of a value.\<close>

fun reload :: "json \<Rightarrow> json" where
  "reload (JStr s) = JStr (utf8_repair s)"
| "reload (JArr vs) = JArr (map reload vs)"
| "reload (JMap kvs) =
     JMap (fold (\<lambda>(k, v). gput (utf8_repair k) v) (map (map_prod (\<lambda>k. k) reload) kvs) [])"
| "reload v = v"

fun json_valid :: "json \<Rightarrow> bool" where
  "json_valid (JStr s) \<longleftrightarrow> utf8_valid s"
| "json_valid (JArr vs) \<longleftrightarrow> list_all json_valid vs"
| "json_valid (JMap kvs) \<longleftrightarrow>
     distinct (map fst kvs) \<and> list_all utf8_valid (map fst kvs) \<and>
     list_all (\<lambda>v. v) (map (\<lambda>kv. json_valid (snd kv)) kvs)"
| "json_valid v \<longleftrightarrow> True"

section \<open>The text of a time\<close>

definition pad_text :: "nat \<Rightarrow> int \<Rightarrow> string" where
  "pad_text w n = (let t = nat_text (nat n) in replicate (w - length t) (CHR ''0'') @ t)"

text \<open>The proleptic Gregorian date of a day counted from 1970-01-01: year, month and day.\<close>

definition civil_date :: "int \<Rightarrow> int \<times> int \<times> int" where
  "civil_date days =
     (let z = days + 719468; era = z div 146097; doe = z mod 146097;
          yoe = (doe - doe div 1460 + doe div 36524 - doe div 146096) div 365;
          doy = doe - (365 * yoe + yoe div 4 - yoe div 100);
          mp = (5 * doy + 2) div 153;
          d = doy - (153 * mp + 2) div 5 + 1;
          m = (if mp < 10 then mp + 3 else mp - 9)
      in (yoe + era * 400 + (if m \<le> 2 then 1 else 0), m, d))"

definition rfc3339_nano :: "time \<Rightarrow> string" where
  "rfc3339_nano t =
     (let secs = t div Second; (y, m, d) = civil_date (secs div 86400); s = secs mod 86400
      in pad_text 4 y @ ''-'' @ pad_text 2 m @ ''-'' @ pad_text 2 d @ ''T'' @
         pad_text 2 (s div 3600) @ '':'' @ pad_text 2 (s mod 3600 div 60) @ '':'' @ pad_text 2 (s mod 60) @
         ts_tail t)"

section \<open>Lemmas\<close>

lemma hex_value_digit: "n < 16 \<Longrightarrow> hex_value (hex_digit n) = Some n"
  by (auto simp: hex_value_def hex_digit_def Let_def)

lemma hex_round_trip [simp]: "hex_DecodeString (hex_EncodeToString s) = Some s"
proof (induction s)
  case (Cons c s)
  have "(of_char c :: nat) div 16 < 16"
    by (rule less_mult_imp_div_less) simp
  then have "hex_value (hex_digit (of_char c div 16)) = Some (of_char c div 16)"
    "hex_value (hex_digit (of_char c mod 16)) = Some (of_char c mod 16)"
    by (simp_all add: hex_value_digit)
  with Cons show ?case by (simp add: hex_EncodeToString_def hex_byte_def)
qed (simp add: hex_EncodeToString_def)

lemma hex_EncodeToString_inj [simp]: "hex_EncodeToString s = hex_EncodeToString t \<longleftrightarrow> s = t"
  using hex_round_trip by (metis option.inject)

lemma length_hex [simp]: "length (hex_EncodeToString s) = 2 * length s"
  by (induction s) (simp_all add: hex_EncodeToString_def hex_byte_def)

lemma length_rounds [simp]: "length (rounds kws a b c d e f g h) = 8"
  by (induction kws a b c d e f g h rule: rounds.induct) (simp_all add: Let_def)

lemma length_compress [simp]: "length hs = 8 \<Longrightarrow> length (compress blk hs) = 8"
  by (simp add: compress_def)

lemma length_fold_compress: "length hs = 8 \<Longrightarrow> length (fold compress bs hs) = 8"
  by (induction bs arbitrary: hs) simp_all

lemma length_concat_const: "(\<And>x. length (f x) = k) \<Longrightarrow> length (concat (map f xs)) = k * length xs"
  by (induction xs) simp_all

lemma length_sha256 [simp]: "length (sha256 m) = 32"
proof -
  have "length (fold compress bs initial_hash) = 8" for bs
    by (rule length_fold_compress) (simp add: initial_hash_def)
  then show ?thesis
    unfolding sha256_def by (subst length_concat_const [where k = 4]) (simp_all add: big_endian_def)
qed

lemma length_hmac [simp]: "length (hmac_sha256 key m) = 32"
  by (simp add: hmac_sha256_def)

lemma utf8_valid_Nil [simp]: "utf8_valid []" "utf8_repair [] = []"
  by (simp_all add: utf8_valid_def utf8_repair_def runes.simps)

lemma repair_valid: "utf8_valid s \<Longrightarrow> utf8_repair s = s"
proof (induction s rule: runes.induct)
  case (1 s)
  show ?case
  proof (cases "s = [] \<or> rune_size s = 0")
    case True
    with 1 show ?thesis by (auto simp: utf8_valid_def utf8_repair_def runes.simps [of s])
  next
    case False
    with 1 have "utf8_repair (drop (rune_size s) s) = drop (rune_size s) s"
      by (auto simp: utf8_valid_def runes.simps [of s])
    with False show ?thesis by (simp add: utf8_repair_def runes.simps [of s])
  qed
qed

lemma byte_in_append: "byte_in lo hi s i \<Longrightarrow> byte_in lo hi (s @ t) i"
  by (auto simp: byte_in_def nth_append)

lemma byte_in_front: "byte_in lo hi (c # s) 0 \<longleftrightarrow> lo \<le> of_char c \<and> of_char c \<le> hi"
  by (simp add: byte_in_def)

lemma rune_size_append:
  assumes "rune_size s \<noteq> 0"
  shows "rune_size (s @ t) = rune_size s"
proof (cases s)
  case Nil
  with assms show ?thesis by (simp add: rune_size_def byte_in_def)
next
  case (Cons c s')
  define n :: nat where "n = of_char c"
  have front: "byte_in lo hi s 0 \<longleftrightarrow> lo \<le> n \<and> n \<le> hi" "byte_in lo hi (s @ t) 0 \<longleftrightarrow> lo \<le> n \<and> n \<le> hi" for lo hi
    by (simp_all add: Cons n_def byte_in_front)
  consider "n < 0xC2" | "0xC2 \<le> n \<and> n \<le> 0xDF" | "n = 0xE0" | "0xE1 \<le> n \<and> n \<le> 0xEC" | "n = 0xED"
    | "0xEE \<le> n \<and> n \<le> 0xEF" | "n = 0xF0" | "0xF1 \<le> n \<and> n \<le> 0xF3" | "n = 0xF4" | "n > 0xF4"
    by linarith
  then show ?thesis
    using assms by cases (simp_all add: rune_size_def front byte_in_append split: if_splits)
qed

lemma rune_size_last:
  "rune_size s = 0 \<or> (\<exists>lo hi. byte_in lo hi s (rune_size s - 1)) \<and> rune_size s \<noteq> 0"
  unfolding rune_size_def
  by (simp only: if_split [where P = "\<lambda>n. n = 0 \<or> (\<exists>lo hi. byte_in lo hi s (n - 1)) \<and> n \<noteq> 0"]) (simp, blast)

lemma rune_size_le: "rune_size s \<le> length s"
  using rune_size_last [of s] by (auto simp: byte_in_def)

lemma utf8_valid_append: "utf8_valid s \<Longrightarrow> utf8_valid t \<Longrightarrow> utf8_valid (s @ t)"
proof (induction s rule: runes.induct)
  case (1 s)
  show ?case
  proof (cases "s = [] \<or> rune_size s = 0")
    case True
    with 1 have "s = []" by (auto simp: utf8_valid_def runes.simps [of s] split: if_splits)
    with 1 show ?thesis by simp
  next
    case False
    with 1 have "utf8_valid (drop (rune_size s) s @ t)" by (auto simp: utf8_valid_def runes.simps [of s])
    with False show ?thesis
      using rune_size_append [of s t] rune_size_le [of s] by (simp add: utf8_valid_def runes.simps [of "s @ t"])
  qed
qed

text \<open>The repaired string is valid, so repairing it again changes nothing.\<close>

lemma rune_size_take:
  assumes "rune_size s = n" "n \<noteq> 0"
  shows "rune_size (take n s) = n"
proof (cases s)
  case Nil
  with assms show ?thesis by simp
next
  case (Cons c s')
  define k :: nat where "k = of_char c"
  have front: "byte_in lo hi s 0 \<longleftrightarrow> lo \<le> k \<and> k \<le> hi" for lo hi
    by (simp add: Cons k_def byte_in_front)
  have tk: "i < j \<Longrightarrow> byte_in lo hi (take j s) i = byte_in lo hi s i" for i j lo hi
    by (auto simp: byte_in_def)
  consider "k < 0xC2" | "0xC2 \<le> k \<and> k \<le> 0xDF" | "k = 0xE0" | "0xE1 \<le> k \<and> k \<le> 0xEC" | "k = 0xED"
    | "0xEE \<le> k \<and> k \<le> 0xEF" | "k = 0xF0" | "0xF1 \<le> k \<and> k \<le> 0xF3" | "k = 0xF4" | "k > 0xF4"
    by linarith
  then show ?thesis
    using assms by cases (simp_all add: rune_size_def front tk split: if_splits)
qed

lemma repair_is_valid: "utf8_valid (utf8_repair s)"
proof (induction s rule: runes.induct)
  case (1 s)
  consider "s = []" | "s \<noteq> []" "rune_size s = 0" | "s \<noteq> []" "rune_size s \<noteq> 0" by blast
  then show ?case
  proof cases
    case 2
    have "utf8_valid error_rune" by code_simp
    moreover have "utf8_repair s = error_rune @ utf8_repair (tl s)"
      using 2 by (simp add: utf8_repair_def runes.simps [of s])
    ultimately show ?thesis using 1(1) [OF 2] by (simp add: utf8_valid_append)
  next
    case 3
    let ?n = "rune_size s"
    have "runes (take ?n s) = [Some (take ?n s)]"
      using 3 rune_size_take [of s ?n] by (simp add: runes.simps [of "take ?n s"] runes.simps [of "[]"])
    then have "utf8_valid (take ?n s)" by (simp add: utf8_valid_def)
    moreover have "utf8_repair s = take ?n s @ utf8_repair (drop ?n s)"
      using 3 by (simp add: utf8_repair_def runes.simps [of s])
    ultimately show ?thesis using 1(2) [OF 3] by (simp add: utf8_valid_append)
  qed simp
qed

lemma repair_idem [simp]: "utf8_repair (utf8_repair s) = utf8_repair s"
  by (rule repair_valid) (rule repair_is_valid)

lemma fold_gput_distinct:
  "distinct (map fst m) \<Longrightarrow> (\<And>k. k \<in> fst ` set kvs \<Longrightarrow> k \<notin> fst ` set m) \<Longrightarrow> distinct (map fst kvs) \<Longrightarrow>
   fold (\<lambda>(k, v). gput k v) kvs m = m @ kvs"
proof (induction kvs arbitrary: m)
  case (Cons kv kvs)
  obtain k v where kv: "kv = (k, v)" by fastforce
  have "gput k v m = m @ [(k, v)]"
    using Cons.prems(2) [of k] unfolding kv by (induction m) (auto simp: gput_def)
  then show ?case using Cons.IH [of "m @ [(k, v)]"] Cons.prems by (auto simp: kv)
qed simp

lemma reload_valid: "json_valid v \<Longrightarrow> reload v = v"
proof (induction v)
  case (JArr vs)
  then show ?case by (auto simp: list_all_iff intro: map_idI)
next
  case (JMap kvs)
  have "map (map_prod (\<lambda>k. k) reload) kvs = kvs"
    using JMap by (intro map_idI) (force simp: list_all_iff)
  moreover have "fold (\<lambda>(k, v). gput (utf8_repair k) v) kvs m = fold (\<lambda>(k, v). gput k v) kvs m" for m
    using JMap.prems by (intro fold_cong) (auto simp: list_all_iff repair_valid)
  moreover have "fold (\<lambda>(k, v). gput k v) kvs [] = kvs"
    using JMap.prems fold_gput_distinct [of "[]" kvs] by simp
  ultimately show ?case by (simp only: reload.simps)
qed (simp_all add: repair_valid)

end
