(* ===== verification/Audit_Chain.thy ===== *)
theory Audit_Chain
  imports Encoding
begin

text \<open>
  The audit log of \<^verbatim>\<open>internal/controlplane/audit\<close>: the in-memory log
  (\<^verbatim>\<open>audit.go\<close>), the hash chain (\<^verbatim>\<open>chain.go\<close>) and the store
  (\<^verbatim>\<open>store.go\<close>). The table \<^verbatim>\<open>audit_events\<close> is the list of its rows in
  insertion order; a row is the event as \<^verbatim>\<open>persist\<close> writes it. Its time column is
  compared as text. Times are in UTC; failures of the database are not modelled.
\<close>

section \<open>Events\<close>

type_synonym EventType = string

record Event =
  ev_ID :: string
  ev_Timestamp :: time
  ev_Type :: EventType
  ev_ProbeID :: string
  ev_Actor :: string
  ev_Summary :: string
  ev_WorkspaceID :: string
  ev_Detail :: json
  ev_Before :: json
  ev_After :: json
  ev_PrevHash :: string
  ev_EntryHash :: string

definition enrichEvent :: "string \<Rightarrow> time \<Rightarrow> Event \<Rightarrow> Event" where
  "enrichEvent uuid now evt =
     evt\<lparr>ev_ID := (if ev_ID evt = [] then uuid else ev_ID evt),
         ev_Timestamp := (if ev_Timestamp evt = zero_time then now else ev_Timestamp evt)\<rparr>"

section \<open>The log in memory\<close>

record Log =
  lg_events :: "Event list"
  lg_maxLen :: int

definition NewLog :: "int \<Rightarrow> Log" where
  "NewLog maxLen = \<lparr>lg_events = [], lg_maxLen = maxLen\<rparr>"

definition log_append :: "Event \<Rightarrow> Log \<Rightarrow> Log" where
  "log_append evt l =
     (let es = lg_events l @ [evt]
      in l\<lparr>lg_events := (if lg_maxLen l > 0 \<and> int (length es) > lg_maxLen l
                          then drop (length es - nat (lg_maxLen l)) es else es)\<rparr>)"

definition log_Record :: "string \<Rightarrow> time \<Rightarrow> Event \<Rightarrow> Log \<Rightarrow> Log" where
  "log_Record uuid now evt l = log_append (enrichEvent uuid now evt) l"

definition new_event :: "EventType \<Rightarrow> string \<Rightarrow> string \<Rightarrow> string \<Rightarrow> Event" where
  "new_event typ probeID actor summary =
     \<lparr>ev_ID = [], ev_Timestamp = zero_time, ev_Type = typ, ev_ProbeID = probeID, ev_Actor = actor,
      ev_Summary = summary, ev_WorkspaceID = [], ev_Detail = JNull, ev_Before = JNull, ev_After = JNull,
      ev_PrevHash = [], ev_EntryHash = []\<rparr>"

definition log_Emit :: "string \<Rightarrow> time \<Rightarrow> EventType \<Rightarrow> string \<Rightarrow> string \<Rightarrow> string \<Rightarrow> Log \<Rightarrow> Log" where
  "log_Emit uuid now typ probeID actor summary = log_Record uuid now (new_event typ probeID actor summary)"

record Filter =
  fl_ProbeID :: string
  fl_Type :: EventType
  fl_Since :: time
  fl_Until :: time
  fl_WorkspaceID :: string
  fl_Cursor :: string
  fl_Limit :: int

definition limit_only :: "int \<Rightarrow> Filter" where
  "limit_only n =
     \<lparr>fl_ProbeID = [], fl_Type = [], fl_Since = zero_time, fl_Until = zero_time, fl_WorkspaceID = [],
      fl_Cursor = [], fl_Limit = n\<rparr>"

definition log_skips :: "Filter \<Rightarrow> Event \<Rightarrow> bool" where
  "log_skips f evt \<longleftrightarrow>
     fl_WorkspaceID f \<noteq> [] \<and> ev_WorkspaceID evt \<noteq> fl_WorkspaceID f \<or>
     fl_ProbeID f \<noteq> [] \<and> ev_ProbeID evt \<noteq> fl_ProbeID f \<or>
     fl_Type f \<noteq> [] \<and> ev_Type evt \<noteq> fl_Type f \<or>
     fl_Since f \<noteq> zero_time \<and> ev_Timestamp evt < fl_Since f \<or>
     fl_Until f \<noteq> zero_time \<and> ev_Timestamp evt > fl_Until f"

fun query_loop :: "Filter \<Rightarrow> Event list \<Rightarrow> Event list \<Rightarrow> Event list" where
  "query_loop f result [] = result"
| "query_loop f result (evt # evts) =
     (if log_skips f evt then query_loop f result evts
      else
        let result' = result @ [evt]
        in if fl_Limit f > 0 \<and> int (length result') \<ge> fl_Limit f then result'
           else query_loop f result' evts)"

definition log_Query :: "Filter \<Rightarrow> Log \<Rightarrow> Event list" where
  "log_Query f l = query_loop f [] (rev (lg_events l))"

definition log_Recent :: "int \<Rightarrow> Log \<Rightarrow> Event list" where
  "log_Recent n = log_Query (limit_only n)"

definition log_Count :: "Log \<Rightarrow> nat" where
  "log_Count l = length (lg_events l)"

section \<open>The chain\<close>

definition GenesisHash :: string where "GenesisHash = replicate 64 (CHR ''0'')"

datatype chain_error = ChainKeyRequired | ChainKeyNotHex | ChainKeyTooShort

definition DecodeChainKey :: "string \<Rightarrow> chain_error + string" where
  "DecodeChainKey raw =
     (let r = trim_space raw
      in if r = [] then Err ChainKeyRequired
         else case hex_DecodeString r of
                None \<Rightarrow> Err ChainKeyNotHex
              | Some decoded \<Rightarrow> if length decoded < 32 then Err ChainKeyTooShort else Ok decoded)"

definition normalizePrevHash :: "string \<Rightarrow> string" where
  "normalizePrevHash prevHash =
     (if trim_space prevHash = [] then GenesisHash else trim_space prevHash)"

definition canonicalEntryPayload :: "Event \<Rightarrow> string" where
  "canonicalEntryPayload evt =
     json_object
       [(''id'', json_string (trim_space (ev_ID evt))),
        (''timestamp'', json_string (if ev_Timestamp evt = zero_time then []
                                     else rfc3339_nano (ev_Timestamp evt))),
        (''type'', json_string (ev_Type evt)),
        (''probe_id'', json_string (trim_space (ev_ProbeID evt))),
        (''workspace_id'', json_string (trim_space (ev_WorkspaceID evt))),
        (''actor'', json_string (trim_space (ev_Actor evt))),
        (''summary'', json_string (ev_Summary evt)),
        (''detail'', Marshal (ev_Detail evt)),
        (''before'', Marshal (ev_Before evt)),
        (''after'', Marshal (ev_After evt))]"

definition ComputeEntryHash :: "string \<Rightarrow> Event \<Rightarrow> string \<Rightarrow> chain_error + string" where
  "ComputeEntryHash prevHash evt key =
     (if key = [] then Err ChainKeyRequired
      else Ok (hex_EncodeToString
             (hmac_sha256 key (normalizePrevHash prevHash @ [CHR 0x0A] @ canonicalEntryPayload evt))))"

section \<open>The store\<close>

record AuditStore =
  as_rows :: "Event list"
  as_log :: Log
  as_memoryLimit :: int
  as_chainMode :: bool
  as_chainKey :: string
  as_lastEntryHash :: string

text \<open>
  The row of an event and the event that is scanned from it. The detail columns hold JSON text, so
  what is read back is the value that \<^verbatim>\<open>Unmarshal\<close> makes of that text.
\<close>

definition event_row :: "Event \<Rightarrow> Event" where
  "event_row evt = evt\<lparr>ev_WorkspaceID := trim_space (ev_WorkspaceID evt)\<rparr>"

definition scanEvent :: "Event \<Rightarrow> Event" where
  "scanEvent row =
     row\<lparr>ev_Detail := reload (ev_Detail row), ev_Before := reload (ev_Before row),
         ev_After := reload (ev_After row)\<rparr>"

text \<open>\<^verbatim>\<open>INSERT OR IGNORE\<close>: a row whose id exists is not inserted.\<close>

definition audit_persist :: "Event \<Rightarrow> Event list \<Rightarrow> bool \<times> Event list" where
  "audit_persist evt rows =
     (if list_ex (\<lambda>r. ev_ID r = ev_ID evt) rows then (False, rows)
      else (True, rows @ [event_row evt]))"

text \<open>\<^verbatim>\<open>ORDER BY timestamp ASC, id ASC\<close>.\<close>

definition row_le :: "Event \<Rightarrow> Event \<Rightarrow> bool" where
  "row_le r r' \<longleftrightarrow>
     text_le (ev_Timestamp r) (ev_Timestamp r') \<and>
     (text_le (ev_Timestamp r') (ev_Timestamp r) \<longrightarrow> bytes_le (ev_ID r) (ev_ID r'))"

definition chain_order :: "Event list \<Rightarrow> Event list" where
  "chain_order rows = sort_by row_le rows"

definition latestPersistedEntryHash :: "Event list \<Rightarrow> string" where
  "latestPersistedEntryHash rows =
     (case rev (filter (\<lambda>r. ev_EntryHash r \<noteq> []) (chain_order rows)) of
        [] \<Rightarrow> [] | r # _ \<Rightarrow> ev_EntryHash r)"

definition row_matches :: "Filter \<Rightarrow> Event list \<Rightarrow> Event \<Rightarrow> bool" where
  "row_matches f rows r \<longleftrightarrow>
     (fl_WorkspaceID f = [] \<or> ev_WorkspaceID r = fl_WorkspaceID f) \<and>
     (fl_ProbeID f = [] \<or> ev_ProbeID r = fl_ProbeID f) \<and>
     (fl_Type f = [] \<or> ev_Type r = fl_Type f) \<and>
     (fl_Since f = zero_time \<or> text_le (fl_Since f) (ev_Timestamp r)) \<and>
     (fl_Until f = zero_time \<or> text_le (ev_Timestamp r) (fl_Until f)) \<and>
     (fl_Cursor f = [] \<or>
      (case tbl_first (\<lambda>c. ev_ID c = fl_Cursor f) rows of
         None \<Rightarrow> False
       | Some c \<Rightarrow> row_le r c \<and> \<not> row_le c r))"

definition QueryPersisted :: "Filter \<Rightarrow> Event list \<Rightarrow> Event list" where
  "QueryPersisted f rows =
     (let found = rev (chain_order (filter (row_matches f rows) rows))
      in map scanEvent (if fl_Limit f > 0 then take (nat (fl_Limit f)) found else found))"

text \<open>Every stored row has an id and a time, so the log takes the loaded events as they are.\<close>

definition loadRecent :: "int \<Rightarrow> AuditStore \<Rightarrow> AuditStore" where
  "loadRecent limit s =
     s\<lparr>as_log := fold log_append (rev (QueryPersisted (limit_only limit) (as_rows s)))
                  (NewLog (as_memoryLimit s))\<rparr>"

record StoreOptions =
  so_ChainMode :: bool
  so_ChainKey :: string

text \<open>\<open>generated\<close> is the key that \<^verbatim>\<open>GenerateChainKeyHex\<close> returns.\<close>

definition NewStoreWithOptions ::
  "string \<Rightarrow> Event list \<Rightarrow> int \<Rightarrow> StoreOptions \<Rightarrow> chain_error + AuditStore" where
  "NewStoreWithOptions generated rows memoryLimit opts =
     (let s = \<lparr>as_rows = rows, as_log = NewLog memoryLimit, as_memoryLimit = memoryLimit,
               as_chainMode = so_ChainMode opts, as_chainKey = [], as_lastEntryHash = []\<rparr>;
          raw = (if trim_space (so_ChainKey opts) = [] then generated else trim_space (so_ChainKey opts))
      in if \<not> so_ChainMode opts then Ok (loadRecent memoryLimit s)
         else case DecodeChainKey raw of
                Err e \<Rightarrow> Err e
              | Ok key \<Rightarrow>
                  Ok ((loadRecent memoryLimit (s\<lparr>as_chainKey := key\<rparr>))
                      \<lparr>as_lastEntryHash := latestPersistedEntryHash rows\<rparr>))"

definition NewAuditStore :: "Event list \<Rightarrow> int \<Rightarrow> chain_error + AuditStore" where
  "NewAuditStore rows memoryLimit =
     NewStoreWithOptions [] rows memoryLimit \<lparr>so_ChainMode = False, so_ChainKey = []\<rparr>"

definition chained_event :: "AuditStore \<Rightarrow> Event \<Rightarrow> Event" where
  "chained_event s evt =
     evt\<lparr>ev_PrevHash := (if as_lastEntryHash s = [] then GenesisHash else as_lastEntryHash s)\<rparr>"

definition audit_Record :: "string \<Rightarrow> time \<Rightarrow> Event \<Rightarrow> AuditStore \<Rightarrow> AuditStore" where
  "audit_Record uuid now evt0 s =
     (let evt = enrichEvent uuid now evt0
      in if as_chainMode s
         then
           let evt1 = chained_event s evt
           in (case ComputeEntryHash (ev_PrevHash evt1) evt1 (as_chainKey s) of
                 Ok h \<Rightarrow>
                   let evt2 = evt1\<lparr>ev_EntryHash := h\<rparr>;
                       (inserted, rows) = audit_persist evt2 (as_rows s)
                   in s\<lparr>as_rows := rows,
                        as_lastEntryHash := (if inserted then h else as_lastEntryHash s),
                        as_log := log_Record uuid now evt2 (as_log s)\<rparr>
               | Err _ \<Rightarrow>
                   s\<lparr>as_rows := snd (audit_persist evt1 (as_rows s)),
                     as_log := log_Record uuid now evt1 (as_log s)\<rparr>)
         else s\<lparr>as_rows := snd (audit_persist evt (as_rows s)),
                as_log := log_Record uuid now evt (as_log s)\<rparr>)"

definition audit_Emit ::
  "string \<Rightarrow> time \<Rightarrow> EventType \<Rightarrow> string \<Rightarrow> string \<Rightarrow> string \<Rightarrow> AuditStore \<Rightarrow> AuditStore" where
  "audit_Emit uuid now typ probeID actor summary =
     audit_Record uuid now (new_event typ probeID actor summary)"

definition audit_Query :: "Filter \<Rightarrow> AuditStore \<Rightarrow> Event list" where
  "audit_Query f s = log_Query f (as_log s)"

definition audit_Recent :: "int \<Rightarrow> AuditStore \<Rightarrow> Event list" where
  "audit_Recent n s = log_Recent n (as_log s)"

definition audit_Count :: "AuditStore \<Rightarrow> nat" where
  "audit_Count s = length (as_rows s)"

record VerifyResult =
  vr_Valid :: bool
  vr_EntriesChecked :: nat
  vr_FirstInvalidAt :: "time option"

text \<open>The loop of \<^verbatim>\<open>VerifyChain\<close> over the ordered rows.\<close>

fun verify_loop :: "string \<Rightarrow> bool \<Rightarrow> string \<Rightarrow> nat \<Rightarrow> Event list \<Rightarrow> chain_error + VerifyResult" where
  "verify_loop key signedStarted expectedPrev checked [] =
     Ok \<lparr>vr_Valid = True, vr_EntriesChecked = checked, vr_FirstInvalidAt = None\<rparr>"
| "verify_loop key signedStarted expectedPrev checked (row # rows) =
     (let evt = scanEvent row; prev = ev_PrevHash evt; entry = ev_EntryHash evt;
          bad = (\<lambda>n. \<lparr>vr_Valid = False, vr_EntriesChecked = n, vr_FirstInvalidAt = Some (ev_Timestamp evt)\<rparr>);
          expected = (if signedStarted then expectedPrev else GenesisHash)
      in if prev = [] \<and> entry = []
         then (if signedStarted then Ok (bad checked)
               else verify_loop key signedStarted expectedPrev checked rows)
         else if prev = [] \<or> entry = [] then Ok (bad checked)
         else if prev \<noteq> expected then Ok (bad checked)
         else case ComputeEntryHash prev evt key of
                Err e \<Rightarrow> Err e
              | Ok h \<Rightarrow>
                  if entry \<noteq> h then Ok (bad (Suc checked))
                  else verify_loop key True entry (Suc checked) rows)"

definition VerifyChain :: "AuditStore \<Rightarrow> chain_error + VerifyResult" where
  "VerifyChain s =
     (if \<not> as_chainMode s then Ok \<lparr>vr_Valid = True, vr_EntriesChecked = 0, vr_FirstInvalidAt = None\<rparr>
      else verify_loop (as_chainKey s) False GenesisHash 0 (chain_order (as_rows s)))"

text \<open>\<open>None\<close> is the error of a negative duration.\<close>

definition Purge :: "time \<Rightarrow> duration \<Rightarrow> AuditStore \<Rightarrow> nat option \<times> AuditStore" where
  "Purge now olderThan s =
     (if olderThan < 0 then (None, s)
      else
        let old = (\<lambda>r. \<not> text_le (now - olderThan) (ev_Timestamp r));
            deleted = tbl_count old (as_rows s);
            s1 = s\<lparr>as_rows := tbl_delete old (as_rows s)\<rparr>;
            s2 = loadRecent (as_memoryLimit s1) s1
        in if deleted = 0 then (Some 0, s1)
           else (Some deleted,
                 if as_chainMode s
                 then s2\<lparr>as_lastEntryHash := latestPersistedEntryHash (as_rows s2)\<rparr> else s2))"

text \<open>
  A chain on its own: each row carries the hash of the row before it, and its own hash is the one
  computed from its fields. \<open>end_hash\<close> is the hash the next row has to carry.
\<close>

definition unsigned :: "Event \<Rightarrow> bool" where
  "unsigned r \<longleftrightarrow> ev_PrevHash r = [] \<and> ev_EntryHash r = []"

fun chained :: "string \<Rightarrow> string \<Rightarrow> Event list \<Rightarrow> bool" where
  "chained key prev [] \<longleftrightarrow> True"
| "chained key prev (r # rs) \<longleftrightarrow>
     ev_PrevHash r = prev \<and> ComputeEntryHash prev (scanEvent r) key = Ok (ev_EntryHash r) \<and>
     chained key (ev_EntryHash r) rs"

definition end_hash :: "string \<Rightarrow> Event list \<Rightarrow> string" where
  "end_hash prev rs = (if rs = [] then prev else ev_EntryHash (last rs))"

definition verdict :: "chain_error + VerifyResult \<Rightarrow> bool" where
  "verdict r = (case r of Ok v \<Rightarrow> vr_Valid v | Err _ \<Rightarrow> False)"

definition chain_valid :: "AuditStore \<Rightarrow> bool" where
  "chain_valid s \<longleftrightarrow> verdict (VerifyChain s)"

text \<open>The chained rows of a table, in the order of verification.\<close>

definition signed_rows :: "AuditStore \<Rightarrow> Event list" where
  "signed_rows s = dropWhile unsigned (chain_order (as_rows s))"

text \<open>A key under which some message has the code of the anchor.\<close>

definition mac_zero :: "string \<Rightarrow> bool" where
  "mac_zero key \<longleftrightarrow> (\<exists>m. hex_EncodeToString (hmac_sha256 key m) = GenesisHash)"

definition audit_run :: "(string \<times> time \<times> Event) list \<Rightarrow> AuditStore \<Rightarrow> AuditStore" where
  "audit_run calls s = fold (\<lambda>(uuid, now, evt). audit_Record uuid now evt) calls s"

definition enriched :: "(string \<times> time \<times> Event) list \<Rightarrow> Event list" where
  "enriched calls = map (\<lambda>(uuid, now, evt). enrichEvent uuid now evt) calls"

definition details_valid :: "Event \<Rightarrow> bool" where
  "details_valid e \<longleftrightarrow> json_valid (ev_Detail e) \<and> json_valid (ev_Before e) \<and> json_valid (ev_After e)"

definition demo_store :: AuditStore where
  "demo_store = \<lparr>as_rows = [], as_log = NewLog 10, as_memoryLimit = 10, as_chainMode = True,
     as_chainKey = replicate 32 (CHR 0xAA), as_lastEntryHash = []\<rparr>"

definition demo_options :: StoreOptions where
  "demo_options = \<lparr>so_ChainMode = True, so_ChainKey = replicate 64 (CHR ''a'')\<rparr>"

definition demo_event :: "string \<Rightarrow> time \<Rightarrow> Event" where
  "demo_event k t = (new_event ''command.sent'' ''p1'' ''api'' ''ls'')\<lparr>ev_ID := k, ev_Timestamp := t\<rparr>"

text \<open>The row that a chained store adds.\<close>

definition chain_row :: "AuditStore \<Rightarrow> Event \<Rightarrow> Event" where
  "chain_row s e =
     (let p = (if as_lastEntryHash s = [] then GenesisHash else as_lastEntryHash s)
      in event_row (e\<lparr>ev_PrevHash := p, ev_EntryHash := hex_EncodeToString
           (hmac_sha256 (as_chainKey s) (normalizePrevHash p @ [CHR 0x0A] @ canonicalEntryPayload e))\<rparr>))"

text \<open>What holds of a store whose events were recorded in the order of their times.\<close>

definition chain_ok :: "Event list \<Rightarrow> AuditStore \<Rightarrow> bool" where
  "chain_ok es s \<longleftrightarrow>
     as_chainMode s \<and> as_chainKey s \<noteq> [] \<and> sorted_wrt row_le (as_rows s) \<and>
     chained (as_chainKey s) GenesisHash (as_rows s) \<and>
     (if as_rows s = [] then as_lastEntryHash s = [] else as_lastEntryHash s = ev_EntryHash (last (as_rows s))) \<and>
     ev_ID ` set (as_rows s) = ev_ID ` set es \<and>
     (\<forall>r \<in> set (as_rows s). \<exists>e \<in> set es. ev_ID e = ev_ID r \<and> ev_Timestamp e = ev_Timestamp r)"

section \<open>Lemmas\<close>

subsection \<open>The order of the rows\<close>

lemma row_le_total: "row_le r r' \<or> row_le r' r"
  using text_le_total bytes_le_total by (auto simp: row_le_def)

lemma row_le_trans: "row_le a b \<Longrightarrow> row_le b c \<Longrightarrow> row_le a c"
  unfolding row_le_def using text_le_trans bytes_le_trans by blast

lemma row_le_refl [simp]: "row_le r r"
  by (simp add: row_le_def)

lemma row_le_key:
  "ev_Timestamp a = ev_Timestamp a' \<Longrightarrow> ev_ID a = ev_ID a' \<Longrightarrow>
   ev_Timestamp b = ev_Timestamp b' \<Longrightarrow> ev_ID b = ev_ID b' \<Longrightarrow> row_le a b = row_le a' b'"
  by (simp add: row_le_def)

lemma sort_by_sorted: "sorted_wrt le xs \<Longrightarrow> sort_by le xs = xs"
proof (induction xs)
  case (Cons x xs)
  then show ?case by (cases xs) (simp_all add: sort_by_def)
qed (simp add: sort_by_def)

lemma chain_order_filter: "chain_order (filter P rows) = filter P (chain_order rows)"
proof (induction rows)
  case (Cons r rows)
  have "sorted_wrt row_le (sort_by row_le rows)"
    using row_le_total row_le_trans by (intro sorted_sort_by) blast+
  from filter_insert_by [where P = P and x = r, OF this row_le_trans] Cons
  show ?case by (simp add: chain_order_def sort_by_def)
qed (simp add: chain_order_def sort_by_def)

lemma sorted_chain_order: "sorted_wrt row_le (chain_order rows)"
  unfolding chain_order_def using row_le_total row_le_trans by (intro sorted_sort_by) blast+

lemma set_chain_order [simp]: "set (chain_order rows) = set rows"
  by (simp add: chain_order_def)

subsection \<open>The loop of the verification\<close>

lemma hex_not_Nil: "length s = 64 \<Longrightarrow> s \<noteq> []"
  by auto

lemma ComputeEntryHash_length: "ComputeEntryHash p e key = Ok h \<Longrightarrow> length h = 64"
  by (auto simp: ComputeEntryHash_def split: if_splits)

lemma length_Genesis [simp]: "length GenesisHash = 64" and Genesis_not_Nil [simp]: "GenesisHash \<noteq> []"
  by (simp_all add: GenesisHash_def)

lemma scanEvent_fields [simp]:
  "ev_PrevHash (scanEvent r) = ev_PrevHash r" "ev_EntryHash (scanEvent r) = ev_EntryHash r"
  "ev_ID (scanEvent r) = ev_ID r" "ev_Timestamp (scanEvent r) = ev_Timestamp r"
  by (simp_all add: scanEvent_def)

lemma verdict_simps [simp]: "verdict (Ok v) = vr_Valid v" "\<not> verdict (Err e)"
  by (simp_all add: verdict_def)

lemma verify_started:
  "ep \<noteq> [] \<Longrightarrow> verdict (verify_loop key True ep n rows) \<longleftrightarrow> chained key ep rows"
proof (induction rows arbitrary: ep n)
  case (Cons r rows)
  show ?case
  proof (cases "ComputeEntryHash ep (scanEvent r) key")
    case (Inl e)
    with Cons.prems show ?thesis by (auto simp: Let_def)
  next
    case (Inr h)
    have h: "h \<noteq> []" using ComputeEntryHash_length [OF Inr] by auto
    with Inr Cons.prems Cons.IH [OF h, of "Suc n"] show ?thesis by (auto simp: Let_def)
  qed
qed simp

lemma verify_fresh:
  "verdict (verify_loop key False ep n rows) \<longleftrightarrow> chained key GenesisHash (dropWhile unsigned rows)"
proof (induction rows arbitrary: n)
  case (Cons r rows)
  show ?case
  proof (cases "unsigned r")
    case True
    with Cons show ?thesis by (simp add: unsigned_def)
  next
    case False
    show ?thesis
    proof (cases "ComputeEntryHash GenesisHash (scanEvent r) key")
      case (Inl e)
      with False show ?thesis by (auto simp: Let_def unsigned_def)
    next
      case (Inr h)
      have h: "h \<noteq> []" using ComputeEntryHash_length [OF Inr] by auto
      with Inr False verify_started [OF h, of key "Suc n" rows]
      show ?thesis by (auto simp: Let_def unsigned_def)
    qed
  qed
qed simp

lemma chain_valid_iff: "chain_valid s \<longleftrightarrow> \<not> as_chainMode s \<or> chained (as_chainKey s) GenesisHash (signed_rows s)"
  using verify_fresh [of "as_chainKey s" GenesisHash 0 "chain_order (as_rows s)"]
  by (simp add: chain_valid_def VerifyChain_def signed_rows_def)

lemma verify_started_count:
  "ep \<noteq> [] \<Longrightarrow> chained key ep rows \<Longrightarrow> verify_loop key True ep n rows =
    Ok \<lparr>vr_Valid = True, vr_EntriesChecked = n + length rows, vr_FirstInvalidAt = None\<rparr>"
proof (induction rows arbitrary: ep n)
  case (Cons r rows)
  have h: "ev_EntryHash r \<noteq> []" using Cons.prems(2) ComputeEntryHash_length by fastforce
  from Cons.prems Cons.IH [OF h, of "Suc n"] h show ?case by (simp add: Let_def)
qed simp

lemma verify_all_signed:
  assumes "chained key GenesisHash rows"
  shows "verify_loop key False ep 0 rows =
    Ok \<lparr>vr_Valid = True, vr_EntriesChecked = length rows, vr_FirstInvalidAt = None\<rparr>"
proof (cases rows)
  case (Cons r rs)
  have h: "ev_EntryHash r \<noteq> []" using assms Cons ComputeEntryHash_length by fastforce
  from assms Cons verify_started_count [OF h, of key rs 1] h show ?thesis by (simp add: Let_def)
qed simp

lemma chained_snoc:
  "chained key p (rs @ [r]) \<longleftrightarrow>
   chained key p rs \<and> ev_PrevHash r = end_hash p rs \<and>
   ComputeEntryHash (end_hash p rs) (scanEvent r) key = Ok (ev_EntryHash r)"
  by (induction rs arbitrary: p) (auto simp: end_hash_def)

lemma chained_append:
  "chained key p (rs @ ss) \<longleftrightarrow> chained key p rs \<and> chained key (end_hash p rs) ss"
  by (induction rs arbitrary: p) (auto simp: end_hash_def)


subsection \<open>Hashes as text\<close>

lemma hex_chars: "c \<in> set (hex_EncodeToString s) \<Longrightarrow> \<exists>n < 16. c = hex_digit n"
proof (induction s)
  case (Cons d s)
  have "(of_char d :: nat) div 16 < 16" by (rule less_mult_imp_div_less) simp
  moreover have "(of_char d :: nat) mod 16 < 16" by simp
  moreover have "c = hex_digit (of_char d div 16) \<or> c = hex_digit (of_char d mod 16) \<or> c \<in> set (hex_EncodeToString s)"
    using Cons.prems by (auto simp: hex_EncodeToString_def hex_byte_def)
  ultimately show ?case using Cons.IH by blast
qed (simp add: hex_EncodeToString_def)

lemma hex_digit_word: "n < 16 \<Longrightarrow> word_chars [hex_digit n]"
proof -
  assume "n < 16"
  moreover have "list_all (\<lambda>n. word_chars [hex_digit n]) [0..<16]" by code_simp
  ultimately show ?thesis by (simp add: list_all_iff)
qed

lemma hex_word: "word_chars (hex_EncodeToString s)"
proof -
  have "word_chars [c]" if "c \<in> set (hex_EncodeToString s)" for c
    using hex_chars [OF that] hex_digit_word by blast
  then show ?thesis by (auto simp: word_chars_def list_all_iff)
qed

lemma trim_hex [simp]: "trim_space (hex_EncodeToString s) = hex_EncodeToString s"
proof (cases "hex_EncodeToString s = []")
  case False
  from trim_space_word [OF hex_word False, of "[]"] show ?thesis using trim_right_prefix [of "[]"] by simp
qed simp

lemma normalize_hash:
  assumes "p = GenesisHash \<or> (\<exists>m. p = hex_EncodeToString m \<and> length m = 32)"
  shows "normalizePrevHash p = p"
proof -
  have "trim_space GenesisHash = GenesisHash" by code_simp
  moreover have "length m = 32 \<Longrightarrow> hex_EncodeToString m \<noteq> []" for m
    using length_hex [of m] by (metis list.size(3) mult_eq_0_iff zero_neq_numeral)
  ultimately show ?thesis using assms by (auto simp: normalizePrevHash_def)
qed

lemma ComputeEntryHash_Ok:
  "ComputeEntryHash p e key = Ok h \<longleftrightarrow>
   key \<noteq> [] \<and> h = hex_EncodeToString
     (hmac_sha256 key (normalizePrevHash p @ [CHR 0x0A] @ canonicalEntryPayload e))"
  by (auto simp: ComputeEntryHash_def)

lemma end_hash_text:
  "chained key GenesisHash rs \<Longrightarrow>
   end_hash GenesisHash rs = GenesisHash \<or>
   (\<exists>m. end_hash GenesisHash rs = hex_EncodeToString m \<and> length m = 32)"
proof (induction rs rule: rev_induct)
  case (snoc r rs)
  then have "ev_EntryHash r = hex_EncodeToString (hmac_sha256 key
      (normalizePrevHash (end_hash GenesisHash rs) @ [CHR 0x0A] @ canonicalEntryPayload (scanEvent r)))"
    by (simp add: chained_snoc ComputeEntryHash_Ok)
  then show ?case by (auto simp: end_hash_def)
qed (simp add: end_hash_def)

lemma end_hash_length: "chained key GenesisHash rs \<Longrightarrow> length (end_hash GenesisHash rs) = 64"
  using end_hash_text by fastforce

subsection \<open>Two chains with the same end\<close>

lemma chained_last:
  assumes "chained key GenesisHash (rs @ [r])"
  shows "ev_EntryHash r = hex_EncodeToString (hmac_sha256 key
    (end_hash GenesisHash rs @ [CHR 0x0A] @ canonicalEntryPayload (scanEvent r)))"
  using assms normalize_hash [OF end_hash_text, of key rs]
  by (simp add: chained_snoc ComputeEntryHash_Ok)

lemma end_hash_snoc [simp]: "end_hash p (rs @ [r]) = ev_EntryHash r"
  by (simp add: end_hash_def)

lemma chained_end_Genesis:
  assumes "chained key GenesisHash rs" "end_hash GenesisHash rs = GenesisHash" "rs \<noteq> []"
  shows "mac_zero key"
proof -
  obtain xs r where rs: "rs = xs @ [r]" using assms(3) by (metis rev_exhaust)
  have "hex_EncodeToString (hmac_sha256 key
      (end_hash GenesisHash xs @ [CHR 0x0A] @ canonicalEntryPayload (scanEvent r))) = GenesisHash"
    using chained_last [of key xs r] assms(1,2) rs by simp
  then show ?thesis by (auto simp: mac_zero_def)
qed

lemma chains_agree:
  assumes "chained key GenesisHash rs" "chained key GenesisHash ss"
    and "end_hash GenesisHash rs = end_hash GenesisHash ss"
    and "\<not> mac_collision key" "\<not> mac_zero key"
  shows "map (\<lambda>r. canonicalEntryPayload (scanEvent r)) rs = map (\<lambda>r. canonicalEntryPayload (scanEvent r)) ss"
  using assms(1-3)
proof (induction rs arbitrary: ss rule: rev_induct)
  case Nil
  then have "end_hash GenesisHash ss = GenesisHash" by (simp add: end_hash_def)
  then have "ss = []" using chained_end_Genesis [of key ss] assms(5) Nil by blast
  then show ?case by simp
next
  case (snoc r rs)
  note IH = snoc.IH and chr = snoc.prems(1) and chs = snoc.prems(2) and same = snoc.prems(3)
  show ?case
  proof (cases ss rule: rev_exhaust)
    case Nil
    then have "end_hash GenesisHash (rs @ [r]) = GenesisHash" using same by (simp add: end_hash_def)
    then show ?thesis using chained_end_Genesis [OF chr] assms(5) by blast
  next
    case (snoc ts t)
    let ?m = "\<lambda>xs x. end_hash GenesisHash xs @ [CHR 0x0A] @ canonicalEntryPayload (scanEvent x)"
    have ct: "chained key GenesisHash (ts @ [t])" using chs snoc by simp
    have "hmac_sha256 key (?m rs r) = hmac_sha256 key (?m ts t)"
      using chained_last [OF chr] chained_last [OF ct] same snoc by simp
    then have "?m rs r = ?m ts t" using assms(4) by (auto simp: mac_collision_def)
    moreover have cr: "chained key GenesisHash rs" and cs: "chained key GenesisHash ts"
      using chr ct by (simp_all add: chained_snoc)
    ultimately have "end_hash GenesisHash rs = end_hash GenesisHash ts"
      "canonicalEntryPayload (scanEvent r) = canonicalEntryPayload (scanEvent t)"
      using end_hash_length [OF cr] end_hash_length [OF cs] by auto
    then show ?thesis using snoc IH [OF cr cs] by simp
  qed
qed


subsection \<open>Recording\<close>

lemma payload_of_row:
  assumes "details_valid e"
  shows "canonicalEntryPayload (scanEvent (event_row (e\<lparr>ev_PrevHash := p, ev_EntryHash := h\<rparr>))) =
    canonicalEntryPayload e"
  using assms by (simp add: canonicalEntryPayload_def scanEvent_def event_row_def details_valid_def reload_valid)

lemma payload_no_hash:
  "canonicalEntryPayload (e\<lparr>ev_PrevHash := p, ev_EntryHash := h\<rparr>) = canonicalEntryPayload e"
  "canonicalEntryPayload (e\<lparr>ev_PrevHash := p\<rparr>) = canonicalEntryPayload e"
  by (simp_all add: canonicalEntryPayload_def)

lemma chain_row_fields [simp]:
  "ev_ID (chain_row s e) = ev_ID e" "ev_Timestamp (chain_row s e) = ev_Timestamp e"
  "ev_PrevHash (chain_row s e) = (if as_lastEntryHash s = [] then GenesisHash else as_lastEntryHash s)"
  by (simp_all add: chain_row_def event_row_def Let_def)

lemma chain_row_hash:
  "ev_EntryHash (chain_row s e) = hex_EncodeToString (hmac_sha256 (as_chainKey s)
     (normalizePrevHash (ev_PrevHash (chain_row s e)) @ [CHR 0x0A] @ canonicalEntryPayload e))"
  by (simp add: chain_row_def event_row_def Let_def)

lemma record_chained:
  fixes uuid now evt
  assumes "as_chainMode s" "as_chainKey s \<noteq> []"
  defines "e \<equiv> enrichEvent uuid now evt"
  shows "as_rows (audit_Record uuid now evt s) =
      (if list_ex (\<lambda>r. ev_ID r = ev_ID e) (as_rows s) then as_rows s else as_rows s @ [chain_row s e])"
    "as_lastEntryHash (audit_Record uuid now evt s) =
      (if list_ex (\<lambda>r. ev_ID r = ev_ID e) (as_rows s) then as_lastEntryHash s
       else ev_EntryHash (chain_row s e))"
    "as_chainMode (audit_Record uuid now evt s)" "as_chainKey (audit_Record uuid now evt s) = as_chainKey s"
  using assms(1,2) unfolding audit_Record_def e_def [symmetric]
  by (simp_all add: audit_persist_def chained_event_def ComputeEntryHash_def chain_row_def
      event_row_def payload_no_hash Let_def)

lemma chain_ok_record:
  assumes ok: "chain_ok es s" and later: "\<And>e'. e' \<in> set es \<Longrightarrow> row_le e' (enrichEvent uuid now evt)"
    and details: "details_valid (enrichEvent uuid now evt)"
  shows "chain_ok (es @ [enrichEvent uuid now evt]) (audit_Record uuid now evt s)"
proof -
  define e where "e = enrichEvent uuid now evt"
  define r where "r = chain_row s e"
  define s' where "s' = audit_Record uuid now evt s"
  have mode: "as_chainMode s" "as_chainKey s \<noteq> []" and sorted: "sorted_wrt row_le (as_rows s)"
    and ch: "chained (as_chainKey s) GenesisHash (as_rows s)"
    and ids: "ev_ID ` set (as_rows s) = ev_ID ` set es"
    and src: "\<And>x. x \<in> set (as_rows s) \<Longrightarrow> \<exists>e \<in> set es. ev_ID e = ev_ID x \<and> ev_Timestamp e = ev_Timestamp x"
    and last: "if as_rows s = [] then as_lastEntryHash s = [] else as_lastEntryHash s = ev_EntryHash (last (as_rows s))"
    using ok by (simp_all add: chain_ok_def)
  note rec = record_chained [OF mode, of uuid now evt, folded e_def r_def s'_def]
  show ?thesis
  proof (cases "list_ex (\<lambda>r. ev_ID r = ev_ID e) (as_rows s)")
    case True
    then obtain x where "x \<in> set (as_rows s)" "ev_ID x = ev_ID e" by (auto simp: list_ex_iff)
    then have "ev_ID e \<in> ev_ID ` set (as_rows s)" using imageI [of x "set (as_rows s)" ev_ID] by simp
    then have "ev_ID ` set (as_rows s) = ev_ID ` set (es @ [e])" using ids by auto
    moreover have "\<forall>x \<in> set (as_rows s). \<exists>e' \<in> set (es @ [e]). ev_ID e' = ev_ID x \<and> ev_Timestamp e' = ev_Timestamp x"
      using src by fastforce
    ultimately show ?thesis
      using True rec mode sorted ch last
      unfolding chain_ok_def e_def [symmetric] s'_def [symmetric] by simp
  next
    case False
    have prev: "ev_PrevHash r = end_hash GenesisHash (as_rows s)"
      using last end_hash_length [OF ch] unfolding r_def
      by (cases "as_rows s = []") (auto simp: end_hash_def)
    have "canonicalEntryPayload (scanEvent r) = canonicalEntryPayload e"
      using payload_of_row details by (simp add: r_def chain_row_def Let_def e_def)
    then have "ComputeEntryHash (end_hash GenesisHash (as_rows s)) (scanEvent r) (as_chainKey s) = Ok (ev_EntryHash r)"
      using chain_row_hash [of s e] prev mode by (simp add: ComputeEntryHash_Ok r_def)
    then have "chained (as_chainKey s) GenesisHash (as_rows s @ [r])"
      using ch prev by (simp add: chained_snoc)
    moreover have "row_le x r" if x: "x \<in> set (as_rows s)" for x
    proof -
      obtain e' where "e' \<in> set es" "ev_ID e' = ev_ID x" "ev_Timestamp e' = ev_Timestamp x"
        using src [OF x] by blast
      then show ?thesis using later [of e'] row_le_key [of e' x e r] by (simp add: e_def r_def)
    qed
    then have "sorted_wrt row_le (as_rows s @ [r])" using sorted by (simp add: sorted_wrt_append)
    moreover have "ev_ID ` set (as_rows s @ [r]) = ev_ID ` set (es @ [e])" using ids by (simp add: r_def)
    moreover have "\<forall>x \<in> set (as_rows s @ [r]). \<exists>e' \<in> set (es @ [e]). ev_ID e' = ev_ID x \<and> ev_Timestamp e' = ev_Timestamp x"
      using src by (fastforce simp: r_def)
    ultimately show ?thesis
      using False rec mode unfolding chain_ok_def e_def [symmetric] s'_def [symmetric] by simp
  qed
qed

lemma NewStore_chain_ok:
  assumes "NewStoreWithOptions generated [] limit opts = Ok s" "so_ChainMode opts"
  shows "chain_ok [] s"
proof -
  obtain key where k: "DecodeChainKey (if trim_space (so_ChainKey opts) = [] then generated
      else trim_space (so_ChainKey opts)) = Ok key"
    and s: "as_chainMode s" "as_rows s = []" "as_chainKey s = key" "as_lastEntryHash s = []"
    using assms by (auto simp: NewStoreWithOptions_def loadRecent_def latestPersistedEntryHash_def
        chain_order_def sort_by_def Let_def split: sum.splits)
  have "key \<noteq> []" using k by (auto simp: DecodeChainKey_def Let_def split: if_splits option.splits)
  then show ?thesis using s by (simp add: chain_ok_def)
qed

lemma run_chain_ok:
  assumes "chain_ok [] s0" and "sorted_wrt row_le (enriched calls)" and "list_all details_valid (enriched calls)"
  shows "chain_ok (enriched calls) (audit_run calls s0)"
  using assms(2,3)
proof (induction calls rule: rev_induct)
  case Nil
  then show ?case using assms(1) by (simp add: enriched_def audit_run_def)
next
  case (snoc call calls)
  obtain uuid now evt where call: "call = (uuid, now, evt)" by (cases call)
  have "chain_ok (enriched calls) (audit_run calls s0)"
    using snoc by (simp add: enriched_def sorted_wrt_append)
  moreover have "row_le e' (enrichEvent uuid now evt)" if "e' \<in> set (enriched calls)" for e'
    using snoc.prems(1) that by (auto simp: call enriched_def sorted_wrt_append)
  moreover have "details_valid (enrichEvent uuid now evt)"
    using snoc.prems(2) by (simp add: call enriched_def)
  ultimately have "chain_ok (enriched calls @ [enrichEvent uuid now evt])
      (audit_Record uuid now evt (audit_run calls s0))" by (rule chain_ok_record)
  then show ?case by (simp add: call enriched_def audit_run_def)
qed

lemma chain_ok_order: "chain_ok es s \<Longrightarrow> chain_order (as_rows s) = as_rows s"
  by (simp add: chain_ok_def chain_order_def sort_by_sorted)

lemma chain_ok_valid:
  assumes "chain_ok es s"
  shows "VerifyChain s = Ok \<lparr>vr_Valid = True, vr_EntriesChecked = length (as_rows s), vr_FirstInvalidAt = None\<rparr>"
  using assms chain_ok_order [OF assms]
  by (simp add: VerifyChain_def chain_ok_def verify_all_signed)

lemma chained_signed: "chained key p rs \<Longrightarrow> r \<in> set rs \<Longrightarrow> \<not> unsigned r"
  by (induction key p rs rule: chained.induct) (auto simp: unsigned_def dest: ComputeEntryHash_length)

lemma signed_rows_all:
  "list_all (\<lambda>r. \<not> unsigned r) (as_rows s) \<Longrightarrow> signed_rows s = chain_order (as_rows s)"
  using dropWhile_eq_self_iff [of unsigned "chain_order (as_rows s)"] set_chain_order [of "as_rows s"]
  unfolding signed_rows_def list_all_iff by (metis hd_in_set)

subsection \<open>Purged and reordered chains\<close>

lemma filter_upward:
  assumes "sorted_wrt le xs" and "\<And>a b. le a b \<Longrightarrow> P a \<Longrightarrow> P b"
  shows "filter P xs = dropWhile (\<lambda>x. \<not> P x) xs \<and> filter (\<lambda>x. \<not> P x) xs = takeWhile (\<lambda>x. \<not> P x) xs"
  using assms(1)
proof (induction xs)
  case (Cons x xs)
  show ?case
  proof (cases "P x")
    case True
    then have "\<forall>y \<in> set xs. P y" using Cons.prems assms(2) by auto
    with True show ?thesis by (simp add: filter_id_conv filter_empty_conv)
  next
    case False
    with Cons show ?thesis by simp
  qed
qed simp

lemma purge_rows:
  assumes "Purge now olderThan s = (Some n, s')" "n > 0"
  shows "as_rows s' = filter (\<lambda>r. text_le (now - olderThan) (ev_Timestamp r)) (as_rows s)"
    "n = length (filter (\<lambda>r. \<not> text_le (now - olderThan) (ev_Timestamp r)) (as_rows s))"
    "as_chainMode s' = as_chainMode s" "as_chainKey s' = as_chainKey s"
  using assms by (auto simp: Purge_def loadRecent_def tbl_delete_def tbl_count_def Let_def split: if_splits)

lemma purged_chain:
  assumes ok: "chain_ok es s" and "Purge now olderThan s = (Some n, s')" "n > 0" "as_rows s' \<noteq> []"
  shows "chain_valid s' \<longleftrightarrow>
    ev_EntryHash (last (filter (\<lambda>r. \<not> text_le (now - olderThan) (ev_Timestamp r)) (as_rows s))) = GenesisHash"
proof -
  let ?P = "\<lambda>r. text_le (now - olderThan) (ev_Timestamp r)"
  let ?old = "filter (\<lambda>r. \<not> ?P r) (as_rows s)" and ?new = "filter ?P (as_rows s)"
  note rows = purge_rows [OF assms(2,3)]
  have ch: "chained (as_chainKey s) GenesisHash (as_rows s)" and srt: "sorted_wrt row_le (as_rows s)"
    using ok by (simp_all add: chain_ok_def)
  have split: "as_rows s = ?old @ ?new"
    using filter_upward [OF srt, of ?P] text_le_trans by (auto simp: row_le_def)
  have old: "?old \<noteq> []" and new: "?new \<noteq> []" using rows assms(3,4) by auto
  have chn: "chained (as_chainKey s) (ev_EntryHash (last ?old)) ?new"
    using ch old unfolding split [symmetric] by (subst (asm) split) (simp add: chained_append end_hash_def)
  have "chain_order ?new = ?new"
    using srt unfolding chain_order_def by (intro sort_by_sorted) (simp add: sorted_wrt_filter)
  moreover have "list_all (\<lambda>r. \<not> unsigned r) ?new"
    using chained_signed [OF chn] by (auto simp: list_all_iff)
  ultimately have "signed_rows s' = ?new" using signed_rows_all [of s'] rows(1) by simp
  then have "chain_valid s' \<longleftrightarrow> chained (as_chainKey s) GenesisHash ?new"
    using ok rows(3,4) by (simp add: chain_valid_iff chain_ok_def)
  then show ?thesis using chn new by (cases ?new) auto
qed

lemma two_rows:
  assumes "row_le b a" "ev_ID a \<noteq> ev_ID b"
  shows "chain_order [a, b] = [b, a]"
proof -
  have "\<not> row_le a b" using assms bytes_le_antisym by (auto simp: row_le_def)
  then show ?thesis by (simp add: chain_order_def sort_by_def)
qed

lemma chain_row_single:
  assumes "details_valid e" "as_chainKey s \<noteq> []"
  shows "ComputeEntryHash (ev_PrevHash (chain_row s e)) (scanEvent (chain_row s e)) (as_chainKey s) =
    Ok (ev_EntryHash (chain_row s e))"
  using payload_of_row [OF assms(1)] assms(2)
  by (simp add: ComputeEntryHash_Ok chain_row_def event_row_def Let_def)

lemma swapped_chain:
  assumes ok: "chain_ok [] s0" and ids: "ev_ID (enrichEvent u1 n1 e1) \<noteq> ev_ID (enrichEvent u2 n2 e2)"
    and ord: "row_le (enrichEvent u2 n2 e2) (enrichEvent u1 n1 e1)"
    and det: "details_valid (enrichEvent u1 n1 e1)" "details_valid (enrichEvent u2 n2 e2)"
  defines "s \<equiv> audit_Record u2 n2 e2 (audit_Record u1 n1 e1 s0)"
  shows "chain_valid s \<longleftrightarrow> list_all (\<lambda>r. ev_EntryHash r = GenesisHash) (as_rows s)"
proof -
  define a where "a = chain_row s0 (enrichEvent u1 n1 e1)"
  define s1 where "s1 = audit_Record u1 n1 e1 s0"
  define b where "b = chain_row s1 (enrichEvent u2 n2 e2)"
  have m0: "as_chainMode s0" "as_chainKey s0 \<noteq> []" "as_rows s0 = []" "as_lastEntryHash s0 = []"
    using ok by (auto simp: chain_ok_def)
  note r1 = record_chained [OF m0(1,2), of u1 n1 e1, folded s1_def]
  have m1: "as_chainMode s1" "as_chainKey s1 \<noteq> []" using r1 m0 by simp_all
  note r2 = record_chained [OF m1, of u2 n2 e2, folded s1_def]
  have rows1: "as_rows s1 = [a]" and last1: "as_lastEntryHash s1 = ev_EntryHash a"
    using r1 m0 by (simp_all add: a_def)
  have s: "as_rows s = [a, b]" "as_chainMode s" "as_chainKey s = as_chainKey s0"
    using r2 rows1 r1 ids unfolding s_def s1_def [symmetric] by (simp_all add: a_def b_def)
  have ha: "ev_EntryHash a \<noteq> []"
    using chain_row_single [OF det(1) m0(2)] ComputeEntryHash_length by (fastforce simp: a_def)
  have pa: "ev_PrevHash a = GenesisHash" and pb: "ev_PrevHash b = ev_EntryHash a"
    using m0 last1 ha by (simp_all add: a_def b_def)
  have ca: "ComputeEntryHash GenesisHash (scanEvent a) (as_chainKey s0) = Ok (ev_EntryHash a)"
    using chain_row_single [OF det(1) m0(2)] pa by (simp add: a_def)
  have cb: "ComputeEntryHash (ev_EntryHash a) (scanEvent b) (as_chainKey s0) = Ok (ev_EntryHash b)"
    using chain_row_single [OF det(2) m1(2)] pb r1(4) by (simp add: b_def)
  have "row_le b a" "ev_ID a \<noteq> ev_ID b"
    using ord ids row_le_key [of "enrichEvent u2 n2 e2" b "enrichEvent u1 n1 e1" a] by (simp_all add: a_def b_def)
  then have "signed_rows s = [b, a]"
    using two_rows [of b a] pb ha by (simp add: signed_rows_def s unsigned_def)
  then have "chain_valid s \<longleftrightarrow> chained (as_chainKey s0) GenesisHash [b, a]"
    using s by (simp add: chain_valid_iff)
  also have "\<dots> \<longleftrightarrow> ev_EntryHash a = GenesisHash \<and> ev_EntryHash b = GenesisHash"
    using pa pb ca cb by auto
  finally show ?thesis by (simp add: s)
qed

lemma demo_store_new: "NewStoreWithOptions [] [] 10 demo_options = Ok demo_store"
  by code_simp

lemma demo_calls:
  "sorted_wrt row_le (enriched [([], 0, demo_event ''a'' 1000), ([], 0, demo_event ''b'' (5 * Second))])"
  "list_all details_valid (enriched [([], 0, demo_event ''a'' 1000), ([], 0, demo_event ''b'' (5 * Second))])"
  by code_simp+

lemma demo_rows:
  "map ev_Timestamp (as_rows (audit_run [([], 0, demo_event ''a'' 1000), ([], 0, demo_event ''b'' (5 * Second))]
     demo_store)) = [1000, 5 * Second]"
proof -
  have e: "enrichEvent [] 0 (demo_event ''a'' 1000) = demo_event ''a'' 1000"
    "enrichEvent [] 0 (demo_event ''b'' (5 * Second)) = demo_event ''b'' (5 * Second)" by code_simp+
  let ?s1 = "audit_Record [] 0 (demo_event ''a'' 1000) demo_store"
  have m: "as_chainMode demo_store" "as_chainKey demo_store \<noteq> []" by (simp_all add: demo_store_def)
  note r1 = record_chained [OF m, of "[]" 0 "demo_event ''a'' 1000"]
  have m1: "as_chainMode ?s1" "as_chainKey ?s1 \<noteq> []" using r1(3,4) m by simp_all
  have "as_rows ?s1 = [chain_row demo_store (demo_event ''a'' 1000)]"
    using r1(1) e by (simp add: demo_store_def)
  then show ?thesis
    using record_chained(1) [OF m1, of "[]" 0 "demo_event ''b'' (5 * Second)"] e
    by (simp add: audit_run_def demo_event_def)
qed

section \<open>Properties\<close>






text \<open>
  Retention breaks the chain. On a store that verifies, a purge that deletes some rows and
  leaves others leaves a table that verifies only if the hash of the last deleted row happens to
  be the anchor, 64 zeros: the verification starts every chain at the anchor, whereas the first
  row that is left carries the hash of a row that is gone.
\<close>

lemma purge_breaks_chain:
  assumes "NewStoreWithOptions generated [] limit opts = Ok s0" and "so_ChainMode opts"
    and "sorted_wrt row_le (enriched calls)" and "list_all details_valid (enriched calls)"
    and "Purge now olderThan (audit_run calls s0) = (Some n, s')" and "n > 0" and "as_rows s' \<noteq> []"
  shows "chain_valid (audit_run calls s0) \<and>
    (chain_valid s' \<longleftrightarrow>
       ev_EntryHash (last (filter (\<lambda>r. \<not> text_le (now - olderThan) (ev_Timestamp r))
         (as_rows (audit_run calls s0)))) = GenesisHash)"
proof -
  have ok: "chain_ok (enriched calls) (audit_run calls s0)"
    by (rule run_chain_ok [OF NewStore_chain_ok [OF assms(1,2)] assms(3,4)])
  from chain_ok_valid [OF ok] purged_chain [OF ok assms(5-7)] show ?thesis by (simp add: chain_valid_def)
qed

lemma purge_breaks_chain_witness:
  "let s = audit_run [([], 0, demo_event ''a'' 1000), ([], 0, demo_event ''b'' (5 * Second))] demo_store;
       s' = snd (Purge (10 * Second) (7 * Second) s)
   in length (as_rows s') = 1 \<and>
      (chain_valid s' \<longleftrightarrow> ev_EntryHash (last (filter (\<lambda>r. \<not> text_le (3 * Second) (ev_Timestamp r)) (as_rows s))) = GenesisHash)"
proof -
  let ?s = "audit_run [([], 0, demo_event ''a'' 1000), ([], 0, demo_event ''b'' (5 * Second))] demo_store"
  let ?p = "Purge (10 * Second) (7 * Second) ?s"
  have m: "so_ChainMode demo_options" by (simp add: demo_options_def)
  obtain a b where rows: "as_rows ?s = [a, b]" "ev_Timestamp a = 1000" "ev_Timestamp b = 5 * Second"
    using demo_rows by (auto simp: map_eq_Cons_conv)
  have t: "\<not> text_le (10 * Second - 7 * Second) 1000" "text_le (10 * Second - 7 * Second) (5 * Second)"
    "10 * Second - 7 * Second = 3 * Second" "\<not> 7 * Second < 0" by code_simp+
  have p: "fst ?p = Some 1" "as_rows (snd ?p) = [b]"
    using rows t by (simp_all add: Purge_def tbl_count_def tbl_delete_def loadRecent_def Let_def)
  then have c: "?p = (Some 1, snd ?p)" by (metis prod.collapse)
  show ?thesis
    using purge_breaks_chain [OF demo_store_new m demo_calls c] p(2) t(3) by (simp add: Let_def)
qed

text \<open>
  The chain is written in the order in which the events are recorded, and verified in the
  order of their times. Two events recorded against the order of their texts of time (a time given
  by the caller or taken before the lock, or a fraction of a second whose trailing zeros are
  dropped) make a table that verifies only if both hashes happen to be the anchor.
\<close>

lemma recorded_out_of_order:
  assumes "NewStoreWithOptions generated [] limit opts = Ok s0" and "so_ChainMode opts"
    and "ev_ID (enrichEvent u1 n1 e1) \<noteq> ev_ID (enrichEvent u2 n2 e2)"
    and "row_le (enrichEvent u2 n2 e2) (enrichEvent u1 n1 e1)"
    and "details_valid (enrichEvent u1 n1 e1)" and "details_valid (enrichEvent u2 n2 e2)"
  shows "chain_valid (audit_Record u2 n2 e2 (audit_Record u1 n1 e1 s0)) \<longleftrightarrow>
    list_all (\<lambda>r. ev_EntryHash r = GenesisHash) (as_rows (audit_Record u2 n2 e2 (audit_Record u1 n1 e1 s0)))"
  by (rule swapped_chain [OF NewStore_chain_ok [OF assms(1,2)] assms(3-6)])

lemma recorded_out_of_order_witness:
  "0 < (15 :: time) \<and>
   (let s = audit_Record [] 0 (demo_event ''b'' 15) (audit_Record [] 0 (demo_event ''a'' 0) demo_store)
    in chain_valid s \<longleftrightarrow> list_all (\<lambda>r. ev_EntryHash r = GenesisHash) (as_rows s))"
proof -
  have m: "so_ChainMode demo_options" by (simp add: demo_options_def)
  have e: "enrichEvent [] 0 (demo_event ''a'' 0) = demo_event ''a'' 0"
    "enrichEvent [] 0 (demo_event ''b'' 15) = demo_event ''b'' 15" by code_simp+
  have "ev_ID (demo_event ''a'' 0) \<noteq> ev_ID (demo_event ''b'' 15)"
    "details_valid (demo_event ''a'' 0)" "details_valid (demo_event ''b'' 15)" by code_simp+
  moreover have "row_le (demo_event ''b'' 15) (demo_event ''a'' 0)"
    using text_order_inverted [of 15] by (simp add: row_le_def demo_event_def Second_def)
  ultimately show ?thesis
    using recorded_out_of_order [OF demo_store_new m, of "[]" 0 "demo_event ''a'' 0" "[]" 0 "demo_event ''b'' 15"]
    unfolding e by (simp add: Let_def)
qed

text \<open>
  A detail that is not valid UTF-8 breaks the chain. The hash of an event is computed from
  its values in memory, where a broken byte is written as the escape of the error rune, and
  verified from the values read back, where it is the rune itself. Where these two texts of the
  detail differ, the signed contents differ, and the table verifies only if the two contents
  have the same message code.
\<close>

lemma unstable_detail_breaks_chain:
  assumes "NewStoreWithOptions generated [] limit opts = Ok s0" and "so_ChainMode opts"
    and "e = enrichEvent uuid now evt" and "ev_Before e = JNull" "ev_After e = JNull"
    and "Marshal (reload (ev_Detail e)) \<noteq> Marshal (ev_Detail e)"
  shows "canonicalEntryPayload (scanEvent (event_row e)) \<noteq> canonicalEntryPayload e \<and>
    (chain_valid (audit_Record uuid now evt s0) \<longleftrightarrow>
       hmac_sha256 (as_chainKey s0) (GenesisHash @ [CHR 0x0A] @ canonicalEntryPayload (scanEvent (event_row e))) =
       hmac_sha256 (as_chainKey s0) (GenesisHash @ [CHR 0x0A] @ canonicalEntryPayload e))"
proof -
  have "chain_ok [] s0" by (rule NewStore_chain_ok [OF assms(1,2)])
  then have m: "as_chainMode s0" "as_chainKey s0 \<noteq> []" "as_rows s0 = []" "as_lastEntryHash s0 = []"
    by (auto simp: chain_ok_def)
  define s where "s = audit_Record uuid now evt s0"
  define r where "r = chain_row s0 e"
  note rec = record_chained [OF m(1,2), of uuid now evt, folded assms(3) s_def]
  have rows: "as_rows s = [r]" "as_chainMode s" "as_chainKey s = as_chainKey s0"
    using rec m by (simp_all add: r_def)
  have g: "normalizePrevHash GenesisHash = GenesisHash" by (rule normalize_hash) simp
  have p: "ev_PrevHash r = GenesisHash" and h: "ev_EntryHash r =
      hex_EncodeToString (hmac_sha256 (as_chainKey s0) (GenesisHash @ [CHR 0x0A] @ canonicalEntryPayload e))"
    using m g chain_row_hash [of s0 e] by (simp_all add: r_def)
  have pay: "canonicalEntryPayload (scanEvent r) = canonicalEntryPayload (scanEvent (event_row e))"
    by (simp add: r_def chain_row_def canonicalEntryPayload_def scanEvent_def event_row_def Let_def)
  have "signed_rows s = [r]"
    using p by (simp add: signed_rows_def rows chain_order_def sort_by_def unsigned_def)
  then have "chain_valid s \<longleftrightarrow> ComputeEntryHash GenesisHash (scanEvent r) (as_chainKey s0) = Ok (ev_EntryHash r)"
    using rows p by (simp add: chain_valid_iff)
  also have "\<dots> \<longleftrightarrow> hmac_sha256 (as_chainKey s0) (GenesisHash @ [CHR 0x0A] @ canonicalEntryPayload (scanEvent (event_row e))) =
       hmac_sha256 (as_chainKey s0) (GenesisHash @ [CHR 0x0A] @ canonicalEntryPayload e)"
    using m(2) by (auto simp: ComputeEntryHash_Ok g h pay)
  moreover have "canonicalEntryPayload (scanEvent (event_row e)) \<noteq> canonicalEntryPayload e"
    using assms(4-6)
    by (simp add: canonicalEntryPayload_def scanEvent_def event_row_def json_object_def json_member_def)
  ultimately show ?thesis by (simp add: s_def)
qed

lemma unstable_detail_breaks_chain_witness:
  "let e = (demo_event ''a'' 1000)\<lparr>ev_Detail := JMap [(''path'', JStr [CHR ''/'', CHR 0xFF])]\<rparr> in
   \<not> utf8_valid [CHR ''/'', CHR 0xFF] \<and>
   canonicalEntryPayload (scanEvent (event_row e)) \<noteq> canonicalEntryPayload e"
proof -
  let ?e = "(demo_event ''a'' 1000)\<lparr>ev_Detail := JMap [(''path'', JStr [CHR ''/'', CHR 0xFF])]\<rparr>"
  have m: "so_ChainMode demo_options" by (simp add: demo_options_def)
  have e: "?e = enrichEvent [] 0 ?e" "ev_Before ?e = JNull" "ev_After ?e = JNull"
    "Marshal (reload (ev_Detail ?e)) \<noteq> Marshal (ev_Detail ?e)" "\<not> utf8_valid [CHR ''/'', CHR 0xFF]" by code_simp+
  from unstable_detail_breaks_chain [OF demo_store_new m e(1-4)] e(5) show ?thesis by (simp add: Let_def)
qed

end
