(* ===== verification/Signing.thy ===== *)
theory Signing
  imports Encoding Command_Classifier
begin

text \<open>
  Signed commands: the signer of \<^verbatim>\<open>internal/shared/signing\<close> and the hub of probe
  connections, \<^verbatim>\<open>internal/controlplane/websocket/hub.go\<close>. A signer is its key. The JSON text
  of a command is the one of its Go struct, field by field. A connection is a number; the socket
  itself, its pings and its deadlines are not modelled.
\<close>

section \<open>Signatures\<close>

definition json_bool :: "bool \<Rightarrow> string" where
  "json_bool b = (if b then ''true'' else ''false'')"

definition command_json :: "CommandPayload \<Rightarrow> string" where
  "command_json cmd =
     json_object
       ([(''request_id'', json_string (cmd_RequestID cmd)), (''command'', json_string (cmd_Command cmd))] @
        (if cmd_Args cmd = [] then []
         else [(''args'', ''['' @ join_str (map json_string (cmd_Args cmd)) '','' @ '']'')]) @
        [(''timeout'', int_text (cmd_Timeout cmd)), (''level'', json_string (cap_text (cmd_Level cmd))),
         (''stream'', json_bool (cmd_Stream cmd))])"

definition canonicalize :: "string \<Rightarrow> string \<Rightarrow> string" where
  "canonicalize requestID data = requestID @ ''|'' @ data"

definition Sign :: "string \<Rightarrow> string \<Rightarrow> string \<Rightarrow> string" where
  "Sign key requestID data = hex_EncodeToString (hmac_sha256 key (canonicalize requestID data))"

datatype verify_error = DecodeSignatureError | DecodeExpectedError | SignatureMismatch

text \<open>\<open>None\<close> is acceptance.\<close>

definition Verify :: "string \<Rightarrow> string \<Rightarrow> string \<Rightarrow> string \<Rightarrow> verify_error option" where
  "Verify key requestID data signature =
     (let expected = Sign key requestID data
      in case hex_DecodeString signature of
           None \<Rightarrow> Some DecodeSignatureError
         | Some sigBytes \<Rightarrow>
             (case hex_DecodeString expected of
                None \<Rightarrow> Some DecodeExpectedError
              | Some expectedBytes \<Rightarrow> if sigBytes \<noteq> expectedBytes then Some SignatureMismatch else None))"

definition DeriveProbeKey :: "string \<Rightarrow> string \<Rightarrow> string" where
  "DeriveProbeKey masterKey probeID = hmac_sha256 masterKey (''legator-probe-signing|'' @ probeID)"

section \<open>Messages\<close>

datatype MessageType =
    MsgRegister | MsgHeartbeat | MsgInventory | MsgCommandResult | MsgError | MsgRegistered
  | MsgCommand | MsgPolicyUpdate | MsgPing | MsgPong | MsgUpdate | MsgKeyRotation | MsgOutputChunk
  | MsgOther string

text \<open>
  The payload of an envelope is the JSON text it has as a command, and what decoding it gives for
  each type the probe decodes to; \<open>None\<close> is a decoding error.
\<close>

record UpdatePayload =
  up_URL :: string
  up_Checksum :: string
  up_Version :: string
  up_Restart :: bool

record KeyRotationPayload =
  kr_NewKey :: string
  kr_ExpiresAt :: string

record payload =
  pl_json :: string
  pl_command :: "CommandPayload option"
  pl_policy :: "PolicyUpdatePayload option"
  pl_update :: "UpdatePayload option"
  pl_rotation :: "KeyRotationPayload option"

record Envelope =
  en_ID :: string
  en_Type :: MessageType
  en_Timestamp :: time
  en_Payload :: payload
  en_Signature :: string

section \<open>The hub\<close>

record ProbeConn =
  pc_ID :: string
  pc_Conn :: nat
  pc_Connected :: time
  pc_LastSeen :: time

record Hub =
  hb_probes :: "ProbeConn gmap"
  hb_signer :: "string option"

definition NewHub :: Hub where
  "NewHub = \<lparr>hb_probes = [], hb_signer = None\<rparr>"

definition SetSigner :: "string \<Rightarrow> Hub \<Rightarrow> Hub" where
  "SetSigner key h = h\<lparr>hb_signer := Some key\<rparr>"

text \<open>
  The authorization of a connection: with the request-aware authorizer, with the token check, or
  with neither. The refusal is a status and a body.
\<close>

record ProbeHandshakeDecision =
  hd_Allowed :: bool
  hd_StatusCode :: nat
  hd_Body :: string

definition extractBearerToken :: "string \<Rightarrow> string" where
  "extractBearerToken auth =
     (if length auth > 7 \<and> take 7 auth = ''Bearer '' then drop 7 auth else [])"

definition error_body :: "string \<Rightarrow> string" where
  "error_body msg = json_object [(''error'', json_string msg)]"

definition probe_handshake ::
  "(string \<Rightarrow> string \<Rightarrow> ProbeHandshakeDecision) option \<Rightarrow> (string \<Rightarrow> string \<Rightarrow> bool) option \<Rightarrow> string \<Rightarrow> string \<Rightarrow>
   (nat \<times> string) option" where
  "probe_handshake authorizer authenticator probeID auth =
     (let token = extractBearerToken auth
      in if probeID = [] then Some (400, ''missing probe id'')
         else case authorizer of
                Some f \<Rightarrow>
                  let d = f probeID token
                  in if hd_Allowed d then None
                     else Some (if hd_StatusCode d = 0 then 403 else hd_StatusCode d,
                                if hd_Body d = [] then error_body ''invalid credentials'' else hd_Body d)
              | None \<Rightarrow>
                  (case authenticator of
                     None \<Rightarrow> None
                   | Some f \<Rightarrow>
                       if token = [] then Some (401, error_body ''missing authorization'')
                       else if \<not> f probeID token then Some (403, error_body ''invalid credentials'')
                       else None))"

text \<open>
  A connection that was let in replaces the one the probe had, which is closed; the deferred
  function of a connection that ends removes the entry only if it is still its own.
\<close>

definition hub_connect :: "string \<Rightarrow> nat \<Rightarrow> time \<Rightarrow> Hub \<Rightarrow> nat option \<times> Hub" where
  "hub_connect probeID conn now h =
     (map_option pc_Conn (gget (hb_probes h) probeID),
      h\<lparr>hb_probes := gput probeID
          \<lparr>pc_ID = probeID, pc_Conn = conn, pc_Connected = now, pc_LastSeen = now\<rparr> (hb_probes h)\<rparr>)"

definition hub_disconnect :: "string \<Rightarrow> nat \<Rightarrow> Hub \<Rightarrow> bool \<times> Hub" where
  "hub_disconnect probeID conn h =
     (case gget (hb_probes h) probeID of
        None \<Rightarrow> (False, h)
      | Some pc \<Rightarrow>
          if pc_Conn pc = conn then (True, h\<lparr>hb_probes := gdel probeID (hb_probes h)\<rparr>) else (False, h))"

definition hub_seen :: "string \<Rightarrow> nat \<Rightarrow> time \<Rightarrow> Hub \<Rightarrow> Hub" where
  "hub_seen probeID conn now h =
     (case gget (hb_probes h) probeID of
        Some pc \<Rightarrow>
          if pc_Conn pc = conn
          then h\<lparr>hb_probes := gput probeID (pc\<lparr>pc_LastSeen := now\<rparr>) (hb_probes h)\<rparr> else h
      | None \<Rightarrow> h)"

datatype send_error = ProbeNotConnected string

definition SendTo ::
  "string \<Rightarrow> time \<Rightarrow> string \<Rightarrow> MessageType \<Rightarrow> payload \<Rightarrow> Hub \<Rightarrow> send_error + nat \<times> Envelope" where
  "SendTo uuid now probeID msgType p h =
     (case gget (hb_probes h) probeID of
        None \<Rightarrow> Err (ProbeNotConnected probeID)
      | Some pc \<Rightarrow>
          Ok (pc_Conn pc,
              \<lparr>en_ID = uuid, en_Type = msgType, en_Timestamp = now, en_Payload = p,
               en_Signature =
                 (case hb_signer h of
                    Some key \<Rightarrow> if msgType = MsgCommand then Sign key uuid (pl_json p) else []
                  | None \<Rightarrow> [])\<rparr>))"

definition hub_Connected :: "string list \<Rightarrow> Hub \<Rightarrow> string list" where
  "hub_Connected ks h = map pc_ID (grange ks (hb_probes h))"

record ProbeInfo =
  pi_ID :: string
  pi_Connected :: time
  pi_LastSeen :: time
  pi_Online :: bool

definition hub_List :: "time \<Rightarrow> string list \<Rightarrow> Hub \<Rightarrow> ProbeInfo list" where
  "hub_List now ks h =
     map (\<lambda>pc. \<lparr>pi_ID = pc_ID pc, pi_Connected = pc_Connected pc, pi_LastSeen = pc_LastSeen pc,
                pi_Online = (now - pc_LastSeen pc < 60 * Second)\<rparr>) (grange ks (hb_probes h))"

text \<open>
  The connections of one hub: each is let in once, under a number of its own, and ends once. The
  state is the hub and the connections in use, each with its probe.
\<close>

inductive hub_step :: "Hub \<times> (nat \<times> string) set \<Rightarrow> Hub \<times> (nat \<times> string) set \<Rightarrow> bool" where
  connect: "conn \<notin> fst ` C \<Longrightarrow> hub_step (h, C) (snd (hub_connect p conn now h), insert (conn, p) C)"
| disconnect: "(conn, p) \<in> C \<Longrightarrow> hub_step (h, C) (snd (hub_disconnect p conn h), C - {(conn, p)})"
| seen: "(conn, p) \<in> C \<Longrightarrow> hub_step (h, C) (hub_seen p conn now h, C)"

text \<open>Every entry of the hub belongs to a connection in use, and to the probe of its key.\<close>

definition hub_ok :: "Hub \<times> (nat \<times> string) set \<Rightarrow> bool" where
  "hub_ok s \<longleftrightarrow>
     (case s of (h, C) \<Rightarrow>
        gmap_ok (hb_probes h) \<and> inj_on fst C \<and>
        (\<forall>p pc. gget (hb_probes h) p = Some pc \<longrightarrow> pc_ID pc = p \<and> (pc_Conn pc, p) \<in> C))"

section \<open>Reconnecting\<close>

text \<open>
  The delays of \<^verbatim>\<open>Client.Run\<close> in \<^verbatim>\<open>internal/probe/connection/ws.go\<close>: an attempt
  is whether it had connected and whether it failed on its credentials; the delay before the next
  attempt is drawn from the current one by \<open>jitter\<close> with a random number.
\<close>

definition maxReconnectDelay :: duration where "maxReconnectDelay = 5 * Minute"
abbreviation authReconnectDelay :: duration where "authReconnectDelay \<equiv> 30 * Second"

definition current_delay :: "bool \<Rightarrow> bool \<Rightarrow> duration \<Rightarrow> duration" where
  "current_delay wasConnected authErr delay =
     (let d = (if wasConnected then Second else delay)
      in if authErr \<and> d < authReconnectDelay then authReconnectDelay else d)"

definition next_delay :: "bool \<Rightarrow> bool \<Rightarrow> duration \<Rightarrow> duration" where
  "next_delay wasConnected authErr delay =
     (let d = current_delay wasConnected authErr delay
      in if authErr then d else if d * 2 > maxReconnectDelay then maxReconnectDelay else d * 2)"

text \<open>\<open>n\<close> is the random number below half the delay; \<open>None\<close> is a failing generator.\<close>

definition jitter :: "int option \<Rightarrow> duration \<Rightarrow> duration" where
  "jitter n d = (if d div 2 \<le> 0 then d else case n of None \<Rightarrow> d | Some k \<Rightarrow> d + k)"

fun waits :: "duration \<Rightarrow> (bool \<times> bool \<times> int option) list \<Rightarrow> duration list" where
  "waits delay [] = []"
| "waits delay ((connected, authErr, n) # rest) =
     jitter n (current_delay connected authErr delay) # waits (next_delay connected authErr delay) rest"

text \<open>A number drawn below half of some delay.\<close>

definition draw_ok :: "bool \<times> bool \<times> int option \<Rightarrow> bool" where
  "draw_ok attempt = (case snd (snd attempt) of None \<Rightarrow> True | Some k \<Rightarrow> 0 \<le> k \<and> 2 * k \<le> maxReconnectDelay)"

section \<open>Lemmas\<close>

lemma Verify_iff:
  "Verify key requestID data signature = None \<longleftrightarrow>
   hex_DecodeString signature = Some (hmac_sha256 key (canonicalize requestID data))"
  by (auto simp: Verify_def Sign_def Let_def split: option.split)

lemma Verify_Sign:
  "Verify key requestID data (Sign key' requestID data) = None \<longleftrightarrow>
   hmac_sha256 key' (canonicalize requestID data) = hmac_sha256 key (canonicalize requestID data)"
  by (auto simp: Verify_iff Sign_def)

lemma canonicalize_inj:
  assumes "CHR ''|'' \<notin> set r" "CHR ''|'' \<notin> set r'"
  shows "canonicalize r d = canonicalize r' d' \<longleftrightarrow> r = r' \<and> d = d'"
proof
  assume eq: "canonicalize r d = canonicalize r' d'"
  have tw: "takeWhile (\<lambda>c. c \<noteq> CHR ''|'') (canonicalize x y) = x" if "CHR ''|'' \<notin> set x" for x y
    using that by (induction x) (auto simp: canonicalize_def)
  have "r = r'" using tw [OF assms(1), of d] tw [OF assms(2), of d'] eq by simp
  then show "r = r' \<and> d = d'" using eq by (simp add: canonicalize_def)
qed simp

lemma hub_step_ok: "hub_step s t \<Longrightarrow> hub_ok s \<Longrightarrow> hub_ok t"
proof (induction rule: hub_step.induct)
  case (connect conn C h p now)
  then show ?case
    by (auto simp: hub_ok_def hub_connect_def gmap_simps inj_on_insert split: if_splits)
next
  case (disconnect conn p C h)
  have "inj_on fst (C - {(conn, p)})" using disconnect by (auto simp: hub_ok_def intro: inj_on_subset)
  moreover have "pc_Conn pc \<noteq> conn \<or> q \<noteq> p" if "snd (hub_disconnect p conn h) = h'" "gget (hb_probes h') q = Some pc" for h' q pc
    using that by (auto simp: hub_disconnect_def gmap_simps split: option.splits if_splits)
  moreover have "gget (hb_probes (snd (hub_disconnect p conn h))) q = Some pc \<Longrightarrow> gget (hb_probes h) q = Some pc" for q pc
    by (auto simp: hub_disconnect_def gmap_simps split: option.splits if_splits)
  moreover have "gmap_ok (hb_probes (snd (hub_disconnect p conn h)))"
    using disconnect by (auto simp: hub_ok_def hub_disconnect_def gmap_simps split: option.split)
  ultimately show ?case using disconnect unfolding hub_ok_def by (simp; blast)
next
  case (seen conn p C h now)
  then show ?case
    by (auto simp: hub_ok_def hub_seen_def gmap_simps split: option.splits if_splits)
qed

lemma hub_run_ok: "hub_step\<^sup>*\<^sup>* s t \<Longrightarrow> hub_ok s \<Longrightarrow> hub_ok t"
  by (induction rule: rtranclp_induct) (auto intro: hub_step_ok)

lemma NewHub_ok: "hub_ok (NewHub, {})"
  by (simp add: hub_ok_def NewHub_def)

lemma current_delay_bounds:
  assumes "Second \<le> d" "d \<le> maxReconnectDelay"
  shows "Second \<le> current_delay c a d \<and> current_delay c a d \<le> maxReconnectDelay \<and>
    (a \<longrightarrow> authReconnectDelay \<le> current_delay c a d)"
  using assms by (auto simp: current_delay_def maxReconnectDelay_def
      Second_def Minute_def Let_def)

lemma next_delay_bounds:
  assumes "Second \<le> d" "d \<le> maxReconnectDelay"
  shows "Second \<le> next_delay c a d \<and> next_delay c a d \<le> maxReconnectDelay"
  using current_delay_bounds [OF assms, of c a]
  by (auto simp: next_delay_def Let_def maxReconnectDelay_def Second_def Minute_def)

lemma waits_bounds:
  assumes "Second \<le> d" "d \<le> maxReconnectDelay"
    and "list_all draw_ok attempts"
  shows "list_all2 (\<lambda>(c, a, n) w. Second \<le> w \<and> 2 * w \<le> 3 * maxReconnectDelay \<and>
      (a \<longrightarrow> authReconnectDelay \<le> w)) attempts (waits d attempts)"
  using assms
proof (induction d attempts rule: waits.induct)
  case (2 d c a n rest)
  have "list_all2 (\<lambda>(c, a, n) w. Second \<le> w \<and> 2 * w \<le> 3 * maxReconnectDelay \<and>
      (a \<longrightarrow> authReconnectDelay \<le> w)) rest (waits (next_delay c a d) rest)"
    using next_delay_bounds [OF "2.prems"(1,2)] "2.prems"(3) by (intro "2.IH") simp_all
  moreover have "draw_ok (c, a, n)" using "2.prems"(3) by simp
  moreover have "0 < maxReconnectDelay" by (simp add: maxReconnectDelay_def Minute_def Second_def)
  ultimately show ?case
    using current_delay_bounds [OF "2.prems"(1,2), of c a] by (auto simp: jitter_def draw_ok_def split: option.splits)
qed simp

section \<open>Properties\<close>



text \<open>
  Property C26. A message goes only to a connection of its probe that has not ended. In every state the
  hub reaches through connections that open, replace one another and end in any order, what
  \<^verbatim>\<open>SendTo\<close> writes goes to a connection in use by that very probe; and the end of a
  connection that was replaced leaves the hub as it is.
\<close>

theorem hub_sends_to_live_connection:
  assumes "hub_step\<^sup>*\<^sup>* (NewHub, {}) (h, C)" and "SendTo uuid now p typ pl h = Ok (conn, env)"
  shows "(conn, p) \<in> C \<and>
    (\<forall>old. (old, p) \<in> C \<and> old \<noteq> conn \<longrightarrow> hub_disconnect p old h = (False, h))"
proof -
  obtain pc where pc: "gget (hb_probes h) p = Some pc" "pc_Conn pc = conn"
    using assms(2) by (auto simp: SendTo_def split: option.splits)
  moreover have "hub_ok (h, C)" using hub_run_ok [OF assms(1) NewHub_ok] .
  ultimately have "(conn, p) \<in> C" unfolding hub_ok_def by auto
  then show ?thesis using pc by (simp add: hub_disconnect_def)
qed

theorem hub_sends_to_live_connection_witness:
  "let h = snd (hub_connect ''p'' 2 9 (snd (hub_connect ''p'' 1 5 NewHub))) in
   \<exists>env. SendTo ''u'' 9 ''p'' MsgPing \<lparr>pl_json = [], pl_command = None, pl_policy = None, pl_update = None,
     pl_rotation = None\<rparr> h = Ok (2, env) \<and> hub_disconnect ''p'' 1 h = (False, h)"
proof -
  let ?h1 = "snd (hub_connect ''p'' 1 5 NewHub)" and ?pl = "\<lparr>pl_json = [], pl_command = None, pl_policy = None,
    pl_update = None, pl_rotation = None\<rparr>"
  let ?h = "snd (hub_connect ''p'' 2 9 ?h1)"
  have "hub_step (NewHub, {}) (?h1, insert (1, ''p'') {})" by (rule hub_step.connect) simp
  moreover have "hub_step (?h1, {(1, ''p'')}) (?h, insert (2, ''p'') {(1, ''p'')})"
    by (rule hub_step.connect) simp
  ultimately have r: "hub_step\<^sup>*\<^sup>* (NewHub, {}) (?h, {(2, ''p''), (1, ''p'')})"
    by (meson rtranclp.rtrancl_into_rtrancl rtranclp.rtrancl_refl)
  obtain env where e: "SendTo ''u'' 9 ''p'' MsgPing ?pl ?h = Ok (2, env)"
    by (simp add: SendTo_def hub_connect_def gmap_simps)
  from hub_sends_to_live_connection [OF r e] e show ?thesis by (auto simp: Let_def)
qed

text \<open>
  The probe neither reconnects in a hot loop nor gives up. Starting at one second, whatever
  the attempts bring and whatever random numbers are drawn, every wait lies between one second
  and one and a half times the maximal delay of five minutes, and a wait after rejected
  credentials is at least thirty seconds.
\<close>

lemma reconnect_waits_bounded:
  assumes "list_all draw_ok attempts"
  shows "list_all2 (\<lambda>(c, a, n) w. Second \<le> w \<and> 2 * w \<le> 3 * maxReconnectDelay \<and>
      (a \<longrightarrow> authReconnectDelay \<le> w)) attempts (waits Second attempts)"
  using assms by (intro waits_bounds) (simp_all add: maxReconnectDelay_def Minute_def Second_def)

end
