(* ===== verification/Probe_Agent.thy ===== *)
theory Probe_Agent
  imports Signing
begin

text \<open>
  The probe: its configuration and message handler (\<^verbatim>\<open>internal/probe/agent\<close>) and the
  self-update (\<^verbatim>\<open>internal/probe/updater\<close>). What the handler does to the outside is a list
  of effects in order. Processes, the file system and the network are parameters
  (\<open>agent_world\<close>, \<open>update_io\<close>); a send that fails is only logged and has no result.
\<close>

section \<open>The updater\<close>

text \<open>The outcome of each call the update makes, should it come to that call.\<close>

record update_io =
  io_executable :: "string + string"
  io_symlinks :: "string + string"
  io_temp :: "string + string"
  io_get :: "string + nat \<times> string"
  io_copy :: "string option"
  io_chmod :: "string option"
  io_version :: "(string \<times> string) option"
  io_backup :: "string option"
  io_swap :: "string option"
  io_windows :: bool

record UpdateResult =
  ur_Success :: bool
  ur_Message :: string
  ur_OldPath :: string
  ur_NewVersion :: string

definition maxBinarySize :: nat where "maxBinarySize = 100 * 1024 * 1024"

definition update_failed :: "string \<Rightarrow> UpdateResult" where
  "update_failed msg = \<lparr>ur_Success = False, ur_Message = msg, ur_OldPath = [], ur_NewVersion = []\<rparr>"

text \<open>The result, and the bytes that replace the executable where the swap is made.\<close>

definition Apply :: "update_io \<Rightarrow> string \<Rightarrow> string \<Rightarrow> string \<Rightarrow> UpdateResult \<times> string option" where
  "Apply io url checksum version =
     (let failed = (\<lambda>msg. (update_failed msg, None))
      in case io_executable io of
           Err e \<Rightarrow> failed (''cannot locate executable: '' @ e)
         | Ok _ \<Rightarrow>
       (case io_symlinks io of
           Err e \<Rightarrow> failed (''cannot resolve symlinks: '' @ e)
         | Ok exePath \<Rightarrow>
       (case io_temp io of
           Err e \<Rightarrow> failed (''cannot create temp file: '' @ e)
         | Ok _ \<Rightarrow>
       (case io_get io of
           Err e \<Rightarrow> failed (''download failed: '' @ e)
         | Ok (status, body) \<Rightarrow>
             if status \<noteq> 200 then failed (''download returned HTTP '' @ nat_text status)
             else
               let data = take maxBinarySize body; got = hex_EncodeToString (sha256 data)
               in case io_copy io of
                    Some e \<Rightarrow> failed (''download write failed: '' @ e)
                  | None \<Rightarrow>
                      if checksum \<noteq> [] \<and> got \<noteq> checksum
                      then failed (''checksum mismatch: expected '' @ checksum @ '', got '' @ got)
                      else
                (case io_chmod io of
                    Some e \<Rightarrow> failed (''chmod failed: '' @ e)
                  | None \<Rightarrow>
                (case io_version io of
                    Some (e, out) \<Rightarrow> failed (''new binary verification failed: '' @ e @ '': '' @ out)
                  | None \<Rightarrow>
                (case (if io_windows io then io_backup io else None) of
                    Some e \<Rightarrow> failed (''backup rename failed: '' @ e)
                  | None \<Rightarrow>
                (case io_swap io of
                    Some e \<Rightarrow> failed (''swap failed: '' @ e)
                  | None \<Rightarrow>
                      (\<lparr>ur_Success = True,
                        ur_Message = ''updated to '' @ version @ '' (sha256:'' @ take 12 got @ '')'',
                        ur_OldPath = exePath, ur_NewVersion = version\<rparr>, Some data)))))))))"

section \<open>The agent\<close>

record Config =
  cf_ServerURL :: string
  cf_ProbeID :: string
  cf_APIKey :: string
  cf_PolicyID :: string
  cf_SigningKey :: string
  cf_PolicyLevel :: CapabilityLevel
  cf_PolicyAllowed :: "string list"
  cf_PolicyBlocked :: "string list"
  cf_PolicyPaths :: "string list"
  cf_PolicyExecutionClassRequired :: ExecutionClass
  cf_PolicySandboxRequired :: bool
  cf_PolicyApprovalMode :: ApprovalMode
  cf_PolicyBreakglass :: BreakglassPolicy
  cf_PolicyMaxRuntimeSec :: int
  cf_PolicyAllowedScopes :: "string list"

text \<open>The agent: configuration, policy of the executor, key of the verifier, and the client's API key and URL.\<close>

record Agent =
  ag_config :: Config
  ag_policy :: Policy
  ag_verifier :: "string option"
  ag_apiKey :: string
  ag_wsURL :: string

definition ws_url :: "string \<Rightarrow> string" where
  "ws_url url =
     (if length url > 4 \<and> take 5 url = ''https'' then ''wss'' @ drop 5 url
      else if length url > 3 \<and> take 4 url = ''http'' then ''ws'' @ drop 4 url
      else url)"

definition config_policy :: "Config \<Rightarrow> Policy" where
  "config_policy cfg =
     \<lparr>po_Level = (if cf_PolicyLevel cfg = CapOther [] then CapObserve else cf_PolicyLevel cfg),
      po_Allowed = cf_PolicyAllowed cfg, po_Blocked = cf_PolicyBlocked cfg, po_Paths = cf_PolicyPaths cfg\<rparr>"

definition NewAgent :: "Config \<Rightarrow> Agent" where
  "NewAgent cfg =
     \<lparr>ag_config = cfg, ag_policy = config_policy cfg,
      ag_verifier =
        (if cf_SigningKey cfg \<noteq> [] then Some (DeriveProbeKey (cf_SigningKey cfg) (cf_ProbeID cfg))
         else None),
      ag_apiKey = cf_APIKey cfg, ag_wsURL = ws_url (cf_ServerURL cfg)\<rparr>"

record agent_world =
  aw_windows :: bool
  aw_run :: process
  aw_stream :: "execSpec \<Rightarrow> stream_run"
  aw_save :: "Config \<Rightarrow> bool"
  aw_update :: "UpdatePayload \<Rightarrow> update_io"

datatype agent_effect =
    SentResult CommandResultPayload
  | SentChunk OutputChunkPayload
  | SentPong
  | SavedConfig Config
  | InstalledBinary string
  | RestartedProbe

definition boolToExit :: "bool \<Rightarrow> int" where
  "boolToExit failed = (if failed then 1 else 0)"

text \<open>The cases of \<^verbatim>\<open>handleMessage\<close>.\<close>

definition signature_check :: "Agent \<Rightarrow> Envelope \<Rightarrow> CommandPayload \<Rightarrow> string option" where
  "signature_check a env cmd =
     (case ag_verifier a of
        None \<Rightarrow> None
      | Some key \<Rightarrow>
          if en_Signature env = [] then Some ''command rejected: missing signature''
          else if Verify key (en_ID env) (command_json cmd) (en_Signature env) \<noteq> None
          then Some ''command rejected: invalid signature''
          else None)"

definition handle_command :: "agent_world \<Rightarrow> Envelope \<Rightarrow> CommandPayload \<Rightarrow> Agent \<Rightarrow> agent_effect list" where
  "handle_command w env cmd a =
     (case signature_check a env cmd of
        Some msg \<Rightarrow> [SentResult (refusal (cmd_RequestID cmd) msg)]
      | None \<Rightarrow>
          if cmd_Stream cmd
          then map SentChunk (ExecuteStream (aw_windows w) (aw_stream w) (ag_policy a) cmd)
          else [SentResult (Execute (aw_windows w) (aw_run w) (ag_policy a) cmd)])"

definition probe_policy :: "PolicyUpdatePayload \<Rightarrow> Policy" where
  "probe_policy p =
     \<lparr>po_Level = pu_Level p, po_Allowed = pu_Allowed p, po_Blocked = pu_Blocked p, po_Paths = pu_Paths p\<rparr>"

definition policy_config :: "PolicyUpdatePayload \<Rightarrow> Config \<Rightarrow> Config" where
  "policy_config p cfg =
     cfg\<lparr>cf_PolicyID := pu_PolicyID p, cf_PolicyLevel := pu_Level p, cf_PolicyAllowed := pu_Allowed p,
         cf_PolicyBlocked := pu_Blocked p, cf_PolicyPaths := pu_Paths p,
         cf_PolicyExecutionClassRequired := pu_ExecutionClassRequired p,
         cf_PolicySandboxRequired := pu_SandboxRequired p, cf_PolicyApprovalMode := pu_ApprovalMode p,
         cf_PolicyBreakglass := pu_Breakglass p, cf_PolicyMaxRuntimeSec := pu_MaxRuntimeSec p,
         cf_PolicyAllowedScopes := pu_AllowedScopes p\<rparr>"

definition handle_update :: "agent_world \<Rightarrow> Envelope \<Rightarrow> UpdatePayload \<Rightarrow> agent_effect list" where
  "handle_update w env upd =
     (let (result, swapped) = Apply (aw_update w upd) (up_URL upd) (up_Checksum upd) (up_Version upd)
      in (case swapped of None \<Rightarrow> [] | Some b \<Rightarrow> [InstalledBinary b]) @
         [SentResult ((empty_result (en_ID env))\<lparr>res_ExitCode := boolToExit (\<not> ur_Success result),
            res_Stdout := ur_Message result\<rparr>)] @
         (if ur_Success result \<and> up_Restart upd then [RestartedProbe] else []))"

definition handle_rotation ::
  "agent_world \<Rightarrow> KeyRotationPayload \<Rightarrow> Agent \<Rightarrow> agent_effect list \<times> Agent" where
  "handle_rotation w rotation a =
     (if trim_space (kr_NewKey rotation) = [] then ([], a)
      else
        let cfg = (ag_config a)\<lparr>cf_APIKey := kr_NewKey rotation\<rparr>
        in if aw_save w cfg then ([SavedConfig cfg], a\<lparr>ag_config := cfg, ag_apiKey := kr_NewKey rotation\<rparr>)
           else ([], a))"

definition handleMessage :: "agent_world \<Rightarrow> Envelope \<Rightarrow> Agent \<Rightarrow> agent_effect list \<times> Agent" where
  "handleMessage w env a =
     (case en_Type env of
        MsgCommand \<Rightarrow>
          (case pl_command (en_Payload env) of
             None \<Rightarrow> ([], a)
           | Some cmd \<Rightarrow> (handle_command w env cmd a, a))
      | MsgPolicyUpdate \<Rightarrow>
          (case pl_policy (en_Payload env) of
             None \<Rightarrow> ([], a)
           | Some p \<Rightarrow>
               let cfg = policy_config p (ag_config a)
               in (if aw_save w cfg then [SavedConfig cfg] else [],
                   a\<lparr>ag_policy := probe_policy p, ag_config := cfg\<rparr>))
      | MsgUpdate \<Rightarrow>
          (case pl_update (en_Payload env) of
             None \<Rightarrow> ([], a)
           | Some upd \<Rightarrow> (handle_update w env upd, a))
      | MsgKeyRotation \<Rightarrow>
          (case pl_rotation (en_Payload env) of
             None \<Rightarrow> ([], a)
           | Some rotation \<Rightarrow> handle_rotation w rotation a)
      | MsgPing \<Rightarrow> ([SentPong], a)
      | _ \<Rightarrow> ([], a))"

text \<open>The messages the agent takes from its inbox, one after the other.\<close>

fun agent_run :: "agent_world \<Rightarrow> Envelope list \<Rightarrow> Agent \<Rightarrow> agent_effect list \<times> Agent" where
  "agent_run w [] a = ([], a)"
| "agent_run w (env # envs) a =
     (let (es, a1) = handleMessage w env a; (es', a2) = agent_run w envs a1 in (es @ es', a2))"

text \<open>The payload of a command that arrives as it was sent.\<close>

definition command_payload :: "CommandPayload \<Rightarrow> payload" where
  "command_payload cmd =
     \<lparr>pl_json = command_json cmd, pl_command = Some cmd, pl_policy = None, pl_update = None, pl_rotation = None\<rparr>"

definition demo_config :: Config where
  "demo_config = \<lparr>cf_ServerURL = ''https://cp'', cf_ProbeID = ''p1'', cf_APIKey = ''k'', cf_PolicyID = [],
     cf_SigningKey = replicate 64 (CHR ''a''), cf_PolicyLevel = CapObserve, cf_PolicyAllowed = [],
     cf_PolicyBlocked = [], cf_PolicyPaths = [], cf_PolicyExecutionClassRequired = ExecOther [],
     cf_PolicySandboxRequired = False, cf_PolicyApprovalMode = ApprovalOther [],
     cf_PolicyBreakglass = no_breakglass, cf_PolicyMaxRuntimeSec = 0, cf_PolicyAllowedScopes = []\<rparr>"

text \<open>
  The signing key of the control plane, \<^verbatim>\<open>wireHub\<close> in
  \<^verbatim>\<open>internal/controlplane/server/server.go\<close>: the configured text is decoded, and a key that
  is no hexadecimal text or is too short stops the server (\<open>None\<close>); without one the server draws
  \<open>random\<close>.
\<close>

definition server_signing_key :: "string \<Rightarrow> string \<Rightarrow> string option" where
  "server_signing_key configured random =
     (if configured \<noteq> []
      then (case hex_DecodeString configured of
              None \<Rightarrow> None
            | Some key \<Rightarrow> if length key < 32 then None else Some key)
      else Some random)"

definition demo_world :: agent_world where
  "demo_world = \<lparr>aw_windows = False, aw_run = \<lambda>_. (''out'', [], RunOk, 1), aw_stream = \<lambda>_. Started [] RunOk,
     aw_save = \<lambda>_. True,
     aw_update = \<lambda>_. \<lparr>io_executable = Ok ''/usr/bin/probe'', io_symlinks = Ok ''/usr/bin/probe'',
       io_temp = Ok ''/usr/bin/t'', io_get = Ok (200, ''evil''), io_copy = None, io_chmod = None,
       io_version = None, io_backup = None, io_swap = None, io_windows = False\<rparr>\<rparr>"

definition demo_update :: Envelope where
  "demo_update = \<lparr>en_ID = ''u'', en_Type = MsgUpdate, en_Timestamp = 0,
     en_Payload = \<lparr>pl_json = [], pl_command = None, pl_policy = None,
       pl_update = Some \<lparr>up_URL = ''http://x'', up_Checksum = [], up_Version = ''9'', up_Restart = True\<rparr>,
       pl_rotation = None\<rparr>,
     en_Signature = []\<rparr>"

definition signed_command :: "string \<Rightarrow> CommandPayload \<Rightarrow> Envelope" where
  "signed_command key cmd = \<lparr>en_ID = ''u'', en_Type = MsgCommand, en_Timestamp = 0,
     en_Payload = command_payload cmd, en_Signature = Sign key ''u'' (command_json cmd)\<rparr>"

section \<open>Lemmas\<close>

lemma Apply_swapped:
  assumes "Apply io url checksum version = (r, Some data)"
  obtains status body where "io_get io = Ok (200, body)" "data = take maxBinarySize body"
    "checksum = [] \<or> hex_EncodeToString (sha256 data) = checksum" "ur_Success r"
  using assms
  by (auto simp: Apply_def Let_def split: sum.splits option.splits if_splits prod.splits)

lemma Apply_success: "ur_Success (fst (Apply io url checksum version)) \<longleftrightarrow> snd (Apply io url checksum version) \<noteq> None"
  by (simp add: Apply_def update_failed_def Let_def split: sum.split option.split prod.split)

lemma signature_check_key:
  "handleMessage w env a = (es, a') \<Longrightarrow> ag_verifier a' = ag_verifier a"
  by (auto simp: handleMessage_def handle_rotation_def Let_def
      split: MessageType.splits option.splits if_splits)

lemma agent_run_key: "agent_run w envs a = (es, a') \<Longrightarrow> ag_verifier a' = ag_verifier a"
proof (induction w envs a arbitrary: es rule: agent_run.induct)
  case (2 w env envs a)
  obtain es1 a1 where h: "handleMessage w env a = (es1, a1)" by fastforce
  obtain es2 a2 where r: "agent_run w envs a1 = (es2, a2)" by fastforce
  have "a' = a2" using "2.prems" h r by simp
  with signature_check_key [OF h] "2.IH" [OF h [symmetric] refl, of es2] r show ?case by simp
qed simp

lemma Sign_not_Nil [simp]: "Sign key r d \<noteq> []"
proof -
  have "length (Sign key r d) = 64" by (simp add: Sign_def)
  then show ?thesis by auto
qed

lemma world_irrelevant:
  "handle_update (w\<lparr>aw_run := run', aw_stream := st'\<rparr>) env upd = handle_update w env upd"
  "handle_rotation (w\<lparr>aw_run := run', aw_stream := st'\<rparr>) rot a = handle_rotation w rot a"
  by (simp_all add: handle_update_def handle_rotation_def)

lemma process_reached:
  assumes "fst (handleMessage w env a) \<noteq> fst (handleMessage (w\<lparr>aw_run := run', aw_stream := st'\<rparr>) env a)"
  obtains cmd where "en_Type env = MsgCommand" "pl_command (en_Payload env) = Some cmd"
    "signature_check a env cmd = None" "policy_check (ag_policy a) cmd = None"
proof -
  have t: "en_Type env = MsgCommand"
    using assms by (cases "en_Type env") (auto simp: handleMessage_def world_irrelevant Let_def split: option.splits)
  obtain cmd where c: "pl_command (en_Payload env) = Some cmd"
    using assms t by (cases "pl_command (en_Payload env)") (auto simp: handleMessage_def)
  have s: "signature_check a env cmd = None"
    using assms t c by (cases "signature_check a env cmd") (auto simp: handleMessage_def handle_command_def)
  have "handle_command w env cmd a = handle_command (w\<lparr>aw_run := run', aw_stream := st'\<rparr>) env cmd a"
    if "policy_check (ag_policy a) cmd = Some msg" for msg
    using that s by (cases "cmd_Stream cmd") (simp_all add: handle_command_def Execute_def ExecuteStream_def Let_def)
  then have "policy_check (ag_policy a) cmd = None"
    using assms t c by (cases "policy_check (ag_policy a) cmd") (auto simp: handleMessage_def)
  then show ?thesis using that t c s by blast
qed

lemma installed_effect:
  assumes "InstalledBinary b \<in> set (fst (handleMessage w env a))"
  obtains upd where "en_Type env = MsgUpdate" "pl_update (en_Payload env) = Some upd"
    "snd (Apply (aw_update w upd) (up_URL upd) (up_Checksum upd) (up_Version upd)) = Some b"
  using assms
  by (auto simp: handleMessage_def handle_command_def handle_update_def handle_rotation_def Let_def case_prod_beta
      split: MessageType.splits option.splits if_splits)

lemma policy_update_persists:
  assumes "en_Type env = MsgPolicyUpdate" "pl_policy (en_Payload env) = Some p"
    and "handleMessage w env a = (es, a')" and "aw_save w (ag_config a')" and "pu_Level p \<noteq> CapOther []"
  shows "es = [SavedConfig (ag_config a')] \<and> ag_policy (NewAgent (ag_config a')) = ag_policy a' \<and>
    ag_policy a' = probe_policy p"
  using assms by (auto simp: handleMessage_def Let_def NewAgent_def config_policy_def policy_config_def probe_policy_def)

section \<open>Properties\<close>



text \<open>
  Control plane and probe sign with different keys. Where both are given the same signing
  key, the hub signs with the decoded key itself, and the probe verifies with a key derived from
  the text of the key and its id. A command the hub sends is accepted exactly if the two keys give
  its message the same code. Signed with the derived key, it would be accepted always.
\<close>

lemma hub_and_probe_keys_differ:
  assumes "cf_SigningKey cfg \<noteq> []" and "server_signing_key (cf_SigningKey cfg) random = Some key"
    and "SendTo uuid now (cf_ProbeID cfg) MsgCommand (command_payload cmd) (SetSigner key h) = Ok (conn, env)"
  shows "let derived = DeriveProbeKey (cf_SigningKey cfg) (cf_ProbeID cfg);
             m = canonicalize uuid (command_json cmd)
         in hex_DecodeString (cf_SigningKey cfg) = Some key \<and>
           (signature_check (NewAgent cfg) env cmd = None \<longleftrightarrow> hmac_sha256 key m = hmac_sha256 derived m) \<and>
           signature_check (NewAgent cfg) (env\<lparr>en_Signature := Sign derived uuid (command_json cmd)\<rparr>) cmd = None"
proof -
  have env: "en_ID env = uuid" "en_Signature env = Sign key uuid (command_json cmd)"
    using assms(3) by (auto simp: SendTo_def SetSigner_def command_payload_def split: option.splits)
  have "hex_DecodeString (cf_SigningKey cfg) = Some key"
    using assms(1,2) by (auto simp: server_signing_key_def split: option.splits if_splits)
  with env assms(1) show ?thesis
    by (simp add: signature_check_def NewAgent_def Verify_Sign Let_def)
qed

lemma hub_and_probe_keys_differ_witness:
  "let h = snd (hub_connect ''p1'' 1 5 NewHub); key = replicate 32 (CHR 0xAA);
       derived = DeriveProbeKey (replicate 64 (CHR ''a'')) ''p1''; m = canonicalize ''u'' (command_json demo_ls)
   in \<exists>env. SendTo ''u'' 6 ''p1'' MsgCommand (command_payload demo_ls) (SetSigner key h) = Ok (1, env) \<and>
     (signature_check (NewAgent demo_config) env demo_ls = None \<longleftrightarrow> hmac_sha256 key m = hmac_sha256 derived m)"
proof -
  let ?h = "snd (hub_connect ''p1'' 1 5 NewHub)" and ?key = "replicate 32 (CHR 0xAA)"
  have k: "cf_SigningKey demo_config \<noteq> []" "cf_ProbeID demo_config = ''p1''"
    "cf_SigningKey demo_config = replicate 64 (CHR ''a'')" by (simp_all add: demo_config_def)
  have s: "server_signing_key (cf_SigningKey demo_config) [] = Some ?key" by code_simp
  obtain env where e: "SendTo ''u'' 6 (cf_ProbeID demo_config) MsgCommand (command_payload demo_ls) (SetSigner ?key ?h) = Ok (1, env)"
    by (simp add: SendTo_def SetSigner_def hub_connect_def gmap_simps demo_config_def)
  note r = hub_and_probe_keys_differ [OF k(1) s e, unfolded k(2,3) Let_def]
  show ?thesis
    unfolding Let_def
    by (rule exI [of _ env], rule conjI, rule e [unfolded k(2)], rule conjunct1 [OF conjunct2 [OF r]])
qed

text \<open>
  Property C27. What the updater installs. If handling a message installs a binary, the message is an
  update, the binary is at most the size limit and begins the body of a successful download, and
  where the update names a checksum it is the SHA-256 of the binary.
\<close>

theorem update_installs_checked_binary:
  assumes "InstalledBinary b \<in> set (fst (handleMessage w env a))"
  shows "\<exists>upd body. en_Type env = MsgUpdate \<and> pl_update (en_Payload env) = Some upd \<and>
    io_get (aw_update w upd) = Ok (200, body) \<and> b = take maxBinarySize body \<and> length b \<le> maxBinarySize \<and>
    (up_Checksum upd = [] \<or> up_Checksum upd = hex_EncodeToString (sha256 b))"
proof -
  obtain upd where u: "en_Type env = MsgUpdate" "pl_update (en_Payload env) = Some upd"
    "snd (Apply (aw_update w upd) (up_URL upd) (up_Checksum upd) (up_Version upd)) = Some b"
    by (rule installed_effect [OF assms])
  then obtain r where "Apply (aw_update w upd) (up_URL upd) (up_Checksum upd) (up_Version upd) = (r, Some b)"
    by (metis prod.collapse)
  then obtain body where "io_get (aw_update w upd) = Ok (200, body)" "b = take maxBinarySize body"
    "up_Checksum upd = [] \<or> hex_EncodeToString (sha256 b) = up_Checksum upd"
    by (rule Apply_swapped)
  then show ?thesis using u by auto
qed

theorem update_installs_checked_binary_witness:
  "InstalledBinary (take maxBinarySize ''evil'') \<in> set (fst (handleMessage demo_world demo_update (NewAgent demo_config))) \<and>
   length (take maxBinarySize ''evil'') \<le> maxBinarySize"
proof -
  have i: "InstalledBinary (take maxBinarySize ''evil'') \<in> set (fst (handleMessage demo_world demo_update (NewAgent demo_config)))"
    by (simp add: handleMessage_def handle_update_def Apply_def demo_update_def demo_world_def Let_def)
  from update_installs_checked_binary [OF i] i show ?thesis by auto
qed

text \<open>
  Only commands are protected by signatures. For a message of any other type the agent
  neither looks at the signature nor at its own key: a policy update, a key rotation and an update
  have the same effects and lead to the same state with any signature or none, and whether or not
  signing is configured.
\<close>

lemma control_messages_unsigned:
  assumes "en_Type env \<noteq> MsgCommand" and "handleMessage w env a = (es, a')"
  shows "handleMessage w (env\<lparr>en_Signature := sig\<rparr>) (a\<lparr>ag_verifier := v\<rparr>) = (es, a'\<lparr>ag_verifier := v\<rparr>)"
  using assms
  by (auto simp: handleMessage_def handle_update_def handle_rotation_def Let_def
      split: MessageType.splits option.splits if_splits prod.splits)

lemma control_messages_unsigned_witness:
  "InstalledBinary (take maxBinarySize ''evil'') \<in>
     set (fst (handleMessage demo_world (demo_update\<lparr>en_Signature := ''forged''\<rparr>)
       ((NewAgent demo_config)\<lparr>ag_verifier := Some ''key''\<rparr>)))"
proof -
  let ?c = "handleMessage demo_world demo_update (NewAgent demo_config)"
  have i: "InstalledBinary (take maxBinarySize ''evil'') \<in> set (fst ?c)"
    by (simp add: handleMessage_def handle_update_def Apply_def demo_update_def demo_world_def Let_def)
  have t: "en_Type demo_update \<noteq> MsgCommand" by (simp add: demo_update_def)
  have c: "?c = (fst ?c, snd ?c)" by simp
  from control_messages_unsigned [OF t c, of "''forged''" "Some ''key''"] i show ?thesis by simp
qed

end
