(* ===== verification/Token_Broker.thy ===== *)
theory Token_Broker
  imports Encoding Lifecycle
begin

text \<open>
  The broker of scoped run tokens, \<^verbatim>\<open>controlplane/tokenbroker\<close>: its table of tokens
  (\<^verbatim>\<open>store.go\<close>) and the operations that issue, validate and revoke them
  (\<^verbatim>\<open>broker.go\<close>), each under the mutex of the broker, with the events they emit, and the
  check of a token by the sandbox tools (\<^verbatim>\<open>mcpserver/sandbox_tools.go\<close>).

  The clock and the results of the token generator are arguments. A time is written to the table
  with its nanoseconds and reads back unchanged; the scopes go through JSON, which replaces the
  bytes that are not UTF-8.
\<close>

section \<open>Tokens and errors\<close>

datatype token_error =
    ErrTokenRequired
  | ErrTokenInvalid
  | ErrTokenExpired
  | ErrTokenRevoked
  | ErrTokenConsumed
  | ErrScopeRequired
  | ErrScopeRejected string
  | ErrRunIDRequired
  | ErrProbeIDRequired
  | ErrIssuerRequired
  | ErrSessionMismatch
  | ErrScopesRequired
  | ErrTokenAudienceRequired
  | ErrAudienceMismatch string
  | ErrBindingMismatch string string
  | ErrScopeLimitExceeded nat int
  | ErrGenerateToken string
  | ErrEmptyToken
  | ErrCollisions

record Claims =
  cl_RunID :: string
  cl_ProbeID :: string
  cl_Audience :: string
  cl_Scopes :: "string list"
  cl_IssuedAt :: time
  cl_ExpiresAt :: time
  cl_Issuer :: string
  cl_SessionID :: string

record IssueRequest =
  ir_RunID :: string
  ir_ProbeID :: string
  ir_Audience :: string
  ir_Scopes :: "string list"
  ir_Issuer :: string
  ir_SessionID :: string
  ir_TTL :: duration

record broker_IssuedToken =
  it_Token :: string
  it_Claims :: Claims

record ValidateRequest =
  vr_Token :: string
  vr_Scope :: string
  vr_Audience :: string
  vr_RunID :: string
  vr_ProbeID :: string
  vr_SessionID :: string
  vr_Consume :: bool

datatype token_event_type = EventTokenIssued | EventTokenUsed | EventTokenExpire | EventTokenReject

record token_Event =
  te_Type :: token_event_type
  te_Token :: string
  te_RunID :: string
  te_ProbeID :: string
  te_Audience :: string
  te_Scopes :: "string list"
  te_Issuer :: string
  te_SessionID :: string
  te_Reason :: string
  te_IssuedAt :: time
  te_ExpiresAt :: time
  te_UsedAt :: time

record TokenState =
  ts_Token :: string
  ts_Scope :: "string list"
  ts_Audience :: string
  ts_RunnerID :: string
  ts_JobID :: string
  ts_Issuer :: string
  ts_SessionID :: string
  ts_IssuedAt :: time
  ts_ExpiresAt :: time
  ts_ConsumedAt :: "time option"

type_synonym token_table = "TokenState list"

section \<open>The table\<close>

text \<open>
  \<open>None\<close> is \<^verbatim>\<open>ErrStoreTokenExists\<close>: the token is the primary key. The scopes of a row are
  what \<open>Get\<close> decodes from the stored JSON text.
\<close>

definition token_Insert :: "TokenState \<Rightarrow> token_table \<Rightarrow> token_table option" where
  "token_Insert state t =
     (if tbl_count (\<lambda>r. ts_Token r = ts_Token state) t > 0 then None
      else Some (t @ [state\<lparr>ts_Scope := map utf8_repair (ts_Scope state), ts_ConsumedAt := None\<rparr>]))"

definition token_Get :: "token_table \<Rightarrow> string \<Rightarrow> TokenState option" where
  "token_Get t token = tbl_first (\<lambda>r. ts_Token r = trim_space token) t"

definition unconsumed :: "string \<Rightarrow> TokenState \<Rightarrow> bool" where
  "unconsumed token r \<longleftrightarrow> ts_Token r = trim_space token \<and> ts_ConsumedAt r = None"

definition MarkConsumed :: "string \<Rightarrow> time \<Rightarrow> token_table \<Rightarrow> bool \<times> token_table" where
  "MarkConsumed token at t =
     (tbl_count (unconsumed token) t > 0,
      tbl_update (unconsumed token) (\<lambda>r. r\<lparr>ts_ConsumedAt := Some at\<rparr>) t)"

section \<open>The broker\<close>

abbreviation defaultTokenTTL :: duration where "defaultTokenTTL \<equiv> 2 * Minute"
abbreviation defaultMaxScope :: int where "defaultMaxScope \<equiv> 8"

record Broker =
  br_store :: token_table
  br_revoked :: "time gmap"
  br_defaultTTL :: duration
  br_maxScope :: int

text \<open>The store of the configuration is opened before; a restart opens the same table again.\<close>

definition NewBroker :: "duration \<Rightarrow> int \<Rightarrow> token_table \<Rightarrow> Broker" where
  "NewBroker ttl maxScope store =
     \<lparr>br_store = store, br_revoked = [],
      br_defaultTTL = (if ttl \<le> 0 then defaultTokenTTL else ttl),
      br_maxScope = (if maxScope \<le> 0 then defaultMaxScope else maxScope)\<rparr>"

fun normalize_scopes_loop :: "string list \<Rightarrow> string list \<Rightarrow> string list" where
  "normalize_scopes_loop out [] = out"
| "normalize_scopes_loop out (raw # rest) =
     (let scope = trim_space raw in
      if scope = [] \<or> scope \<in> set out then normalize_scopes_loop out rest
      else normalize_scopes_loop (out @ [scope]) rest)"

definition normalizeScopes :: "string list \<Rightarrow> string list" where
  "normalizeScopes ins = normalize_scopes_loop [] ins"

definition hasScope :: "string list \<Rightarrow> string \<Rightarrow> bool" where
  "hasScope scopes scope = list_ex (\<lambda>granted. trim_space granted = trim_space scope) scopes"

definition state_claims :: "TokenState \<Rightarrow> Claims" where
  "state_claims st =
     \<lparr>cl_RunID = ts_JobID st, cl_ProbeID = ts_RunnerID st, cl_Audience = ts_Audience st,
      cl_Scopes = ts_Scope st, cl_IssuedAt = ts_IssuedAt st, cl_ExpiresAt = ts_ExpiresAt st,
      cl_Issuer = ts_Issuer st, cl_SessionID = ts_SessionID st\<rparr>"

definition state_event :: "token_event_type \<Rightarrow> TokenState \<Rightarrow> string \<Rightarrow> time \<Rightarrow> token_Event" where
  "state_event ty st reason used =
     \<lparr>te_Type = ty, te_Token = ts_Token st, te_RunID = ts_JobID st, te_ProbeID = ts_RunnerID st,
      te_Audience = ts_Audience st, te_Scopes = ts_Scope st, te_Issuer = ts_Issuer st,
      te_SessionID = ts_SessionID st, te_Reason = reason, te_IssuedAt = ts_IssuedAt st,
      te_ExpiresAt = ts_ExpiresAt st, te_UsedAt = used\<rparr>"

definition emitReject :: "ValidateRequest \<Rightarrow> TokenState option \<Rightarrow> string \<Rightarrow> token_Event" where
  "emitReject req state reason =
     (case state of
        None \<Rightarrow>
          \<lparr>te_Type = EventTokenReject, te_Token = trim_space (vr_Token req),
           te_RunID = trim_space (vr_RunID req), te_ProbeID = trim_space (vr_ProbeID req),
           te_Audience = trim_space (vr_Audience req), te_Scopes = [], te_Issuer = [],
           te_SessionID = trim_space (vr_SessionID req), te_Reason = trim_space reason,
           te_IssuedAt = zero_time, te_ExpiresAt = zero_time, te_UsedAt = zero_time\<rparr>
      | Some st \<Rightarrow>
          state_event EventTokenReject st (trim_space reason)
            (case ts_ConsumedAt st of None \<Rightarrow> zero_time | Some t \<Rightarrow> t))"

section \<open>Issuing\<close>

definition maxAttempts :: nat where "maxAttempts = 5"

text \<open>
  The loop of \<open>Issue\<close> over the results \<open>gen\<close> of the generator, of which it uses at most
  \<open>maxAttempts\<close>: a generated token that exists already is tried again.
\<close>

fun issue_attempts ::
  "(string + string) list \<Rightarrow> TokenState \<Rightarrow> token_table \<Rightarrow> (token_error + TokenState) \<times> token_table" where
  "issue_attempts [] st t = (Err ErrCollisions, t)"
| "issue_attempts (Inl e # gen) st t = (Err (ErrGenerateToken e), t)"
| "issue_attempts (Inr generated # gen) st t =
     (let token = trim_space generated in
      if token = [] then (Err ErrEmptyToken, t)
      else (case token_Insert (st\<lparr>ts_Token := token\<rparr>) t of
              Some t' \<Rightarrow> (Ok (st\<lparr>ts_Token := token\<rparr>), t')
            | None \<Rightarrow> issue_attempts gen st t))"

definition Issue ::
  "time \<Rightarrow> (nat \<Rightarrow> string + string) \<Rightarrow> IssueRequest \<Rightarrow> Broker \<Rightarrow>
   (token_error + broker_IssuedToken) \<times> token_Event list \<times> Broker" where
  "Issue now gen req b =
     (let runID = trim_space (ir_RunID req); probeID = trim_space (ir_ProbeID req);
          issuer = trim_space (ir_Issuer req); sessionID = trim_space (ir_SessionID req);
          audience = trim_space (ir_Audience req); scopes = normalizeScopes (ir_Scopes req);
          ttl = (if ir_TTL req \<le> 0 then br_defaultTTL b else ir_TTL req) in
      if runID = [] then (Err ErrRunIDRequired, [], b)
      else if probeID = [] then (Err ErrProbeIDRequired, [], b)
      else if issuer = [] then (Err ErrIssuerRequired, [], b)
      else if sessionID = [] then (Err ErrSessionMismatch, [], b)
      else if audience = [] then (Err ErrTokenAudienceRequired, [], b)
      else if scopes = [] then (Err ErrScopesRequired, [], b)
      else if int (length scopes) > br_maxScope b
      then (Err (ErrScopeLimitExceeded (length scopes) (br_maxScope b)), [], b)
      else if \<not> hasScope scopes audience then (Err (ErrScopeRejected audience), [], b)
      else (case issue_attempts (map gen [0..<maxAttempts])
                   \<lparr>ts_Token = [], ts_Scope = scopes, ts_Audience = audience, ts_RunnerID = probeID,
                    ts_JobID = runID, ts_Issuer = issuer, ts_SessionID = sessionID,
                    ts_IssuedAt = now, ts_ExpiresAt = now + ttl, ts_ConsumedAt = None\<rparr> (br_store b) of
              (Err e, t) \<Rightarrow> (Err e, [], b\<lparr>br_store := t\<rparr>)
            | (Ok st, t) \<Rightarrow>
                (Ok \<lparr>it_Token = ts_Token st, it_Claims = state_claims st\<rparr>,
                 [state_event EventTokenIssued st [] zero_time], b\<lparr>br_store := t\<rparr>)))"

section \<open>Validation and revocation\<close>

text \<open>The checks of \<open>Validate\<close> on a live token: the reason of the event and the error.\<close>

definition binding_check :: "ValidateRequest \<Rightarrow> TokenState \<Rightarrow> (string \<times> token_error) option" where
  "binding_check req st =
     (let scope = trim_space (vr_Scope req); audience = trim_space (vr_Audience req);
          runID = trim_space (vr_RunID req); probeID = trim_space (vr_ProbeID req);
          sessionID = trim_space (vr_SessionID req) in
      if \<not> hasScope (ts_Scope st) scope then Some (''scope_mismatch'', ErrScopeRejected scope)
      else if audience \<noteq> [] \<and> audience \<noteq> trim_space (ts_Audience st)
      then Some (''audience_mismatch'', ErrAudienceMismatch (trim_space (ts_Audience st)))
      else if runID \<noteq> [] \<and> runID \<noteq> trim_space (ts_JobID st)
      then Some (''run_binding_mismatch'', ErrBindingMismatch ''run_id'' (ts_JobID st))
      else if probeID \<noteq> [] \<and> probeID \<noteq> trim_space (ts_RunnerID st)
      then Some (''probe_binding_mismatch'', ErrBindingMismatch ''probe_id'' (ts_RunnerID st))
      else if trim_space (ts_SessionID st) \<noteq> [] \<and> trim_space (ts_SessionID st) \<noteq> sessionID
      then Some (''session_mismatch'', ErrSessionMismatch)
      else None)"

definition consume_step ::
  "time \<Rightarrow> ValidateRequest \<Rightarrow> TokenState \<Rightarrow> Broker \<Rightarrow> (token_error + Claims) \<times> token_Event list \<times> Broker" where
  "consume_step now req st b =
     (case MarkConsumed (trim_space (vr_Token req)) now (br_store b) of
        (updated, t) \<Rightarrow>
          if \<not> updated
          then (Err ErrTokenConsumed, [emitReject req (Some st) ''token_consumed''], b\<lparr>br_store := t\<rparr>)
          else (Ok (state_claims st), [state_event EventTokenUsed st [] now], b\<lparr>br_store := t\<rparr>))"

definition Validate ::
  "time \<Rightarrow> ValidateRequest \<Rightarrow> Broker \<Rightarrow> (token_error + Claims) \<times> token_Event list \<times> Broker" where
  "Validate now req b =
     (let token = trim_space (vr_Token req) in
      if token = [] then (Err ErrTokenRequired, [], b)
      else if trim_space (vr_Scope req) = [] then (Err ErrScopeRequired, [], b)
      else (case token_Get (br_store b) token of
              None \<Rightarrow> (Err ErrTokenInvalid, [emitReject req None ''invalid_token''], b)
            | Some st \<Rightarrow>
                (case gget (br_revoked b) token of
                   Some revokedAt \<Rightarrow>
                     (Err ErrTokenRevoked, [state_event EventTokenReject st ''revoked'' revokedAt], b)
                 | None \<Rightarrow>
                     if ts_ConsumedAt st \<noteq> None \<and> vr_Consume req
                     then (Err ErrTokenConsumed, [emitReject req (Some st) ''token_consumed''], b)
                     else if now > ts_ExpiresAt st
                     then (Err ErrTokenExpired, [state_event EventTokenExpire st ''expired'' now],
                           b\<lparr>br_store := snd (MarkConsumed token now (br_store b))\<rparr>)
                     else (case binding_check req st of
                             Some (reason, e) \<Rightarrow> (Err e, [emitReject req (Some st) reason], b)
                           | None \<Rightarrow>
                               if vr_Consume req then consume_step now req st b
                               else (Ok (state_claims st), [], b)))))"

definition Revoke :: "time \<Rightarrow> string \<Rightarrow> Broker \<Rightarrow> token_error option \<times> token_Event list \<times> Broker" where
  "Revoke now raw b =
     (let token = trim_space raw in
      if token = [] then (Some ErrTokenRequired, [], b)
      else (case token_Get (br_store b) token of
              None \<Rightarrow> (Some ErrTokenInvalid, [], b)
            | Some st \<Rightarrow>
                (None, [state_event EventTokenReject st ''revoked'' now],
                 b\<lparr>br_revoked := gput token now (br_revoked b),
                   br_store := snd (MarkConsumed token now (br_store b))\<rparr>)))"

section \<open>Tokens of the sandbox tools\<close>

abbreviation ScopeMCPSandbox :: string where "ScopeMCPSandbox \<equiv> ''mcp:sandbox''"
abbreviation AudienceMCPSandbox :: string where "AudienceMCPSandbox \<equiv> ''mcp''"

text \<open>The error without a constructor of the broker is the missing token of the tool itself.\<close>

definition validateSandboxToken ::
  "time \<Rightarrow> string \<Rightarrow> string \<Rightarrow> Broker \<Rightarrow> (token_error + Claims) \<times> token_Event list \<times> Broker" where
  "validateSandboxToken now token sessionID b =
     (if trim_space token = [] then (Err ErrTokenRequired, [], b)
      else Validate now
        \<lparr>vr_Token = trim_space token, vr_Scope = ScopeMCPSandbox, vr_Audience = AudienceMCPSandbox,
         vr_RunID = [], vr_ProbeID = [], vr_SessionID = trim_space sessionID, vr_Consume = False\<rparr> b)"

section \<open>Histories\<close>

text \<open>
  The operations of a broker; a restart opens the table with a new broker. \<open>spent\<close> says that
  the row of a token is marked as consumed, and \<open>consumes\<close> that an operation is a validation
  that consumes it and succeeds.
\<close>

datatype broker_op =
    OpIssue time "nat \<Rightarrow> string + string" IssueRequest
  | OpValidate time ValidateRequest
  | OpRevoke time string
  | OpRestart duration int

fun broker_exec :: "broker_op \<Rightarrow> Broker \<Rightarrow> Broker" where
  "broker_exec (OpIssue now gen req) b = snd (snd (Issue now gen req b))"
| "broker_exec (OpValidate now req) b = snd (snd (Validate now req b))"
| "broker_exec (OpRevoke now token) b = snd (snd (Revoke now token b))"
| "broker_exec (OpRestart ttl maxScope) b = NewBroker ttl maxScope (br_store b)"

definition spent :: "Broker \<Rightarrow> string \<Rightarrow> bool" where
  "spent b token = (case token_Get (br_store b) token of None \<Rightarrow> False | Some st \<Rightarrow> ts_ConsumedAt st \<noteq> None)"

fun consumes :: "broker_op \<Rightarrow> Broker \<Rightarrow> string \<Rightarrow> bool" where
  "consumes (OpValidate now req) b token \<longleftrightarrow>
     vr_Consume req \<and> trim_space (vr_Token req) = token \<and> isl (fst (Validate now req b)) = False"
| "consumes _ b token \<longleftrightarrow> False"

definition is_restart :: "broker_op \<Rightarrow> bool" where
  "is_restart p = (case p of OpRestart _ _ \<Rightarrow> True | _ \<Rightarrow> False)"

definition demo_issue :: IssueRequest where
  "demo_issue =
     \<lparr>ir_RunID = ''job'', ir_ProbeID = ''run'', ir_Audience = ''mcp'', ir_Scopes = ['' mcp'', ''mcp:sandbox'', ''mcp''],
      ir_Issuer = ''ann'', ir_SessionID = ''s1'', ir_TTL = 0\<rparr>"

definition demo_validate :: ValidateRequest where
  "demo_validate =
     \<lparr>vr_Token = ''tok '', vr_Scope = ''mcp:sandbox'', vr_Audience = ''mcp'', vr_RunID = [], vr_ProbeID = ''run'',
      vr_SessionID = ''s1'', vr_Consume = True\<rparr>"

definition demo_broker :: Broker where
  "demo_broker = broker_exec (OpIssue 5 (\<lambda>i. Inr ''tok'') demo_issue) (NewBroker 0 0 [])"

section \<open>Lemmas\<close>

text \<open>What each statement does to the row of one token.\<close>

lemma token_Get_insert:
  "token_Insert st t = Some t' \<Longrightarrow>
   token_Get t' k = (case token_Get t k of Some r \<Rightarrow> Some r
     | None \<Rightarrow> if ts_Token st = trim_space k
               then Some (st\<lparr>ts_Scope := map utf8_repair (ts_Scope st), ts_ConsumedAt := None\<rparr>) else None)"
  by (auto simp: token_Insert_def token_Get_def tbl_first_append split: if_splits option.split)

lemma token_Get_mark:
  "token_Get (snd (MarkConsumed token at t)) k =
   map_option (\<lambda>r. if unconsumed token r then r\<lparr>ts_ConsumedAt := Some at\<rparr> else r) (token_Get t k)"
  by (simp add: token_Get_def MarkConsumed_def tbl_first_update [where key = ts_Token])

lemma token_Get_token: "token_Get t k = Some r \<Longrightarrow> ts_Token r = trim_space k"
  unfolding token_Get_def by (drule tbl_firstD) simp

lemma token_Get_trim [simp]: "token_Get t (trim_space k) = token_Get t k"
  by (simp add: token_Get_def)

lemma mark_updates: "token_Get t k = Some r \<Longrightarrow> ts_ConsumedAt r = None \<Longrightarrow> fst (MarkConsumed k at t)"
  using tbl_firstD [of "\<lambda>r. ts_Token r = trim_space k" t r]
  by (auto simp: MarkConsumed_def token_Get_def unconsumed_def tbl_count_def filter_empty_conv)

text \<open>The attempts of an issue: one row is added, under a token that had none.\<close>

lemma issue_attempts_ok:
  "issue_attempts gens st t = (Ok r, t') \<Longrightarrow>
   token_Get t (ts_Token r) = None \<and> token_Insert r t = Some t' \<and> r = st\<lparr>ts_Token := ts_Token r\<rparr> \<and>
   trim_space (ts_Token r) = ts_Token r \<and> ts_Token r \<noteq> []"
proof (induction gens st t rule: issue_attempts.induct)
  case (3 generated gen st t)
  show ?case
  proof (cases "token_Insert (st\<lparr>ts_Token := trim_space generated\<rparr>) t")
    case None
    with 3 show ?thesis by (auto simp: Let_def split: if_splits)
  next
    case (Some u)
    with 3(2) have "trim_space generated \<noteq> []" "r = st\<lparr>ts_Token := trim_space generated\<rparr>" "t' = u"
      by (auto simp: Let_def split: if_splits)
    with Some show ?thesis
      by (auto simp: token_Insert_def token_Get_def tbl_first_None tbl_count_0 split: if_splits)
  qed
qed auto

lemma issue_attempts_err: "issue_attempts gens st t = (Err e, t') \<Longrightarrow> t' = t"
  by (induction gens st t rule: issue_attempts.induct) (auto simp: Let_def split: if_splits option.splits)

lemma Issue_ok:
  assumes "Issue now gen req b = (Ok it, ev, b')"
  shows "\<exists>r t. issue_attempts (map gen [0..<maxAttempts])
      \<lparr>ts_Token = [], ts_Scope = normalizeScopes (ir_Scopes req), ts_Audience = trim_space (ir_Audience req),
       ts_RunnerID = trim_space (ir_ProbeID req), ts_JobID = trim_space (ir_RunID req),
       ts_Issuer = trim_space (ir_Issuer req), ts_SessionID = trim_space (ir_SessionID req),
       ts_IssuedAt = now, ts_ExpiresAt = now + (if ir_TTL req \<le> 0 then br_defaultTTL b else ir_TTL req),
       ts_ConsumedAt = None\<rparr> (br_store b) = (Ok r, t) \<and>
    it = \<lparr>it_Token = ts_Token r, it_Claims = state_claims r\<rparr> \<and> b' = b\<lparr>br_store := t\<rparr> \<and>
    trim_space (ir_SessionID req) \<noteq> [] \<and>
    hasScope (normalizeScopes (ir_Scopes req)) (trim_space (ir_Audience req))"
  using assms unfolding Issue_def Let_def
  by (simp split: if_split_asm prod.split_asm sum.split_asm)

lemma Issue_err: "Issue now gen req b = (Err e, ev, b') \<Longrightarrow> b' = b"
  unfolding Issue_def Let_def
  by (auto split: if_split_asm prod.split_asm sum.split_asm dest: issue_attempts_err)

lemma Issue_ok_row:
  assumes "Issue now gen req b = (Ok it, ev, b')"
  shows "\<exists>r. token_Get (br_store b) (it_Token it) = None \<and> token_Insert r (br_store b) = Some (br_store b') \<and>
    it = \<lparr>it_Token = ts_Token r, it_Claims = state_claims r\<rparr> \<and> br_revoked b' = br_revoked b \<and>
    trim_space (ts_Token r) = ts_Token r \<and> ts_Token r \<noteq> [] \<and> trim_space (ts_SessionID r) \<noteq> []"
proof -
  obtain r t where a: "issue_attempts (map gen [0..<maxAttempts])
      \<lparr>ts_Token = [], ts_Scope = normalizeScopes (ir_Scopes req), ts_Audience = trim_space (ir_Audience req),
       ts_RunnerID = trim_space (ir_ProbeID req), ts_JobID = trim_space (ir_RunID req),
       ts_Issuer = trim_space (ir_Issuer req), ts_SessionID = trim_space (ir_SessionID req),
       ts_IssuedAt = now, ts_ExpiresAt = now + (if ir_TTL req \<le> 0 then br_defaultTTL b else ir_TTL req),
       ts_ConsumedAt = None\<rparr> (br_store b) = (Ok r, t)"
    and it: "it = \<lparr>it_Token = ts_Token r, it_Claims = state_claims r\<rparr>" "b' = b\<lparr>br_store := t\<rparr>"
    and s: "trim_space (ir_SessionID req) \<noteq> []"
    using Issue_ok [OF assms] by blast
  note ok = issue_attempts_ok [OF a]
  then have "ts_SessionID r = trim_space (ir_SessionID req)" by (metis TokenState.select_convs(7) TokenState.update_convs(1))
  with ok it s show ?thesis by auto
qed

text \<open>What a validation does to the table: nothing, or it marks the token as consumed.\<close>

lemma Validate_store:
  "br_store (snd (snd (Validate now req b))) = br_store b \<or>
   br_store (snd (snd (Validate now req b))) = snd (MarkConsumed (trim_space (vr_Token req)) now (br_store b))"
  by (simp add: Validate_def consume_step_def Let_def split: option.split prod.split)

lemma Validate_revoked [simp]: "br_revoked (snd (snd (Validate now req b))) = br_revoked b"
  by (simp add: Validate_def consume_step_def Let_def split: option.split prod.split)

lemma Validate_ok:
  assumes "fst (Validate now req b) = Ok c"
  shows "\<exists>st. token_Get (br_store b) (vr_Token req) = Some st \<and> c = state_claims st \<and>
    gget (br_revoked b) (trim_space (vr_Token req)) = None \<and> now \<le> ts_ExpiresAt st \<and>
    binding_check req st = None \<and> trim_space (vr_Token req) \<noteq> [] \<and> trim_space (vr_Scope req) \<noteq> [] \<and>
    (vr_Consume req \<longrightarrow> ts_ConsumedAt st = None \<and>
       br_store (snd (snd (Validate now req b))) = snd (MarkConsumed (trim_space (vr_Token req)) now (br_store b)))"
  using assms
  by (auto simp: Validate_def consume_step_def Let_def split: option.splits prod.splits if_splits)

lemma Validate_accepts:
  assumes "token_Get (br_store b) (vr_Token req) = Some st" "gget (br_revoked b) (trim_space (vr_Token req)) = None"
    "now \<le> ts_ExpiresAt st" "binding_check req st = None" "trim_space (vr_Token req) \<noteq> []"
    "trim_space (vr_Scope req) \<noteq> []" "vr_Consume req \<longrightarrow> ts_ConsumedAt st = None"
  shows "fst (Validate now req b) = Ok (state_claims st)"
  using assms mark_updates [of "br_store b" "trim_space (vr_Token req)" st now]
  by (auto simp: Validate_def consume_step_def Let_def split: option.splits prod.splits)

text \<open>The row of a token only changes by being consumed, and it appears when the token is issued.\<close>

lemma broker_exec_row:
  assumes "token_Get (br_store b) k = Some r"
  shows "\<exists>c. token_Get (br_store (broker_exec p b)) k = Some (r\<lparr>ts_ConsumedAt := c\<rparr>) \<and>
    (ts_ConsumedAt r \<noteq> None \<longrightarrow> c = ts_ConsumedAt r)"
proof -
  define P where "P t = (\<exists>c. token_Get t k = Some (r\<lparr>ts_ConsumedAt := c\<rparr>) \<and>
    (ts_ConsumedAt r \<noteq> None \<longrightarrow> c = ts_ConsumedAt r))" for t
  have same: "P t" if "token_Get t k = Some r" for t
    unfolding P_def by (rule exI [of _ "ts_ConsumedAt r"]) (simp add: that)
  have marked: "P (snd (MarkConsumed x t (br_store b)))" for x t
  proof (cases "unconsumed x r")
    case True
    then show ?thesis using assms by (auto simp: token_Get_mark unconsumed_def P_def)
  next
    case False
    then show ?thesis using assms by (intro same) (simp add: token_Get_mark)
  qed
  have "P (br_store (broker_exec p b))"
  proof (cases p)
    case (OpIssue now gen req)
    obtain res ev b' where i: "Issue now gen req b = (res, ev, b')" by (cases "Issue now gen req b")
    show ?thesis
    proof (cases res)
      case (Inl e)
      then have "b' = b" using Issue_err i by blast
      then show ?thesis using OpIssue assms same i by simp
    next
      case (Inr it)
      then obtain r' where "token_Insert r' (br_store b) = Some (br_store b')"
        using Issue_ok_row i by blast
      then show ?thesis using OpIssue i assms same by (simp add: token_Get_insert)
    qed
  next
    case (OpValidate now req)
    then show ?thesis using Validate_store [of now req b] assms same marked by auto
  next
    case (OpRevoke now token)
    then show ?thesis using assms same marked by (simp add: Revoke_def Let_def split: option.split)
  next
    case (OpRestart ttl maxScope)
    then show ?thesis using assms same by (simp add: NewBroker_def)
  qed
  then show ?thesis by (simp only: P_def)
qed

lemma broker_exec_new:
  assumes "token_Get (br_store b) k = None" "token_Get (br_store (broker_exec p b)) k = Some r"
  shows "\<exists>now gen req it. p = OpIssue now gen req \<and> fst (Issue now gen req b) = Ok it \<and>
    it_Token it = trim_space k \<and>
    state_claims r = (it_Claims it)\<lparr>cl_Scopes := map utf8_repair (cl_Scopes (it_Claims it))\<rparr> \<and>
    trim_space (ts_SessionID r) \<noteq> []"
proof (cases p)
  case (OpIssue now gen req)
  obtain res ev b' where i: "Issue now gen req b = (res, ev, b')" by (cases "Issue now gen req b")
  show ?thesis
  proof (cases res)
    case (Inl e)
    then have "b' = b" using Issue_err i by blast
    then show ?thesis using OpIssue assms i by simp
  next
    case (Inr it)
    then obtain r' where r': "token_Insert r' (br_store b) = Some (br_store b')"
        "it = \<lparr>it_Token = ts_Token r', it_Claims = state_claims r'\<rparr>" "trim_space (ts_SessionID r') \<noteq> []"
      using Issue_ok_row i by blast
    then have "ts_Token r' = trim_space k"
      and r: "r = r'\<lparr>ts_Scope := map utf8_repair (ts_Scope r'), ts_ConsumedAt := None\<rparr>"
      using OpIssue i assms by (auto simp: token_Get_insert split: if_splits)
    then show ?thesis using OpIssue i Inr r'(2,3) by (simp add: state_claims_def)
  qed
next
  case (OpValidate now req)
  then show ?thesis using Validate_store [of now req b] assms by (auto simp: token_Get_mark)
next
  case (OpRevoke now token)
  then show ?thesis using assms by (auto simp: Revoke_def Let_def token_Get_mark split: option.splits if_splits)
next
  case (OpRestart ttl maxScope)
  then show ?thesis using assms by (simp add: NewBroker_def)
qed

interpretation token: one_shot broker_exec spent consumes
proof
  show "spent (broker_exec p b) k" if "spent b k" for b k p
    using that broker_exec_row [of b k _ p] by (fastforce simp: spent_def split: option.splits)
  show "\<not> spent b k" if "consumes p b k" for p b k
  proof (cases p)
    case (OpValidate now req)
    with that obtain c where "fst (Validate now req b) = Ok c" by (cases "fst (Validate now req b)") auto
    from Validate_ok [OF this] show ?thesis using that OpValidate by (auto simp: spent_def)
  qed (use that in auto)
  show "spent (broker_exec p b) k" if "consumes p b k" for p b k
  proof (cases p)
    case (OpValidate now req)
    with that obtain c where "fst (Validate now req b) = Ok c" by (cases "fst (Validate now req b)") auto
    from Validate_ok [OF this] show ?thesis using that OpValidate token_Get_token [of "br_store b" "vr_Token req"]
      by (auto simp: spent_def token_Get_mark unconsumed_def)
  qed (use that in auto)
qed

lemma run_row:
  assumes "token_Get (br_store (fold broker_exec ops (NewBroker ttl ms []))) k = Some r"
  shows "\<exists>pre now gen req post it. ops = pre @ OpIssue now gen req # post \<and>
    fst (Issue now gen req (fold broker_exec pre (NewBroker ttl ms []))) = Ok it \<and> it_Token it = trim_space k \<and>
    state_claims r = (it_Claims it)\<lparr>cl_Scopes := map utf8_repair (cl_Scopes (it_Claims it))\<rparr> \<and>
    trim_space (ts_SessionID r) \<noteq> []"
  using assms
proof (induction ops arbitrary: r rule: rev_induct)
  case Nil
  then show ?case by (simp add: NewBroker_def token_Get_def tbl_first_def)
next
  case (snoc p ops)
  let ?b = "fold broker_exec ops (NewBroker ttl ms [])"
  show ?case
  proof (cases "token_Get (br_store ?b) k")
    case None
    from broker_exec_new [OF None, of p r] snoc.prems show ?thesis by force
  next
    case (Some r0)
    from broker_exec_row [OF Some, of p] snoc.prems obtain c where "r = r0\<lparr>ts_ConsumedAt := c\<rparr>" by auto
    then have "state_claims r = state_claims r0" "ts_SessionID r = ts_SessionID r0"
      by (simp_all add: state_claims_def)
    moreover obtain pre now gen req post it where ih: "ops = pre @ OpIssue now gen req # post"
      "fst (Issue now gen req (fold broker_exec pre (NewBroker ttl ms []))) = Ok it" "it_Token it = trim_space k"
      "state_claims r0 = (it_Claims it)\<lparr>cl_Scopes := map utf8_repair (cl_Scopes (it_Claims it))\<rparr>"
      "trim_space (ts_SessionID r0) \<noteq> []"
      using snoc.IH [OF Some] by blast
    ultimately show ?thesis
      by (intro exI [of _ pre] exI [of _ now] exI [of _ gen] exI [of _ req] exI [of _ "post @ [p]"] exI [of _ it]) simp
  qed
qed

lemma validate_refused: "\<not> consumes (OpValidate now req) b (trim_space (vr_Token req)) \<Longrightarrow> vr_Consume req \<Longrightarrow>
  \<exists>e. fst (Validate now req b) = Err e"
  by (cases "fst (Validate now req b)") simp_all

lemma Revoke_ok:
  assumes "fst (Revoke now token b) = None"
  shows "gget (br_revoked (broker_exec (OpRevoke now token) b)) (trim_space token) = Some now"
    and "spent (broker_exec (OpRevoke now token) b) (trim_space token)"
  using assms token_Get_token [of "br_store b" token]
  by (auto simp: Revoke_def Let_def gmap_simps spent_def token_Get_mark unconsumed_def split: option.splits if_splits)

lemma revoked_stays:
  assumes "gget (br_revoked b) k \<noteq> None" "\<not> is_restart p"
  shows "gget (br_revoked (broker_exec p b)) k \<noteq> None"
proof (cases p)
  case (OpIssue now gen req)
  obtain res ev b' where i: "Issue now gen req b = (res, ev, b')" by (cases "Issue now gen req b")
  have "br_revoked b' = br_revoked b"
    using i Issue_err [of now gen req b] Issue_ok_row [of now gen req b] by (cases res) blast+
  then show ?thesis using assms(1) OpIssue i by simp
next
  case (OpValidate now req)
  then show ?thesis using assms(1) by simp
next
  case (OpRevoke now token)
  then show ?thesis using assms(1) by (auto simp: Revoke_def Let_def gmap_simps split: option.split)
next
  case (OpRestart ttl ms)
  then show ?thesis using assms(2) by (simp add: is_restart_def)
qed

lemma run_revoked:
  "gget (br_revoked b) k \<noteq> None \<Longrightarrow> list_all (\<lambda>p. \<not> is_restart p) ps \<Longrightarrow>
   gget (br_revoked (fold broker_exec ps b)) k \<noteq> None"
  by (induction ps arbitrary: b) (use revoked_stays in auto)

lemma binding_check_None:
  "binding_check req st = None \<longleftrightarrow>
   hasScope (ts_Scope st) (vr_Scope req) \<and>
   trim_space (vr_Audience req) \<in> {[], trim_space (ts_Audience st)} \<and>
   trim_space (vr_RunID req) \<in> {[], trim_space (ts_JobID st)} \<and>
   trim_space (vr_ProbeID req) \<in> {[], trim_space (ts_RunnerID st)} \<and>
   trim_space (ts_SessionID st) \<in> {[], trim_space (vr_SessionID req)}"
  by (auto simp: binding_check_def Let_def hasScope_def split: if_splits)

section \<open>Properties\<close>

text \<open>
  Property C29. A token is consumed at most once: after a validation that consumes a token has
  succeeded, every further one on this token fails, whatever is issued, validated, revoked or
  restarted in between.
\<close>

theorem token_used_once:
  assumes "fst (Validate t1 r1 b) = Ok c" "vr_Consume r1"
    and "trim_space (vr_Token r2) = trim_space (vr_Token r1)" "vr_Consume r2"
  shows "\<exists>e. fst (Validate t2 r2 (fold broker_exec ops (broker_exec (OpValidate t1 r1) b))) = Err e"
proof -
  have "consumes (OpValidate t1 r1) b (trim_space (vr_Token r2))" using assms by simp
  from token.used_once [OF this, of "OpValidate t2 r2" ops] show ?thesis
    using assms(4) by (rule validate_refused)
qed

theorem token_used_once_witness:
  "\<exists>e. fst (Validate 9 demo_validate
     (fold broker_exec [OpRestart 0 0, OpIssue 7 (\<lambda>i. Inr ''tok'') demo_issue]
       (broker_exec (OpValidate 6 demo_validate) demo_broker))) = Err e"
proof -
  have "\<not> isl (fst (Validate 6 demo_validate demo_broker))" by code_simp
  then obtain c where "fst (Validate 6 demo_validate demo_broker) = Ok c" by (rule ok_result)
  then show ?thesis by (rule token_used_once) (simp_all add: demo_validate_def)
qed

lemma grant_issued:
  assumes "fst (Validate now req (fold broker_exec ops (NewBroker ttl ms []))) = Ok c"
  shows "\<exists>pre t gen ir post it. ops = pre @ OpIssue t gen ir # post \<and>
    fst (Issue t gen ir (fold broker_exec pre (NewBroker ttl ms []))) = Ok it \<and>
    it_Token it = trim_space (vr_Token req) \<and>
    c = (it_Claims it)\<lparr>cl_Scopes := map utf8_repair (cl_Scopes (it_Claims it))\<rparr> \<and>
    now \<le> cl_ExpiresAt c \<and> hasScope (cl_Scopes c) (vr_Scope req) \<and>
    trim_space (vr_Audience req) \<in> {[], trim_space (cl_Audience c)} \<and>
    trim_space (vr_RunID req) \<in> {[], trim_space (cl_RunID c)} \<and>
    trim_space (vr_ProbeID req) \<in> {[], trim_space (cl_ProbeID c)} \<and>
    trim_space (vr_SessionID req) = trim_space (cl_SessionID c)"
proof -
  let ?b = "fold broker_exec ops (NewBroker ttl ms [])"
  obtain st where st: "token_Get (br_store ?b) (vr_Token req) = Some st" "c = state_claims st"
    "now \<le> ts_ExpiresAt st" "binding_check req st = None"
    using Validate_ok [OF assms] by blast
  obtain pre t gen ir post it where i: "ops = pre @ OpIssue t gen ir # post"
    "fst (Issue t gen ir (fold broker_exec pre (NewBroker ttl ms []))) = Ok it"
    "it_Token it = trim_space (vr_Token req)"
    "state_claims st = (it_Claims it)\<lparr>cl_Scopes := map utf8_repair (cl_Scopes (it_Claims it))\<rparr>"
    and s: "trim_space (ts_SessionID st) \<noteq> []"
    using run_row [OF st(1)] by blast
  have "now \<le> cl_ExpiresAt c \<and> hasScope (cl_Scopes c) (vr_Scope req) \<and>
    trim_space (vr_Audience req) \<in> {[], trim_space (cl_Audience c)} \<and>
    trim_space (vr_RunID req) \<in> {[], trim_space (cl_RunID c)} \<and>
    trim_space (vr_ProbeID req) \<in> {[], trim_space (cl_ProbeID c)} \<and>
    trim_space (vr_SessionID req) = trim_space (cl_SessionID c)"
    using st s by (auto simp: binding_check_None state_claims_def)
  with i st(2) show ?thesis by metis
qed

text \<open>
  Property C30. A token grants what it was issued for. Whenever a validation succeeds in the history
  of a broker, an earlier \<open>Issue\<close> of this history returned the token, the claims are those it
  returned (the scopes as JSON keeps them), the token has not expired, and the scope and every
  binding of the request match the claims.
\<close>

theorem token_grants_as_issued:
  assumes "fst (Validate now req (fold broker_exec ops (NewBroker ttl ms []))) = Ok c"
  shows "\<exists>pre t gen ir post it. ops = pre @ OpIssue t gen ir # post \<and>
    fst (Issue t gen ir (fold broker_exec pre (NewBroker ttl ms []))) = Ok it \<and>
    it_Token it = trim_space (vr_Token req) \<and>
    c = (it_Claims it)\<lparr>cl_Scopes := map utf8_repair (cl_Scopes (it_Claims it))\<rparr> \<and>
    now \<le> cl_ExpiresAt c \<and> hasScope (cl_Scopes c) (vr_Scope req) \<and>
    trim_space (vr_Audience req) \<in> {[], trim_space (cl_Audience c)} \<and>
    trim_space (vr_RunID req) \<in> {[], trim_space (cl_RunID c)} \<and>
    trim_space (vr_ProbeID req) \<in> {[], trim_space (cl_ProbeID c)} \<and>
    trim_space (vr_SessionID req) = trim_space (cl_SessionID c)"
  using assms by (rule grant_issued)

theorem token_grants_as_issued_witness:
  "\<exists>c. fst (Validate 6 demo_validate
     (fold broker_exec [OpIssue 5 (\<lambda>i. Inr ''tok'') demo_issue] (NewBroker 0 0 []))) = Ok c \<and>
   6 \<le> cl_ExpiresAt c"
proof -
  have "\<not> isl (fst (Validate 6 demo_validate
     (fold broker_exec [OpIssue 5 (\<lambda>i. Inr ''tok'') demo_issue] (NewBroker 0 0 []))))"
    by code_simp
  then obtain c where "fst (Validate 6 demo_validate
     (fold broker_exec [OpIssue 5 (\<lambda>i. Inr ''tok'') demo_issue] (NewBroker 0 0 []))) = Ok c"
    by (rule ok_result)
  then show ?thesis using token_grants_as_issued by blast
qed


lemma hasScope_valid:
  "list_all utf8_valid scopes \<Longrightarrow> hasScope (map utf8_repair scopes) s \<longleftrightarrow> hasScope scopes s"
  by (induction scopes) (auto simp: hasScope_def repair_valid)

text \<open>
  An issued token works. A validation of a token just issued succeeds, and returns the
  claims of the issue, for every scope granted (the scopes are valid UTF-8), every audience, run
  and probe that is empty or the one it was issued for, its session, and every time up to its
  expiry; the expiry is the requested time to live after the issue, or the default one.
\<close>

lemma issued_token_validates:
  assumes "Issue t gen ir b = (Ok it, ev, b')" and "gget (br_revoked b) (it_Token it) = None"
    and "trim_space (vr_Token req) = it_Token it" "list_all utf8_valid (cl_Scopes (it_Claims it))"
    and "trim_space (vr_Scope req) \<noteq> []" "hasScope (cl_Scopes (it_Claims it)) (vr_Scope req)"
    and "trim_space (vr_Audience req) \<in> {[], trim_space (ir_Audience ir)}"
    and "trim_space (vr_RunID req) \<in> {[], trim_space (ir_RunID ir)}"
    and "trim_space (vr_ProbeID req) \<in> {[], trim_space (ir_ProbeID ir)}"
    and "trim_space (vr_SessionID req) = trim_space (ir_SessionID ir)"
    and "now \<le> t + (if ir_TTL ir \<le> 0 then br_defaultTTL b else ir_TTL ir)"
  shows "fst (Validate now req b') = Ok (it_Claims it)"
proof -
  obtain r u where a: "issue_attempts (map gen [0..<maxAttempts])
      \<lparr>ts_Token = [], ts_Scope = normalizeScopes (ir_Scopes ir), ts_Audience = trim_space (ir_Audience ir),
       ts_RunnerID = trim_space (ir_ProbeID ir), ts_JobID = trim_space (ir_RunID ir),
       ts_Issuer = trim_space (ir_Issuer ir), ts_SessionID = trim_space (ir_SessionID ir),
       ts_IssuedAt = t, ts_ExpiresAt = t + (if ir_TTL ir \<le> 0 then br_defaultTTL b else ir_TTL ir),
       ts_ConsumedAt = None\<rparr> (br_store b) = (Ok r, u)"
    and it: "it = \<lparr>it_Token = ts_Token r, it_Claims = state_claims r\<rparr>" "b' = b\<lparr>br_store := u\<rparr>"
    using Issue_ok [OF assms(1)] by blast
  note ok = issue_attempts_ok [OF a]
  obtain k where r: "r = \<lparr>ts_Token = k, ts_Scope = normalizeScopes (ir_Scopes ir),
       ts_Audience = trim_space (ir_Audience ir),
       ts_RunnerID = trim_space (ir_ProbeID ir), ts_JobID = trim_space (ir_RunID ir),
       ts_Issuer = trim_space (ir_Issuer ir), ts_SessionID = trim_space (ir_SessionID ir),
       ts_IssuedAt = t, ts_ExpiresAt = t + (if ir_TTL ir \<le> 0 then br_defaultTTL b else ir_TTL ir),
       ts_ConsumedAt = None\<rparr>"
    using ok by (metis TokenState.update_convs(1))
  have valid: "list_all utf8_valid (ts_Scope r)" using assms(4) it(1) by (simp add: state_claims_def)
  then have same: "r\<lparr>ts_Scope := map utf8_repair (ts_Scope r), ts_ConsumedAt := None\<rparr> = r"
    unfolding r by (simp add: list_all_iff repair_valid map_idI)
  have "token_Get u (ts_Token r) = Some r"
    using ok token_Get_insert [of r "br_store b" u "ts_Token r"] same by simp
  moreover have "token_Get u (vr_Token req) = token_Get u (ts_Token r)"
    using assms(3) it(1) by (metis broker_IssuedToken.select_convs(1) token_Get_trim)
  ultimately have "token_Get (br_store b') (vr_Token req) = Some r" using it(2) by simp
  moreover have "hasScope (ts_Scope r) (vr_Scope req)"
    using assms(6) it(1) by (simp add: state_claims_def)
  then have "binding_check req r = None"
    using assms(7-10) by (simp add: binding_check_None r)
  ultimately have "fst (Validate now req b') = Ok (state_claims r)"
    using assms(2,3,5,11) ok it by (intro Validate_accepts) (simp_all add: r)
  then show ?thesis using it(1) by simp
qed

lemma issued_token_validates_witness:
  "fst (Validate 120000000005 demo_validate
      (snd (snd (Issue 5 (\<lambda>i. Inr ''tok'') demo_issue (NewBroker 0 0 []))))) =
   map_sum id it_Claims (fst (Issue 5 (\<lambda>i. Inr ''tok'') demo_issue (NewBroker 0 0 [])))"
proof -
  let ?b = "NewBroker 0 0 []"
  have "\<not> isl (fst (Issue 5 (\<lambda>i. Inr ''tok'') demo_issue ?b))" by code_simp
  then obtain it where it: "fst (Issue 5 (\<lambda>i. Inr ''tok'') demo_issue ?b) = Ok it" by (rule ok_result)
  have "it_Token (projr (fst (Issue 5 (\<lambda>i. Inr ''tok'') demo_issue ?b))) = ''tok''"
    "cl_Scopes (it_Claims (projr (fst (Issue 5 (\<lambda>i. Inr ''tok'') demo_issue ?b)))) = [''mcp'', ''mcp:sandbox'']"
    by code_simp+
  then have f: "it_Token it = ''tok''" "cl_Scopes (it_Claims it) = [''mcp'', ''mcp:sandbox'']" by (simp_all add: it)
  obtain ev b' where i: "Issue 5 (\<lambda>i. Inr ''tok'') demo_issue ?b = (Ok it, ev, b')"
    using it by (metis prod.collapse)
  have t: "trim_space ''tok '' = ''tok''" "list_all utf8_valid [''mcp'', ''mcp:sandbox'']"
    "trim_space ''mcp:sandbox'' \<noteq> []" "hasScope [''mcp'', ''mcp:sandbox''] ''mcp:sandbox''"
    by code_simp+
  have "fst (Validate 120000000005 demo_validate b') = Ok (it_Claims it)"
    using t by (intro issued_token_validates [OF i])
      (simp_all add: f NewBroker_def demo_validate_def demo_issue_def Minute_def Second_def)
  then show ?thesis by (simp add: i)
qed

text \<open>
  A revoked token is refused: after a successful \<open>Revoke\<close> every validation that
  would consume the token fails for good, and every validation of it fails until the broker is
  restarted.
\<close>

lemma revoked_token_refused:
  assumes "fst (Revoke t raw b) = None" "trim_space (vr_Token req) = trim_space raw"
    and "vr_Consume req \<or> list_all (\<lambda>p. \<not> is_restart p) ops"
  shows "\<exists>e. fst (Validate now req (fold broker_exec ops (broker_exec (OpRevoke t raw) b))) = Err e"
proof (cases "vr_Consume req")
  case True
  have "\<not> consumes (OpValidate now req) (fold broker_exec ops (broker_exec (OpRevoke t raw) b))
      (trim_space (vr_Token req))"
    using token.spent_unused [OF Revoke_ok(2) [OF assms(1)]] assms(2) by simp
  then show ?thesis using True by (rule validate_refused)
next
  case False
  then have "gget (br_revoked (fold broker_exec ops (broker_exec (OpRevoke t raw) b))) (trim_space raw) \<noteq> None"
    using assms(3) Revoke_ok(1) [OF assms(1)] by (intro run_revoked) simp_all
  then show ?thesis using assms(2) Validate_ok
    by (cases "fst (Validate now req (fold broker_exec ops (broker_exec (OpRevoke t raw) b)))") fastforce+
qed

lemma revoked_token_refused_witness:
  "\<exists>e. fst (Validate 9 demo_validate
     (fold broker_exec [OpRestart 0 0] (broker_exec (OpRevoke 6 ''tok'') demo_broker))) = Err e"
  by (rule revoked_token_refused) code_simp+

text \<open>
  The list of revocations is not stored: a token that validates without being consumed
  validates again, with the same claims, after it has been revoked and the broker restarted on its
  table, although the revocation succeeded.
\<close>

lemma revocation_lost_on_restart:
  assumes "fst (Validate now req b) = Ok c" "\<not> vr_Consume req"
  shows "fst (Revoke t (vr_Token req) b) = None \<and>
    fst (Validate now req (fold broker_exec [OpRevoke t (vr_Token req), OpRestart ttl ms] b)) = Ok c"
proof -
  obtain st where st: "token_Get (br_store b) (vr_Token req) = Some st" "c = state_claims st"
    "now \<le> ts_ExpiresAt st" "binding_check req st = None" "trim_space (vr_Token req) \<noteq> []"
    "trim_space (vr_Scope req) \<noteq> []"
    using Validate_ok [OF assms(1)] by blast
  let ?b = "broker_exec (OpRevoke t (vr_Token req)) b"
  have r: "fst (Revoke t (vr_Token req) b) = None" using st by (simp add: Revoke_def Let_def)
  obtain x where row: "token_Get (br_store ?b) (vr_Token req) = Some (st\<lparr>ts_ConsumedAt := x\<rparr>)"
    using broker_exec_row [OF st(1)] by blast
  have "binding_check req (st\<lparr>ts_ConsumedAt := x\<rparr>) = None"
    using st(4) by (simp add: binding_check_None)
  then have "fst (Validate now req (NewBroker ttl ms (br_store ?b))) = Ok (state_claims (st\<lparr>ts_ConsumedAt := x\<rparr>))"
    using row st assms(2) by (intro Validate_accepts) (simp_all add: NewBroker_def)
  then show ?thesis using r st(2) by (simp add: state_claims_def)
qed

lemma revocation_lost_on_restart_witness:
  "\<exists>c. fst (Validate 7 (demo_validate\<lparr>vr_Consume := False\<rparr>)
     (fold broker_exec [OpRevoke 6 ''tok '', OpRestart 0 0] demo_broker)) = Ok c"
proof -
  have "\<not> isl (fst (Validate 7 (demo_validate\<lparr>vr_Consume := False\<rparr>) demo_broker))" by code_simp
  then obtain c where "fst (Validate 7 (demo_validate\<lparr>vr_Consume := False\<rparr>) demo_broker) = Ok c"
    by (rule ok_result)
  from revocation_lost_on_restart [OF this, of 6 0 0] show ?thesis by (auto simp: demo_validate_def)
qed

text \<open>
  The sandbox tools accept no token without a session id: in the history of a broker,
  \<open>validateSandboxToken\<close> with an empty session id never succeeds, since every token has a session.
\<close>

lemma sandbox_token_needs_session:
  assumes "trim_space sessionID = []"
  shows "isl (fst (validateSandboxToken now token sessionID (fold broker_exec ops (NewBroker ttl ms []))))"
proof (rule ccontr)
  let ?b = "fold broker_exec ops (NewBroker ttl ms [])"
  assume "\<not> ?thesis"
  then obtain c where c: "fst (validateSandboxToken now token sessionID ?b) = Ok c" by (rule ok_result)
  let ?req = "\<lparr>vr_Token = trim_space token, vr_Scope = ScopeMCPSandbox, vr_Audience = AudienceMCPSandbox,
         vr_RunID = [], vr_ProbeID = [], vr_SessionID = trim_space sessionID, vr_Consume = False\<rparr>"
  have "fst (Validate now ?req ?b) = Ok c"
    using c by (auto simp: validateSandboxToken_def split: if_splits)
  then obtain st where st: "token_Get (br_store ?b) (vr_Token ?req) = Some st" "binding_check ?req st = None"
    using Validate_ok by blast
  from run_row [OF st(1)] have "trim_space (ts_SessionID st) \<noteq> []" by blast
  with st(2) assms show False by (simp add: binding_check_None)
qed

lemma sandbox_token_needs_session_witness:
  "isl (fst (validateSandboxToken 6 ''tok'' [] (fold broker_exec [OpIssue 5 (\<lambda>i. Inr ''tok'') demo_issue] (NewBroker 0 0 []))))"
  by (rule sandbox_token_needs_session) simp

end
