(* ===== verification/Runner_Manager.thy ===== *)
theory Runner_Manager
  imports Token_Broker
begin

text \<open>
  The life cycle of runners: the manager of \<^verbatim>\<open>controlplane/runner/manager.go\<close>, which guards every
  move by a token of the broker, and the handlers of \<^verbatim>\<open>controlplane/server/runner_handlers.go\<close>,
  which prepare a move, call the execution backend and complete the move. The backend of
  \<^verbatim>\<open>runner/backend.go\<close> is an argument that says for each call whether it fails; the calls made are
  part of the result. Preparing and completing are separate steps under the mutex, so that two
  requests can interleave between them.
\<close>

section \<open>Runners\<close>

datatype RunnerState = StateCreated | StateRunning | StateStopped | StateDestroyed | StateOther string

abbreviation AudienceRunnerStart :: string where "AudienceRunnerStart \<equiv> ''runner:start''"
abbreviation AudienceRunnerStop :: string where "AudienceRunnerStop \<equiv> ''runner:stop''"
abbreviation AudienceRunnerDestroy :: string where "AudienceRunnerDestroy \<equiv> ''runner:destroy''"
abbreviation AudienceRunnerProviderProxy :: string where
  "AudienceRunnerProviderProxy \<equiv> ''runner:provider-proxy''"

abbreviation BackendHost :: string where "BackendHost \<equiv> ''host''"
abbreviation BackendSandbox :: string where "BackendSandbox \<equiv> ''sandbox''"

abbreviation defaultRunTokenTTL :: duration where "defaultRunTokenTTL \<equiv> 2 * Minute"

datatype runner_error =
    ErrSessionRequired
  | ErrAudienceRequired
  | ErrInvalidAudience string
  | ErrRunnerIDRequired
  | ErrRunnerNotFound
  | ErrInvalidTransition RunnerState RunnerState
  | ErrRunTokenRequired
  | ErrRunTokenInvalid
  | ErrRunTokenExpired
  | ErrRunTokenRevoked
  | ErrRunTokenConsumed
  | ErrRunTokenScope token_error
  | ErrRunTokenJob string string
  | ErrRunTokenSessionBound
  | ErrInvalidBackend string
  | ErrSandboxCommandRequired
  | ErrSandboxContractMalformed
  | ErrBackendUnavailable
  | ErrBackendStartFailed string
  | ErrBackendStopFailed string
  | ErrBackendTeardownFailed string
  | ErrBroker token_error

record SandboxContract =
  sc_Image :: string
  sc_Command :: "string list"
  sc_TimeoutSeconds :: int

record Runner =
  rn_ID :: string
  rn_Label :: string
  rn_JobID :: string
  rn_Backend :: string
  rn_Sandbox :: "SandboxContract option"
  rn_State :: RunnerState
  rn_CreatedBy :: string
  rn_SessionID :: string
  rn_WorkspaceID :: string
  rn_CreatedAt :: time
  rn_UpdatedAt :: time
  rn_DestroyedAt :: time

record CreateRequest =
  cq_Label :: string
  cq_JobID :: string
  cq_Backend :: string
  cq_Sandbox :: "SandboxContract option"
  cq_CreatedBy :: string
  cq_SessionID :: string
  cq_WorkspaceID :: string

record IssueTokenRequest =
  iq_RunnerID :: string
  iq_JobID :: string
  iq_Audience :: string
  iq_Issuer :: string
  iq_SessionID :: string
  iq_TTL :: duration

record runner_IssuedToken =
  rt_Token :: string
  rt_RunnerID :: string
  rt_JobID :: string
  rt_Audience :: string
  rt_Scopes :: "string list"
  rt_Issuer :: string
  rt_IssuedAt :: time
  rt_ExpiresAt :: time
  rt_TTL :: int

record LifecycleRequest =
  lq_RunnerID :: string
  lq_JobID :: string
  lq_RunToken :: string
  lq_SessionID :: string

record ValidateRunTokenRequest =
  vq_RunToken :: string
  vq_RunID :: string
  vq_ProbeID :: string
  vq_SessionID :: string
  vq_Audience :: string
  vq_Scope :: string
  vq_Consume :: bool

record RunTokenClaims =
  rc_RunID :: string
  rc_ProbeID :: string
  rc_SessionID :: string
  rc_Issuer :: string
  rc_Audience :: string
  rc_Scopes :: "string list"
  rc_IssuedAt :: time
  rc_ExpiresAt :: time

record Manager =
  mg_runners :: "Runner gmap"
  mg_runTokenTTL :: duration
  mg_tokens :: Broker

definition NewManager :: "duration \<Rightarrow> Broker option \<Rightarrow> Manager" where
  "NewManager runTokenTTL broker =
     (let ttl = (if runTokenTTL \<le> 0 then defaultRunTokenTTL else runTokenTTL) in
      \<lparr>mg_runners = [], mg_runTokenTTL = ttl,
       mg_tokens = (case broker of Some b \<Rightarrow> b | None \<Rightarrow> NewBroker ttl 0 [])\<rparr>)"

section \<open>Checks\<close>

definition normalizeAudience :: "string \<Rightarrow> string" where
  "normalizeAudience a = trim_space a"

definition isAllowedAudience :: "string \<Rightarrow> bool" where
  "isAllowedAudience a \<longleftrightarrow>
     normalizeAudience a \<in> {AudienceRunnerStart, AudienceRunnerStop, AudienceRunnerDestroy, AudienceRunnerProviderProxy}"

definition audienceTarget :: "string \<Rightarrow> RunnerState option" where
  "audienceTarget a =
     (let n = normalizeAudience a in
      if n = AudienceRunnerStart then Some StateRunning
      else if n = AudienceRunnerStop then Some StateStopped
      else if n = AudienceRunnerDestroy then Some StateDestroyed
      else None)"

definition canTransition :: "RunnerState \<Rightarrow> RunnerState \<Rightarrow> bool" where
  "canTransition current target =
     (case target of
        StateRunning \<Rightarrow> current = StateCreated \<or> current = StateStopped
      | StateStopped \<Rightarrow> current = StateRunning
      | StateDestroyed \<Rightarrow> current = StateCreated \<or> current = StateRunning \<or> current = StateStopped
      | _ \<Rightarrow> False)"

definition normalizeBackend :: "string \<Rightarrow> runner_error + string" where
  "normalizeBackend b =
     (let n = trim_space b in
      if n = [] \<or> n = BackendHost then Ok BackendHost
      else if n = BackendSandbox then Ok BackendSandbox
      else Err (ErrInvalidBackend n))"

definition normalizeSandboxContract ::
  "string \<Rightarrow> SandboxContract option \<Rightarrow> runner_error + SandboxContract option" where
  "normalizeSandboxContract backend given =
     (if backend \<noteq> BackendSandbox then Ok None
      else
        let c = (case given of None \<Rightarrow> \<lparr>sc_Image = [], sc_Command = [], sc_TimeoutSeconds = 0\<rparr> | Some c \<Rightarrow> c);
            out = \<lparr>sc_Image = trim_space (sc_Image c),
                   sc_Command = filter (\<lambda>p. p \<noteq> []) (map trim_space (sc_Command c)),
                   sc_TimeoutSeconds = sc_TimeoutSeconds c\<rparr> in
        if sc_Command out = [] then Err ErrSandboxCommandRequired
        else if sc_TimeoutSeconds out < 0 then Err ErrSandboxContractMalformed
        else Ok (Some out))"

definition mapTokenBrokerError :: "token_error \<Rightarrow> runner_error" where
  "mapTokenBrokerError e =
     (case e of
        ErrTokenRequired \<Rightarrow> ErrRunTokenRequired
      | ErrTokenInvalid \<Rightarrow> ErrRunTokenInvalid
      | ErrTokenExpired \<Rightarrow> ErrRunTokenExpired
      | ErrTokenRevoked \<Rightarrow> ErrRunTokenRevoked
      | ErrTokenConsumed \<Rightarrow> ErrRunTokenConsumed
      | ErrSessionMismatch \<Rightarrow> ErrRunTokenSessionBound
      | ErrIssuerRequired \<Rightarrow> ErrBroker e
      | ErrGenerateToken _ \<Rightarrow> ErrBroker e
      | ErrEmptyToken \<Rightarrow> ErrBroker e
      | ErrCollisions \<Rightarrow> ErrBroker e
      | _ \<Rightarrow> ErrRunTokenScope e)"

section \<open>Operations of the manager\<close>

text \<open>\<open>gid\<close> is the result of the id generator and \<open>uuid\<close> the id used when it is blank.\<close>

definition CreateRunner ::
  "time \<Rightarrow> string \<Rightarrow> string \<Rightarrow> CreateRequest \<Rightarrow> Manager \<Rightarrow> (runner_error + Runner) \<times> Manager" where
  "CreateRunner now gid uuid req m =
     (let sessionID = trim_space (cq_SessionID req) in
      if sessionID = [] then (Err ErrSessionRequired, m)
      else (case normalizeBackend (cq_Backend req) of
              Err e \<Rightarrow> (Err e, m)
            | Ok backend \<Rightarrow>
                (case normalizeSandboxContract backend (cq_Sandbox req) of
                   Err e \<Rightarrow> (Err e, m)
                 | Ok sandbox \<Rightarrow>
                     let rid = (if trim_space gid = [] then uuid else trim_space gid);
                         runner =
                           \<lparr>rn_ID = rid, rn_Label = trim_space (cq_Label req), rn_JobID = trim_space (cq_JobID req),
                            rn_Backend = backend, rn_Sandbox = sandbox, rn_State = StateCreated,
                            rn_CreatedBy = trim_space (cq_CreatedBy req), rn_SessionID = sessionID,
                            rn_WorkspaceID = to_lower (trim_space (cq_WorkspaceID req)),
                            rn_CreatedAt = now, rn_UpdatedAt = now, rn_DestroyedAt = zero_time\<rparr> in
                     (Ok runner, m\<lparr>mg_runners := gput rid runner (mg_runners m)\<rparr>))))"

definition GetRunner :: "Manager \<Rightarrow> string \<Rightarrow> runner_error + Runner" where
  "GetRunner m raw =
     (let rid = trim_space raw in
      if rid = [] then Err ErrRunnerIDRequired
      else (case gget (mg_runners m) rid of None \<Rightarrow> Err ErrRunnerNotFound | Some r \<Rightarrow> Ok r))"

definition WorkspaceForRun :: "string list \<Rightarrow> Manager \<Rightarrow> string \<Rightarrow> string option" where
  "WorkspaceForRun ks m raw =
     (let runID = trim_space raw in
      if runID = [] then None
      else (case gget (mg_runners m) runID of
              Some r \<Rightarrow> Some (to_lower (trim_space (rn_WorkspaceID r)))
            | None \<Rightarrow>
                map_option (\<lambda>r. to_lower (trim_space (rn_WorkspaceID r)))
                  (find (\<lambda>r. trim_space (rn_JobID r) = runID) (grange ks (mg_runners m)))))"

text \<open>The job a token is issued for: that of the runner if it has one.\<close>

definition token_job :: "string \<Rightarrow> string \<Rightarrow> runner_error + string" where
  "token_job jobID runnerJobID =
     (if runnerJobID \<noteq> [] \<and> jobID = [] then Ok runnerJobID
      else if runnerJobID \<noteq> [] \<and> jobID \<noteq> runnerJobID then Err (ErrRunTokenJob jobID runnerJobID)
      else Ok jobID)"

definition run_token_request :: "IssueTokenRequest \<Rightarrow> string \<Rightarrow> Manager \<Rightarrow> IssueRequest" where
  "run_token_request req jobID m =
     (let sessionID = trim_space (iq_SessionID req); runnerID = trim_space (iq_RunnerID req);
          audience = normalizeAudience (iq_Audience req) in
      \<lparr>ir_RunID = (if jobID = [] then runnerID else jobID), ir_ProbeID = runnerID,
       ir_Audience = audience, ir_Scopes = [audience],
       ir_Issuer = (if trim_space (iq_Issuer req) = [] then sessionID else trim_space (iq_Issuer req)),
       ir_SessionID = sessionID, ir_TTL = (if iq_TTL req \<le> 0 then mg_runTokenTTL m else iq_TTL req)\<rparr>)"

definition IssueRunToken ::
  "time \<Rightarrow> (nat \<Rightarrow> string + string) \<Rightarrow> IssueTokenRequest \<Rightarrow> Manager \<Rightarrow>
   (runner_error + runner_IssuedToken) \<times> Manager" where
  "IssueRunToken now gen req m =
     (let sessionID = trim_space (iq_SessionID req); runnerID = trim_space (iq_RunnerID req);
          audience = normalizeAudience (iq_Audience req) in
      if sessionID = [] then (Err ErrSessionRequired, m)
      else if runnerID = [] then (Err ErrRunnerIDRequired, m)
      else if audience = [] then (Err ErrAudienceRequired, m)
      else if \<not> isAllowedAudience audience then (Err (ErrInvalidAudience audience), m)
      else (case gget (mg_runners m) runnerID of
              None \<Rightarrow> (Err ErrRunnerNotFound, m)
            | Some r \<Rightarrow>
                (case token_job (trim_space (iq_JobID req)) (trim_space (rn_JobID r)) of
                   Err e \<Rightarrow> (Err e, m)
                 | Ok jobID \<Rightarrow>
                     (case Issue now gen (run_token_request req jobID m) (mg_tokens m) of
                        (Err e, ev, b) \<Rightarrow> (Err (mapTokenBrokerError e), m\<lparr>mg_tokens := b\<rparr>)
                      | (Ok it, ev, b) \<Rightarrow>
                          (Ok \<lparr>rt_Token = it_Token it, rt_RunnerID = runnerID, rt_JobID = jobID,
                               rt_Audience = audience, rt_Scopes = cl_Scopes (it_Claims it),
                               rt_Issuer = cl_Issuer (it_Claims it), rt_IssuedAt = cl_IssuedAt (it_Claims it),
                               rt_ExpiresAt = cl_ExpiresAt (it_Claims it),
                               rt_TTL = max 0 ((cl_ExpiresAt (it_Claims it) - cl_IssuedAt (it_Claims it)) div Second)\<rparr>,
                           m\<lparr>mg_tokens := b\<rparr>)))))"

definition RevokeRunToken :: "time \<Rightarrow> string \<Rightarrow> Manager \<Rightarrow> runner_error option \<times> Manager" where
  "RevokeRunToken now token m =
     (case Revoke now token (mg_tokens m) of
        (e, ev, b) \<Rightarrow> (map_option mapTokenBrokerError e, m\<lparr>mg_tokens := b\<rparr>))"

definition run_token_validate :: "ValidateRunTokenRequest \<Rightarrow> ValidateRequest" where
  "run_token_validate req =
     (let audience = normalizeAudience (vq_Audience req) in
      \<lparr>vr_Token = trim_space (vq_RunToken req),
       vr_Scope = (if trim_space (vq_Scope req) = [] then audience else trim_space (vq_Scope req)),
       vr_Audience = audience, vr_RunID = trim_space (vq_RunID req), vr_ProbeID = trim_space (vq_ProbeID req),
       vr_SessionID = trim_space (vq_SessionID req), vr_Consume = vq_Consume req\<rparr>)"

definition ValidateRunToken ::
  "time \<Rightarrow> ValidateRunTokenRequest \<Rightarrow> Manager \<Rightarrow> (runner_error + RunTokenClaims) \<times> Manager" where
  "ValidateRunToken now req m =
     (let runToken = trim_space (vq_RunToken req); sessionID = trim_space (vq_SessionID req);
          audience = normalizeAudience (vq_Audience req) in
      if runToken = [] then (Err ErrRunTokenRequired, m)
      else if sessionID = [] then (Err ErrSessionRequired, m)
      else if audience = [] then (Err ErrAudienceRequired, m)
      else (case Validate now (run_token_validate req) (mg_tokens m) of
              (Err e, ev, b) \<Rightarrow> (Err (mapTokenBrokerError e), m\<lparr>mg_tokens := b\<rparr>)
            | (Ok c, ev, b) \<Rightarrow>
                (Ok \<lparr>rc_RunID = trim_space (cl_RunID c), rc_ProbeID = trim_space (cl_ProbeID c),
                     rc_SessionID = trim_space (cl_SessionID c), rc_Issuer = trim_space (cl_Issuer c),
                     rc_Audience = trim_space (cl_Audience c), rc_Scopes = cl_Scopes c,
                     rc_IssuedAt = cl_IssuedAt c, rc_ExpiresAt = cl_ExpiresAt c\<rparr>,
                 m\<lparr>mg_tokens := b\<rparr>)))"

definition lifecycle_validate :: "LifecycleRequest \<Rightarrow> string \<Rightarrow> Runner \<Rightarrow> ValidateRequest" where
  "lifecycle_validate req audience r =
     (let runnerID = trim_space (lq_RunnerID req); runnerJobID = trim_space (rn_JobID r) in
      \<lparr>vr_Token = trim_space (lq_RunToken req), vr_Scope = audience, vr_Audience = audience,
       vr_RunID = (if runnerJobID = [] then runnerID else runnerJobID), vr_ProbeID = runnerID,
       vr_SessionID = trim_space (lq_SessionID req), vr_Consume = True\<rparr>)"

definition prepareTransition ::
  "time \<Rightarrow> LifecycleRequest \<Rightarrow> string \<Rightarrow> RunnerState \<Rightarrow> Manager \<Rightarrow> (runner_error + Runner) \<times> Manager" where
  "prepareTransition now req audience target m =
     (let runnerID = trim_space (lq_RunnerID req); jobID = trim_space (lq_JobID req) in
      if trim_space (lq_SessionID req) = [] then (Err ErrSessionRequired, m)
      else if runnerID = [] then (Err ErrRunnerIDRequired, m)
      else if trim_space (lq_RunToken req) = [] then (Err ErrRunTokenRequired, m)
      else (case gget (mg_runners m) runnerID of
              None \<Rightarrow> (Err ErrRunnerNotFound, m)
            | Some r \<Rightarrow>
                if jobID \<noteq> [] \<and> trim_space (rn_JobID r) \<noteq> [] \<and> jobID \<noteq> trim_space (rn_JobID r)
                then (Err (ErrRunTokenJob jobID (trim_space (rn_JobID r))), m)
                else (case Validate now (lifecycle_validate req audience r) (mg_tokens m) of
                        (Err e, ev, b) \<Rightarrow> (Err (mapTokenBrokerError e), m\<lparr>mg_tokens := b\<rparr>)
                      | (Ok c, ev, b) \<Rightarrow>
                          if \<not> canTransition (rn_State r) target
                          then (Err (ErrInvalidTransition (rn_State r) target), m\<lparr>mg_tokens := b\<rparr>)
                          else (Ok r, m\<lparr>mg_tokens := b\<rparr>))))"

definition PrepareRunnerLifecycle ::
  "time \<Rightarrow> LifecycleRequest \<Rightarrow> string \<Rightarrow> Manager \<Rightarrow> (runner_error + Runner) \<times> Manager" where
  "PrepareRunnerLifecycle now req audience m =
     (case audienceTarget audience of
        None \<Rightarrow> (Err (ErrInvalidAudience audience), m)
      | Some target \<Rightarrow> prepareTransition now req audience target m)"

definition CompleteRunnerLifecycle ::
  "time \<Rightarrow> string \<Rightarrow> RunnerState \<Rightarrow> Manager \<Rightarrow> (runner_error + Runner) \<times> Manager" where
  "CompleteRunnerLifecycle now raw target m =
     (let rid = trim_space raw in
      if rid = [] then (Err ErrRunnerIDRequired, m)
      else (case gget (mg_runners m) rid of
              None \<Rightarrow> (Err ErrRunnerNotFound, m)
            | Some r \<Rightarrow>
                if \<not> canTransition (rn_State r) target
                then (Err (ErrInvalidTransition (rn_State r) target), m)
                else
                  let r' = r\<lparr>rn_State := target, rn_UpdatedAt := now,
                             rn_DestroyedAt := (if target = StateDestroyed then now else rn_DestroyedAt r)\<rparr> in
                  (Ok r', m\<lparr>mg_runners := gput rid r' (mg_runners m)\<rparr>)))"

definition lifecycle_move ::
  "time \<Rightarrow> time \<Rightarrow> LifecycleRequest \<Rightarrow> string \<Rightarrow> RunnerState \<Rightarrow> Manager \<Rightarrow> (runner_error + Runner) \<times> Manager" where
  "lifecycle_move t1 t2 req audience target m =
     (case PrepareRunnerLifecycle t1 req audience m of
        (Err e, m') \<Rightarrow> (Err e, m')
      | (Ok r, m') \<Rightarrow> CompleteRunnerLifecycle t2 (lq_RunnerID req) target m')"

definition StartRunner :: "time \<Rightarrow> time \<Rightarrow> LifecycleRequest \<Rightarrow> Manager \<Rightarrow> (runner_error + Runner) \<times> Manager" where
  "StartRunner t1 t2 req m = lifecycle_move t1 t2 req AudienceRunnerStart StateRunning m"

definition StopRunner :: "time \<Rightarrow> time \<Rightarrow> LifecycleRequest \<Rightarrow> Manager \<Rightarrow> (runner_error + Runner) \<times> Manager" where
  "StopRunner t1 t2 req m = lifecycle_move t1 t2 req AudienceRunnerStop StateStopped m"

definition DestroyRunner :: "time \<Rightarrow> time \<Rightarrow> LifecycleRequest \<Rightarrow> Manager \<Rightarrow> (runner_error + Runner) \<times> Manager" where
  "DestroyRunner t1 t2 req m = lifecycle_move t1 t2 req AudienceRunnerDestroy StateDestroyed m"

section \<open>The handlers\<close>

text \<open>
  The calls of the execution backend. \<open>backend\<close> is \<open>None\<close> where the server has none, and
  otherwise gives the text of the error of a call that fails. The functions return their errors, an
  empty list for success, and the calls they made.
\<close>

datatype backend_call =
    BackendStart string string string string "string list" duration
  | BackendStop string string
  | BackendTeardown string string

type_synonym exec_backend = "(backend_call \<Rightarrow> string option) option"

definition call_error :: "(string \<Rightarrow> runner_error) \<Rightarrow> string option \<Rightarrow> runner_error list" where
  "call_error f e = (case e of None \<Rightarrow> [] | Some msg \<Rightarrow> [f msg])"

definition stopAndTeardownRunnerExecution ::
  "exec_backend \<Rightarrow> Runner \<Rightarrow> string \<Rightarrow> runner_error list \<times> backend_call list" where
  "stopAndTeardownRunnerExecution backend rr reason =
     (if rn_Backend rr \<noteq> BackendSandbox then ([], [])
      else (case backend of
              None \<Rightarrow> ([ErrBackendUnavailable], [])
            | Some run \<Rightarrow>
                (call_error ErrBackendStopFailed (run (BackendStop (rn_ID rr) reason)) @
                 call_error ErrBackendTeardownFailed (run (BackendTeardown (rn_ID rr) reason)),
                 [BackendStop (rn_ID rr) reason, BackendTeardown (rn_ID rr) reason])))"

definition executeRunnerLifecycle ::
  "exec_backend \<Rightarrow> string \<Rightarrow> Runner \<Rightarrow> runner_error list \<times> backend_call list" where
  "executeRunnerLifecycle backend audience rr =
     (if rn_Backend rr \<noteq> BackendSandbox then ([], [])
      else (case backend of
              None \<Rightarrow> ([ErrBackendUnavailable], [])
            | Some run \<Rightarrow>
                if audience = AudienceRunnerStart
                then (case rn_Sandbox rr of
                        None \<Rightarrow> ([ErrSandboxContractMalformed], [])
                      | Some sb \<Rightarrow>
                          let c = BackendStart (rn_ID rr) (rn_JobID rr) (rn_SessionID rr) (sc_Image sb) (sc_Command sb)
                                    (if sc_TimeoutSeconds sb > 0 then sc_TimeoutSeconds sb * Second else 0) in
                          (call_error ErrBackendStartFailed (run c), [c]))
                else if audience = AudienceRunnerStop then stopAndTeardownRunnerExecution backend rr ''stop''
                else if audience = AudienceRunnerDestroy
                then if rn_State rr = StateRunning
                     then stopAndTeardownRunnerExecution backend rr ''destroy_running''
                     else let c = BackendTeardown (rn_ID rr) ''destroy'' in
                          (call_error ErrBackendTeardownFailed (run c), [c])
                else ([], [])))"

definition audienceTargetState :: "string \<Rightarrow> RunnerState option" where
  "audienceTargetState a =
     (if a = AudienceRunnerStart then Some StateRunning
      else if a = AudienceRunnerStop then Some StateStopped
      else if a = AudienceRunnerDestroy then Some StateDestroyed
      else None)"

text \<open>
  A lifecycle request after its move has been prepared: the backend and then the completion. The
  errors of a failed backend end the request before the completion. An unknown audience is answered
  with an internal error, here the error for it.
\<close>

definition finish_lifecycle ::
  "time \<Rightarrow> exec_backend \<Rightarrow> string \<Rightarrow> Runner \<Rightarrow> Manager \<Rightarrow>
   (runner_error list + Runner) \<times> backend_call list \<times> Manager" where
  "finish_lifecycle now backend audience prepared m =
     (case executeRunnerLifecycle backend audience prepared of
        (errs, calls) \<Rightarrow>
          if errs \<noteq> [] then (Err errs, calls, m)
          else (case audienceTargetState audience of
                  None \<Rightarrow> (Err [ErrInvalidAudience audience], calls, m)
                | Some target \<Rightarrow>
                    (case CompleteRunnerLifecycle now (rn_ID prepared) target m of
                       (Err e, m') \<Rightarrow> (Err [e], calls, m')
                     | (Ok r, m') \<Rightarrow> (Ok r, calls, m'))))"

definition handleRunnerLifecycle ::
  "time \<Rightarrow> time \<Rightarrow> exec_backend \<Rightarrow> (string \<Rightarrow> bool) \<Rightarrow> string \<Rightarrow> LifecycleRequest \<Rightarrow> Manager \<Rightarrow>
   (runner_error list option + Runner) \<times> backend_call list \<times> Manager" where
  "handleRunnerLifecycle t1 t2 backend workspaceMatch audience req m =
     (case GetRunner m (lq_RunnerID req) of
        Err e \<Rightarrow> (Err (Some [e]), [], m)
      | Ok current \<Rightarrow>
          if \<not> workspaceMatch (rn_WorkspaceID current) then (Err None, [], m)
          else (case PrepareRunnerLifecycle t1 req audience m of
                  (Err e, m') \<Rightarrow> (Err (Some [e]), [], m')
                | (Ok prepared, m') \<Rightarrow>
                    (case finish_lifecycle t2 backend audience prepared m' of
                       (res, calls, m'') \<Rightarrow> (map_sum Some id res, calls, m''))))"

section \<open>Histories\<close>

text \<open>
  The steps of a manager. The id generator never gives an id twice, so creating a runner under an
  id in use is no step; completing a move is a step of its own, only taken by the operations above
  after the move has been prepared.
\<close>

datatype runner_op =
    RCreate time string string CreateRequest
  | RIssue time "nat \<Rightarrow> string + string" IssueTokenRequest
  | RRevoke time string
  | RValidate time ValidateRunTokenRequest
  | RPrepare time LifecycleRequest string
  | RComplete time string RunnerState

definition new_runner_id :: "string \<Rightarrow> string \<Rightarrow> string" where
  "new_runner_id gid uuid = (if trim_space gid = [] then uuid else trim_space gid)"

fun runner_exec :: "runner_op \<Rightarrow> Manager \<Rightarrow> Manager" where
  "runner_exec (RCreate now gid uuid req) m =
     (if gget (mg_runners m) (new_runner_id gid uuid) = None then snd (CreateRunner now gid uuid req m) else m)"
| "runner_exec (RIssue now gen req) m = snd (IssueRunToken now gen req m)"
| "runner_exec (RRevoke now token) m = snd (RevokeRunToken now token m)"
| "runner_exec (RValidate now req) m = snd (ValidateRunToken now req m)"
| "runner_exec (RPrepare now req audience) m = snd (PrepareRunnerLifecycle now req audience m)"
| "runner_exec (RComplete now rid target) m = snd (CompleteRunnerLifecycle now rid target m)"

definition runner_state :: "Manager \<Rightarrow> string \<Rightarrow> RunnerState option" where
  "runner_state m k = map_option rn_State (gget (mg_runners m) k)"

fun spends :: "runner_op \<Rightarrow> Manager \<Rightarrow> string \<Rightarrow> bool" where
  "spends (RPrepare now req audience) m token \<longleftrightarrow>
     trim_space (lq_RunToken req) = token \<and> isl (fst (PrepareRunnerLifecycle now req audience m)) = False"
| "spends _ m token \<longleftrightarrow> False"

definition runners_ok :: "Manager \<Rightarrow> bool" where
  "runners_ok m \<longleftrightarrow> gmap_ok (mg_runners m) \<and>
     (\<forall>k r. gget (mg_runners m) k = Some r \<longrightarrow>
        rn_ID r = k \<and> rn_SessionID r \<noteq> [] \<and>
        (rn_Backend r = BackendHost \<and> rn_Sandbox r = None \<or>
         rn_Backend r = BackendSandbox \<and> (\<exists>c. rn_Sandbox r = Some c \<and> sc_Command c \<noteq> [] \<and> sc_TimeoutSeconds c \<ge> 0)))"

definition demo_runner :: CreateRequest where
  "demo_runner =
     \<lparr>cq_Label = ''build'', cq_JobID = [], cq_Backend = ''sandbox'',
      cq_Sandbox = Some \<lparr>sc_Image = ''alpine'', sc_Command = [''make''], sc_TimeoutSeconds = 60\<rparr>,
      cq_CreatedBy = ''ann'', cq_SessionID = ''s1'', cq_WorkspaceID = ''W''\<rparr>"

definition demo_token :: "string \<Rightarrow> IssueTokenRequest" where
  "demo_token audience =
     \<lparr>iq_RunnerID = ''r1'', iq_JobID = [], iq_Audience = audience, iq_Issuer = ''ann'', iq_SessionID = ''s1'',
      iq_TTL = 0\<rparr>"

definition demo_lifecycle :: "string \<Rightarrow> LifecycleRequest" where
  "demo_lifecycle token =
     \<lparr>lq_RunnerID = ''r1'', lq_JobID = [], lq_RunToken = token, lq_SessionID = ''s1''\<rparr>"

definition demo_ops :: "runner_op list" where
  "demo_ops =
     [RCreate 1 ''r1'' ''u1'' demo_runner,
      RIssue 2 (\<lambda>i. Inr ''t1'') (demo_token AudienceRunnerStart),
      RIssue 3 (\<lambda>i. Inr ''t2'') (demo_token AudienceRunnerDestroy)]"

section \<open>Lemmas\<close>

text \<open>Every step of the manager is at most one operation of the broker, and no restart.\<close>

lemma issue_broker:
  "mg_tokens (snd (IssueRunToken now gen req m)) = mg_tokens m \<or>
   (\<exists>jobID. mg_tokens (snd (IssueRunToken now gen req m)) =
      broker_exec (OpIssue now gen (run_token_request req jobID m)) (mg_tokens m))"
proof (cases "gget (mg_runners m) (trim_space (iq_RunnerID req))")
  case None
  then show ?thesis by (simp add: IssueRunToken_def Let_def)
next
  case (Some r)
  show ?thesis
  proof (cases "token_job (trim_space (iq_JobID req)) (trim_space (rn_JobID r))")
    case (Inl e)
    then show ?thesis using Some by (simp add: IssueRunToken_def Let_def)
  next
    case (Inr jobID)
    have "mg_tokens (snd (IssueRunToken now gen req m)) = mg_tokens m \<or>
      mg_tokens (snd (IssueRunToken now gen req m)) =
      broker_exec (OpIssue now gen (run_token_request req jobID m)) (mg_tokens m)"
      using Some Inr by (simp add: IssueRunToken_def Let_def split: sum.split prod.split)
    then show ?thesis by blast
  qed
qed

lemma validate_broker:
  "mg_tokens (snd (ValidateRunToken now req m)) = mg_tokens m \<or>
   mg_tokens (snd (ValidateRunToken now req m)) = broker_exec (OpValidate now (run_token_validate req)) (mg_tokens m)"
  by (simp add: ValidateRunToken_def Let_def split: sum.split prod.split)

lemma prepare_broker:
  "mg_tokens (snd (PrepareRunnerLifecycle now req audience m)) = mg_tokens m \<or>
   (\<exists>vr. mg_tokens (snd (PrepareRunnerLifecycle now req audience m)) = broker_exec (OpValidate now vr) (mg_tokens m))"
proof (cases "gget (mg_runners m) (trim_space (lq_RunnerID req))")
  case None
  then show ?thesis by (simp add: PrepareRunnerLifecycle_def prepareTransition_def Let_def split: option.split)
next
  case (Some r)
  have "mg_tokens (snd (PrepareRunnerLifecycle now req audience m)) = mg_tokens m \<or>
    mg_tokens (snd (PrepareRunnerLifecycle now req audience m)) =
    broker_exec (OpValidate now (lifecycle_validate req audience r)) (mg_tokens m)"
    using Some by (simp add: PrepareRunnerLifecycle_def prepareTransition_def Let_def split: option.split sum.split prod.split)
  then show ?thesis by blast
qed

lemma runner_exec_broker:
  "mg_tokens (runner_exec p m) = mg_tokens m \<or>
   (\<exists>q. mg_tokens (runner_exec p m) = broker_exec q (mg_tokens m) \<and> \<not> is_restart q)"
proof (cases p)
  case (RCreate now gid uuid req)
  then show ?thesis by (simp add: CreateRunner_def Let_def split: sum.split)
next
  case (RIssue now gen req)
  have "\<not> is_restart (OpIssue now gen ir)" for ir by (simp add: is_restart_def)
  then show ?thesis using issue_broker [of now gen req m] RIssue by (metis runner_exec.simps(2))
next
  case (RRevoke now token)
  have "mg_tokens (runner_exec p m) = broker_exec (OpRevoke now token) (mg_tokens m)"
    by (simp add: RRevoke RevokeRunToken_def split: prod.split)
  moreover have "\<not> is_restart (OpRevoke now token)" by (simp add: is_restart_def)
  ultimately show ?thesis by blast
next
  case (RValidate now req)
  have "\<not> is_restart (OpValidate now vr)" for vr by (simp add: is_restart_def)
  then show ?thesis using validate_broker [of now req m] RValidate by (metis runner_exec.simps(4))
next
  case (RPrepare now req audience)
  have "\<not> is_restart (OpValidate now vr)" for vr by (simp add: is_restart_def)
  then show ?thesis using prepare_broker [of now req audience m] RPrepare by (metis runner_exec.simps(5))
next
  case (RComplete now rid target)
  then show ?thesis by (simp add: CompleteRunnerLifecycle_def Let_def split: option.split)
qed

lemma prepare_ok:
  assumes "PrepareRunnerLifecycle now req audience m = (Ok r, m')"
  shows "\<exists>target c. audienceTarget audience = Some target \<and> canTransition (rn_State r) target \<and>
    gget (mg_runners m) (trim_space (lq_RunnerID req)) = Some r \<and> m' = m\<lparr>mg_tokens := mg_tokens m'\<rparr> \<and>
    fst (Validate now (lifecycle_validate req audience r) (mg_tokens m)) = Ok c \<and>
    mg_tokens m' = broker_exec (OpValidate now (lifecycle_validate req audience r)) (mg_tokens m)"
  using assms
  by (auto simp: PrepareRunnerLifecycle_def prepareTransition_def Let_def
      split: if_splits option.splits sum.splits prod.splits)

lemma lifecycle_validate_fields [simp]:
  "vr_Token (lifecycle_validate req a r) = trim_space (lq_RunToken req)"
  "vr_Consume (lifecycle_validate req a r)"
  "vr_Scope (lifecycle_validate req a r) = a" "vr_Audience (lifecycle_validate req a r) = a"
  "vr_ProbeID (lifecycle_validate req a r) = trim_space (lq_RunnerID req)"
  "vr_SessionID (lifecycle_validate req a r) = trim_space (lq_SessionID req)"
  "vr_RunID (lifecycle_validate req a r) =
     (if trim_space (rn_JobID r) = [] then trim_space (lq_RunnerID req) else trim_space (rn_JobID r))"
  by (simp_all add: lifecycle_validate_def Let_def)

lemma spends_consumes:
  assumes "spends p m k"
  shows "\<exists>q. consumes q (mg_tokens m) k \<and> mg_tokens (runner_exec p m) = broker_exec q (mg_tokens m)"
proof (cases p)
  case (RPrepare now req audience)
  with assms obtain r m' where p: "PrepareRunnerLifecycle now req audience m = (Ok r, m')"
    by (cases "PrepareRunnerLifecycle now req audience m"; cases "fst (PrepareRunnerLifecycle now req audience m)") auto
  obtain c where c: "fst (Validate now (lifecycle_validate req audience r) (mg_tokens m)) = Ok c"
    and t: "mg_tokens m' = broker_exec (OpValidate now (lifecycle_validate req audience r)) (mg_tokens m)"
    using prepare_ok [OF p] by blast
  have "consumes (OpValidate now (lifecycle_validate req audience r)) (mg_tokens m) k"
    using c assms RPrepare by auto
  moreover have "mg_tokens (runner_exec p m) = mg_tokens m'" using RPrepare p by simp
  ultimately show ?thesis using t by metis
qed (use assms in auto)

interpretation run_token: one_shot runner_exec "\<lambda>m. spent (mg_tokens m)" spends
proof
  show "spent (mg_tokens (runner_exec p m)) k" if "spent (mg_tokens m) k" for p m k
    using that runner_exec_broker [of p m] token.spent_stays by metis
  show "\<not> spent (mg_tokens m) k" if "spends p m k" for p m k
    using spends_consumes [OF that] token.uses_fresh by blast
  show "spent (mg_tokens (runner_exec p m)) k" if "spends p m k" for p m k
    using spends_consumes [OF that] token.uses_spends by metis
qed

text \<open>The runners: what each step does to one of them.\<close>

lemma runner_exec_get:
  assumes "gget (mg_runners m) k = Some r"
  shows "\<exists>s u d. gget (mg_runners (runner_exec p m)) k =
      Some (r\<lparr>rn_State := s, rn_UpdatedAt := u, rn_DestroyedAt := d\<rparr>) \<and> (s = rn_State r \<or> canTransition (rn_State r) s)"
proof -
  define P where "P rs = (\<exists>s u d. gget rs k = Some (r\<lparr>rn_State := s, rn_UpdatedAt := u, rn_DestroyedAt := d\<rparr>) \<and>
    (s = rn_State r \<or> canTransition (rn_State r) s))" for rs
  have same: "P rs" if "gget rs k = Some r" for rs
    unfolding P_def that
    by (intro exI [of _ "rn_State r"] exI [of _ "rn_UpdatedAt r"] exI [of _ "rn_DestroyedAt r"]) simp
  have "P (mg_runners (runner_exec p m))"
  proof (cases p)
    case (RCreate now gid uuid req)
    have "gget (mg_runners (runner_exec p m)) k = Some r"
      using assms by (auto simp: RCreate CreateRunner_def Let_def new_runner_id_def gmap_simps split: sum.split)
    then show ?thesis by (rule same)
  next
    case (RComplete now rid target)
    show ?thesis
    proof (cases "trim_space rid = k \<and> k \<noteq> [] \<and> canTransition (rn_State r) target")
      case True
      have "gget (mg_runners (runner_exec p m)) k = Some (r\<lparr>rn_State := target, rn_UpdatedAt := now,
          rn_DestroyedAt := (if target = StateDestroyed then now else rn_DestroyedAt r)\<rparr>)"
        using True assms by (simp add: RComplete CompleteRunnerLifecycle_def Let_def gmap_simps)
      then show ?thesis unfolding P_def using True by blast
    next
      case False
      then have "gget (mg_runners (runner_exec p m)) k = Some r"
        using assms by (auto simp: RComplete CompleteRunnerLifecycle_def Let_def gmap_simps split: option.split)
      then show ?thesis by (rule same)
    qed
  qed (use assms in \<open>simp_all add: IssueRunToken_def RevokeRunToken_def ValidateRunToken_def
      PrepareRunnerLifecycle_def prepareTransition_def Let_def same split: option.split sum.split prod.split\<close>)
  then show ?thesis by (simp only: P_def)
qed

lemma create_ok:
  assumes "CreateRunner now gid uuid req m = (Ok r, m')"
  shows "m' = m\<lparr>mg_runners := gput (new_runner_id gid uuid) r (mg_runners m)\<rparr> \<and> rn_ID r = new_runner_id gid uuid \<and>
    rn_SessionID r \<noteq> [] \<and> rn_State r = StateCreated \<and> trim_space (rn_JobID r) = rn_JobID r \<and>
    (rn_Backend r = BackendHost \<and> rn_Sandbox r = None \<or>
     rn_Backend r = BackendSandbox \<and> (\<exists>c. rn_Sandbox r = Some c \<and> sc_Command c \<noteq> [] \<and> sc_TimeoutSeconds c \<ge> 0))"
  using assms
  by (auto simp: CreateRunner_def normalizeBackend_def normalizeSandboxContract_def new_runner_id_def Let_def split: if_splits sum.splits)

lemma create_err: "CreateRunner now gid uuid req m = (Err e, m') \<Longrightarrow> m' = m"
  by (auto simp: CreateRunner_def Let_def split: if_splits sum.splits)

text \<open>A runner that is not there before a step is a new one.\<close>

lemma runner_exec_new:
  assumes "gget (mg_runners m) k = None" "gget (mg_runners (runner_exec p m)) k = Some r"
  shows "\<exists>now gid uuid req. p = RCreate now gid uuid req \<and> fst (CreateRunner now gid uuid req m) = Ok r \<and>
    k = new_runner_id gid uuid"
proof (cases p)
  case (RCreate now gid uuid req)
  obtain res m' where c: "CreateRunner now gid uuid req m = (res, m')" by (cases "CreateRunner now gid uuid req m")
  show ?thesis
  proof (cases res)
    case (Inl e)
    then have "m' = m" using create_err c by blast
    then show ?thesis using assms RCreate c by (simp split: if_splits)
  next
    case (Inr r')
    then have "m' = m\<lparr>mg_runners := gput (new_runner_id gid uuid) r' (mg_runners m)\<rparr>" using create_ok c by blast
    then show ?thesis using assms RCreate c Inr by (auto simp: gmap_simps split: if_splits)
  qed
next
  case (RComplete now rid target)
  then show ?thesis using assms
    by (auto simp: CompleteRunnerLifecycle_def Let_def gmap_simps split: option.splits if_splits)
qed (use assms in \<open>simp_all add: IssueRunToken_def RevokeRunToken_def ValidateRunToken_def
      PrepareRunnerLifecycle_def prepareTransition_def Let_def split: if_splits option.splits sum.splits prod.splits\<close>)

lemma runner_exec_gmap: "gmap_ok (mg_runners m) \<Longrightarrow> gmap_ok (mg_runners (runner_exec p m))"
  by (cases p) (simp_all add: CreateRunner_def IssueRunToken_def RevokeRunToken_def ValidateRunToken_def
      PrepareRunnerLifecycle_def prepareTransition_def CompleteRunnerLifecycle_def Let_def gmap_simps
      split: option.split sum.split prod.split)

lemma runner_exec_ok:
  assumes "runners_ok m"
  shows "runners_ok (runner_exec p m)"
  unfolding runners_ok_def
proof (intro conjI allI impI)
  show "gmap_ok (mg_runners (runner_exec p m))" using assms by (simp add: runners_ok_def runner_exec_gmap)
  fix k r assume r: "gget (mg_runners (runner_exec p m)) k = Some r"
  have "rn_ID r = k \<and> rn_SessionID r \<noteq> [] \<and>
      (rn_Backend r = BackendHost \<and> rn_Sandbox r = None \<or>
       rn_Backend r = BackendSandbox \<and> (\<exists>c. rn_Sandbox r = Some c \<and> sc_Command c \<noteq> [] \<and> sc_TimeoutSeconds c \<ge> 0))"
  proof (cases "gget (mg_runners m) k")
    case None
    then obtain now gid uuid req where "fst (CreateRunner now gid uuid req m) = Ok r" "k = new_runner_id gid uuid"
      using runner_exec_new r by blast
    then show ?thesis using create_ok [of now gid uuid req m r "snd (CreateRunner now gid uuid req m)"]
      by (metis prod.collapse)
  next
    case (Some r0)
    then obtain s u d where "r = r0\<lparr>rn_State := s, rn_UpdatedAt := u, rn_DestroyedAt := d\<rparr>"
      using runner_exec_get [OF Some, of p] r by force
    moreover have "rn_ID r0 = k \<and> rn_SessionID r0 \<noteq> [] \<and>
      (rn_Backend r0 = BackendHost \<and> rn_Sandbox r0 = None \<or>
       rn_Backend r0 = BackendSandbox \<and> (\<exists>c. rn_Sandbox r0 = Some c \<and> sc_Command c \<noteq> [] \<and> sc_TimeoutSeconds c \<ge> 0))"
      using assms Some unfolding runners_ok_def by blast
    ultimately show ?thesis by simp
  qed
  then show "rn_ID r = k" "rn_SessionID r \<noteq> []"
    "rn_Backend r = BackendHost \<and> rn_Sandbox r = None \<or>
     rn_Backend r = BackendSandbox \<and> (\<exists>c. rn_Sandbox r = Some c \<and> sc_Command c \<noteq> [] \<and> sc_TimeoutSeconds c \<ge> 0)"
    by blast+
qed

interpretation runner: guarded_store canTransition "\<lambda>s. s = StateDestroyed" runners_ok runner_state runner_exec
proof
  show "t = s" if "s = StateDestroyed" "canTransition s t" for s t
    using that by (cases t) (simp_all add: canTransition_def)
  show "runners_ok (runner_exec p m)" if "runners_ok m" for m p
    using that by (rule runner_exec_ok)
  show "\<exists>t. runner_state (runner_exec p m) k = Some t \<and> canTransition\<^sup>*\<^sup>* s t"
    if "runners_ok m" and look: "runner_state m k = Some s" for m k s p
  proof -
    obtain r where r: "gget (mg_runners m) k = Some r" "rn_State r = s"
      using look by (auto simp: runner_state_def)
    from runner_exec_get [OF r(1), of p] obtain t u d where
      "gget (mg_runners (runner_exec p m)) k = Some (r\<lparr>rn_State := t, rn_UpdatedAt := u, rn_DestroyedAt := d\<rparr>)"
      "t = rn_State r \<or> canTransition (rn_State r) t" by blast
    then show ?thesis using r(2) by (auto simp: runner_state_def)
  qed
qed

lemma NewManager_ok [simp]: "runners_ok (NewManager ttl b)"
  by (simp add: runners_ok_def NewManager_def Let_def)

text \<open>The token row behind an issued run token.\<close>

lemma IssueRunToken_ok:
  assumes "fst (IssueRunToken now gen req m) = Ok it"
  shows "\<exists>r jobID bt. gget (mg_runners m) (trim_space (iq_RunnerID req)) = Some r \<and>
    token_job (trim_space (iq_JobID req)) (trim_space (rn_JobID r)) = Ok jobID \<and>
    fst (Issue now gen (run_token_request req jobID m) (mg_tokens m)) = Ok bt \<and>
    mg_tokens (snd (IssueRunToken now gen req m)) =
      broker_exec (OpIssue now gen (run_token_request req jobID m)) (mg_tokens m) \<and>
    rt_Token it = it_Token bt \<and> rt_RunnerID it = trim_space (iq_RunnerID req) \<and> rt_JobID it = jobID \<and>
    rt_Audience it = trim_space (iq_Audience req) \<and> isAllowedAudience (rt_Audience it) \<and>
    rt_ExpiresAt it = cl_ExpiresAt (it_Claims bt) \<and> trim_space (iq_RunnerID req) \<noteq> []"
  using assms
  by (auto simp: IssueRunToken_def Let_def normalizeAudience_def split: if_splits option.splits sum.splits prod.splits)

lemma Issue_claims:
  assumes "fst (Issue now gen req b) = Ok it"
  shows "cl_ProbeID (it_Claims it) = trim_space (ir_ProbeID req)" "cl_RunID (it_Claims it) = trim_space (ir_RunID req)"
    "cl_Audience (it_Claims it) = trim_space (ir_Audience req)"
    "cl_SessionID (it_Claims it) = trim_space (ir_SessionID req)"
proof -
  obtain ev b' where "Issue now gen req b = (Ok it, ev, b')" using assms by (metis prod.collapse)
  from Issue_ok [OF this] obtain r t where a: "issue_attempts (map gen [0..<maxAttempts])
      \<lparr>ts_Token = [], ts_Scope = normalizeScopes (ir_Scopes req), ts_Audience = trim_space (ir_Audience req),
       ts_RunnerID = trim_space (ir_ProbeID req), ts_JobID = trim_space (ir_RunID req),
       ts_Issuer = trim_space (ir_Issuer req), ts_SessionID = trim_space (ir_SessionID req),
       ts_IssuedAt = now, ts_ExpiresAt = now + (if ir_TTL req \<le> 0 then br_defaultTTL b else ir_TTL req),
       ts_ConsumedAt = None\<rparr> (br_store b) = (Ok r, t)"
    and it: "it = \<lparr>it_Token = ts_Token r, it_Claims = state_claims r\<rparr>" by blast
  obtain k where r: "r = \<lparr>ts_Token = k, ts_Scope = normalizeScopes (ir_Scopes req), ts_Audience = trim_space (ir_Audience req),
       ts_RunnerID = trim_space (ir_ProbeID req), ts_JobID = trim_space (ir_RunID req),
       ts_Issuer = trim_space (ir_Issuer req), ts_SessionID = trim_space (ir_SessionID req),
       ts_IssuedAt = now, ts_ExpiresAt = now + (if ir_TTL req \<le> 0 then br_defaultTTL b else ir_TTL req),
       ts_ConsumedAt = None\<rparr>"
    using issue_attempts_ok [OF a] by (metis TokenState.update_convs(1))
  show "cl_ProbeID (it_Claims it) = trim_space (ir_ProbeID req)" "cl_RunID (it_Claims it) = trim_space (ir_RunID req)"
    "cl_Audience (it_Claims it) = trim_space (ir_Audience req)"
    "cl_SessionID (it_Claims it) = trim_space (ir_SessionID req)"
    by (simp_all add: it r state_claims_def)
qed

text \<open>A row that appears in a step of the manager belongs to a run token issued by this step.\<close>

definition row_of :: "IssueTokenRequest \<Rightarrow> runner_IssuedToken \<Rightarrow> TokenState \<Rightarrow> bool" where
  "row_of req it st \<longleftrightarrow> ts_RunnerID st = rt_RunnerID it \<and> ts_Audience st = rt_Audience it \<and>
     ts_SessionID st = trim_space (iq_SessionID req) \<and> ts_ExpiresAt st = rt_ExpiresAt it \<and>
     ts_JobID st = trim_space (if rt_JobID it = [] then rt_RunnerID it else rt_JobID it)"

lemma issue_row_of:
  assumes "fst (IssueRunToken now gen req m) = Ok it"
    and "token_Get (br_store (mg_tokens m)) k = None"
    and "token_Get (br_store (mg_tokens (snd (IssueRunToken now gen req m)))) k = Some st"
  shows "rt_Token it = trim_space k \<and> row_of req it st"
proof -
  obtain r jobID bt where b: "fst (Issue now gen (run_token_request req jobID m) (mg_tokens m)) = Ok bt"
    "mg_tokens (snd (IssueRunToken now gen req m)) =
      broker_exec (OpIssue now gen (run_token_request req jobID m)) (mg_tokens m)"
    "rt_Token it = it_Token bt" "rt_RunnerID it = trim_space (iq_RunnerID req)" "rt_JobID it = jobID"
    "rt_Audience it = trim_space (iq_Audience req)" "rt_ExpiresAt it = cl_ExpiresAt (it_Claims bt)"
    using IssueRunToken_ok [OF assms(1)] by blast
  have st: "token_Get (br_store (broker_exec (OpIssue now gen (run_token_request req jobID m)) (mg_tokens m))) k = Some st"
    using assms(3) b(2) by simp
  from broker_exec_new [OF assms(2) st] b(1)
  have "it_Token bt = trim_space k"
    "state_claims st = (it_Claims bt)\<lparr>cl_Scopes := map utf8_repair (cl_Scopes (it_Claims bt))\<rparr>" by auto
  moreover from this(2) have "ts_RunnerID st = cl_ProbeID (it_Claims bt)" "ts_Audience st = cl_Audience (it_Claims bt)"
    "ts_SessionID st = cl_SessionID (it_Claims bt)" "ts_ExpiresAt st = cl_ExpiresAt (it_Claims bt)"
    "ts_JobID st = cl_RunID (it_Claims bt)"
    by (simp_all add: state_claims_def Claims.defs) (metis Claims.ext_inject Claims.surjective Claims.update_convs(4))+
  ultimately show ?thesis
    using Issue_claims [OF b(1)] b by (simp add: row_of_def run_token_request_def normalizeAudience_def Let_def)
qed

lemma IssueRunToken_err:
  assumes "fst (IssueRunToken now gen req m) = Err e"
  shows "mg_tokens (snd (IssueRunToken now gen req m)) = mg_tokens m"
  using assms Issue_err [of now gen _ "mg_tokens m"]
  by (auto simp: IssueRunToken_def Let_def split: if_splits option.splits sum.splits prod.splits)

lemma runner_exec_row:
  assumes "token_Get (br_store (mg_tokens m)) k = Some r"
  shows "\<exists>c. token_Get (br_store (mg_tokens (runner_exec p m))) k = Some (r\<lparr>ts_ConsumedAt := c\<rparr>)"
proof -
  have "token_Get (br_store (mg_tokens m)) k = Some (r\<lparr>ts_ConsumedAt := ts_ConsumedAt r\<rparr>)" using assms by simp
  then show ?thesis using runner_exec_broker [of p m] broker_exec_row [OF assms] by metis
qed

lemma runner_exec_newrow:
  assumes none: "token_Get (br_store (mg_tokens m)) k = None"
    and some: "token_Get (br_store (mg_tokens (runner_exec p m))) k = Some st"
  shows "\<exists>now gen req it. p = RIssue now gen req \<and> fst (IssueRunToken now gen req m) = Ok it \<and>
    rt_Token it = trim_space k \<and> row_of req it st"
proof (cases "\<exists>now gen req. p = RIssue now gen req")
  case True
  then obtain now gen req where p: "p = RIssue now gen req" by blast
  show ?thesis
  proof (cases "fst (IssueRunToken now gen req m)")
    case (Inl e)
    then have "mg_tokens (runner_exec p m) = mg_tokens m" using IssueRunToken_err p by simp
    then show ?thesis using assms by simp
  next
    case (Inr it)
    then show ?thesis using issue_row_of [OF Inr none] some p by simp
  qed
next
  case False
  have no: "token_Get (br_store (broker_exec q (mg_tokens m))) k \<noteq> Some st"
    if "\<And>now gen ir. q \<noteq> OpIssue now gen ir" for q
    using broker_exec_new [OF none, of q st] that by blast
  have "mg_tokens (runner_exec p m) = mg_tokens m \<or>
    (\<exists>q. mg_tokens (runner_exec p m) = broker_exec q (mg_tokens m) \<and> (\<forall>now gen ir. q \<noteq> OpIssue now gen ir))"
  proof (cases p)
    case (RCreate now gid uuid req)
    then show ?thesis by (simp add: CreateRunner_def Let_def split: sum.split)
  next
    case (RRevoke now token)
    have "mg_tokens (runner_exec p m) = broker_exec (OpRevoke now token) (mg_tokens m)"
      by (simp add: RRevoke RevokeRunToken_def split: prod.split)
    then show ?thesis by blast
  next
    case (RValidate now req)
    then show ?thesis using validate_broker [of now req m] by (metis broker_op.distinct(1) runner_exec.simps(4))
  next
    case (RPrepare now req audience)
    then show ?thesis using prepare_broker [of now req audience m] by (metis broker_op.distinct(1) runner_exec.simps(5))
  next
    case (RComplete now rid target)
    then show ?thesis by (simp add: CompleteRunnerLifecycle_def Let_def split: option.split)
  qed (use False in auto)
  then show ?thesis using no some none by auto
qed

lemma manager_run_row:
  assumes "token_Get (br_store (mg_tokens (fold runner_exec ops (NewManager ttl None)))) k = Some st"
  shows "\<exists>pre now gen req post it. ops = pre @ RIssue now gen req # post \<and>
    fst (IssueRunToken now gen req (fold runner_exec pre (NewManager ttl None))) = Ok it \<and>
    rt_Token it = trim_space k \<and> row_of req it st"
  using assms
proof (induction ops arbitrary: st rule: rev_induct)
  case Nil
  then show ?case by (simp add: NewManager_def NewBroker_def token_Get_def tbl_first_def Let_def)
next
  case (snoc p ops)
  let ?m = "fold runner_exec ops (NewManager ttl None)"
  show ?case
  proof (cases "token_Get (br_store (mg_tokens ?m)) k")
    case None
    from runner_exec_newrow [OF None, of p st] snoc.prems show ?thesis by force
  next
    case (Some r0)
    from runner_exec_row [OF Some, of p] snoc.prems obtain c where "st = r0\<lparr>ts_ConsumedAt := c\<rparr>" by auto
    moreover obtain pre now gen req post it where ih: "ops = pre @ RIssue now gen req # post"
      "fst (IssueRunToken now gen req (fold runner_exec pre (NewManager ttl None))) = Ok it"
      "rt_Token it = trim_space k" "row_of req it r0"
      using snoc.IH [OF Some] by blast
    ultimately show ?thesis
      by (intro exI [of _ pre] exI [of _ now] exI [of _ gen] exI [of _ req] exI [of _ "post @ [p]"] exI [of _ it])
         (simp add: row_of_def)
  qed
qed

lemma prepare_cases:
  assumes "fst (PrepareRunnerLifecycle now req audience m) = Ok r"
  obtains m' where "PrepareRunnerLifecycle now req audience m = (Ok r, m')"
  using assms by (metis prod.collapse)

lemma run_row_stays:
  "token_Get (br_store (mg_tokens m)) k = Some r \<Longrightarrow>
   \<exists>c. token_Get (br_store (mg_tokens (fold runner_exec ops m))) k = Some (r\<lparr>ts_ConsumedAt := c\<rparr>)"
proof (induction ops arbitrary: m r)
  case Nil
  then have "token_Get (br_store (mg_tokens (fold runner_exec [] m))) k = Some (r\<lparr>ts_ConsumedAt := ts_ConsumedAt r\<rparr>)"
    by simp
  then show ?case by blast
next
  case (Cons p ops)
  from runner_exec_row [OF Cons.prems, of p] obtain c where
    "token_Get (br_store (mg_tokens (runner_exec p m))) k = Some (r\<lparr>ts_ConsumedAt := c\<rparr>)" by blast
  from Cons.IH [OF this] show ?case by simp
qed

lemma run_job_stays:
  "gget (mg_runners m) k = Some r \<Longrightarrow>
   \<exists>r'. gget (mg_runners (fold runner_exec ops m)) k = Some r' \<and> rn_JobID r' = rn_JobID r"
proof (induction ops arbitrary: m r)
  case (Cons p ops)
  from runner_exec_get [OF Cons.prems, of p] obtain s u d where
    "gget (mg_runners (runner_exec p m)) k = Some (r\<lparr>rn_State := s, rn_UpdatedAt := u, rn_DestroyedAt := d\<rparr>)" by blast
  from Cons.IH [OF this] show ?case by simp
qed simp

lemma issue_runners [simp]: "mg_runners (snd (IssueRunToken now gen req m)) = mg_runners m"
  by (simp add: IssueRunToken_def Let_def split: option.split sum.split prod.split)

lemma issued_row:
  assumes "fst (IssueRunToken now gen req m) = Ok it"
  shows "\<exists>st. token_Get (br_store (mg_tokens (snd (IssueRunToken now gen req m)))) (rt_Token it) = Some st \<and> row_of req it st"
proof -
  obtain jobID bt where b: "fst (Issue now gen (run_token_request req jobID m) (mg_tokens m)) = Ok bt"
    "mg_tokens (snd (IssueRunToken now gen req m)) =
      broker_exec (OpIssue now gen (run_token_request req jobID m)) (mg_tokens m)" "rt_Token it = it_Token bt"
    using IssueRunToken_ok [OF assms] by blast
  let ?i = "Issue now gen (run_token_request req jobID m) (mg_tokens m)"
  have "?i = (Ok bt, fst (snd ?i), snd (snd ?i))" using b(1) by (metis prod.collapse)
  from Issue_ok_row [OF this] obtain r where r: "token_Get (br_store (mg_tokens m)) (it_Token bt) = None"
    "token_Insert r (br_store (mg_tokens m)) = Some (br_store (snd (snd ?i)))"
    "bt = \<lparr>it_Token = ts_Token r, it_Claims = state_claims r\<rparr>" "trim_space (ts_Token r) = ts_Token r" by blast
  have "\<exists>st. token_Get (br_store (snd (snd ?i))) (it_Token bt) = Some st"
    using token_Get_insert [OF r(2), of "it_Token bt"] r(1,3,4) by simp
  then obtain st where st: "token_Get (br_store (mg_tokens (snd (IssueRunToken now gen req m)))) (rt_Token it) = Some st"
    using b(2,3) by auto
  have "row_of req it st" using issue_row_of [OF assms _ st] r(1) b(3) by simp
  with st show ?thesis by blast
qed

section \<open>Properties\<close>

text \<open>
  Property C28. A move of a runner needs its own token. When a move is prepared in the history of a
  manager, an earlier \<open>IssueRunToken\<close> returned the token, for this runner, this operation
  and this session; the token has not expired, and no later move is ever prepared with it.
\<close>

theorem runner_move_needs_token:
  assumes "fst (PrepareRunnerLifecycle now req audience (fold runner_exec ops (NewManager ttl None))) = Ok r"
  shows "(\<exists>pre t gen iq post it. ops = pre @ RIssue t gen iq # post \<and>
      fst (IssueRunToken t gen iq (fold runner_exec pre (NewManager ttl None))) = Ok it \<and>
      rt_Token it = trim_space (lq_RunToken req) \<and> trim_space (rt_RunnerID it) = trim_space (lq_RunnerID req) \<and>
      trim_space (rt_Audience it) = trim_space audience \<and>
      trim_space (iq_SessionID iq) = trim_space (lq_SessionID req) \<and> now \<le> rt_ExpiresAt it) \<and>
    (\<forall>later t req' audience'. trim_space (lq_RunToken req') = trim_space (lq_RunToken req) \<longrightarrow>
      isl (fst (PrepareRunnerLifecycle t req' audience'
        (fold runner_exec (ops @ RPrepare now req audience # later) (NewManager ttl None)))))"
    (is "?issued \<and> ?once")
proof
  let ?m = "fold runner_exec ops (NewManager ttl None)"
  obtain m' where p: "PrepareRunnerLifecycle now req audience ?m = (Ok r, m')"
    using assms by (rule prepare_cases)
  obtain target c where a: "audienceTarget audience = Some target"
    and v: "fst (Validate now (lifecycle_validate req audience r) (mg_tokens ?m)) = Ok c"
    using prepare_ok [OF p] by blast
  obtain st where st: "token_Get (br_store (mg_tokens ?m)) (trim_space (lq_RunToken req)) = Some st"
    "now \<le> ts_ExpiresAt st" "binding_check (lifecycle_validate req audience r) st = None"
    using Validate_ok [OF v] by auto
  obtain pre t gen iq post it where i: "ops = pre @ RIssue t gen iq # post"
    "fst (IssueRunToken t gen iq (fold runner_exec pre (NewManager ttl None))) = Ok it"
    "rt_Token it = trim_space (lq_RunToken req)" "row_of iq it st"
    using manager_run_row [OF st(1)] by auto
  have "trim_space audience \<noteq> []"
    using a by (auto simp: audienceTarget_def normalizeAudience_def Let_def split: if_splits)
  moreover have "trim_space (lq_RunnerID req) \<noteq> []" "trim_space (lq_SessionID req) \<noteq> []"
    using p by (auto simp: PrepareRunnerLifecycle_def prepareTransition_def Let_def split: if_splits option.splits)
  moreover have "trim_space (iq_SessionID iq) \<noteq> []"
    using i(2) by (auto simp: IssueRunToken_def Let_def split: if_splits)
  ultimately have "trim_space (rt_RunnerID it) = trim_space (lq_RunnerID req) \<and>
      trim_space (rt_Audience it) = trim_space audience \<and>
      trim_space (iq_SessionID iq) = trim_space (lq_SessionID req) \<and> now \<le> rt_ExpiresAt it"
    using st(2,3) i(4) by (auto simp: binding_check_None row_of_def)
  with i show ?issued by metis
  show ?once
  proof (intro allI impI)
    fix later t and req' :: LifecycleRequest and audience'
    assume same: "trim_space (lq_RunToken req') = trim_space (lq_RunToken req)"
    have "spends (RPrepare now req audience) ?m (trim_space (lq_RunToken req'))" using p same by simp
    from run_token.used_once [OF this, of "RPrepare t req' audience'" later]
    show "isl (fst (PrepareRunnerLifecycle t req' audience'
        (fold runner_exec (ops @ RPrepare now req audience # later) (NewManager ttl None))))" by simp
  qed
qed

theorem runner_move_needs_token_witness:
  "isl (fst (PrepareRunnerLifecycle 5 (demo_lifecycle ''t1'') AudienceRunnerStart
     (fold runner_exec (demo_ops @ RPrepare 4 (demo_lifecycle ''t1'') AudienceRunnerStart # []) (NewManager 0 None))))"
proof -
  have "\<not> isl (fst (PrepareRunnerLifecycle 4 (demo_lifecycle ''t1'') AudienceRunnerStart
      (fold runner_exec demo_ops (NewManager 0 None))))" by code_simp
  then obtain r where "fst (PrepareRunnerLifecycle 4 (demo_lifecycle ''t1'') AudienceRunnerStart
      (fold runner_exec demo_ops (NewManager 0 None))) = Ok r" by (rule ok_result)
  then show ?thesis using runner_move_needs_token by blast
qed

text \<open>
  The life of a runner: in every history its id, session and execution contract are
  well formed, its state changes only along the table of \<open>canTransition\<close>, and a destroyed
  runner stays destroyed.
\<close>

lemma runner_life:
  assumes "runner_state (fold runner_exec pre (NewManager ttl b)) k = Some s"
  shows "runners_ok (fold runner_exec pre (NewManager ttl b)) \<and>
    (\<exists>t. runner_state (fold runner_exec (pre @ post) (NewManager ttl b)) k = Some t \<and> canTransition\<^sup>*\<^sup>* s t \<and>
       (s = StateDestroyed \<longrightarrow> t = StateDestroyed))"
proof -
  have ok: "runners_ok (fold runner_exec pre (NewManager ttl b))" by (rule runner.run_inv) simp
  from runner.run_reach [OF ok assms, of post] obtain t where
    t: "runner_state (fold runner_exec post (fold runner_exec pre (NewManager ttl b))) k = Some t" "canTransition\<^sup>*\<^sup>* s t"
    by blast
  then have "s = StateDestroyed \<longrightarrow> t = StateDestroyed" using runner.terminal_reach [of s t] by blast
  then show ?thesis using ok t by simp
qed

lemma runner_life_witness:
  "\<exists>t. runner_state (fold runner_exec
      (demo_ops @ [RPrepare 4 (demo_lifecycle ''t1'') AudienceRunnerStart, RComplete 5 ''r1'' StateRunning])
      (NewManager 0 None)) ''r1'' = Some t \<and> canTransition\<^sup>*\<^sup>* StateCreated t"
proof -
  have "runner_state (fold runner_exec demo_ops (NewManager 0 None)) ''r1'' = Some StateCreated" by code_simp
  then show ?thesis using runner_life by blast
qed

lemma CompleteRunnerLifecycle_destroyed:
  "gget (mg_runners m) (trim_space rid) = Some r \<Longrightarrow> rn_State r = StateDestroyed \<Longrightarrow> trim_space rid \<noteq> [] \<Longrightarrow>
   CompleteRunnerLifecycle now rid target m = (Err (ErrInvalidTransition StateDestroyed target), m)"
  by (cases target) (simp_all add: CompleteRunnerLifecycle_def canTransition_def Let_def)

text \<open>
  A start that is overtaken leaves its sandbox behind: if a start of a sandbox runner
  has been prepared and the runner is destroyed before the start goes on, the start still calls the
  backend to run the command, then fails because the runner is destroyed, and no call stops or
  removes the execution.
\<close>

lemma overtaken_start_leaks:
  assumes "PrepareRunnerLifecycle t1 req AudienceRunnerStart m = (Ok prepared, m1)" "runners_ok m"
    and "rn_Backend prepared = BackendSandbox" "backend = Some run" "\<And>c. run c = None"
    and "runner_state (fold runner_exec ops m1) (trim_space (lq_RunnerID req)) = Some StateDestroyed"
  shows "\<exists>image command timeout.
    finish_lifecycle t2 backend AudienceRunnerStart prepared (fold runner_exec ops m1) =
      (Err [ErrInvalidTransition StateDestroyed StateRunning],
       [BackendStart (rn_ID prepared) (rn_JobID prepared) (rn_SessionID prepared) image command timeout],
       fold runner_exec ops m1)"
proof -
  let ?m = "fold runner_exec ops m1"
  have g: "gget (mg_runners m) (trim_space (lq_RunnerID req)) = Some prepared"
    using prepare_ok [OF assms(1)] by blast
  have "rn_ID prepared = trim_space (lq_RunnerID req) \<and>
      (rn_Backend prepared = BackendHost \<and> rn_Sandbox prepared = None \<or>
       rn_Backend prepared = BackendSandbox \<and>
         (\<exists>c. rn_Sandbox prepared = Some c \<and> sc_Command c \<noteq> [] \<and> sc_TimeoutSeconds c \<ge> 0))"
    using assms(2) g unfolding runners_ok_def by blast
  then have rid: "rn_ID prepared = trim_space (lq_RunnerID req)"
    and sb: "\<exists>c. rn_Sandbox prepared = Some c"
    using assms(3) by auto
  obtain r where r: "gget (mg_runners ?m) (trim_space (lq_RunnerID req)) = Some r" "rn_State r = StateDestroyed"
    using assms(6) by (auto simp: runner_state_def)
  have "trim_space (lq_RunnerID req) \<noteq> []"
    using assms(1) by (auto simp: PrepareRunnerLifecycle_def prepareTransition_def Let_def split: if_splits option.splits)
  then have c: "CompleteRunnerLifecycle t2 (rn_ID prepared) StateRunning ?m =
      (Err (ErrInvalidTransition StateDestroyed StateRunning), ?m)"
    using r rid by (intro CompleteRunnerLifecycle_destroyed) simp_all
  obtain s where s: "rn_Sandbox prepared = Some s" using sb by blast
  show ?thesis
    using c assms(3-5) s
    by (simp add: finish_lifecycle_def executeRunnerLifecycle_def audienceTargetState_def call_error_def Let_def)
qed

lemma overtaken_start_leaks_witness:
  "\<exists>prepared image command timeout.
    fst (snd (finish_lifecycle 8 (Some (\<lambda>c. None)) AudienceRunnerStart prepared
      (fold runner_exec [RPrepare 5 (demo_lifecycle ''t2'') AudienceRunnerDestroy, RComplete 6 ''r1'' StateDestroyed]
        (snd (PrepareRunnerLifecycle 4 (demo_lifecycle ''t1'') AudienceRunnerStart
          (fold runner_exec demo_ops (NewManager 0 None))))))) =
      [BackendStart ''r1'' [] ''s1'' image command timeout]"
proof -
  let ?m = "fold runner_exec demo_ops (NewManager 0 None)"
  let ?p = "PrepareRunnerLifecycle 4 (demo_lifecycle ''t1'') AudienceRunnerStart ?m"
  have "\<not> isl (fst ?p)" by code_simp
  then obtain r where r: "fst ?p = Ok r" by (rule ok_result)
  have f: "rn_Backend (projr (fst ?p)) = BackendSandbox" "rn_ID (projr (fst ?p)) = ''r1''"
    "rn_JobID (projr (fst ?p)) = []" "rn_SessionID (projr (fst ?p)) = ''s1''" by code_simp+
  have "runners_ok ?m" by (rule runner.run_inv) simp
  moreover have "runner_state (fold runner_exec
      [RPrepare 5 (demo_lifecycle ''t2'') AudienceRunnerDestroy, RComplete 6 ''r1'' StateDestroyed] (snd ?p))
      (trim_space (lq_RunnerID (demo_lifecycle ''t1''))) = Some StateDestroyed"
    by code_simp
  moreover have "?p = (Ok r, snd ?p)" using r by (metis prod.collapse)
  ultimately obtain image command timeout where
    e: "finish_lifecycle 8 (Some (\<lambda>c. None)) AudienceRunnerStart r
      (fold runner_exec [RPrepare 5 (demo_lifecycle ''t2'') AudienceRunnerDestroy, RComplete 6 ''r1'' StateDestroyed] (snd ?p)) =
      (Err [ErrInvalidTransition StateDestroyed StateRunning],
       [BackendStart (rn_ID r) (rn_JobID r) (rn_SessionID r) image command timeout],
       fold runner_exec [RPrepare 5 (demo_lifecycle ''t2'') AudienceRunnerDestroy, RComplete 6 ''r1'' StateDestroyed] (snd ?p))"
    using f r overtaken_start_leaks [of 4 "demo_lifecycle ''t1''" ?m r "snd ?p" "Some (\<lambda>c. None)" "\<lambda>c. None"]
    by fastforce
  have "rn_ID r = ''r1''" "rn_JobID r = []" "rn_SessionID r = ''s1''" using f r by simp_all
  then show ?thesis
    using e by (intro exI [of _ r] exI [of _ image] exI [of _ command] exI [of _ timeout]) (simp del: fold_simps)
qed

text \<open>
  A run token issued for a job on a runner without a job is never accepted for a move:
  \<open>IssueRunToken\<close> binds it to the job of the request, but a move of such a runner is checked
  against the id of the runner.
\<close>

lemma job_token_unusable:
  assumes "fst (IssueRunToken t gen iq m) = Ok it"
    and "gget (mg_runners m) (trim_space (iq_RunnerID iq)) = Some r" "trim_space (rn_JobID r) = []"
    and "trim_space (iq_JobID iq) \<notin> {[], trim_space (iq_RunnerID iq)}"
    and "trim_space (lq_RunToken req) = rt_Token it"
  shows "isl (fst (PrepareRunnerLifecycle now req audience
    (fold runner_exec ops (runner_exec (RIssue t gen iq) m))))"
proof (rule ccontr)
  let ?m = "fold runner_exec ops (runner_exec (RIssue t gen iq) m)"
  assume "\<not> ?thesis"
  then obtain r1 where "fst (PrepareRunnerLifecycle now req audience ?m) = Ok r1" by (rule ok_result)
  then obtain m' where p: "PrepareRunnerLifecycle now req audience ?m = (Ok r1, m')" by (rule prepare_cases)
  obtain c where g: "gget (mg_runners ?m) (trim_space (lq_RunnerID req)) = Some r1"
    and v: "fst (Validate now (lifecycle_validate req audience r1) (mg_tokens ?m)) = Ok c"
    using prepare_ok [OF p] by blast
  have "trim_space (lq_RunnerID req) \<noteq> []"
    using p by (auto simp: PrepareRunnerLifecycle_def prepareTransition_def Let_def split: if_splits option.splits)
  obtain st0 where st0: "token_Get (br_store (mg_tokens (runner_exec (RIssue t gen iq) m))) (rt_Token it) = Some st0"
    "row_of iq it st0" using issued_row [OF assms(1)] by auto
  have job: "rt_JobID it = trim_space (iq_JobID iq)" "rt_RunnerID it = trim_space (iq_RunnerID iq)"
    using IssueRunToken_ok [OF assms(1)] assms(2,3) by (auto simp: token_job_def)
  obtain x where "token_Get (br_store (mg_tokens ?m)) (rt_Token it) = Some (st0\<lparr>ts_ConsumedAt := x\<rparr>)"
    using run_row_stays [OF st0(1)] by blast
  then have "binding_check (lifecycle_validate req audience r1) (st0\<lparr>ts_ConsumedAt := x\<rparr>) = None"
    using Validate_ok [OF v] assms(5) by auto
  then have "trim_space (lq_RunnerID req) = trim_space (iq_RunnerID iq)"
    and run: "trim_space (vr_RunID (lifecycle_validate req audience r1)) \<in> {[], trim_space (iq_JobID iq)}"
    using st0(2) job assms(4) \<open>trim_space (lq_RunnerID req) \<noteq> []\<close>
    by (simp_all add: binding_check_None row_of_def)
  moreover have "gget (mg_runners (runner_exec (RIssue t gen iq) m)) (trim_space (iq_RunnerID iq)) = Some r"
    using assms(2) by simp
  from run_job_stays [OF this, of ops] g calculation(1) assms(3) have "trim_space (rn_JobID r1) = []" by auto
  ultimately show False using assms(4) \<open>trim_space (lq_RunnerID req) \<noteq> []\<close> by simp
qed

lemma job_token_unusable_witness:
  "isl (fst (PrepareRunnerLifecycle 4 (demo_lifecycle ''t9'') AudienceRunnerStart
    (fold runner_exec [] (runner_exec
      (RIssue 3 (\<lambda>i. Inr ''t9'') ((demo_token AudienceRunnerStart)\<lparr>iq_JobID := ''job''\<rparr>))
      (fold runner_exec demo_ops (NewManager 0 None))))))"
proof -
  let ?m = "fold runner_exec demo_ops (NewManager 0 None)"
  let ?i = "fst (IssueRunToken 3 (\<lambda>i. Inr ''t9'') ((demo_token AudienceRunnerStart)\<lparr>iq_JobID := ''job''\<rparr>) ?m)"
  have "\<not> isl ?i" by code_simp
  then obtain it where it: "?i = Ok it" by (rule ok_result)
  have t: "rt_Token (projr ?i) = ''t9''" by code_simp
  have s: "trim_space ''r1'' = ''r1''" "trim_space ''job'' = ''job''" "trim_space ''t9'' = ''t9''" by code_simp+
  have "map_option (\<lambda>r. trim_space (rn_JobID r)) (gget (mg_runners ?m) ''r1'') = Some []" by code_simp
  then obtain r where "gget (mg_runners ?m) ''r1'' = Some r" "trim_space (rn_JobID r) = []" by auto
  then show ?thesis using it t s by (intro job_token_unusable [OF it]) (simp_all add: demo_token_def demo_lifecycle_def)
qed

end
