(* ===== verification/Sandbox_Sessions.thy ===== *)
theory Sandbox_Sessions
  imports Token_Broker
begin

text \<open>
  Sandbox sessions: the state machine of \<^verbatim>\<open>controlplane/sandbox/model.go\<close>, the table of
  \<^verbatim>\<open>store.go\<close>, the lanes of \<^verbatim>\<open>lane.go\<close>, the handlers of \<^verbatim>\<open>handlers.go\<close> and the tools of
  \<^verbatim>\<open>mcpserver/sandbox_tools.go\<close> that create and destroy sessions. A handler returns the code of
  its answer or the session. Reading a field of a missing session is the error
  \<open>NilDereference\<close>, which ends the call with a panic.
\<close>

section \<open>Sessions\<close>

datatype SandboxState =
    SandboxCreated | SandboxProvisioning | SandboxReady | SandboxRunning | SandboxFailed | SandboxDestroyed
  | SandboxOther string

datatype sandbox_error =
    UnknownState SandboxState
  | TransitionNotAllowed SandboxState SandboxState
  | SandboxExists
  | SandboxNotFound
  | StateMismatch SandboxState SandboxState
  | UnknownLane string
  | RuntimeClassRequired
  | RuntimeNotAllowed string
  | ProbeNotFound string
  | MaxConcurrentExceeded int
  | InvalidSandboxRequest
  | AlreadyTerminal SandboxState
  | TransitionFailed sandbox_error
  | SandboxToken token_error
  | NilDereference

definition validTransitions :: "SandboxState \<Rightarrow> SandboxState list option" where
  "validTransitions s =
     (case s of
        SandboxCreated \<Rightarrow> Some [SandboxProvisioning]
      | SandboxProvisioning \<Rightarrow> Some [SandboxReady, SandboxFailed]
      | SandboxReady \<Rightarrow> Some [SandboxRunning, SandboxDestroyed]
      | SandboxRunning \<Rightarrow> Some [SandboxFailed, SandboxDestroyed]
      | SandboxFailed \<Rightarrow> Some []
      | SandboxDestroyed \<Rightarrow> Some []
      | SandboxOther _ \<Rightarrow> None)"

definition ValidateTransition :: "SandboxState \<Rightarrow> SandboxState \<Rightarrow> sandbox_error option" where
  "ValidateTransition from to =
     (case validTransitions from of
        None \<Rightarrow> Some (UnknownState from)
      | Some allowed \<Rightarrow> if to \<in> set allowed then None else Some (TransitionNotAllowed from to))"

record SandboxSession =
  ss_ID :: string
  ss_WorkspaceID :: string
  ss_ProbeID :: string
  ss_TemplateID :: string
  ss_RuntimeClass :: string
  ss_State :: SandboxState
  ss_TaskID :: string
  ss_CreatedBy :: string
  ss_CreatedAt :: time
  ss_UpdatedAt :: time
  ss_DestroyedAt :: "time option"
  ss_TTL :: duration
  ss_Metadata :: "string gmap"
  ss_ErrorMessage :: string

type_synonym session_table = "SandboxSession list"

definition session_IsTerminal :: "SandboxSession \<Rightarrow> bool" where
  "session_IsTerminal s \<longleftrightarrow> ss_State s = SandboxFailed \<or> ss_State s = SandboxDestroyed"

record ListFilter =
  lf_WorkspaceID :: string
  lf_State :: SandboxState
  lf_ProbeID :: string
  lf_Limit :: int

section \<open>The store\<close>

text \<open>
  What the decoder makes of the JSON text of a map of strings: the members are written in the order
  of their keys, and bytes that are not UTF-8 are replaced.
\<close>

definition reload_map :: "string gmap \<Rightarrow> string gmap" where
  "reload_map m =
     fold (\<lambda>(k, v). gput (utf8_repair k) (utf8_repair v)) (sort_by (\<lambda>a b. bytes_le (fst a) (fst b)) m) []"

definition session_Create ::
  "time \<Rightarrow> string \<Rightarrow> SandboxSession \<Rightarrow> session_table \<Rightarrow> (sandbox_error + SandboxSession) \<times> session_table" where
  "session_Create now uuid sess t =
     (let sess' = sess\<lparr>ss_ID := (if ss_ID sess = [] then uuid else ss_ID sess),
                       ss_CreatedAt := now, ss_UpdatedAt := now, ss_State := SandboxCreated\<rparr> in
      if tbl_count (\<lambda>r. ss_ID r = ss_ID sess') t > 0 then (Err SandboxExists, t)
      else (Ok sess', t @ [sess'\<lparr>ss_Metadata := reload_map (ss_Metadata sess')\<rparr>]))"

definition session_Get :: "session_table \<Rightarrow> string \<Rightarrow> SandboxSession option" where
  "session_Get t sid = tbl_first (\<lambda>r. ss_ID r = sid) t"

definition GetForWorkspace :: "session_table \<Rightarrow> string \<Rightarrow> string \<Rightarrow> SandboxSession option" where
  "GetForWorkspace t sid ws =
     (case session_Get t sid of
        None \<Rightarrow> None
      | Some s \<Rightarrow> if ws \<noteq> [] \<and> ss_WorkspaceID s \<noteq> [] \<and> ss_WorkspaceID s \<noteq> ws then None else Some s)"

definition session_List :: "ListFilter \<Rightarrow> session_table \<Rightarrow> SandboxSession list" where
  "session_List f t =
     take (nat (if lf_Limit f \<le> 0 then 100 else lf_Limit f))
       (sort_by (\<lambda>a b. text_le (ss_CreatedAt b) (ss_CreatedAt a))
         (filter (\<lambda>s. (lf_WorkspaceID f \<noteq> [] \<longrightarrow> ss_WorkspaceID s = lf_WorkspaceID f) \<and>
                      (lf_State f \<noteq> SandboxOther [] \<longrightarrow> ss_State s = lf_State f) \<and>
                      (lf_ProbeID f \<noteq> [] \<longrightarrow> ss_ProbeID s = lf_ProbeID f)) t))"

definition session_Update :: "time \<Rightarrow> SandboxSession \<Rightarrow> session_table \<Rightarrow> sandbox_error option \<times> session_table" where
  "session_Update now sess t =
     (if tbl_count (\<lambda>r. ss_ID r = ss_ID sess) t = 0 then (Some SandboxNotFound, t)
      else (None, tbl_update (\<lambda>r. ss_ID r = ss_ID sess)
              (\<lambda>r. r\<lparr>ss_TaskID := ss_TaskID sess, ss_Metadata := reload_map (ss_Metadata sess),
                     ss_ErrorMessage := ss_ErrorMessage sess, ss_UpdatedAt := now\<rparr>) t))"

definition in_state :: "string \<Rightarrow> SandboxState \<Rightarrow> SandboxSession \<Rightarrow> bool" where
  "in_state sid from r \<longleftrightarrow> ss_ID r = sid \<and> ss_State r = from"

definition session_move :: "time \<Rightarrow> SandboxState \<Rightarrow> SandboxSession \<Rightarrow> SandboxSession" where
  "session_move now to r =
     r\<lparr>ss_State := to, ss_UpdatedAt := now,
       ss_DestroyedAt := (if to = SandboxDestroyed then Some now else ss_DestroyedAt r)\<rparr>"

definition session_Transition ::
  "time \<Rightarrow> string \<Rightarrow> SandboxState \<Rightarrow> SandboxState \<Rightarrow> session_table \<Rightarrow>
   (sandbox_error + SandboxSession option) \<times> session_table" where
  "session_Transition now sid from to t =
     (case ValidateTransition from to of
        Some e \<Rightarrow> (Err e, t)
      | None \<Rightarrow>
          if tbl_count (in_state sid from) t = 0
          then (case session_Get t sid of
                  None \<Rightarrow> (Err SandboxNotFound, t)
                | Some existing \<Rightarrow> (Err (StateMismatch from (ss_State existing)), t))
          else let t' = tbl_update (in_state sid from) (session_move now to) t in (Ok (session_Get t' sid), t'))"

definition session_Delete :: "string \<Rightarrow> session_table \<Rightarrow> sandbox_error option \<times> session_table" where
  "session_Delete sid t =
     (if tbl_count (\<lambda>r. ss_ID r = sid) t = 0 then (Some SandboxNotFound, t)
      else (None, tbl_delete (\<lambda>r. ss_ID r = sid) t))"

definition session_Count :: "string \<Rightarrow> session_table \<Rightarrow> nat" where
  "session_Count ws t = tbl_count (\<lambda>r. ws \<noteq> [] \<longrightarrow> ss_WorkspaceID r = ws) t"

definition CountActive :: "string \<Rightarrow> session_table \<Rightarrow> nat" where
  "CountActive ws t =
     tbl_count (\<lambda>r. ss_State r \<noteq> SandboxFailed \<and> ss_State r \<noteq> SandboxDestroyed \<and>
                    (ws \<noteq> [] \<longrightarrow> ss_WorkspaceID r = ws)) t"

section \<open>Lanes\<close>

record LaneDefaults =
  ld_RuntimeClass :: string
  ld_TemplateID :: string
  ld_CPUMillis :: nat
  ld_MemoryMiB :: nat
  ld_AllowedCapabilities :: "string list"
  ld_HostDirectAllowed :: bool

definition laneRegistry :: "LaneDefaults gmap" where
  "laneRegistry =
     [(''container'', \<lparr>ld_RuntimeClass = ''runc'', ld_TemplateID = ''diagnose'', ld_CPUMillis = 1000,
         ld_MemoryMiB = 512, ld_AllowedCapabilities = [], ld_HostDirectAllowed = False\<rparr>),
      (''kata'', \<lparr>ld_RuntimeClass = ''kata-containers'', ld_TemplateID = ''full-remediate'', ld_CPUMillis = 2000,
         ld_MemoryMiB = 1024, ld_AllowedCapabilities = [], ld_HostDirectAllowed = False\<rparr>),
      (''wasm'', \<lparr>ld_RuntimeClass = ''wasmtime'', ld_TemplateID = ''wasm-fast-lane'', ld_CPUMillis = 500,
         ld_MemoryMiB = 256, ld_AllowedCapabilities = [], ld_HostDirectAllowed = False\<rparr>)]"

definition ResolveLane :: "string \<Rightarrow> sandbox_error + LaneDefaults" where
  "ResolveLane lane =
     (if lane = []
      then Ok \<lparr>ld_RuntimeClass = [], ld_TemplateID = [], ld_CPUMillis = 0, ld_MemoryMiB = 0,
               ld_AllowedCapabilities = [], ld_HostDirectAllowed = False\<rparr>
      else (case gget laneRegistry lane of None \<Rightarrow> Err (UnknownLane lane) | Some d \<Rightarrow> Ok d))"

section \<open>Handlers\<close>

record HandlerPolicy =
  hp_AllowedRuntimes :: "string list"
  hp_MaxConcurrent :: int
  hp_ProbeValidator :: "(string \<Rightarrow> bool) option"

record create_body =
  cb_WorkspaceID :: string
  cb_ProbeID :: string
  cb_TemplateID :: string
  cb_Lane :: string
  cb_RuntimeClass :: string
  cb_CreatedBy :: string
  cb_TTLSeconds :: int
  cb_Metadata :: "string gmap"

text \<open>The body after the defaults of its lane.\<close>

definition apply_lane :: "create_body \<Rightarrow> sandbox_error + create_body" where
  "apply_lane body =
     (let lane = trim_space (cb_Lane body) in
      if lane = [] then Ok body
      else (case ResolveLane lane of
              Err e \<Rightarrow> Err e
            | Ok ld \<Rightarrow>
                Ok (body\<lparr>cb_RuntimeClass :=
                           (if trim_space (cb_RuntimeClass body) = [] then ld_RuntimeClass ld else cb_RuntimeClass body),
                         cb_TemplateID :=
                           (if trim_space (cb_TemplateID body) = [] then ld_TemplateID ld else cb_TemplateID body),
                         cb_Metadata :=
                           gput ''lane_memory_mib'' (nat_text (ld_MemoryMiB ld))
                             (gput ''lane_cpu_millis'' (nat_text (ld_CPUMillis ld))
                               (gput ''lane'' lane (cb_Metadata body)))\<rparr>)))"

definition runtime_allowed :: "HandlerPolicy \<Rightarrow> string \<Rightarrow> bool" where
  "runtime_allowed p rt \<longleftrightarrow>
     hp_AllowedRuntimes p = [] \<or> list_ex (\<lambda>a. equal_fold a rt) (hp_AllowedRuntimes p)"

definition probe_known :: "HandlerPolicy \<Rightarrow> string \<Rightarrow> bool" where
  "probe_known p probeID \<longleftrightarrow>
     (case hp_ProbeValidator p of None \<Rightarrow> True | Some valid \<Rightarrow> probeID = [] \<or> valid probeID)"

definition body_session :: "create_body \<Rightarrow> SandboxSession" where
  "body_session body =
     \<lparr>ss_ID = [], ss_WorkspaceID = trim_space (cb_WorkspaceID body), ss_ProbeID = trim_space (cb_ProbeID body),
      ss_TemplateID = trim_space (cb_TemplateID body), ss_RuntimeClass = trim_space (cb_RuntimeClass body),
      ss_State = SandboxOther [], ss_TaskID = [], ss_CreatedBy = trim_space (cb_CreatedBy body),
      ss_CreatedAt = zero_time, ss_UpdatedAt = zero_time, ss_DestroyedAt = None,
      ss_TTL = wrap64 (cb_TTLSeconds body * Second), ss_Metadata = cb_Metadata body, ss_ErrorMessage = []\<rparr>"

definition HandleCreate ::
  "time \<Rightarrow> string \<Rightarrow> HandlerPolicy \<Rightarrow> create_body \<Rightarrow> session_table \<Rightarrow>
   (sandbox_error + SandboxSession) \<times> session_table" where
  "HandleCreate now uuid p raw t =
     (case apply_lane raw of
        Err e \<Rightarrow> (Err e, t)
      | Ok body \<Rightarrow>
          let runtimeClass = trim_space (cb_RuntimeClass body); probeID = trim_space (cb_ProbeID body) in
          if runtimeClass = [] then (Err RuntimeClassRequired, t)
          else if \<not> runtime_allowed p runtimeClass then (Err (RuntimeNotAllowed runtimeClass), t)
          else if \<not> probe_known p probeID then (Err (ProbeNotFound probeID), t)
          else if hp_MaxConcurrent p > 0 \<and> int (CountActive [] t) \<ge> hp_MaxConcurrent p
          then (Err (MaxConcurrentExceeded (hp_MaxConcurrent p)), t)
          else session_Create now uuid (body_session body) t)"

definition HandleGet :: "session_table \<Rightarrow> string \<Rightarrow> string \<Rightarrow> sandbox_error + SandboxSession" where
  "HandleGet t sid ws =
     (if sid = [] then Err InvalidSandboxRequest
      else (case GetForWorkspace t sid ws of None \<Rightarrow> Err SandboxNotFound | Some s \<Rightarrow> Ok s))"

text \<open>A transition that succeeds returns the session it moved, so the answer is that session.\<close>

definition moved_session ::
  "(sandbox_error + SandboxSession option) \<times> session_table \<Rightarrow> (sandbox_error + SandboxSession) \<times> session_table" where
  "moved_session res =
     (case res of
        (Err e, t) \<Rightarrow> (Err (TransitionFailed e), t)
      | (Ok None, t) \<Rightarrow> (Err NilDereference, t)
      | (Ok (Some s), t) \<Rightarrow> (Ok s, t))"

definition HandleDestroy ::
  "time \<Rightarrow> string \<Rightarrow> string \<Rightarrow> session_table \<Rightarrow> (sandbox_error + SandboxSession) \<times> session_table" where
  "HandleDestroy now sid ws t =
     (if sid = [] then (Err InvalidSandboxRequest, t)
      else (case GetForWorkspace t sid ws of
              None \<Rightarrow> (Err SandboxNotFound, t)
            | Some existing \<Rightarrow>
                if session_IsTerminal existing then (Err (AlreadyTerminal (ss_State existing)), t)
                else moved_session (session_Transition now sid (ss_State existing) SandboxDestroyed t)))"

text \<open>
  \<open>t1\<close> and \<open>t2\<close> are the clock readings of the transition and of the update that follows when the
  body carries an error message or a task id.
\<close>

definition HandleTransition ::
  "time \<Rightarrow> time \<Rightarrow> string \<Rightarrow> string \<Rightarrow> SandboxState \<Rightarrow> SandboxState \<Rightarrow> string \<Rightarrow> string \<Rightarrow> session_table \<Rightarrow>
   (sandbox_error + SandboxSession) \<times> session_table" where
  "HandleTransition t1 t2 sid ws from to errorMessage taskID t =
     (if sid = [] \<or> from = SandboxOther [] \<or> to = SandboxOther [] then (Err InvalidSandboxRequest, t)
      else (case GetForWorkspace t sid ws of
              None \<Rightarrow> (Err SandboxNotFound, t)
            | Some existing \<Rightarrow>
                (case moved_session (session_Transition t1 sid from to t) of
                   (Err e, t') \<Rightarrow> (Err e, t')
                 | (Ok updated, t') \<Rightarrow>
                     if errorMessage \<noteq> [] \<or> taskID \<noteq> []
                     then let t'' = snd (session_Update t2
                                (updated\<lparr>ss_ErrorMessage := errorMessage, ss_TaskID := taskID\<rparr>) t') in
                          (case session_Get t'' sid of
                             Some refreshed \<Rightarrow> (Ok refreshed, t'')
                           | None \<Rightarrow> (Ok (updated\<lparr>ss_ErrorMessage := errorMessage, ss_TaskID := taskID\<rparr>), t''))
                     else (Ok updated, t'))))"

section \<open>The tools\<close>

record tool_create =
  tc_WorkspaceID :: string
  tc_ProbeID :: string
  tc_TemplateID :: string
  tc_RuntimeClass :: string
  tc_TTLSeconds :: int
  tc_Metadata :: "string gmap"

definition tool_session :: "tool_create \<Rightarrow> Claims \<Rightarrow> SandboxSession" where
  "tool_session input claims =
     (let ttl = wrap64 (tc_TTLSeconds input * Second) in
      \<lparr>ss_ID = [], ss_WorkspaceID = trim_space (tc_WorkspaceID input),
       ss_ProbeID = (if trim_space (tc_ProbeID input) = [] then cl_ProbeID claims else trim_space (tc_ProbeID input)),
       ss_TemplateID = trim_space (tc_TemplateID input), ss_RuntimeClass = trim_space (tc_RuntimeClass input),
       ss_State = SandboxOther [], ss_TaskID = [], ss_CreatedBy = cl_Issuer claims,
       ss_CreatedAt = zero_time, ss_UpdatedAt = zero_time, ss_DestroyedAt = None,
       ss_TTL = (if ttl \<le> 0 then Hour else ttl), ss_Metadata = tc_Metadata input, ss_ErrorMessage = []\<rparr>)"

definition handleSandboxCreate ::
  "time \<Rightarrow> string \<Rightarrow> string \<Rightarrow> string \<Rightarrow> tool_create \<Rightarrow> Broker \<Rightarrow> session_table \<Rightarrow>
   (sandbox_error + SandboxSession) \<times> Broker \<times> session_table" where
  "handleSandboxCreate now uuid runToken sessionID input b t =
     (case validateSandboxToken now runToken sessionID b of
        (Err e, ev, b') \<Rightarrow> (Err (SandboxToken e), b', t)
      | (Ok claims, ev, b') \<Rightarrow>
          if trim_space (tc_WorkspaceID input) = [] then (Err InvalidSandboxRequest, b', t)
          else (case session_Create now uuid (tool_session input claims) t of
                  (res, t') \<Rightarrow> (res, b', t')))"

text \<open>The moves by which the tool takes a session out of each state; the first failure ends them.\<close>

definition destroy_moves :: "time \<Rightarrow> string \<Rightarrow> SandboxState \<Rightarrow> session_table \<Rightarrow> sandbox_error option \<times> session_table" where
  "destroy_moves now sid s t =
     (let move = (\<lambda>from to t. (case session_Transition now sid from to t of
                                 (Err e, t') \<Rightarrow> (Some e, t') | (Ok _, t') \<Rightarrow> (None, t'))) in
      case s of
        SandboxReady \<Rightarrow> move s SandboxDestroyed t
      | SandboxRunning \<Rightarrow> move s SandboxDestroyed t
      | SandboxCreated \<Rightarrow>
          (case move s SandboxProvisioning t of
             (Some e, t') \<Rightarrow> (Some e, t')
           | (None, t') \<Rightarrow> move SandboxProvisioning SandboxFailed t')
      | SandboxProvisioning \<Rightarrow> move s SandboxFailed t
      | _ \<Rightarrow> (None, t))"

definition handleSandboxDestroy ::
  "time \<Rightarrow> string \<Rightarrow> string \<Rightarrow> string \<Rightarrow> Broker \<Rightarrow> session_table \<Rightarrow>
   (sandbox_error + SandboxState) \<times> Broker \<times> session_table" where
  "handleSandboxDestroy now runToken sessionID rawID b t =
     (case validateSandboxToken now runToken sessionID b of
        (Err e, ev, b') \<Rightarrow> (Err (SandboxToken e), b', t)
      | (Ok claims, ev, b') \<Rightarrow>
          let sid = trim_space rawID in
          if sid = [] then (Err InvalidSandboxRequest, b', t)
          else (case session_Get t sid of
                  None \<Rightarrow> (Err NilDereference, b', t)
                | Some sess \<Rightarrow>
                    if ss_State sess = SandboxDestroyed then (Ok SandboxDestroyed, b', t)
                    else (case destroy_moves now sid (ss_State sess) t of
                            (Some e, t') \<Rightarrow> (Err (TransitionFailed e), b', t')
                          | (None, t') \<Rightarrow> (Ok SandboxDestroyed, b', t'))))"

section \<open>Histories\<close>

text \<open>
  The statements on the table, and the requests that run them. Nothing in the program calls
  \<open>session_Delete\<close>.
\<close>

datatype session_op =
    SCreate time string SandboxSession
  | STransition time string SandboxState SandboxState
  | SUpdate time SandboxSession

fun session_exec :: "session_op \<Rightarrow> session_table \<Rightarrow> session_table" where
  "session_exec (SCreate now uuid sess) t = snd (session_Create now uuid sess t)"
| "session_exec (STransition now sid from to) t = snd (session_Transition now sid from to t)"
| "session_exec (SUpdate now sess) t = snd (session_Update now sess t)"

datatype session_request =
    ReqCreate time string create_body
  | ReqDestroy time string string
  | ReqTransition time time string string SandboxState SandboxState string string
  | ToolCreate time string string string tool_create
  | ToolDestroy time string string string

fun request_exec :: "HandlerPolicy \<Rightarrow> session_request \<Rightarrow> Broker \<times> session_table \<Rightarrow> Broker \<times> session_table" where
  "request_exec p (ReqCreate now uuid body) (b, t) = (b, snd (HandleCreate now uuid p body t))"
| "request_exec p (ReqDestroy now sid ws) (b, t) = (b, snd (HandleDestroy now sid ws t))"
| "request_exec p (ReqTransition t1 t2 sid ws from to msg taskID) (b, t) =
     (b, snd (HandleTransition t1 t2 sid ws from to msg taskID t))"
| "request_exec p (ToolCreate now uuid token session input) (b, t) =
     snd (handleSandboxCreate now uuid token session input b t)"
| "request_exec p (ToolDestroy now token session sid) (b, t) = snd (handleSandboxDestroy now token session sid b t)"

definition sandbox_can :: "SandboxState \<Rightarrow> SandboxState \<Rightarrow> bool" where
  "sandbox_can s s' \<longleftrightarrow> ValidateTransition s s' = None"

definition sandbox_terminal :: "SandboxState \<Rightarrow> bool" where
  "sandbox_terminal s \<longleftrightarrow> s = SandboxFailed \<or> s = SandboxDestroyed"

definition sandbox_rank :: "SandboxState \<Rightarrow> nat" where
  "sandbox_rank s =
     (case s of SandboxCreated \<Rightarrow> 0 | SandboxProvisioning \<Rightarrow> 1 | SandboxReady \<Rightarrow> 2 | SandboxRunning \<Rightarrow> 3 | _ \<Rightarrow> 4)"

definition session_state :: "session_table \<Rightarrow> string \<Rightarrow> SandboxState option" where
  "session_state t k = map_option ss_State (session_Get t k)"

definition sessions_ok :: "session_table \<Rightarrow> bool" where
  "sessions_ok t \<longleftrightarrow> distinct (map ss_ID t) \<and>
     (\<forall>r \<in> set t. validTransitions (ss_State r) \<noteq> None \<and>
        (ss_State r = SandboxDestroyed \<longrightarrow> ss_DestroyedAt r \<noteq> None))"

definition history :: "session_table \<Rightarrow> session_table \<Rightarrow> bool" where
  "history t t' \<longleftrightarrow> (\<exists>ops. t' = fold session_exec ops t)"

definition demo_body :: create_body where
  "demo_body =
     \<lparr>cb_WorkspaceID = ''w1'', cb_ProbeID = ''p1'', cb_TemplateID = [], cb_Lane = ''kata'', cb_RuntimeClass = [],
      cb_CreatedBy = ''ann'', cb_TTLSeconds = 60, cb_Metadata = []\<rparr>"

definition demo_policy :: HandlerPolicy where
  "demo_policy = \<lparr>hp_AllowedRuntimes = [''KATA-containers''], hp_MaxConcurrent = 2, hp_ProbeValidator = None\<rparr>"

definition demo_requests :: "session_request list" where
  "demo_requests =
     [ReqCreate 1 ''a'' demo_body, ReqTransition 2 2 ''a'' ''w1'' SandboxCreated SandboxProvisioning [] [],
      ReqTransition 3 3 ''a'' [] SandboxProvisioning SandboxReady [] ''t1'', ReqCreate 4 ''b'' demo_body,
      ReqCreate 5 ''c'' demo_body]"

definition is_tool_create :: "session_request \<Rightarrow> bool" where
  "is_tool_create r = (case r of ToolCreate _ _ _ _ _ \<Rightarrow> True | _ \<Rightarrow> False)"

section \<open>Lemmas\<close>

lemma ValidateTransition_None:
  "ValidateTransition s s' = None \<longleftrightarrow> (\<exists>ts. validTransitions s = Some ts \<and> s' \<in> set ts)"
  by (auto simp: ValidateTransition_def split: option.splits if_splits)

lemma can_named: "sandbox_can s s' \<Longrightarrow> validTransitions s' \<noteq> None"
  by (cases s; cases s') (auto simp: sandbox_can_def ValidateTransition_def validTransitions_def)

lemma can_not_terminal: "sandbox_can s s' \<Longrightarrow> \<not> sandbox_terminal s"
  by (cases s) (auto simp: sandbox_can_def sandbox_terminal_def ValidateTransition_def validTransitions_def)

lemma can_rank: "sandbox_can s s' \<Longrightarrow> sandbox_rank s < sandbox_rank s'"
  by (cases s; cases s')
     (auto simp: sandbox_can_def sandbox_rank_def ValidateTransition_def validTransitions_def)

text \<open>The row of one session after each statement.\<close>

lemma session_Get_id: "session_Get t sid = Some r \<Longrightarrow> r \<in> set t \<and> ss_ID r = sid"
  unfolding session_Get_def by (drule tbl_firstD) simp

lemma session_Get_update:
  "(\<And>r. ss_ID (f r) = ss_ID r) \<Longrightarrow>
   session_Get (tbl_update P f t) k = map_option (\<lambda>r. if P r then f r else r) (session_Get t k)"
  unfolding session_Get_def by (rule tbl_first_update)

lemma session_move_simps [simp]:
  "ss_ID (session_move now s r) = ss_ID r" "ss_State (session_move now s r) = s"
  "ss_WorkspaceID (session_move now s r) = ss_WorkspaceID r"
  by (simp_all add: session_move_def)

interpretation session_cas: cas_table ss_ID ss_State session_move
  by unfold_locales simp_all

lemma in_state_eq: "in_state sid src = (\<lambda>r. ss_ID r = sid \<and> ss_State r = src)"
  by (simp add: in_state_def fun_eq_iff)

lemma session_state_eq: "session_state t k = map_option ss_State (tbl_first (\<lambda>r. ss_ID r = k) t)"
  by (simp add: session_state_def session_Get_def)

lemma in_state_count:
  "sessions_ok t \<Longrightarrow> tbl_count (in_state sid src) t = 0 \<longleftrightarrow> session_state t sid \<noteq> Some src"
  using session_cas.match_count [of t] by (simp add: sessions_ok_def in_state_eq session_state_eq)

lemma Transition_err: "fst (session_Transition now sid src dst t) = Err e \<Longrightarrow> snd (session_Transition now sid src dst t) = t"
  by (auto simp: session_Transition_def Let_def split: option.splits if_splits)

lemma Transition_ok:
  assumes "fst (session_Transition now sid src dst t) = Ok x"
  shows "sandbox_can src dst \<and> tbl_count (in_state sid src) t \<noteq> 0 \<and>
    snd (session_Transition now sid src dst t) =
      tbl_update (in_state sid src) (session_move now dst) t \<and>
    x = session_Get (snd (session_Transition now sid src dst t)) sid"
  using assms by (auto simp: session_Transition_def sandbox_can_def Let_def split: option.splits if_splits)

lemma session_exec_ok:
  assumes "sessions_ok t"
  shows "sessions_ok (session_exec p t)"
proof (cases p)
  case (SCreate now uuid sess)
  then show ?thesis using assms
    by (auto simp: session_Create_def sessions_ok_def Let_def tbl_count_0 validTransitions_def)
next
  case (SUpdate now sess)
  then show ?thesis using assms
    by (auto simp: session_Update_def sessions_ok_def table_simps tbl_update_ids)
next
  case (STransition now sid src dst)
  show ?thesis
  proof (cases "fst (session_Transition now sid src dst t)")
    case (Inl e)
    then show ?thesis using STransition assms Transition_err by simp
  next
    case (Inr x)
    note ok = Transition_ok [OF Inr]
    have "validTransitions dst \<noteq> None" using ok can_named by blast
    then show ?thesis using ok STransition assms
      by (auto simp: sessions_ok_def table_simps tbl_update_ids session_move_def split: if_splits)
  qed
qed

lemma session_exec_state:
  assumes "session_state t k = Some s"
  shows "\<exists>s'. session_state (session_exec p t) k = Some s' \<and> (s' = s \<or> sandbox_can s s')"
proof -
  obtain r where r: "session_Get t k = Some r" "ss_State r = s" using assms by (auto simp: session_state_def)
  show ?thesis
  proof (cases p)
    case (SCreate now uuid sess)
    have "session_Get (session_exec p t) k = Some r"
      using r(1) by (simp add: SCreate session_Create_def session_Get_def Let_def tbl_first_append)
    then show ?thesis using r(2) by (simp add: session_state_def)
  next
    case (SUpdate now sess)
    have "session_state (session_exec p t) k = Some s"
      using r by (simp add: SUpdate session_state_def session_Update_def session_Get_update)
    then show ?thesis by simp
  next
    case (STransition now sid src dst)
    show ?thesis
    proof (cases "fst (session_Transition now sid src dst t)")
      case (Inl e)
      then show ?thesis using STransition assms Transition_err by simp
    next
      case (Inr x)
      note ok = Transition_ok [OF Inr]
      then have "session_state (session_exec p t) k = Some (if k = sid \<and> s = src then dst else s)"
        using session_cas.swap_state [of k t s] assms by (simp add: STransition session_state_eq in_state_eq)
      then show ?thesis using ok by simp
    qed
  qed
qed

interpretation sandbox: ranked_store sandbox_can sandbox_terminal sandbox_rank sessions_ok session_state session_exec
proof
  show "s' = s" if "sandbox_terminal s" "sandbox_can s s'" for s s'
    using that can_not_terminal by blast
  show "sandbox_rank s < sandbox_rank s'" if "sandbox_can s s'" "s' \<noteq> s" for s s'
    using that(1) by (rule can_rank)
  show "sessions_ok (session_exec p t)" if "sessions_ok t" for t p
    using that by (rule session_exec_ok)
  show "\<exists>s'. session_state (session_exec p t) k = Some s' \<and> sandbox_can\<^sup>*\<^sup>* s s'"
    if "sessions_ok t" and "session_state t k = Some s" for t k s p
    using session_exec_state [OF that(2), of p] by auto
qed

text \<open>Every request is a list of statements.\<close>

lemma history_refl [intro]: "history t t"
  unfolding history_def by (rule exI [of _ "[]"]) simp

lemma history_step [intro]: "history t (session_exec p t)"
  unfolding history_def by (rule exI [of _ "[p]"]) simp

lemma history_trans: "history t u \<Longrightarrow> history u v \<Longrightarrow> history t v"
  unfolding history_def by (metis fold_append comp_apply)

lemma history_Create [intro]: "history t (snd (session_Create now uuid sess t))"
  using history_step [of t "SCreate now uuid sess"] by simp

lemma history_Transition [intro]: "history t (snd (session_Transition now sid src dst t))"
  using history_step [of t "STransition now sid src dst"] by simp

lemma history_Update [intro]: "history t (snd (session_Update now sess t))"
  using history_step [of t "SUpdate now sess"] by simp

lemma snd_moved [simp]: "snd (moved_session res) = snd res"
  by (auto simp: moved_session_def split: prod.split sum.split option.split)

lemma history_HandleCreate: "history t (snd (HandleCreate now uuid p body t))"
  by (simp add: HandleCreate_def Let_def history_refl history_Create split: sum.split)

lemma history_HandleDestroy: "history t (snd (HandleDestroy now sid ws t))"
  by (simp add: HandleDestroy_def history_refl history_Transition split: option.split)

lemma history_HandleTransition: "history t (snd (HandleTransition t1 t2 sid ws src dst msg taskID t))"
proof -
  obtain res t' where m: "moved_session (session_Transition t1 sid src dst t) = (res, t')"
    by (cases "moved_session (session_Transition t1 sid src dst t)")
  have h: "history t t'" using history_Transition [of t t1 sid src dst] snd_moved [of "session_Transition t1 sid src dst t"] m
    by simp
  then have "history t (snd (session_Update t2 u t'))" for u
    by (rule history_trans) (rule history_Update)
  then show ?thesis
    using h m by (simp add: HandleTransition_def Let_def history_refl split: option.split sum.split)
qed

lemma history_destroy_moves: "history t (snd (destroy_moves now sid s t))"
proof -
  define move where "move src dst t = (case session_Transition now sid src dst t of
      (Err e, t') \<Rightarrow> (Some e, t') | (Ok _, t') \<Rightarrow> (None, t'))" for src dst t
  have h: "history t (snd (move src dst t))" for src dst t
    using history_Transition [of t now sid src dst] by (auto simp: move_def split: prod.splits sum.splits)
  have h2: "history t (snd (case move src dst t of (Some e, t') \<Rightarrow> (Some e, t') | (None, t') \<Rightarrow> move src' dst' t'))"
    for src dst src' dst' t
    using h [of t src dst] history_trans h by (fastforce split: prod.splits option.splits)
  show ?thesis
    unfolding destroy_moves_def Let_def move_def [symmetric] by (cases s) (simp_all add: h h2 history_refl)
qed

lemma history_request: "history t (snd (request_exec p r (b, t)))"
proof (cases r)
  case (ToolCreate now uuid token session input)
  then show ?thesis using history_Create [of t now uuid]
    by (auto simp: handleSandboxCreate_def history_refl split: prod.split sum.split) (metis snd_conv)
next
  case (ToolDestroy now token session sid)
  then show ?thesis using history_destroy_moves [of t now "trim_space sid"]
    by (auto simp: handleSandboxDestroy_def Let_def history_refl split: prod.split sum.split option.split) (metis snd_conv)+
qed (simp_all add: history_HandleCreate history_HandleDestroy history_HandleTransition)

lemma history_ok: "history t t' \<Longrightarrow> sessions_ok t \<Longrightarrow> sessions_ok t'"
  unfolding history_def using sandbox.run_inv by blast

lemma history_reach:
  "history t t' \<Longrightarrow> sessions_ok t \<Longrightarrow> session_state t k = Some s \<Longrightarrow>
   \<exists>s'. session_state t' k = Some s' \<and> sandbox_can\<^sup>*\<^sup>* s s'"
  unfolding history_def using sandbox.run_reach by blast

lemma history_requests: "history (snd st) (snd (fold (request_exec p) rs st))"
proof (induction rs arbitrary: st)
  case (Cons r rs)
  have "history (snd st) (snd (request_exec p r st))"
    using history_request [of "snd st" p r "fst st"] by simp
  then show ?case using Cons.IH by (simp add: history_trans)
qed (simp add: history_refl)

lemma sessions_ok_Nil [simp]: "sessions_ok []"
  by (simp add: sessions_ok_def)

section \<open>Properties\<close>



text \<open>
  A transition is a compare-and-swap: it succeeds exactly if the table allows the move
  and the session is in the expected state; then it returns the session in its new state and
  changes no other session, and a second move from the same expected state fails. Otherwise the
  table is unchanged.
\<close>

lemma sandbox_transition_iff:
  assumes "sessions_ok t"
  shows "if sandbox_can src dst \<and> session_state t sid = Some src
    then \<exists>r. fst (session_Transition now sid src dst t) = Ok (Some r) \<and> ss_ID r = sid \<and> ss_State r = dst \<and>
      session_Get (snd (session_Transition now sid src dst t)) sid = Some r \<and>
      (\<forall>k. k \<noteq> sid \<longrightarrow> session_Get (snd (session_Transition now sid src dst t)) k = session_Get t k) \<and>
      (\<forall>now' dst'. isl (fst (session_Transition now' sid src dst' (snd (session_Transition now sid src dst t)))))
    else isl (fst (session_Transition now sid src dst t)) \<and> snd (session_Transition now sid src dst t) = t"
proof (cases "sandbox_can src dst \<and> session_state t sid = Some src")
  case True
  then obtain r where r: "session_Get t sid = Some r" "ss_State r = src" by (auto simp: session_state_def)
  let ?u = "session_Transition now sid src dst t"
  have "\<not> isl (fst ?u)"
    using True in_state_count [OF assms, of sid src] by (simp add: session_Transition_def sandbox_can_def Let_def)
  then obtain x where x: "fst ?u = Ok x" by (rule ok_result)
  note ok = Transition_ok [OF x]
  have id: "ss_ID r = sid" using r session_Get_id by blast
  have g: "session_Get (snd ?u) sid = Some (session_move now dst r)"
    using ok r id by (simp add: session_Get_update in_state_def)
  have others: "session_Get (snd ?u) k = session_Get t k" if "k \<noteq> sid" for k
    using ok that session_cas.swap_other [of k sid] by (simp add: session_Get_def in_state_eq)
  have "sessions_ok (snd ?u)" using session_exec_ok [OF assms, of "STransition now sid src dst"] by simp
  moreover have "dst \<noteq> src" using True can_rank by blast
  moreover have "session_state (snd ?u) sid = Some dst" using g by (simp add: session_state_def)
  ultimately have "tbl_count (in_state sid src) (snd ?u) = 0" by (simp add: in_state_count)
  then have "isl (fst (session_Transition now' sid src dst' (snd ?u)))" for now' dst'
    by (simp add: session_Transition_def split: option.split)
  then show ?thesis using True x ok g others id by auto
next
  case False
  then have "isl (fst (session_Transition now sid src dst t))"
    using in_state_count [OF assms, of sid src]
    by (auto simp: session_Transition_def sandbox_can_def Let_def split: option.split)
  then show ?thesis using False Transition_err [of now sid src dst t] by (auto simp: isl_def)
qed

lemma sandbox_transition_iff_witness:
  "\<exists>r. fst (session_Transition 9 ''a'' SandboxReady SandboxRunning
      (snd (fold (request_exec demo_policy) demo_requests (NewBroker 0 0 [], [])))) = Ok (Some r) \<and> ss_State r = SandboxRunning"
proof -
  let ?t = "snd (fold (request_exec demo_policy) demo_requests (NewBroker 0 0 [], []))"
  have "sessions_ok ?t" "sandbox_can SandboxReady SandboxRunning" "session_state ?t ''a'' = Some SandboxReady"
    by code_simp+
  then show ?thesis using sandbox_transition_iff [of ?t SandboxReady SandboxRunning "''a''" 9] by auto
qed

lemma Transition_step:
  assumes "sessions_ok u" "session_state u sid = Some src" "sandbox_can src dst"
  shows "\<exists>x. fst (session_Transition now sid src dst u) = Ok x \<and>
      session_state (snd (session_Transition now sid src dst u)) sid = Some dst"
proof -
  have "\<not> isl (fst (session_Transition now sid src dst u))"
    using assms in_state_count [OF assms(1), of sid src] by (simp add: session_Transition_def sandbox_can_def Let_def)
  then obtain x where x: "fst (session_Transition now sid src dst u) = Ok x" by (rule ok_result)
  obtain r where "session_Get u sid = Some r" "ss_State r = src" "ss_ID r = sid"
    using assms(2) session_Get_id [of u sid] by (auto simp: session_state_def)
  then show ?thesis using x Transition_ok [OF x] by (simp add: session_state_def session_Get_update in_state_def)
qed

lemma active_Transition: "CountActive ws (snd (session_Transition now sid src dst t)) \<le> CountActive ws t"
proof (cases "fst (session_Transition now sid src dst t)")
  case (Inl e)
  then show ?thesis using Transition_err by simp
next
  case (Inr x)
  note ok = Transition_ok [OF Inr]
  then have "\<not> sandbox_terminal src" using can_not_terminal by blast
  then show ?thesis using ok unfolding CountActive_def
    by (auto simp: in_state_def sandbox_terminal_def intro!: tbl_count_update_le)
qed

lemma active_Update: "CountActive ws (snd (session_Update now sess t)) \<le> CountActive ws t"
  unfolding CountActive_def session_Update_def by (auto intro!: tbl_count_update_le)

lemma active_Create: "CountActive [] (snd (session_Create now uuid sess t)) \<le> Suc (CountActive [] t)"
  by (simp add: CountActive_def session_Create_def tbl_count_def Let_def)

lemma active_HandleCreate:
  assumes "hp_MaxConcurrent p > 0" "int (CountActive [] t) \<le> hp_MaxConcurrent p"
  shows "int (CountActive [] (snd (HandleCreate now uuid p body t))) \<le> hp_MaxConcurrent p"
  using assms active_Create [of now uuid _ t]
  by (auto simp: HandleCreate_def Let_def split: sum.split) (smt (verit) of_nat_Suc of_nat_le_iff)

lemma active_HandleTransition:
  "CountActive [] (snd (HandleTransition t1 t2 sid ws src dst msg taskID t)) \<le> CountActive [] t"
proof -
  obtain res t' where m: "moved_session (session_Transition t1 sid src dst t) = (res, t')"
    by (cases "moved_session (session_Transition t1 sid src dst t)")
  have h: "CountActive [] t' \<le> CountActive [] t"
    using active_Transition [of "[]" t1 sid src dst t] snd_moved [of "session_Transition t1 sid src dst t"] m by simp
  then have "CountActive [] (snd (session_Update t2 u t')) \<le> CountActive [] t" for u
    using active_Update [of "[]" t2 u t'] by simp
  then show ?thesis using h m by (simp add: HandleTransition_def Let_def split: option.split sum.split)
qed

lemma active_destroy_moves: "CountActive ws (snd (destroy_moves now sid s t)) \<le> CountActive ws t"
proof -
  define move where "move src dst t = (case session_Transition now sid src dst t of
      (Err e, t') \<Rightarrow> (Some e, t') | (Ok _, t') \<Rightarrow> (None, t'))" for src dst t
  have h: "CountActive ws (snd (move src dst t)) \<le> CountActive ws t" for src dst t
    using active_Transition [of ws now sid src dst t] by (auto simp: move_def split: prod.splits sum.splits)
  have h2: "CountActive ws (snd (case move src dst t of (Some e, t') \<Rightarrow> (Some e, t') | (None, t') \<Rightarrow> move src' dst' t'))
      \<le> CountActive ws t" for src dst src' dst' t
  proof -
    obtain e u where m: "move src dst t = (e, u)" by (cases "move src dst t")
    have "CountActive ws u \<le> CountActive ws t" using h [of src dst t] m by simp
    moreover have "CountActive ws (snd (move src' dst' u)) \<le> CountActive ws u" by (rule h)
    ultimately show ?thesis using m by (cases e) simp_all
  qed
  show ?thesis
    unfolding destroy_moves_def Let_def move_def [symmetric] by (cases s) (simp_all add: h h2)
qed

text \<open>
  The limit on concurrent sandboxes holds: as long as sessions are created through the
  handler with a positive limit, whatever else is requested, the number of sessions that are not
  failed or destroyed never exceeds the limit.
\<close>

lemma sandboxes_within_limit:
  assumes "hp_MaxConcurrent p > 0" "list_all (\<lambda>r. \<not> is_tool_create r) rs"
    and "int (CountActive [] t) \<le> hp_MaxConcurrent p"
  shows "int (CountActive [] (snd (fold (request_exec p) rs (b, t)))) \<le> hp_MaxConcurrent p"
  using assms(2,3)
proof (induction rs arbitrary: b t)
  case (Cons r rs)
  obtain b' t' where st: "request_exec p r (b, t) = (b', t')" by (cases "request_exec p r (b, t)")
  have "int (CountActive [] t') \<le> hp_MaxConcurrent p"
  proof (cases r)
    case (ReqCreate now uuid body)
    then show ?thesis using st active_HandleCreate [OF assms(1) Cons.prems(2)] by auto
  next
    case (ReqDestroy now sid ws)
    have "CountActive [] (snd (HandleDestroy now sid ws t)) \<le> CountActive [] t"
      by (simp add: HandleDestroy_def active_Transition split: option.split)
    then show ?thesis using st ReqDestroy Cons.prems(2) by auto
  next
    case (ReqTransition t1 t2 sid ws src dst msg taskID)
    then show ?thesis using st Cons.prems(2) active_HandleTransition [of t1 t2 sid ws src dst msg taskID t] by auto
  next
    case (ToolCreate now uuid token session input)
    then show ?thesis using Cons.prems(1) by (simp add: is_tool_create_def)
  next
    case (ToolDestroy now token session sid)
    have "CountActive [] t' \<le> CountActive [] t"
      using st ToolDestroy active_destroy_moves [of "[]" now "trim_space sid" _ t]
      by (auto simp: handleSandboxDestroy_def Let_def split: prod.splits sum.splits option.splits if_splits) (metis snd_conv)+
    then show ?thesis using Cons.prems(2) by simp
  qed
  then show ?case using Cons st by simp
qed simp

lemma sandboxes_within_limit_witness:
  "int (CountActive [] (snd (fold (request_exec demo_policy) demo_requests (NewBroker 0 0 [], [])))) \<le> 2"
  using sandboxes_within_limit [of demo_policy demo_requests "[]" "NewBroker 0 0 []"]
  by (simp add: demo_policy_def demo_requests_def is_tool_create_def CountActive_def tbl_count_def)

text \<open>
  A session that is not ready yet cannot be destroyed by the handler, whose
  documentation says that it moves every session that is not terminal: it answers with a failed
  transition and changes nothing. The tool moves such a session to failed, and reports it as
  destroyed.
\<close>

lemma unready_session_not_destroyed:
  assumes "sessions_ok t" "GetForWorkspace t sid ws = Some s" "ss_State s \<in> {SandboxCreated, SandboxProvisioning}"
    and "sid \<noteq> []" "trim_space sid = sid" "validateSandboxToken now token session b = (Ok claims, ev, b')"
  shows "HandleDestroy now sid ws t = (Err (TransitionFailed (TransitionNotAllowed (ss_State s) SandboxDestroyed)), t) \<and>
    fst (handleSandboxDestroy now token session sid b t) = Ok SandboxDestroyed \<and>
    session_state (snd (snd (handleSandboxDestroy now token session sid b t))) sid = Some SandboxFailed"
proof
  have g: "session_Get t sid = Some s"
    using assms(2) by (auto simp: GetForWorkspace_def split: option.splits if_splits)
  show "HandleDestroy now sid ws t = (Err (TransitionFailed (TransitionNotAllowed (ss_State s) SandboxDestroyed)), t)"
    using assms(2,3,4) by (auto simp: HandleDestroy_def session_IsTerminal_def session_Transition_def
        ValidateTransition_def validTransitions_def moved_session_def)
  have id: "ss_ID s = sid" using g session_Get_id by blast
  have can: "sandbox_can SandboxCreated SandboxProvisioning" "sandbox_can SandboxProvisioning SandboxFailed"
    by (simp_all add: sandbox_can_def ValidateTransition_def validTransitions_def)
  have "\<exists>t'. destroy_moves now sid (ss_State s) t = (None, t') \<and> session_state t' sid = Some SandboxFailed"
  proof (cases "ss_State s = SandboxProvisioning")
    case True
    then have "session_state t sid = Some SandboxProvisioning" using g by (simp add: session_state_def)
    from Transition_step [OF assms(1) this can(2), of now] obtain x u where
      "session_Transition now sid SandboxProvisioning SandboxFailed t = (Ok x, u)" "session_state u sid = Some SandboxFailed"
      by (metis prod.collapse)
    then show ?thesis using True by (simp add: destroy_moves_def)
  next
    case False
    then have c: "ss_State s = SandboxCreated" using assms(3) by simp
    then have "session_state t sid = Some SandboxCreated" using g by (simp add: session_state_def)
    from Transition_step [OF assms(1) this can(1), of now] obtain x u where
      u: "session_Transition now sid SandboxCreated SandboxProvisioning t = (Ok x, u)" "session_state u sid = Some SandboxProvisioning"
      by (metis prod.collapse)
    have "sessions_ok u"
      using session_exec_ok [OF assms(1), of "STransition now sid SandboxCreated SandboxProvisioning"] u(1) by simp
    from Transition_step [OF this u(2) can(2), of now] obtain y v where
      "session_Transition now sid SandboxProvisioning SandboxFailed u = (Ok y, v)" "session_state v sid = Some SandboxFailed"
      by (metis prod.collapse)
    then show ?thesis using c u(1) by (simp add: destroy_moves_def Let_def)
  qed
  then obtain t' where "destroy_moves now sid (ss_State s) t = (None, t')" "session_state t' sid = Some SandboxFailed" by blast
  then show "fst (handleSandboxDestroy now token session sid b t) = Ok SandboxDestroyed \<and>
    session_state (snd (snd (handleSandboxDestroy now token session sid b t))) sid = Some SandboxFailed"
    using assms(3-6) g by (auto simp: handleSandboxDestroy_def Let_def)
qed


lemma unready_session_not_destroyed_witness:
  "session_state (snd (snd (handleSandboxDestroy 6 ''tok'' ''s1'' ''b'' demo_broker
     (snd (fold (request_exec demo_policy) demo_requests (NewBroker 0 0 [], [])))))) ''b'' = Some SandboxFailed"
proof -
  let ?t = "snd (fold (request_exec demo_policy) demo_requests (NewBroker 0 0 [], []))"
  have ok: "sessions_ok ?t" by code_simp
  have "map_option ss_State (GetForWorkspace ?t ''b'' ''w1'') = Some SandboxCreated" by code_simp
  then obtain s where s: "GetForWorkspace ?t ''b'' ''w1'' = Some s" "ss_State s = SandboxCreated" by auto
  have "\<not> isl (fst (validateSandboxToken 6 ''tok'' ''s1'' demo_broker))" by code_simp
  then obtain c where "fst (validateSandboxToken 6 ''tok'' ''s1'' demo_broker) = Ok c" by (rule ok_result)
  then obtain ev b' where v: "validateSandboxToken 6 ''tok'' ''s1'' demo_broker = (Ok c, ev, b')" by (metis prod.collapse)
  have "trim_space ''b'' = ''b''" by code_simp
  then show ?thesis using unready_session_not_destroyed [OF ok s(1) _ _ _ v] s(2) by simp
qed

text \<open>
  A tool call for a session that does not exist panics: with a valid token,
  \<open>handleSandboxDestroy\<close> reads the state of the missing session, since \<open>Get\<close> returns
  no error for it.
\<close>

lemma missing_sandbox_panics:
  assumes "validateSandboxToken now token session b = (Ok claims, ev, b')"
    and "trim_space sid \<noteq> []" "session_Get t (trim_space sid) = None"
  shows "handleSandboxDestroy now token session sid b t = (Err NilDereference, b', t)"
  using assms by (simp add: handleSandboxDestroy_def Let_def)

lemma missing_sandbox_panics_witness:
  "fst (handleSandboxDestroy 6 ''tok'' ''s1'' ''gone'' demo_broker []) = Err NilDereference"
proof -
  have "\<not> isl (fst (validateSandboxToken 6 ''tok'' ''s1'' demo_broker))" by code_simp
  then obtain c where "fst (validateSandboxToken 6 ''tok'' ''s1'' demo_broker) = Ok c" by (rule ok_result)
  then obtain ev b' where v: "validateSandboxToken 6 ''tok'' ''s1'' demo_broker = (Ok c, ev, b')" by (metis prod.collapse)
  have "trim_space ''gone'' \<noteq> []" by code_simp
  then show ?thesis using missing_sandbox_panics [OF v, of "''gone''" "[]"] by (simp add: session_Get_def tbl_first_def)
qed

lemma tool_create_unlimited:
  assumes "validateSandboxToken now token session b = (Ok claims, ev, b')"
    and "trim_space (tc_WorkspaceID input) \<noteq> []" "session_Get t uuid = None"
  shows "\<exists>s. fst (handleSandboxCreate now uuid token session input b t) = Ok s \<and>
    CountActive [] (snd (snd (handleSandboxCreate now uuid token session input b t))) = Suc (CountActive [] t)"
proof -
  have "tbl_count (\<lambda>r. ss_ID r = uuid) t = 0"
    using assms(3) by (simp add: session_Get_def tbl_first_None tbl_count_0)
  then show ?thesis
    using assms(1,2) by (simp add: handleSandboxCreate_def session_Create_def tool_session_def Let_def CountActive_def tbl_count_def)
qed

end
