(* ===== verification/Sandbox_Tasks.thy ===== *)
theory Sandbox_Tasks
  imports Sandbox_Sessions
begin

text \<open>
  Tasks of a sandbox: the state machine of \<^verbatim>\<open>controlplane/sandbox/task.go\<close>, the table of
  \<^verbatim>\<open>task_store.go\<close>, the handlers of \<^verbatim>\<open>task_handlers.go\<close>, which also move the session, and the tools
  that queue a task and read its output. The commands go through JSON and back.
\<close>

section \<open>Tasks\<close>

datatype TaskState =
    TaskQueued | TaskRunning | TaskSucceeded | TaskFailed | TaskCancelled | TaskOther string

datatype task_error =
    UnknownTaskState TaskState
  | TaskTransitionNotAllowed TaskState TaskState
  | TaskExists
  | TaskNotFound
  | TaskStateMismatch TaskState TaskState
  | InvalidTaskRequest
  | TaskSandboxNotFound
  | TaskSandboxNotReady SandboxState
  | UnknownTaskKind string
  | TaskNotCancellable TaskState
  | TaskTransitionFailed task_error
  | TaskToken token_error
  | TaskNilDereference

definition MaxOutputBytes :: nat where "MaxOutputBytes = 64 * 1024"
abbreviation DefaultTaskTimeoutSecs :: int where "DefaultTaskTimeoutSecs \<equiv> 300"
abbreviation MaxTaskTimeoutSecs :: int where "MaxTaskTimeoutSecs \<equiv> 3600"

definition validTaskTransitions :: "TaskState \<Rightarrow> TaskState list option" where
  "validTaskTransitions s =
     (case s of
        TaskQueued \<Rightarrow> Some [TaskRunning, TaskCancelled]
      | TaskRunning \<Rightarrow> Some [TaskSucceeded, TaskFailed, TaskCancelled]
      | TaskSucceeded \<Rightarrow> Some []
      | TaskFailed \<Rightarrow> Some []
      | TaskCancelled \<Rightarrow> Some []
      | TaskOther _ \<Rightarrow> None)"

definition ValidateTaskTransition :: "TaskState \<Rightarrow> TaskState \<Rightarrow> task_error option" where
  "ValidateTaskTransition src dst =
     (case validTaskTransitions src of
        None \<Rightarrow> Some (UnknownTaskState src)
      | Some allowed \<Rightarrow> if dst \<in> set allowed then None else Some (TaskTransitionNotAllowed src dst))"

record Task =
  tk_ID :: string
  tk_SandboxID :: string
  tk_WorkspaceID :: string
  tk_Kind :: string
  tk_Command :: "string list"
  tk_RepoURL :: string
  tk_RepoBranch :: string
  tk_RepoCommand :: "string list"
  tk_Image :: string
  tk_TimeoutSecs :: int
  tk_State :: TaskState
  tk_ExitCode :: int
  tk_Output :: string
  tk_CreatedAt :: time
  tk_StartedAt :: "time option"
  tk_CompletedAt :: "time option"
  tk_ErrorMessage :: string

type_synonym task_table = "Task list"

definition task_IsTerminal :: "Task \<Rightarrow> bool" where
  "task_IsTerminal t \<longleftrightarrow> tk_State t \<in> {TaskSucceeded, TaskFailed, TaskCancelled}"

record TaskListFilter =
  tf_SandboxID :: string
  tf_WorkspaceID :: string
  tf_State :: TaskState
  tf_Limit :: int

section \<open>The store\<close>

definition clamp_timeout :: "int \<Rightarrow> int" where
  "clamp_timeout n = min MaxTaskTimeoutSecs (if n \<le> 0 then DefaultTaskTimeoutSecs else n)"

definition CreateTask :: "time \<Rightarrow> string \<Rightarrow> Task \<Rightarrow> task_table \<Rightarrow> (task_error + Task) \<times> task_table" where
  "CreateTask now uuid task t =
     (let task' = task\<lparr>tk_ID := (if tk_ID task = [] then uuid else tk_ID task), tk_CreatedAt := now,
                       tk_State := TaskQueued, tk_TimeoutSecs := clamp_timeout (tk_TimeoutSecs task)\<rparr> in
      if tbl_count (\<lambda>r. tk_ID r = tk_ID task') t > 0 then (Err TaskExists, t)
      else (Ok task',
            t @ [task'\<lparr>tk_Command := map utf8_repair (tk_Command task'),
                       tk_RepoCommand := map utf8_repair (tk_RepoCommand task'),
                       tk_Output := take MaxOutputBytes (tk_Output task'),
                       tk_StartedAt := None, tk_CompletedAt := None\<rparr>]))"

definition GetTask :: "task_table \<Rightarrow> string \<Rightarrow> Task option" where
  "GetTask t tid = tbl_first (\<lambda>r. tk_ID r = tid) t"

definition GetTaskForWorkspace :: "task_table \<Rightarrow> string \<Rightarrow> string \<Rightarrow> Task option" where
  "GetTaskForWorkspace t tid ws =
     (case GetTask t tid of
        None \<Rightarrow> None
      | Some k \<Rightarrow> if ws \<noteq> [] \<and> tk_WorkspaceID k \<noteq> [] \<and> tk_WorkspaceID k \<noteq> ws then None else Some k)"

definition ListTasks :: "TaskListFilter \<Rightarrow> task_table \<Rightarrow> Task list" where
  "ListTasks f t =
     take (nat (if tf_Limit f \<le> 0 then 100 else tf_Limit f))
       (sort_by (\<lambda>a b. text_le (tk_CreatedAt b) (tk_CreatedAt a))
         (filter (\<lambda>k. (tf_SandboxID f \<noteq> [] \<longrightarrow> tk_SandboxID k = tf_SandboxID f) \<and>
                      (tf_WorkspaceID f \<noteq> [] \<longrightarrow> tk_WorkspaceID k = tf_WorkspaceID f) \<and>
                      (tf_State f \<noteq> TaskOther [] \<longrightarrow> tk_State k = tf_State f)) t))"

definition UpdateTask :: "Task \<Rightarrow> task_table \<Rightarrow> task_error option \<times> task_table" where
  "UpdateTask task t =
     (if tbl_count (\<lambda>r. tk_ID r = tk_ID task) t = 0 then (Some TaskNotFound, t)
      else (None, tbl_update (\<lambda>r. tk_ID r = tk_ID task)
              (\<lambda>r. r\<lparr>tk_ExitCode := tk_ExitCode task, tk_Output := take MaxOutputBytes (tk_Output task),
                     tk_ErrorMessage := tk_ErrorMessage task, tk_StartedAt := tk_StartedAt task,
                     tk_CompletedAt := tk_CompletedAt task\<rparr>) t))"

definition task_in_state :: "string \<Rightarrow> TaskState \<Rightarrow> Task \<Rightarrow> bool" where
  "task_in_state tid src r \<longleftrightarrow> tk_ID r = tid \<and> tk_State r = src"

definition task_move :: "time \<Rightarrow> TaskState \<Rightarrow> Task \<Rightarrow> Task" where
  "task_move now dst r =
     (if dst = TaskRunning then r\<lparr>tk_State := dst, tk_StartedAt := Some now\<rparr>
      else if dst \<in> {TaskSucceeded, TaskFailed, TaskCancelled} then r\<lparr>tk_State := dst, tk_CompletedAt := Some now\<rparr>
      else r\<lparr>tk_State := dst\<rparr>)"

definition TransitionTask ::
  "time \<Rightarrow> string \<Rightarrow> TaskState \<Rightarrow> TaskState \<Rightarrow> task_table \<Rightarrow> (task_error + Task option) \<times> task_table" where
  "TransitionTask now tid src dst t =
     (case ValidateTaskTransition src dst of
        Some e \<Rightarrow> (Err e, t)
      | None \<Rightarrow>
          if tbl_count (task_in_state tid src) t = 0
          then (case GetTask t tid of
                  None \<Rightarrow> (Err TaskNotFound, t)
                | Some existing \<Rightarrow> (Err (TaskStateMismatch src (tk_State existing)), t))
          else let t' = tbl_update (task_in_state tid src) (task_move now dst) t in (Ok (GetTask t' tid), t'))"

section \<open>Handlers\<close>

record task_body =
  tb_Kind :: string
  tb_Command :: "string list"
  tb_RepoURL :: string
  tb_RepoBranch :: string
  tb_RepoCommand :: "string list"
  tb_Image :: string
  tb_TimeoutSecs :: int

definition body_check :: "task_body \<Rightarrow> task_error option" where
  "body_check body =
     (let kind = trim_space (tb_Kind body) in
      if kind = [] then Some InvalidTaskRequest
      else if kind = ''command''
      then if tb_Command body = [] then Some InvalidTaskRequest else None
      else if kind = ''repo''
      then if trim_space (tb_RepoURL body) = [] then Some InvalidTaskRequest else None
      else Some (UnknownTaskKind kind))"

definition body_task :: "string \<Rightarrow> SandboxSession \<Rightarrow> task_body \<Rightarrow> Task" where
  "body_task sandboxID sess body =
     \<lparr>tk_ID = [], tk_SandboxID = sandboxID, tk_WorkspaceID = ss_WorkspaceID sess, tk_Kind = trim_space (tb_Kind body),
      tk_Command = tb_Command body, tk_RepoURL = trim_space (tb_RepoURL body),
      tk_RepoBranch = trim_space (tb_RepoBranch body), tk_RepoCommand = tb_RepoCommand body,
      tk_Image = trim_space (tb_Image body), tk_TimeoutSecs = clamp_timeout (tb_TimeoutSecs body),
      tk_State = TaskOther [], tk_ExitCode = 0, tk_Output = [], tk_CreatedAt = zero_time, tk_StartedAt = None,
      tk_CompletedAt = None, tk_ErrorMessage = []\<rparr>"

definition HandleCreateTask ::
  "time \<Rightarrow> time \<Rightarrow> string \<Rightarrow> string \<Rightarrow> string \<Rightarrow> task_body \<Rightarrow> session_table \<Rightarrow> task_table \<Rightarrow>
   (task_error + Task) \<times> session_table \<times> task_table" where
  "HandleCreateTask t1 t2 uuid sandboxID ws body S T =
     (if sandboxID = [] then (Err InvalidTaskRequest, S, T)
      else (case GetForWorkspace S sandboxID ws of
              None \<Rightarrow> (Err TaskSandboxNotFound, S, T)
            | Some sess \<Rightarrow>
                if ss_State sess \<noteq> SandboxReady \<and> ss_State sess \<noteq> SandboxRunning
                then (Err (TaskSandboxNotReady (ss_State sess)), S, T)
                else (case body_check body of
                        Some e \<Rightarrow> (Err e, S, T)
                      | None \<Rightarrow>
                          (case CreateTask t1 uuid (body_task sandboxID sess body) T of
                             (Err e, T') \<Rightarrow> (Err e, S, T')
                           | (Ok created, T') \<Rightarrow>
                               (Ok created,
                                if ss_State sess = SandboxReady
                                then snd (session_Transition t2 sandboxID SandboxReady SandboxRunning S) else S,
                                T')))))"

definition find_task :: "string \<Rightarrow> string \<Rightarrow> string \<Rightarrow> session_table \<Rightarrow> task_table \<Rightarrow> task_error + Task" where
  "find_task sandboxID taskID ws S T =
     (if sandboxID = [] \<or> taskID = [] then Err InvalidTaskRequest
      else (case GetForWorkspace S sandboxID ws of
              None \<Rightarrow> Err TaskSandboxNotFound
            | Some sess \<Rightarrow>
                (case GetTaskForWorkspace T taskID (ss_WorkspaceID sess) of
                   None \<Rightarrow> Err TaskNotFound
                 | Some task \<Rightarrow> if tk_SandboxID task \<noteq> sandboxID then Err TaskNotFound else Ok task)))"

definition HandleGetTask :: "string \<Rightarrow> string \<Rightarrow> string \<Rightarrow> session_table \<Rightarrow> task_table \<Rightarrow> task_error + Task" where
  "HandleGetTask sandboxID taskID ws S T = find_task sandboxID taskID ws S T"

definition HandleListTasks :: "string \<Rightarrow> string \<Rightarrow> session_table \<Rightarrow> task_table \<Rightarrow> task_error + Task list" where
  "HandleListTasks sandboxID ws S T =
     (if sandboxID = [] then Err InvalidTaskRequest
      else (case GetForWorkspace S sandboxID ws of
              None \<Rightarrow> Err TaskSandboxNotFound
            | Some sess \<Rightarrow>
                Ok (ListTasks \<lparr>tf_SandboxID = sandboxID, tf_WorkspaceID = ss_WorkspaceID sess,
                               tf_State = TaskOther [], tf_Limit = 0\<rparr> T)))"

definition HandleCancelTask ::
  "time \<Rightarrow> string \<Rightarrow> string \<Rightarrow> string \<Rightarrow> session_table \<Rightarrow> task_table \<Rightarrow> (task_error + Task option) \<times> task_table" where
  "HandleCancelTask now sandboxID taskID ws S T =
     (case find_task sandboxID taskID ws S T of
        Err e \<Rightarrow> (Err e, T)
      | Ok task \<Rightarrow>
          if tk_State task \<noteq> TaskQueued \<and> tk_State task \<noteq> TaskRunning
          then (Err (TaskNotCancellable (tk_State task)), T)
          else (case TransitionTask now taskID (tk_State task) TaskCancelled T of
                  (Err e, T') \<Rightarrow> (Err (TaskTransitionFailed e), T')
                | (Ok c, T') \<Rightarrow> (Ok c, T')))"

section \<open>The tools\<close>

record tool_run =
  tr_SandboxID :: string
  tr_Command :: "string list"
  tr_Image :: string
  tr_TimeoutSecs :: int

definition tool_task :: "tool_run \<Rightarrow> SandboxSession \<Rightarrow> Task" where
  "tool_task input sess =
     \<lparr>tk_ID = [], tk_SandboxID = trim_space (tr_SandboxID input), tk_WorkspaceID = ss_WorkspaceID sess,
      tk_Kind = ''command'', tk_Command = tr_Command input, tk_RepoURL = [], tk_RepoBranch = [], tk_RepoCommand = [],
      tk_Image = trim_space (tr_Image input), tk_TimeoutSecs = clamp_timeout (tr_TimeoutSecs input),
      tk_State = TaskQueued, tk_ExitCode = 0, tk_Output = [], tk_CreatedAt = zero_time, tk_StartedAt = None,
      tk_CompletedAt = None, tk_ErrorMessage = []\<rparr>"

definition handleSandboxRun ::
  "time \<Rightarrow> string \<Rightarrow> string \<Rightarrow> string \<Rightarrow> tool_run \<Rightarrow> Broker \<Rightarrow> session_table \<Rightarrow> task_table \<Rightarrow>
   (task_error + Task) \<times> Broker \<times> task_table" where
  "handleSandboxRun now uuid token session input b S T =
     (case validateSandboxToken now token session b of
        (Err e, ev, b') \<Rightarrow> (Err (TaskToken e), b', T)
      | (Ok claims, ev, b') \<Rightarrow>
          let sandboxID = trim_space (tr_SandboxID input) in
          if sandboxID = [] \<or> tr_Command input = [] then (Err InvalidTaskRequest, b', T)
          else (case session_Get S sandboxID of
                  None \<Rightarrow> (Err TaskNilDereference, b', T)
                | Some sess \<Rightarrow>
                    if session_IsTerminal sess then (Err (TaskSandboxNotReady (ss_State sess)), b', T)
                    else (case CreateTask now uuid (tool_task input sess) T of (res, T') \<Rightarrow> (res, b', T'))))"

definition handleSandboxReadOutput ::
  "time \<Rightarrow> string \<Rightarrow> string \<Rightarrow> string \<Rightarrow> Broker \<Rightarrow> task_table \<Rightarrow> (task_error + Task) \<times> Broker" where
  "handleSandboxReadOutput now token session rawID b T =
     (case validateSandboxToken now token session b of
        (Err e, ev, b') \<Rightarrow> (Err (TaskToken e), b')
      | (Ok claims, ev, b') \<Rightarrow>
          if trim_space rawID = [] then (Err InvalidTaskRequest, b')
          else (case GetTask T (trim_space rawID) of
                  None \<Rightarrow> (Err TaskNilDereference, b')
                | Some task \<Rightarrow> (Ok task, b')))"

section \<open>Histories\<close>

datatype task_op =
    KCreate time string Task
  | KTransition time string TaskState TaskState
  | KUpdate Task

fun task_exec :: "task_op \<Rightarrow> task_table \<Rightarrow> task_table" where
  "task_exec (KCreate now uuid task) t = snd (CreateTask now uuid task t)"
| "task_exec (KTransition now tid src dst) t = snd (TransitionTask now tid src dst t)"
| "task_exec (KUpdate task) t = snd (UpdateTask task t)"

definition task_can :: "TaskState \<Rightarrow> TaskState \<Rightarrow> bool" where
  "task_can s s' \<longleftrightarrow> ValidateTaskTransition s s' = None"

definition task_terminal :: "TaskState \<Rightarrow> bool" where
  "task_terminal s \<longleftrightarrow> s \<in> {TaskSucceeded, TaskFailed, TaskCancelled}"

definition task_rank :: "TaskState \<Rightarrow> nat" where
  "task_rank s = (case s of TaskQueued \<Rightarrow> 0 | TaskRunning \<Rightarrow> 1 | _ \<Rightarrow> 2)"

definition task_state :: "task_table \<Rightarrow> string \<Rightarrow> TaskState option" where
  "task_state t k = map_option tk_State (GetTask t k)"

definition tasks_ok :: "task_table \<Rightarrow> bool" where
  "tasks_ok t \<longleftrightarrow> distinct (map tk_ID t) \<and>
     (\<forall>r \<in> set t. validTaskTransitions (tk_State r) \<noteq> None \<and> length (tk_Output r) \<le> MaxOutputBytes \<and>
        0 < tk_TimeoutSecs r \<and> tk_TimeoutSecs r \<le> MaxTaskTimeoutSecs)"

definition demo_task :: task_body where
  "demo_task =
     \<lparr>tb_Kind = ''command'', tb_Command = [''make'', ''test''], tb_RepoURL = [], tb_RepoBranch = [], tb_RepoCommand = [],
      tb_Image = [], tb_TimeoutSecs = 90000\<rparr>"

definition demo_sessions :: session_table where
  "demo_sessions = snd (fold (request_exec demo_policy) demo_requests (NewBroker 0 0 [], []))"

section \<open>Lemmas\<close>

lemma task_can_named: "task_can s s' \<Longrightarrow> validTaskTransitions s' \<noteq> None"
  by (cases s; cases s') (auto simp: task_can_def ValidateTaskTransition_def validTaskTransitions_def)

lemma task_can_not_terminal: "task_can s s' \<Longrightarrow> \<not> task_terminal s"
  by (cases s) (auto simp: task_can_def task_terminal_def ValidateTaskTransition_def validTaskTransitions_def)

lemma task_can_rank: "task_can s s' \<Longrightarrow> task_rank s < task_rank s'"
  by (cases s; cases s') (auto simp: task_can_def task_rank_def ValidateTaskTransition_def validTaskTransitions_def)

lemma task_move_simps [simp]:
  "tk_ID (task_move now s r) = tk_ID r" "tk_State (task_move now s r) = s" "tk_Output (task_move now s r) = tk_Output r"
  "tk_TimeoutSecs (task_move now s r) = tk_TimeoutSecs r" "tk_SandboxID (task_move now s r) = tk_SandboxID r"
  by (simp_all add: task_move_def)

interpretation task_cas: cas_table tk_ID tk_State task_move
  by unfold_locales simp_all

lemma task_in_state_eq: "task_in_state tid src = (\<lambda>r. tk_ID r = tid \<and> tk_State r = src)"
  by (simp add: task_in_state_def fun_eq_iff)

lemma task_state_eq: "task_state t k = map_option tk_State (tbl_first (\<lambda>r. tk_ID r = k) t)"
  by (simp add: task_state_def GetTask_def)

lemma TransitionTask_err: "fst (TransitionTask now tid src dst t) = Err e \<Longrightarrow> snd (TransitionTask now tid src dst t) = t"
  by (auto simp: TransitionTask_def Let_def split: option.splits if_splits)

lemma TransitionTask_ok:
  assumes "fst (TransitionTask now tid src dst t) = Ok x"
  shows "task_can src dst \<and>
    snd (TransitionTask now tid src dst t) = tbl_update (\<lambda>r. tk_ID r = tid \<and> tk_State r = src) (task_move now dst) t"
  using assms by (auto simp: TransitionTask_def task_can_def task_in_state_eq Let_def split: option.splits if_splits)

lemma clamp_timeout_range: "0 < clamp_timeout n \<and> clamp_timeout n \<le> MaxTaskTimeoutSecs"
  by (simp add: clamp_timeout_def)

lemma task_exec_ok:
  assumes "tasks_ok t"
  shows "tasks_ok (task_exec p t)"
proof (cases p)
  case (KCreate now uuid task)
  then show ?thesis using assms clamp_timeout_range [of "tk_TimeoutSecs task"]
    by (auto simp: CreateTask_def tasks_ok_def Let_def tbl_count_0 validTaskTransitions_def)
next
  case (KUpdate task)
  then show ?thesis using assms
    by (auto simp: UpdateTask_def tasks_ok_def table_simps tbl_update_ids)
next
  case (KTransition now tid src dst)
  show ?thesis
  proof (cases "fst (TransitionTask now tid src dst t)")
    case (Inl e)
    then show ?thesis using KTransition assms TransitionTask_err by simp
  next
    case (Inr x)
    note ok = TransitionTask_ok [OF Inr]
    have "validTaskTransitions dst \<noteq> None" using ok task_can_named by blast
    then show ?thesis using ok KTransition assms
      by (auto simp: tasks_ok_def table_simps tbl_update_ids)
  qed
qed

lemma task_exec_state:
  assumes "task_state t k = Some s"
  shows "\<exists>s'. task_state (task_exec p t) k = Some s' \<and> (s' = s \<or> task_can s s')"
proof -
  obtain r where r: "GetTask t k = Some r" "tk_State r = s" using assms by (auto simp: task_state_def)
  show ?thesis
  proof (cases p)
    case (KCreate now uuid task)
    have "GetTask (task_exec p t) k = Some r"
      using r(1) by (simp add: KCreate CreateTask_def GetTask_def Let_def tbl_first_append)
    then show ?thesis using r(2) by (simp add: task_state_def)
  next
    case (KUpdate task)
    have "task_state (task_exec p t) k = Some s"
      using r by (simp add: KUpdate task_state_def UpdateTask_def GetTask_def tbl_first_update [where key = tk_ID])
    then show ?thesis by simp
  next
    case (KTransition now tid src dst)
    show ?thesis
    proof (cases "fst (TransitionTask now tid src dst t)")
      case (Inl e)
      then show ?thesis using KTransition assms TransitionTask_err by simp
    next
      case (Inr x)
      note ok = TransitionTask_ok [OF Inr]
      then have "task_state (task_exec p t) k = Some (if k = tid \<and> s = src then dst else s)"
        using task_cas.swap_state [of k t s] assms by (simp add: KTransition task_state_eq)
      then show ?thesis using ok by simp
    qed
  qed
qed

interpretation task: ranked_store task_can task_terminal task_rank tasks_ok task_state task_exec
proof
  show "s' = s" if "task_terminal s" "task_can s s'" for s s'
    using that task_can_not_terminal by blast
  show "task_rank s < task_rank s'" if "task_can s s'" "s' \<noteq> s" for s s'
    using that(1) by (rule task_can_rank)
  show "tasks_ok (task_exec p t)" if "tasks_ok t" for t p
    using that by (rule task_exec_ok)
  show "\<exists>s'. task_state (task_exec p t) k = Some s' \<and> task_can\<^sup>*\<^sup>* s s'"
    if "tasks_ok t" and "task_state t k = Some s" for t k s p
    using task_exec_state [OF that(2), of p] by auto
qed

section \<open>Properties\<close>

text \<open>
  The life of a task: under any statements of the task store the ids stay distinct,
  outputs and timeouts stay within their limits, the state of a task only moves along the table of
  transitions, and a finished or cancelled task never moves again.
\<close>

lemma task_life:
  assumes "task_state (fold task_exec ps []) k = Some s"
  shows "tasks_ok (fold task_exec ps []) \<and>
    (\<exists>s'. task_state (fold task_exec (ps @ qs) []) k = Some s' \<and> task_can\<^sup>*\<^sup>* s s' \<and> (task_terminal s \<longrightarrow> s' = s))"
proof -
  have ok: "tasks_ok (fold task_exec ps [])" by (rule task.run_inv) (simp add: tasks_ok_def)
  from task.run_reach [OF ok assms, of qs] obtain s' where
    "task_state (fold task_exec qs (fold task_exec ps [])) k = Some s'" "task_can\<^sup>*\<^sup>* s s'" by blast
  then show ?thesis using ok task.terminal_reach [of s s'] by auto
qed

lemma task_life_witness:
  "\<exists>s'. task_state (fold task_exec ([KCreate 1 ''k'' (body_task ''a'' (hd demo_sessions) demo_task)] @
      [KTransition 2 ''k'' TaskQueued TaskRunning]) []) ''k'' = Some s' \<and> task_can\<^sup>*\<^sup>* TaskQueued s'"
proof -
  have "task_state (fold task_exec [KCreate 1 ''k'' (body_task ''a'' (hd demo_sessions) demo_task)] []) ''k'' = Some TaskQueued"
    by (simp add: CreateTask_def body_task_def task_state_def GetTask_def tbl_first_def tbl_count_def Let_def)
  then show ?thesis using task_life by blast
qed

lemma CreateTask_ok:
  assumes "CreateTask now uuid task T = (Ok created, T')"
  shows "GetTask T (tk_ID created) = None \<and> tk_State created = TaskQueued \<and>
    created = task\<lparr>tk_ID := (if tk_ID task = [] then uuid else tk_ID task), tk_CreatedAt := now,
                   tk_State := TaskQueued, tk_TimeoutSecs := clamp_timeout (tk_TimeoutSecs task)\<rparr> \<and>
    T' = T @ [created\<lparr>tk_Command := map utf8_repair (tk_Command created),
                       tk_RepoCommand := map utf8_repair (tk_RepoCommand created),
                       tk_Output := take MaxOutputBytes (tk_Output created),
                       tk_StartedAt := None, tk_CompletedAt := None\<rparr>]"
  using assms by (auto simp: CreateTask_def GetTask_def Let_def tbl_first_None tbl_count_0 split: if_splits)

lemma GetForWorkspace_moved:
  "GetForWorkspace S sid ws = Some s \<Longrightarrow>
   \<exists>s'. GetForWorkspace (snd (session_Transition now sid' src dst S)) sid ws = Some s' \<and> ss_WorkspaceID s' = ss_WorkspaceID s"
  by (auto simp: GetForWorkspace_def session_Transition_def session_Get_update Let_def split: option.splits if_splits)

text \<open>
  A task created through the handler belongs to a live sandbox the caller may see: the
  session was ready or running in the workspace of the request, it is running afterwards, the task
  is queued in the workspace of the session and reads back as created (its commands as JSON keeps
  them), and no other task changes.
\<close>

lemma created_task_runs_sandbox:
  assumes "sessions_ok S" "uuid \<noteq> []"
    and "HandleCreateTask t1 t2 uuid sid ws body S T = (Ok task, S', T')"
  shows "(\<exists>sess. GetForWorkspace S sid ws = Some sess \<and> ss_State sess \<in> {SandboxReady, SandboxRunning} \<and>
      tk_WorkspaceID task = ss_WorkspaceID sess) \<and>
    session_state S' sid = Some SandboxRunning \<and> tk_State task = TaskQueued \<and>
    HandleGetTask sid (tk_ID task) ws S' T' =
      Ok (task\<lparr>tk_Command := map utf8_repair (tk_Command task), tk_RepoCommand := map utf8_repair (tk_RepoCommand task)\<rparr>) \<and>
    (\<forall>k. k \<noteq> tk_ID task \<longrightarrow> GetTask T' k = GetTask T k)"
proof -
  obtain sess where s: "GetForWorkspace S sid ws = Some sess" "ss_State sess \<in> {SandboxReady, SandboxRunning}" "sid \<noteq> []"
    and c: "CreateTask t1 uuid (body_task sid sess body) T = (Ok task, T')"
    and S': "S' = (if ss_State sess = SandboxReady then snd (session_Transition t2 sid SandboxReady SandboxRunning S) else S)"
    using assms(3) unfolding HandleCreateTask_def
    by (auto split: if_splits option.splits prod.splits sum.splits)
  have g: "session_Get S sid = Some sess"
    using s(1) by (auto simp: GetForWorkspace_def split: option.splits if_splits)
  have run: "session_state S' sid = Some SandboxRunning"
  proof (cases "ss_State sess = SandboxReady")
    case True
    then have "session_state S sid = Some SandboxReady" using g by (simp add: session_state_def)
    moreover have "sandbox_can SandboxReady SandboxRunning"
      by (simp add: sandbox_can_def ValidateTransition_def validTransitions_def)
    ultimately show ?thesis using Transition_step [OF assms(1)] S' True by fastforce
  next
    case False
    then show ?thesis using s(2) S' g by (simp add: session_state_def)
  qed
  note ok = CreateTask_ok [OF c]
  have t: "tk_WorkspaceID task = ss_WorkspaceID sess" "tk_SandboxID task = sid" "tk_ID task = uuid" "tk_Output task = []"
    "tk_StartedAt task = None" "tk_CompletedAt task = None"
    using ok by (simp_all add: body_task_def)
  define row where "row = task\<lparr>tk_Command := map utf8_repair (tk_Command task), tk_RepoCommand := map utf8_repair (tk_RepoCommand task)\<rparr>"
  have T': "T' = T @ [row]"
    using ok t(4-6) by (cases task) (simp add: row_def)
  have rid: "tk_ID row = tk_ID task" by (simp add: row_def)
  have "GetTask T (tk_ID task) = None" using ok by blast
  then have get: "GetTask T' (tk_ID task) = Some row"
    using rid by (simp add: T' GetTask_def tbl_first_append)
  obtain sess' where "GetForWorkspace S' sid ws = Some sess'" "ss_WorkspaceID sess' = ss_WorkspaceID sess"
    using GetForWorkspace_moved [OF s(1), of t2 sid SandboxReady SandboxRunning] s(1) S'
    by (cases "ss_State sess = SandboxReady") auto
  then have "HandleGetTask sid (tk_ID task) ws S' T' = Ok row"
    using get s(3) assms(2) t by (simp add: HandleGetTask_def find_task_def GetTaskForWorkspace_def row_def)
  moreover have "GetTask T' k = GetTask T k" if "k \<noteq> tk_ID task" for k
    using that rid by (simp add: T' GetTask_def tbl_first_append split: option.split)
  ultimately show ?thesis using s run ok t(1) by (auto simp: row_def)
qed

lemma created_task_runs_sandbox_witness:
  "\<exists>task S' T'. HandleCreateTask 5 6 ''k'' ''a'' ''w1'' demo_task demo_sessions [] = (Ok task, S', T') \<and>
     session_state S' ''a'' = Some SandboxRunning"
proof -
  have "map_option ss_State (GetForWorkspace demo_sessions ''a'' ''w1'') = Some SandboxReady" "body_check demo_task = None"
    by code_simp+
  then have "\<not> isl (fst (HandleCreateTask 5 6 ''k'' ''a'' ''w1'' demo_task demo_sessions []))"
    by (auto simp: HandleCreateTask_def CreateTask_def Let_def tbl_count_def)
  then obtain task where "fst (HandleCreateTask 5 6 ''k'' ''a'' ''w1'' demo_task demo_sessions []) = Ok task" by (rule ok_result)
  then obtain S' T' where h: "HandleCreateTask 5 6 ''k'' ''a'' ''w1'' demo_task demo_sessions [] = (Ok task, S', T')"
    by (metis prod.collapse)
  have "sessions_ok demo_sessions" by code_simp
  then show ?thesis using created_task_runs_sandbox [OF _ _ h] h by simp
qed

lemma cancel_outcome:
  assumes "HandleCancelTask now sid tid ws S T = (Ok x, T')" "tasks_ok T"
  shows "\<exists>task. find_task sid tid ws S T = Ok task \<and> \<not> task_terminal (tk_State task) \<and> task_state T' tid = Some TaskCancelled"
proof -
  obtain task where f: "find_task sid tid ws S T = Ok task" "tk_State task \<in> {TaskQueued, TaskRunning}"
    and m: "TransitionTask now tid (tk_State task) TaskCancelled T = (Ok x, T')"
    using assms(1) by (auto simp: HandleCancelTask_def split: sum.splits if_splits prod.splits)
  have "GetTask T tid = Some task"
    using f(1) by (auto simp: find_task_def GetTaskForWorkspace_def split: if_splits option.splits)
  then have "task_state T tid = Some (tk_State task)" by (simp add: task_state_def)
  from task_cas.swap_state [OF this [unfolded task_state_eq], of tid "tk_State task" now TaskCancelled]
  have "task_state T' tid = Some TaskCancelled"
    using TransitionTask_ok [of now tid "tk_State task" TaskCancelled T x] m by (simp only: task_state_eq) simp
  with f show ?thesis by (auto simp: task_terminal_def)
qed

end
