(* ===== verification/Sandbox_Output.thy ===== *)
theory Sandbox_Output
  imports Sandbox_Tasks
begin

text \<open>
  What a sandbox produces: the chunks of output with their table, their fan-out hub and their
  handlers (\<^verbatim>\<open>controlplane/sandbox/stream.go\<close>, \<^verbatim>\<open>stream_store.go\<close>, \<^verbatim>\<open>stream_hub.go\<close>,
  \<^verbatim>\<open>stream_handlers.go\<close>), the artifacts (\<^verbatim>\<open>artifact.go\<close>, \<^verbatim>\<open>artifact_store.go\<close>,
  \<^verbatim>\<open>artifact_handlers.go\<close>), and the replay of a session (\<^verbatim>\<open>replay_builder.go\<close>,
  \<^verbatim>\<open>replay_handlers.go\<close>). Contents are byte strings. The channel of a subscriber is the list of the
  chunks it holds; a subscriber that leaves is removed in one step.
\<close>

section \<open>Chunks\<close>

definition MaxChunkSize :: nat where "MaxChunkSize = 8 * 1024"

record OutputChunk =
  oc_ID :: string
  oc_TaskID :: string
  oc_SandboxID :: string
  oc_Sequence :: int
  oc_Stream :: string
  oc_Data :: string
  oc_Timestamp :: time

type_synonym chunk_table = "OutputChunk list"

definition chunk_row :: "time \<Rightarrow> string \<Rightarrow> OutputChunk \<Rightarrow> OutputChunk" where
  "chunk_row now uuid c =
     c\<lparr>oc_ID := (if oc_ID c = [] then uuid else oc_ID c),
       oc_Timestamp := (if oc_Timestamp c = zero_time then now else oc_Timestamp c)\<rparr>"

definition chunk_insert :: "OutputChunk \<Rightarrow> chunk_table \<Rightarrow> chunk_table option" where
  "chunk_insert c t = (if tbl_count (\<lambda>r. oc_ID r = oc_ID c) t > 0 then None else Some (t @ [c]))"

definition AppendChunk :: "time \<Rightarrow> string \<Rightarrow> OutputChunk \<Rightarrow> chunk_table \<Rightarrow> bool \<times> chunk_table" where
  "AppendChunk now uuid c t =
     (case chunk_insert (chunk_row now uuid c) t of None \<Rightarrow> (False, t) | Some t' \<Rightarrow> (True, t'))"

text \<open>The inserts of one transaction; \<open>uuids\<close> are the ids handed out, one per chunk.\<close>

fun insert_chunks :: "time \<Rightarrow> (string \<times> OutputChunk) list \<Rightarrow> chunk_table \<Rightarrow> chunk_table option" where
  "insert_chunks now [] t = Some t"
| "insert_chunks now ((uuid, c) # rest) t =
     (case chunk_insert (chunk_row now uuid c) t of None \<Rightarrow> None | Some t' \<Rightarrow> insert_chunks now rest t')"

definition AppendChunks :: "time \<Rightarrow> (string \<times> OutputChunk) list \<Rightarrow> chunk_table \<Rightarrow> bool \<times> chunk_table" where
  "AppendChunks now chunks t =
     (case insert_chunks now chunks t of None \<Rightarrow> (False, t) | Some t' \<Rightarrow> (True, t'))"

definition clampLimit :: "int \<Rightarrow> int" where
  "clampLimit n = (if n \<le> 0 then 100 else if n > 1000 then 1000 else n)"

definition sequence_le :: "OutputChunk \<Rightarrow> OutputChunk \<Rightarrow> bool" where
  "sequence_le a b \<longleftrightarrow> oc_Sequence a \<le> oc_Sequence b"

definition select_chunks :: "(OutputChunk \<Rightarrow> bool) \<Rightarrow> int \<Rightarrow> nat \<Rightarrow> chunk_table \<Rightarrow> OutputChunk list" where
  "select_chunks P since limit t = take limit (sort_by sequence_le (filter (\<lambda>c. P c \<and> oc_Sequence c > since) t))"

definition ListChunks :: "string \<Rightarrow> int \<Rightarrow> int \<Rightarrow> chunk_table \<Rightarrow> OutputChunk list" where
  "ListChunks taskID since limit t = select_chunks (\<lambda>c. oc_TaskID c = taskID) since (nat (clampLimit limit)) t"

definition ListChunksBySandbox :: "string \<Rightarrow> int \<Rightarrow> int \<Rightarrow> chunk_table \<Rightarrow> OutputChunk list" where
  "ListChunksBySandbox sandboxID since limit t =
     select_chunks (\<lambda>c. oc_SandboxID c = sandboxID) since (nat (clampLimit limit)) t"

definition PurgeChunks :: "string \<Rightarrow> chunk_table \<Rightarrow> chunk_table" where
  "PurgeChunks sandboxID t = tbl_delete (\<lambda>c. oc_SandboxID c = sandboxID) t"

definition NextSequence :: "string \<Rightarrow> chunk_table \<Rightarrow> int" where
  "NextSequence taskID t =
     (case map oc_Sequence (filter (\<lambda>c. oc_TaskID c = taskID) t) of
        [] \<Rightarrow> 1
      | s # ss \<Rightarrow> wrap64 (fold max ss s + 1))"

section \<open>The hub\<close>

definition hubChannelBuffer :: nat where "hubChannelBuffer = 256"

record subscriber =
  sb_id :: nat
  sb_ch :: "OutputChunk list"

type_synonym StreamHub = "subscriber list gmap"

definition hub_subs :: "StreamHub \<Rightarrow> string \<Rightarrow> subscriber list" where
  "hub_subs h sandboxID = (case gget h sandboxID of None \<Rightarrow> [] | Some subs \<Rightarrow> subs)"

definition hub_Subscribe :: "nat \<Rightarrow> string \<Rightarrow> StreamHub \<Rightarrow> StreamHub" where
  "hub_Subscribe sub sandboxID h = gput sandboxID (hub_subs h sandboxID @ [\<lparr>sb_id = sub, sb_ch = []\<rparr>]) h"

definition hub_Unsubscribe :: "nat \<Rightarrow> string \<Rightarrow> StreamHub \<Rightarrow> StreamHub" where
  "hub_Unsubscribe sub sandboxID h =
     (let subs = filter (\<lambda>s. sb_id s \<noteq> sub) (hub_subs h sandboxID) in
      if subs = [] then gdel sandboxID h else gput sandboxID subs h)"

definition push_chunk :: "OutputChunk \<Rightarrow> OutputChunk list \<Rightarrow> OutputChunk list" where
  "push_chunk c ch = (if length ch < hubChannelBuffer then ch @ [c] else tl ch @ [c])"

definition Broadcast :: "OutputChunk \<Rightarrow> StreamHub \<Rightarrow> StreamHub" where
  "Broadcast c h =
     (case gget h (oc_SandboxID c) of
        None \<Rightarrow> h
      | Some subs \<Rightarrow> gput (oc_SandboxID c) (map (\<lambda>s. s\<lparr>sb_ch := push_chunk c (sb_ch s)\<rparr>) subs) h)"

definition Evict :: "string \<Rightarrow> StreamHub \<Rightarrow> StreamHub" where
  "Evict sandboxID h = gdel sandboxID h"

section \<open>Handlers of the output\<close>

record incoming_chunk =
  ic_TaskID :: string
  ic_Sequence :: int
  ic_Stream :: string
  ic_Data :: string
  ic_Timestamp :: time

datatype output_error =
    OutputInvalid
  | OutputSandboxNotFound
  | OutputNotRunning SandboxState
  | OutputNotPersisted
  | ReplayNotTerminal

definition ingest_chunk :: "time \<Rightarrow> string \<Rightarrow> incoming_chunk \<Rightarrow> OutputChunk" where
  "ingest_chunk now sandboxID ic =
     (let stream = trim_space (ic_Stream ic) in
      \<lparr>oc_ID = [], oc_TaskID = trim_space (ic_TaskID ic), oc_SandboxID = sandboxID, oc_Sequence = ic_Sequence ic,
       oc_Stream = (if stream \<noteq> ''stdout'' \<and> stream \<noteq> ''stderr'' then ''stdout'' else stream),
       oc_Data = take MaxChunkSize (ic_Data ic),
       oc_Timestamp = (if ic_Timestamp ic = zero_time then now else ic_Timestamp ic)\<rparr>)"

text \<open>
  \<open>uuids\<close> are the ids handed out, by position in the batch. \<open>body\<close> is the decoded request, and the
  answer is the next sequence number, 0 for an empty batch.
\<close>

definition with_ids :: "(nat \<Rightarrow> string) \<Rightarrow> 'a list \<Rightarrow> (string \<times> 'a) list" where
  "with_ids uuids xs = zip (map uuids [0..<length xs]) xs"

definition HandleIngestOutput ::
  "time \<Rightarrow> (nat \<Rightarrow> string) \<Rightarrow> string \<Rightarrow> string \<Rightarrow> incoming_chunk list option \<Rightarrow> session_table \<Rightarrow> chunk_table \<Rightarrow>
   StreamHub \<Rightarrow> (output_error + int) \<times> chunk_table \<times> StreamHub" where
  "HandleIngestOutput now uuids sandboxID ws body S C h =
     (if sandboxID = [] then (Err OutputInvalid, C, h)
      else (case GetForWorkspace S sandboxID ws of
              None \<Rightarrow> (Err OutputSandboxNotFound, C, h)
            | Some sess \<Rightarrow>
                if ss_State sess \<noteq> SandboxRunning then (Err (OutputNotRunning (ss_State sess)), C, h)
                else (case body of
                        None \<Rightarrow> (Err OutputInvalid, C, h)
                      | Some incoming \<Rightarrow>
                          if incoming = [] then (Ok 0, C, h)
                          else
                            let chunks = with_ids uuids (map (ingest_chunk now sandboxID) incoming);
                                maxSeq = fold max (map ic_Sequence incoming) 0 in
                            (case AppendChunks now chunks C of
                               (False, C') \<Rightarrow> (Err OutputNotPersisted, C', h)
                             | (True, C') \<Rightarrow>
                                 (Ok (wrap64 (maxSeq + 1)), C',
                                  fold (\<lambda>(uuid, c). Broadcast (chunk_row now uuid c)) chunks h)))))"

definition HandleGetOutput ::
  "string \<Rightarrow> string \<Rightarrow> string \<Rightarrow> int \<Rightarrow> int \<Rightarrow> session_table \<Rightarrow> chunk_table \<Rightarrow> output_error + OutputChunk list" where
  "HandleGetOutput sandboxID ws rawTask since limit S C =
     (if sandboxID = [] then Err OutputInvalid
      else (case GetForWorkspace S sandboxID ws of
              None \<Rightarrow> Err OutputSandboxNotFound
            | Some sess \<Rightarrow>
                let taskID = trim_space rawTask in
                Ok (if taskID \<noteq> [] then ListChunks taskID since limit C else ListChunksBySandbox sandboxID since limit C)))"

text \<open>
  The WebSocket of a client: it is subscribed before the history is read, then takes one chunk of
  its channel at a time, and leaves when the client is gone. \<open>conn\<close> is a number that no other
  subscriber has.
\<close>

definition stream_open ::
  "nat \<Rightarrow> string \<Rightarrow> string \<Rightarrow> int \<Rightarrow> session_table \<Rightarrow> chunk_table \<Rightarrow> StreamHub \<Rightarrow>
   (output_error + OutputChunk list) \<times> StreamHub" where
  "stream_open conn sandboxID ws since S C h =
     (if sandboxID = [] then (Err OutputInvalid, h)
      else (case GetForWorkspace S sandboxID ws of
              None \<Rightarrow> (Err OutputSandboxNotFound, h)
            | Some sess \<Rightarrow> (Ok (ListChunksBySandbox sandboxID since 1000 C), hub_Subscribe conn sandboxID h)))"

definition hub_channel :: "nat \<Rightarrow> string \<Rightarrow> StreamHub \<Rightarrow> OutputChunk list option" where
  "hub_channel conn sandboxID h = map_option sb_ch (find (\<lambda>s. sb_id s = conn) (hub_subs h sandboxID))"

definition stream_next :: "nat \<Rightarrow> string \<Rightarrow> StreamHub \<Rightarrow> OutputChunk option \<times> StreamHub" where
  "stream_next conn sandboxID h =
     (case hub_channel conn sandboxID h of
        Some (c # ch) \<Rightarrow>
          (Some c, gput sandboxID (map (\<lambda>s. if sb_id s = conn then s\<lparr>sb_ch := ch\<rparr> else s) (hub_subs h sandboxID)) h)
      | _ \<Rightarrow> (None, h))"

section \<open>Artifacts\<close>

definition MaxArtifactSizeBytes :: nat where "MaxArtifactSizeBytes = 5 * 1024 * 1024"
definition MaxSandboxArtifactBytes :: nat where "MaxSandboxArtifactBytes = 50 * 1024 * 1024"

record Artifact =
  af_ID :: string
  af_TaskID :: string
  af_SandboxID :: string
  af_WorkspaceID :: string
  af_Path :: string
  af_Kind :: string
  af_Size :: nat
  af_SHA256 :: string
  af_MimeType :: string
  af_DiffSummary :: string
  af_Content :: string
  af_CreatedAt :: time

type_synonym artifact_table = "Artifact list"

datatype artifact_error =
    ArtifactTooLarge nat
  | ArtifactQuotaExceeded nat nat
  | ArtifactExists
  | ArtifactInvalid
  | ArtifactUnknownKind string
  | ArtifactSandboxNotFound
  | ArtifactNotFound
  | ArtifactToken token_error
  | ArtifactNilDereference

definition ParseDiffSummary :: "string \<Rightarrow> string" where
  "ParseDiffSummary content =
     (let lines = split_on (CHR 0x0A) content;
          added = length (filter (\<lambda>l. has_prefix l ''+'' \<and> \<not> has_prefix l ''+++'') lines);
          deleted = length (filter (\<lambda>l. has_prefix l ''-'' \<and> \<not> has_prefix l ''---'') lines) in
      ''+'' @ nat_text added @ '' -'' @ nat_text deleted)"

definition sandboxTotalSize :: "string \<Rightarrow> string \<Rightarrow> artifact_table \<Rightarrow> nat" where
  "sandboxTotalSize sandboxID ws t =
     sum_list (map af_Size (filter (\<lambda>a. af_SandboxID a = sandboxID \<and> (ws \<noteq> [] \<longrightarrow> af_WorkspaceID a = ws)) t))"

definition CreateArtifact ::
  "time \<Rightarrow> string \<Rightarrow> Artifact \<Rightarrow> artifact_table \<Rightarrow> (artifact_error + Artifact) \<times> artifact_table" where
  "CreateArtifact now uuid a t =
     (let current = sandboxTotalSize (af_SandboxID a) (af_WorkspaceID a) t;
          a' = a\<lparr>af_ID := (if af_ID a = [] then uuid else af_ID a), af_CreatedAt := now,
                 af_SHA256 := hex_EncodeToString (sha256 (af_Content a)), af_Size := length (af_Content a),
                 af_DiffSummary := (if af_Kind a = ''diff'' \<and> af_DiffSummary a = []
                                    then ParseDiffSummary (af_Content a) else af_DiffSummary a)\<rparr> in
      if length (af_Content a) > MaxArtifactSizeBytes then (Err (ArtifactTooLarge (length (af_Content a))), t)
      else if current + length (af_Content a) > MaxSandboxArtifactBytes
      then (Err (ArtifactQuotaExceeded current (length (af_Content a))), t)
      else if tbl_count (\<lambda>r. af_ID r = af_ID a') t > 0 then (Err ArtifactExists, t)
      else (Ok a', t @ [a']))"

definition GetArtifact :: "artifact_table \<Rightarrow> string \<Rightarrow> string \<Rightarrow> Artifact option" where
  "GetArtifact t aid ws =
     (case tbl_first (\<lambda>r. af_ID r = aid) t of
        None \<Rightarrow> None
      | Some a \<Rightarrow> if ws \<noteq> [] \<and> af_WorkspaceID a \<noteq> [] \<and> af_WorkspaceID a \<noteq> ws then None else Some a)"

definition ListArtifacts :: "string \<Rightarrow> string \<Rightarrow> string \<Rightarrow> artifact_table \<Rightarrow> Artifact list" where
  "ListArtifacts sandboxID taskID ws t =
     map (\<lambda>a. a\<lparr>af_Content := []\<rparr>)
       (sort_by (\<lambda>a b. text_le (af_CreatedAt a) (af_CreatedAt b))
         (filter (\<lambda>a. (sandboxID \<noteq> [] \<longrightarrow> af_SandboxID a = sandboxID) \<and> (ws \<noteq> [] \<longrightarrow> af_WorkspaceID a = ws) \<and>
                      (taskID \<noteq> [] \<longrightarrow> af_TaskID a = taskID)) t))"

definition DeleteArtifacts :: "string \<Rightarrow> artifact_table \<Rightarrow> artifact_table" where
  "DeleteArtifacts sandboxID t = tbl_delete (\<lambda>a. af_SandboxID a = sandboxID) t"

text \<open>The file of a form is None when the field is missing.\<close>

record upload_form =
  uf_Path :: string
  uf_Kind :: string
  uf_TaskID :: string
  uf_MimeType :: string
  uf_File :: "string option"

definition mime_table :: "(string list \<times> string) list" where
  "mime_table =
     [([''.diff'', ''.patch''], ''text/x-diff''), ([''.log''], ''text/plain''), ([''.json''], ''application/json''),
      ([''.yaml'', ''.yml''], ''application/yaml''), ([''.txt''], ''text/plain''), ([''.html'', ''.htm''], ''text/html''),
      ([''.sh''], ''text/x-shellscript''), ([''.go''], ''text/x-go''), ([''.py''], ''text/x-python'')]"

definition detectMimeType :: "string \<Rightarrow> string" where
  "detectMimeType path =
     (case find (\<lambda>(exts, _). list_ex (has_suffix (to_lower path)) exts) mime_table of
        Some (_, mime) \<Rightarrow> mime
      | None \<Rightarrow> ''application/octet-stream'')"

definition upload_kind :: "upload_form \<Rightarrow> string" where
  "upload_kind form = (if trim_space (uf_Kind form) = [] then ''file'' else trim_space (uf_Kind form))"

definition upload_artifact :: "string \<Rightarrow> SandboxSession \<Rightarrow> upload_form \<Rightarrow> string \<Rightarrow> string \<Rightarrow> Artifact" where
  "upload_artifact sandboxID sess form kind content =
     (let path = trim_space (uf_Path form); mimeType = trim_space (uf_MimeType form) in
      \<lparr>af_ID = [], af_TaskID = trim_space (uf_TaskID form), af_SandboxID = sandboxID,
       af_WorkspaceID = ss_WorkspaceID sess, af_Path = path, af_Kind = kind, af_Size = 0, af_SHA256 = [],
       af_MimeType = (if mimeType = [] then detectMimeType path else mimeType), af_DiffSummary = [],
       af_Content = content, af_CreatedAt = zero_time\<rparr>)"

text \<open>The form is None when it cannot be parsed. What the handlers answer is the artifact without its content.\<close>

definition HandleUploadArtifact ::
  "time \<Rightarrow> string \<Rightarrow> string \<Rightarrow> string \<Rightarrow> upload_form option \<Rightarrow> session_table \<Rightarrow> artifact_table \<Rightarrow>
   (artifact_error + Artifact) \<times> artifact_table" where
  "HandleUploadArtifact now uuid sandboxID ws parsed S A =
     (if sandboxID = [] then (Err ArtifactInvalid, A)
      else (case GetForWorkspace S sandboxID ws of
              None \<Rightarrow> (Err ArtifactSandboxNotFound, A)
            | Some sess \<Rightarrow>
                (case parsed of
                   None \<Rightarrow> (Err ArtifactInvalid, A)
                 | Some form \<Rightarrow>
                     let path = trim_space (uf_Path form);
                         kind = upload_kind form in
                     if path = [] then (Err ArtifactInvalid, A)
                     else if kind \<notin> {''file'', ''diff'', ''log''} then (Err (ArtifactUnknownKind kind), A)
                     else (case uf_File form of
                             None \<Rightarrow> (Err ArtifactInvalid, A)
                           | Some f \<Rightarrow>
                               let content = take (MaxArtifactSizeBytes + 1) f in
                               if length content > MaxArtifactSizeBytes
                               then (Err (ArtifactTooLarge (length content)), A)
                               else (case CreateArtifact now uuid (upload_artifact sandboxID sess form kind content) A of
                                       (Err e, A') \<Rightarrow> (Err e, A')
                                     | (Ok a, A') \<Rightarrow> (Ok (a\<lparr>af_Content := []\<rparr>), A'))))))"

definition HandleListArtifacts ::
  "string \<Rightarrow> string \<Rightarrow> string \<Rightarrow> session_table \<Rightarrow> artifact_table \<Rightarrow> artifact_error + Artifact list" where
  "HandleListArtifacts sandboxID ws rawTask S A =
     (if sandboxID = [] then Err ArtifactInvalid
      else (case GetForWorkspace S sandboxID ws of
              None \<Rightarrow> Err ArtifactSandboxNotFound
            | Some sess \<Rightarrow> Ok (ListArtifacts sandboxID (trim_space rawTask) (ss_WorkspaceID sess) A)))"

definition find_artifact ::
  "string \<Rightarrow> string \<Rightarrow> string \<Rightarrow> session_table \<Rightarrow> artifact_table \<Rightarrow> artifact_error + Artifact" where
  "find_artifact sandboxID aid ws S A =
     (if sandboxID = [] \<or> aid = [] then Err ArtifactInvalid
      else (case GetForWorkspace S sandboxID ws of
              None \<Rightarrow> Err ArtifactSandboxNotFound
            | Some sess \<Rightarrow>
                (case GetArtifact A aid (ss_WorkspaceID sess) of
                   None \<Rightarrow> Err ArtifactNotFound
                 | Some a \<Rightarrow> if af_SandboxID a \<noteq> sandboxID then Err ArtifactNotFound else Ok a)))"

definition HandleGetArtifact ::
  "string \<Rightarrow> string \<Rightarrow> string \<Rightarrow> session_table \<Rightarrow> artifact_table \<Rightarrow> artifact_error + Artifact" where
  "HandleGetArtifact sandboxID aid ws S A =
     (case find_artifact sandboxID aid ws S A of Err e \<Rightarrow> Err e | Ok a \<Rightarrow> Ok (a\<lparr>af_Content := []\<rparr>))"

text \<open>A download answers the type, the file name and the content.\<close>

definition download_name :: "Artifact \<Rightarrow> string" where
  "download_name a =
     (let name = rev (takeWhile (\<lambda>c. c \<noteq> CHR ''/'' \<and> c \<noteq> CHR 0x5C) (rev (af_Path a))) in
      if name = [] then af_ID a else name)"

definition HandleDownloadArtifact ::
  "string \<Rightarrow> string \<Rightarrow> string \<Rightarrow> session_table \<Rightarrow> artifact_table \<Rightarrow> artifact_error + string \<times> string \<times> string" where
  "HandleDownloadArtifact sandboxID aid ws S A =
     (case find_artifact sandboxID aid ws S A of
        Err e \<Rightarrow> Err e
      | Ok a \<Rightarrow> Ok (if af_MimeType a = [] then ''application/octet-stream'' else af_MimeType a, download_name a, af_Content a))"

definition handleSandboxGetArtifact ::
  "time \<Rightarrow> string \<Rightarrow> string \<Rightarrow> string \<Rightarrow> string \<Rightarrow> Broker \<Rightarrow> session_table \<Rightarrow> artifact_table \<Rightarrow>
   (artifact_error + Artifact) \<times> Broker" where
  "handleSandboxGetArtifact now token session rawID rawSandbox b S A =
     (case validateSandboxToken now token session b of
        (Err e, ev, b') \<Rightarrow> (Err (ArtifactToken e), b')
      | (Ok claims, ev, b') \<Rightarrow>
          let aid = trim_space rawID; sandboxID = trim_space rawSandbox;
              read = (\<lambda>ws. case GetArtifact A aid ws of None \<Rightarrow> Err ArtifactNilDereference | Some a \<Rightarrow> Ok a) in
          if aid = [] then (Err ArtifactInvalid, b')
          else if sandboxID = [] then (read [], b')
          else (case session_Get S sandboxID of
                  None \<Rightarrow> (Err ArtifactNilDereference, b')
                | Some sess \<Rightarrow> (read (ss_WorkspaceID sess), b')))"

section \<open>Replay\<close>

datatype ReplayData =
    ReplayOutput OutputChunk
  | ReplayTask string string TaskState TaskState
  | ReplayArtifact string string string nat string

type_synonym ReplayEvent = "time \<times> ReplayData"

record ReplayTimeline =
  rp_SandboxID :: string
  rp_StartTime :: time
  rp_EndTime :: time
  rp_Duration :: duration
  rp_EventCount :: nat
  rp_Events :: "ReplayEvent list"

definition max_sequence :: "OutputChunk list \<Rightarrow> int \<Rightarrow> int" where
  "max_sequence cs since = fold (\<lambda>c m. max (oc_Sequence c) m) cs since"

text \<open>
  The batches of 1000 chunks by which the timeline reads the output. Each full batch raises the
  sequence it continues from, so the loop ends.
\<close>

function timeline_chunks :: "string \<Rightarrow> int \<Rightarrow> chunk_table \<Rightarrow> OutputChunk list" where
  "timeline_chunks sandboxID since C =
     (let batch = ListChunksBySandbox sandboxID since 1000 C in
      batch @ (if length batch < 1000 then [] else timeline_chunks sandboxID (max_sequence batch since) C))"
  by pat_completeness auto

lemma max_sequence_mono: "since \<le> max_sequence cs since"
  unfolding max_sequence_def by (induction cs arbitrary: since) (auto intro: order_trans [OF max.cobounded2])

lemma max_sequence_ge: "c \<in> set cs \<Longrightarrow> oc_Sequence c \<le> max_sequence cs since"
proof (induction cs arbitrary: since)
  case (Cons a cs)
  then show ?case using max_sequence_mono [of "max (oc_Sequence a) since" cs] by (auto simp: max_sequence_def)
qed simp

lemma filter_less_filter:
  assumes "c \<in> set t" "P c" "\<not> Q c" "\<And>x. Q x \<Longrightarrow> P x"
  shows "length (filter Q t) < length (filter P t)"
proof -
  have "filter Q t = filter Q (filter P t)" using assms(4) by (induction t) auto
  moreover have "length (filter Q (filter P t)) < length (filter P t)"
    using assms(1-3) by (intro length_filter_less [where x = c]) auto
  ultimately show ?thesis by simp
qed

termination timeline_chunks
proof (relation "measure (\<lambda>(sid, since, C). length (filter (\<lambda>c. oc_SandboxID c = sid \<and> oc_Sequence c > since) C))",
    simp, clarsimp)
  fix sid :: string and since :: int and C :: chunk_table
  let ?b = "ListChunksBySandbox sid since 1000 C"
  assume full: "\<not> length ?b < 1000"
  then obtain c where c: "c \<in> set ?b" by (cases ?b) auto
  then have "c \<in> set C" "oc_SandboxID c = sid" "oc_Sequence c > since"
    unfolding ListChunksBySandbox_def select_chunks_def by (auto dest: in_set_takeD)
  then show "length (filter (\<lambda>c. oc_SandboxID c = sid \<and> oc_Sequence c > max_sequence ?b since) C) <
      length (filter (\<lambda>c. oc_SandboxID c = sid \<and> oc_Sequence c > since) C)"
    using max_sequence_ge [OF c, of since] max_sequence_mono [of since ?b]
    by (intro filter_less_filter [where c = c]) auto
qed

declare timeline_chunks.simps [simp del]

definition task_events :: "Task \<Rightarrow> ReplayEvent list" where
  "task_events t =
     (tk_CreatedAt t, ReplayTask (tk_ID t) (tk_Kind t) (TaskOther []) TaskQueued) #
     (case tk_StartedAt t of None \<Rightarrow> [] | Some s \<Rightarrow> [(s, ReplayTask (tk_ID t) (tk_Kind t) TaskQueued TaskRunning)]) @
     (case tk_CompletedAt t of
        None \<Rightarrow> []
      | Some e \<Rightarrow> if task_IsTerminal t then [(e, ReplayTask (tk_ID t) (tk_Kind t) TaskRunning (tk_State t))] else [])"

definition artifact_event :: "Artifact \<Rightarrow> ReplayEvent" where
  "artifact_event a =
     (af_CreatedAt a, ReplayArtifact (af_ID a) (af_Path a) (af_Kind a) (af_Size a) (af_DiffSummary a))"

definition gather_events :: "string \<Rightarrow> string \<Rightarrow> chunk_table \<Rightarrow> task_table \<Rightarrow> artifact_table \<Rightarrow> ReplayEvent list" where
  "gather_events sandboxID ws C T A =
     map (\<lambda>c. (oc_Timestamp c, ReplayOutput c)) (timeline_chunks sandboxID 0 C) @
     concat (map task_events
       (ListTasks \<lparr>tf_SandboxID = sandboxID, tf_WorkspaceID = ws, tf_State = TaskOther [], tf_Limit = 500\<rparr> T)) @
     map artifact_event (ListArtifacts sandboxID [] ws A)"

definition BuildTimeline :: "string \<Rightarrow> string \<Rightarrow> chunk_table \<Rightarrow> task_table \<Rightarrow> artifact_table \<Rightarrow> ReplayTimeline" where
  "BuildTimeline sandboxID ws C T A =
     (let events = sort_by (\<lambda>a b. fst a \<le> fst b) (gather_events sandboxID ws C T A);
          startTime = (if events = [] then zero_time else fst (hd events));
          endTime = (if events = [] then zero_time else fst (last events)) in
      \<lparr>rp_SandboxID = sandboxID, rp_StartTime = startTime, rp_EndTime = endTime,
       rp_Duration = time_Sub endTime startTime, rp_EventCount = length events, rp_Events = events\<rparr>)"

definition HandleReplay ::
  "string \<Rightarrow> string \<Rightarrow> string \<Rightarrow> session_table \<Rightarrow> chunk_table \<Rightarrow> task_table \<Rightarrow> artifact_table \<Rightarrow>
   output_error + ReplayTimeline" where
  "HandleReplay sandboxID ws force S C T A =
     (if sandboxID = [] then Err OutputInvalid
      else (case GetForWorkspace S sandboxID ws of
              None \<Rightarrow> Err OutputSandboxNotFound
            | Some sess \<Rightarrow>
                if force \<notin> {''1'', ''true''} \<and> \<not> session_IsTerminal sess then Err ReplayNotTerminal
                else Ok (BuildTimeline sandboxID ws C T A)))"

text \<open>The summary is the timeline without its events.\<close>

definition Summary :: "ReplayTimeline \<Rightarrow> string \<times> time \<times> time \<times> duration \<times> nat" where
  "Summary r = (rp_SandboxID r, rp_StartTime r, rp_EndTime r, rp_Duration r, rp_EventCount r)"

definition HandleReplaySummary ::
  "string \<Rightarrow> string \<Rightarrow> session_table \<Rightarrow> chunk_table \<Rightarrow> task_table \<Rightarrow> artifact_table \<Rightarrow>
   output_error + string \<times> time \<times> time \<times> duration \<times> nat" where
  "HandleReplaySummary sandboxID ws S C T A =
     (if sandboxID = [] then Err OutputInvalid
      else (case GetForWorkspace S sandboxID ws of
              None \<Rightarrow> Err OutputSandboxNotFound
            | Some sess \<Rightarrow> Ok (Summary (BuildTimeline sandboxID ws C T A))))"

text \<open>
  The operations on the artifacts and on the output of all sandboxes. \<open>same_place\<close> selects the
  artifacts that share a quota.
\<close>

datatype artifact_op =
    OpCreateArtifact time string Artifact
  | OpUploadArtifact time string string string "upload_form option" session_table
  | OpDeleteArtifacts string

fun artifact_exec :: "artifact_op \<Rightarrow> artifact_table \<Rightarrow> artifact_table" where
  "artifact_exec (OpCreateArtifact now uuid a) A = snd (CreateArtifact now uuid a A)"
| "artifact_exec (OpUploadArtifact now uuid sid ws form S) A = snd (HandleUploadArtifact now uuid sid ws form S A)"
| "artifact_exec (OpDeleteArtifacts sid) A = DeleteArtifacts sid A"

definition same_place :: "string \<Rightarrow> string \<Rightarrow> Artifact \<Rightarrow> bool" where
  "same_place sid ws a \<longleftrightarrow> af_SandboxID a = sid \<and> af_WorkspaceID a = ws"

definition artifact_ok :: "Artifact \<Rightarrow> bool" where
  "artifact_ok a \<longleftrightarrow> af_Size a = length (af_Content a) \<and> af_Size a \<le> MaxArtifactSizeBytes \<and>
     af_SHA256 a = hex_EncodeToString (sha256 (af_Content a))"

definition quota_ok :: "artifact_table \<Rightarrow> bool" where
  "quota_ok A \<longleftrightarrow> (\<forall>sid ws. sum_list (map af_Size (filter (same_place sid ws) A)) \<le> MaxSandboxArtifactBytes)"

record ingest_call =
  ig_now :: time
  ig_uuids :: "nat \<Rightarrow> string"
  ig_sandbox :: string
  ig_workspace :: string
  ig_body :: "incoming_chunk list option"
  ig_sessions :: session_table

definition ingest_exec :: "ingest_call \<Rightarrow> chunk_table \<times> StreamHub \<Rightarrow> chunk_table \<times> StreamHub" where
  "ingest_exec g st =
     snd (HandleIngestOutput (ig_now g) (ig_uuids g) (ig_sandbox g) (ig_workspace g) (ig_body g) (ig_sessions g)
            (fst st) (snd st))"

definition demo_chunk :: OutputChunk where
  "demo_chunk = \<lparr>oc_ID = ''c1'', oc_TaskID = ''t1'', oc_SandboxID = ''s1'', oc_Sequence = 1, oc_Stream = ''stdout'',
     oc_Data = ''hello'', oc_Timestamp = 5\<rparr>"

text \<open>The rows of a sandbox behind a sequence number.\<close>

definition rows_after :: "string \<Rightarrow> int \<Rightarrow> chunk_table \<Rightarrow> OutputChunk list" where
  "rows_after sid since C = filter (\<lambda>c. oc_SandboxID c = sid \<and> oc_Sequence c > since) C"

definition demo_form :: upload_form where
  "demo_form = \<lparr>uf_Path = ''out/fix.patch'', uf_Kind = ''diff'', uf_TaskID = [], uf_MimeType = [], uf_File = Some ''+x''\<rparr>"

definition demo_running :: session_table where
  "demo_running = map (\<lambda>s. s\<lparr>ss_State := SandboxRunning\<rparr>) demo_sessions"

definition demo_ingest :: ingest_call where
  "demo_ingest = \<lparr>ig_now = 9, ig_uuids = nat_text, ig_sandbox = ''a'', ig_workspace = ''w1'',
     ig_body = Some [\<lparr>ic_TaskID = ''t1'', ic_Sequence = 7, ic_Stream = ''stderr'', ic_Data = ''out'', ic_Timestamp = 0\<rparr>],
     ig_sessions = demo_running\<rparr>"

section \<open>Lemmas\<close>

lemma sort_by_Nil: "sort_by le [] = []"
  by (simp add: sort_by_def)

lemma sorted_sequence: "sorted_wrt sequence_le (sort_by sequence_le xs)"
  by (rule sorted_sort_by) (auto simp: sequence_le_def)

lemma strict_sequence_unique:
  "sorted_wrt (\<lambda>a b. oc_Sequence a < oc_Sequence b) xs \<Longrightarrow>
   sorted_wrt (\<lambda>a b. oc_Sequence a < oc_Sequence b) ys \<Longrightarrow> set xs = set ys \<Longrightarrow> xs = ys"
proof (induction xs arbitrary: ys)
  case (Cons x xs)
  then obtain y ys' where ys: "ys = y # ys'" by (cases ys) auto
  have "x = y"
  proof (rule ccontr)
    assume "x \<noteq> y"
    with Cons.prems ys have "x \<in> set ys'" "y \<in> set xs" by auto
    with Cons.prems ys have "oc_Sequence y < oc_Sequence x" "oc_Sequence x < oc_Sequence y" by auto
    then show False by simp
  qed
  moreover have "x \<notin> set xs" "y \<notin> set ys'" using Cons.prems ys by auto
  ultimately have "set xs = set ys'" using Cons.prems(3) ys by auto
  with Cons ys \<open>x = y\<close> show ?case by auto
qed simp

lemma strict_if_distinct:
  "sorted_wrt sequence_le ys \<Longrightarrow> distinct (map oc_Sequence ys) \<Longrightarrow> sorted_wrt (\<lambda>a b. oc_Sequence a < oc_Sequence b) ys"
  by (induction ys) (force simp: sequence_le_def order_less_le)+

lemma sorted_strict:
  assumes "distinct (map oc_Sequence xs)"
  shows "sorted_wrt (\<lambda>a b. oc_Sequence a < oc_Sequence b) (sort_by sequence_le xs)"
proof -
  have "distinct (map oc_Sequence (sort_by sequence_le xs))"
    using assms by (metis mset_map mset_sort_by mset_eq_imp_distinct_iff)
  with sorted_sequence [of xs] show ?thesis by (rule strict_if_distinct)
qed

lemma batch_rows: "ListChunksBySandbox sid since 1000 C = take 1000 (sort_by sequence_le (rows_after sid since C))"
  by (simp add: ListChunksBySandbox_def select_chunks_def clampLimit_def rows_after_def)

lemma distinct_rows_after:
  assumes "distinct (map oc_Sequence (filter (\<lambda>c. oc_SandboxID c = sid) C))"
  shows "distinct (map oc_Sequence (rows_after sid since C))"
  using assms by (induction C) (auto simp: rows_after_def split: if_splits)

lemma next_rows:
  fixes since :: int and C :: chunk_table
  assumes dist: "distinct (map oc_Sequence (filter (\<lambda>c. oc_SandboxID c = sid) C))"
  defines "L \<equiv> sort_by sequence_le (rows_after sid since C)"
  shows "sort_by sequence_le (rows_after sid (max_sequence (take n L) since) C) = drop n L"
proof (rule strict_sequence_unique)
  let ?m = "max_sequence (take n L) since"
  have strict: "sorted_wrt (\<lambda>a b. oc_Sequence a < oc_Sequence b) (take n L @ drop n L)"
    unfolding L_def append_take_drop_id by (rule sorted_strict) (rule distinct_rows_after [OF dist])
  then show "sorted_wrt (\<lambda>a b. oc_Sequence a < oc_Sequence b) (drop n L)" by (simp only: sorted_wrt_append)
  show "sorted_wrt (\<lambda>a b. oc_Sequence a < oc_Sequence b) (sort_by sequence_le (rows_after sid ?m C))"
    by (rule sorted_strict) (rule distinct_rows_after [OF dist])
  have L: "set L = set (rows_after sid since C)" by (simp add: L_def)
  have "c \<in> set (rows_after sid ?m C) \<longleftrightarrow> c \<in> set (drop n L)" for c
  proof
    assume c: "c \<in> set (rows_after sid ?m C)"
    then have "c \<in> set L" using max_sequence_mono [of since "take n L"] by (auto simp: L rows_after_def)
    moreover have "c \<notin> set (take n L)" using c max_sequence_ge [of c "take n L" since] by (auto simp: rows_after_def)
    ultimately show "c \<in> set (drop n L)" by (metis Un_iff append_take_drop_id set_append)
  next
    assume c: "c \<in> set (drop n L)"
    then have "c \<in> set (rows_after sid since C)" using L in_set_dropD by metis
    moreover have "?m < oc_Sequence c"
    proof -
      have "max_sequence xs s < x" if "\<forall>d \<in> set xs. oc_Sequence d < x" "s < x" for xs s x
        using that by (induction xs arbitrary: s) (auto simp: max_sequence_def)
      moreover have "\<forall>d \<in> set (take n L). oc_Sequence d < oc_Sequence c"
        using strict c by (simp only: sorted_wrt_append) blast
      ultimately show ?thesis using \<open>c \<in> set (rows_after sid since C)\<close> by (simp add: rows_after_def)
    qed
    ultimately show "c \<in> set (rows_after sid ?m C)" by (auto simp: rows_after_def)
  qed
  then show "set (sort_by sequence_le (rows_after sid ?m C)) = set (drop n L)" by auto
qed

lemma timeline_chunks_all:
  assumes "distinct (map oc_Sequence (filter (\<lambda>c. oc_SandboxID c = sid) C))"
  shows "timeline_chunks sid since C = sort_by sequence_le (rows_after sid since C)"
  using assms
proof (induction sid since C rule: timeline_chunks.induct)
  case (1 sid since C)
  let ?L = "sort_by sequence_le (rows_after sid since C)"
  show ?case
  proof (cases "length (take 1000 ?L) < 1000")
    case True
    then show ?thesis by (simp add: timeline_chunks.simps [of sid since] batch_rows Let_def min_def split: if_splits)
  next
    case False
    then have "timeline_chunks sid (max_sequence (take 1000 ?L) since) C = drop 1000 ?L"
      using "1.IH" [OF refl, unfolded batch_rows] "1.prems" next_rows [OF "1.prems"] by metis
    with False show ?thesis
      by (simp only: timeline_chunks.simps [of sid since] batch_rows Let_def if_False append_take_drop_id)
  qed
qed

lemma timeline_same_sequence:
  assumes same: "\<forall>c \<in> set C. oc_SandboxID c = sid \<longrightarrow> oc_Sequence c = s" and "since < s"
    and "length (filter (\<lambda>c. oc_SandboxID c = sid) C) \<ge> 1000"
  shows "length (timeline_chunks sid since C) = 1000"
proof -
  let ?b = "ListChunksBySandbox sid since 1000 C"
  have "rows_after sid since C = filter (\<lambda>c. oc_SandboxID c = sid) C"
    using assms by (auto simp: rows_after_def intro: filter_cong)
  with assms have len: "length ?b = 1000" by (simp add: batch_rows)
  then obtain c where c: "c \<in> set ?b" by (cases ?b) auto
  then have "oc_Sequence c = s"
    using same by (auto simp: batch_rows rows_after_def dest: in_set_takeD)
  with max_sequence_ge [OF c, of since] have "s \<le> max_sequence ?b since" by simp
  then have "rows_after sid (max_sequence ?b since) C = []"
    using same by (auto simp: rows_after_def filter_empty_conv)
  then have "timeline_chunks sid (max_sequence ?b since) C = []"
    by (simp add: timeline_chunks.simps [of sid "max_sequence ?b since"] batch_rows [of sid "max_sequence ?b since"] sort_by_def)
  with len show ?thesis by (simp add: timeline_chunks.simps [of sid since])
qed

lemma drop_keep:
  "drop (length (drop (length xs - n) xs @ ys) - n) (drop (length xs - n) xs @ ys) =
   drop (length (xs @ ys) - n) (xs @ ys)"
proof -
  have keep: "drop (length zs - n) zs = rev (take n (rev zs))" for zs :: "'a list" by (simp add: rev_take)
  show ?thesis unfolding keep by (simp add: min_def)
qed

lemma push_keeps_last:
  "length ch \<le> hubChannelBuffer \<Longrightarrow> push_chunk c ch = drop (length ch + 1 - hubChannelBuffer) (ch @ [c])"
  by (cases "length ch = hubChannelBuffer") (auto simp: push_chunk_def hubChannelBuffer_def drop_Suc tl_drop)

lemma push_length: "length ch \<le> hubChannelBuffer \<Longrightarrow> length (push_chunk c ch) \<le> hubChannelBuffer"
  by (simp add: push_chunk_def hubChannelBuffer_def)

lemma Broadcast_channel:
  "hub_channel conn sid (Broadcast c h) =
     (if oc_SandboxID c = sid then map_option (push_chunk c) (hub_channel conn sid h) else hub_channel conn sid h)"
proof -
  have "find (\<lambda>s. sb_id s = conn) (map (\<lambda>s. s\<lparr>sb_ch := push_chunk c (sb_ch s)\<rparr>) subs) =
      map_option (\<lambda>s. s\<lparr>sb_ch := push_chunk c (sb_ch s)\<rparr>) (find (\<lambda>s. sb_id s = conn) subs)" for subs :: "subscriber list"
    by (induction subs) auto
  then show ?thesis
    by (auto simp: hub_channel_def hub_subs_def Broadcast_def gmap_simps option.map_comp comp_def split: option.splits)
qed

lemma Broadcasts_channel:
  "hub_channel conn sid h = Some ch \<Longrightarrow> length ch \<le> hubChannelBuffer \<Longrightarrow>
   hub_channel conn sid (fold Broadcast cs h) =
     Some (let all = ch @ filter (\<lambda>c. oc_SandboxID c = sid) cs in drop (length all - hubChannelBuffer) all)"
proof (induction cs arbitrary: h ch)
  case (Cons c cs)
  show ?case
  proof (cases "oc_SandboxID c = sid")
    case True
    with Cons.prems have "hub_channel conn sid (Broadcast c h) = Some (push_chunk c ch)" by (simp add: Broadcast_channel)
    from Cons.IH [OF this push_length [OF Cons.prems(2)]] True show ?thesis
      using drop_keep [of "ch @ [c]" hubChannelBuffer "filter (\<lambda>c. oc_SandboxID c = sid) cs"]
      by (simp only: Let_def push_keeps_last [OF Cons.prems(2)] length_append_singleton Suc_eq_plus1 fold_simps
          filter.simps simp_thms if_True append_assoc append_Cons append_Nil)
  next
    case False
    with Cons show ?thesis by (simp add: Broadcast_channel)
  qed
qed (simp add: Let_def)

lemma insert_chunks_rows:
  "insert_chunks now cs t = Some t' \<Longrightarrow> t' = t @ map (\<lambda>(uuid, c). chunk_row now uuid c) cs"
  by (induction now cs t rule: insert_chunks.induct) (auto simp: chunk_insert_def split: if_splits option.splits)

lemma ingest_rows:
  obtains rows where "ingest_exec g (C, h) = (C @ rows, fold Broadcast rows h)"
proof -
  let ?now = "ig_now g" and ?sid = "ig_sandbox g"
  let ?cs = "with_ids (ig_uuids g) (map (ingest_chunk ?now ?sid) (the (ig_body g)))"
  have fold_rows: "fold (\<lambda>(uuid, c). Broadcast (chunk_row now uuid c)) cs h =
      fold Broadcast (map (\<lambda>(uuid, c). chunk_row now uuid c) cs) h" for now cs h
    by (induction cs arbitrary: h) auto
  have "ingest_exec g (C, h) = (C, h) \<or>
      ingest_exec g (C, h) = (C @ map (\<lambda>(uuid, c). chunk_row ?now uuid c) ?cs,
        fold Broadcast (map (\<lambda>(uuid, c). chunk_row ?now uuid c) ?cs) h)"
    by (auto simp: ingest_exec_def HandleIngestOutput_def AppendChunks_def Let_def fold_rows
        dest: insert_chunks_rows split: option.splits)
  then show thesis using that [of "[]"] that by auto
qed

lemma ingests_rows: "\<exists>rows. fold ingest_exec gs (C, h) = (C @ rows, fold Broadcast rows h)"
proof (induction gs arbitrary: C h)
  case (Cons g gs)
  obtain rows where rows: "ingest_exec g (C, h) = (C @ rows, fold Broadcast rows h)" by (rule ingest_rows)
  from Cons [of "C @ rows" "fold Broadcast rows h"] obtain more
    where "fold ingest_exec gs (C @ rows, fold Broadcast rows h) =
      (C @ rows @ more, fold Broadcast (rows @ more) h)" by auto
  with rows show ?case by (intro exI [of _ "rows @ more"]) simp
qed (auto intro: exI [of _ "[]"])

lemma Subscribe_channel:
  "\<forall>s \<in> set (hub_subs h sid). sb_id s \<noteq> conn \<Longrightarrow> hub_channel conn sid (hub_Subscribe conn sid h) = Some []"
proof -
  assume "\<forall>s \<in> set (hub_subs h sid). sb_id s \<noteq> conn"
  moreover have "\<forall>s \<in> set xs. sb_id s \<noteq> conn \<Longrightarrow>
      find (\<lambda>s. sb_id s = conn) (xs @ [\<lparr>sb_id = conn, sb_ch = []\<rparr>]) = Some \<lparr>sb_id = conn, sb_ch = []\<rparr>" for xs
    by (induction xs) auto
  ultimately show ?thesis by (simp add: hub_channel_def hub_Subscribe_def hub_subs_def gmap_simps)
qed

lemma CreateArtifact_cases:
  obtains (refused) e where "CreateArtifact now uuid a A = (Err e, A)"
  | (stored) a' where "CreateArtifact now uuid a A = (Ok a', A @ [a'])" "artifact_ok a'"
      "sandboxTotalSize (af_SandboxID a) (af_WorkspaceID a) A + af_Size a' \<le> MaxSandboxArtifactBytes"
      "af_SandboxID a' = af_SandboxID a" "af_WorkspaceID a' = af_WorkspaceID a" "af_Path a' = af_Path a"
      "af_MimeType a' = af_MimeType a" "af_Content a' = af_Content a"
      "af_ID a' = (if af_ID a = [] then uuid else af_ID a)" "tbl_count (\<lambda>r. af_ID r = af_ID a') A = 0"
proof (cases "CreateArtifact now uuid a A")
  case (Pair r A')
  show thesis
  proof (cases r)
    case (Inl e)
    with Pair have "A' = A" by (auto simp: CreateArtifact_def Let_def split: if_splits)
    with Pair Inl show thesis by (intro refused) simp
  next
    case (Inr a')
    with Pair show thesis
      by (intro stored [of a']) (auto simp: CreateArtifact_def Let_def artifact_ok_def split: if_splits)
  qed
qed

lemma same_place_total:
  "sum_list (map af_Size (filter (same_place sid ws) A)) \<le> sandboxTotalSize sid ws A"
  unfolding sandboxTotalSize_def same_place_def by (induction A) auto

lemma quota_stored:
  assumes "quota_ok A" "sandboxTotalSize (af_SandboxID a) (af_WorkspaceID a) A + af_Size a \<le> MaxSandboxArtifactBytes"
  shows "quota_ok (A @ [a])"
  unfolding quota_ok_def
proof (intro allI)
  fix sid ws
  show "sum_list (map af_Size (filter (same_place sid ws) (A @ [a]))) \<le> MaxSandboxArtifactBytes"
  proof (cases "same_place sid ws a")
    case True
    with assms same_place_total [of sid ws A] show ?thesis by (simp add: same_place_def)
  next
    case False
    with assms show ?thesis by (simp add: quota_ok_def)
  qed
qed

lemma quota_deleted: "quota_ok A \<Longrightarrow> quota_ok (DeleteArtifacts sid A)"
proof -
  assume ok: "quota_ok A"
  have "sum_list (map af_Size (filter Q (filter P A))) \<le> sum_list (map af_Size (filter Q A))" for P Q
    by (induction A) auto
  with ok show ?thesis unfolding quota_ok_def DeleteArtifacts_def tbl_delete_def by (meson order_trans)
qed

text \<open>An upload is a refusal or one call of the store.\<close>

lemma upload_cases:
  obtains (refused) e where "HandleUploadArtifact now uuid sid ws parsed S A = (Err e, A)"
  | (created) sess form kind f where "sid \<noteq> []" "GetForWorkspace S sid ws = Some sess" "parsed = Some form"
      "uf_File form = Some f"
      "HandleUploadArtifact now uuid sid ws parsed S A =
         (case CreateArtifact now uuid (upload_artifact sid sess form kind f) A of
            (Err e, A') \<Rightarrow> (Err e, A')
          | (Ok a, A') \<Rightarrow> (Ok (a\<lparr>af_Content := []\<rparr>), A'))"
proof -
  define good where "good = (\<lambda>(form :: upload_form) (f :: string). trim_space (uf_Path form) \<noteq> [] \<and> upload_kind form \<in> {''file'', ''diff'', ''log''} \<and>
    length (take (MaxArtifactSizeBytes + 1) f) \<le> MaxArtifactSizeBytes)"
  have short: "take (MaxArtifactSizeBytes + 1) f = f" if "good form f" for form f
    using that by (simp add: good_def min_def split: if_splits)
  show thesis
  proof (cases "\<exists>sess form f. sid \<noteq> [] \<and> GetForWorkspace S sid ws = Some sess \<and> parsed = Some form \<and>
      uf_File form = Some f \<and> good form f")
    case True
    then obtain sess form f where ok: "sid \<noteq> []" "GetForWorkspace S sid ws = Some sess" "parsed = Some form"
      "uf_File form = Some f" "good form f" by blast
    from ok(5) have "trim_space (uf_Path form) \<noteq> []" "upload_kind form \<in> {''file'', ''diff'', ''log''}"
      "\<not> length f > MaxArtifactSizeBytes" using short [OF ok(5)] by (auto simp: good_def)
    with ok(1-4) short [OF ok(5)] show thesis
      by (intro created [of sess form f "upload_kind form"])
        (simp_all only: HandleUploadArtifact_def Let_def if_False option.case simp_thms not_True_eq_False)
  next
    case False
    then have "\<exists>e. HandleUploadArtifact now uuid sid ws parsed S A = (Err e, A)"
      by (cases "GetForWorkspace S sid ws"; cases parsed)
        (auto simp: HandleUploadArtifact_def Let_def good_def not_le split: option.splits)
    then show thesis using refused by blast
  qed
qed

lemma artifact_exec_ok:
  assumes "quota_ok A" "list_all artifact_ok A"
  shows "quota_ok (artifact_exec op A) \<and> list_all artifact_ok (artifact_exec op A)"
proof -
  have create: "quota_ok (snd (CreateArtifact now uuid a A)) \<and> list_all artifact_ok (snd (CreateArtifact now uuid a A))"
    for now uuid a
    by (cases rule: CreateArtifact_cases [of now uuid a A]) (use assms in \<open>auto intro: quota_stored\<close>)
  show ?thesis
  proof (cases op)
    case (OpUploadArtifact now uuid sid ws form S)
    show ?thesis
    proof (cases rule: upload_cases [of now uuid sid ws form S A])
      case (created sess f kind content)
      with create [of now uuid "upload_artifact sid sess f kind content"] OpUploadArtifact show ?thesis
        by (auto split: prod.splits sum.splits)
    qed (use assms OpUploadArtifact in simp)
  next
    case (OpDeleteArtifacts sid)
    with assms quota_deleted [of A sid] show ?thesis by (auto simp: DeleteArtifacts_def tbl_delete_def list_all_iff)
  qed (use create in simp)
qed

lemma GetArtifact_stored:
  "tbl_count (\<lambda>r. af_ID r = af_ID a) A = 0 \<Longrightarrow> GetArtifact (A @ [a]) (af_ID a) (af_WorkspaceID a) = Some a"
  by (induction A) (auto simp: GetArtifact_def tbl_first_def tbl_count_def split: if_splits)

section \<open>Properties\<close>


text \<open>
  An artifact whose upload is accepted is downloaded again by the caller that
  uploaded it with exactly the bytes of the file, and the answer to the upload carries their
  SHA-256 and their number.
\<close>

lemma uploaded_artifact_downloads:
  assumes "HandleUploadArtifact now uuid sid ws (Some form) S A = (Ok a, A')" "uuid \<noteq> []"
  shows "\<exists>f mime name. uf_File form = Some f \<and> HandleDownloadArtifact sid (af_ID a) ws S A' = Ok (mime, name, f) \<and>
    af_SHA256 a = hex_EncodeToString (sha256 f) \<and> af_Size a = length f"
proof (cases rule: upload_cases [of now uuid sid ws "Some form" S A])
  case (created sess form' kind f)
  let ?u = "upload_artifact sid sess form' kind f"
  show ?thesis
  proof (cases rule: CreateArtifact_cases [of now uuid ?u A])
    case (stored a')
    with created assms have a: "a = a'\<lparr>af_Content := []\<rparr>" and A': "A' = A @ [a']" by auto
    have u: "af_ID ?u = []" "af_SandboxID ?u = sid" "af_WorkspaceID ?u = ss_WorkspaceID sess" "af_Content ?u = f"
      by (simp_all add: upload_artifact_def Let_def)
    have "GetArtifact A' (af_ID a) (ss_WorkspaceID sess) = Some a'"
      using GetArtifact_stored [OF stored(10)] stored u by (simp add: a A')
    then have "find_artifact sid (af_ID a) ws S A' = Ok a'"
      using created stored u assms(2) by (simp add: find_artifact_def a)
    then show ?thesis
      using created stored u by (simp add: HandleDownloadArtifact_def a artifact_ok_def)
  qed (use created assms in simp)
qed (use assms in simp)

lemma uploaded_artifact_downloads_witness:
  "\<exists>a A' mime name. HandleUploadArtifact 5 ''u'' ''a'' ''w1'' (Some demo_form) demo_sessions [] = (Ok a, A') \<and>
     HandleDownloadArtifact ''a'' (af_ID a) ''w1'' demo_sessions A' = Ok (mime, name, ''+x'')"
proof -
  have "GetForWorkspace demo_sessions ''a'' ''w1'' \<noteq> None" "trim_space (uf_Path demo_form) \<noteq> []"
    "upload_kind demo_form = ''diff''" "uf_File demo_form = Some ''+x''" by code_simp+
  then have "\<not> isl (fst (HandleUploadArtifact 5 ''u'' ''a'' ''w1'' (Some demo_form) demo_sessions []))"
    by (auto simp: HandleUploadArtifact_def CreateArtifact_def Let_def tbl_count_def sandboxTotalSize_def
        upload_artifact_def MaxArtifactSizeBytes_def MaxSandboxArtifactBytes_def)
  then obtain a where "fst (HandleUploadArtifact 5 ''u'' ''a'' ''w1'' (Some demo_form) demo_sessions []) = Ok a"
    by (rule ok_result)
  then obtain A' where h: "HandleUploadArtifact 5 ''u'' ''a'' ''w1'' (Some demo_form) demo_sessions [] = (Ok a, A')"
    by (metis prod.collapse)
  with uploaded_artifact_downloads [OF h] \<open>uf_File demo_form = Some ''+x''\<close> show ?thesis by auto
qed

text \<open>
  Property C35. When the chunks of a sandbox have different, positive sequence numbers, the
  replay ends and holds every chunk of the sandbox exactly once, next to the events of the
  listed tasks and artifacts, in the order of time.
\<close>

theorem replay_complete:
  assumes "distinct (map oc_Sequence (filter (\<lambda>c. oc_SandboxID c = sid) C))"
    and "\<forall>c \<in> set C. oc_SandboxID c = sid \<longrightarrow> oc_Sequence c > 0"
  shows "mset (rp_Events (BuildTimeline sid ws C T A)) =
      mset (map (\<lambda>c. (oc_Timestamp c, ReplayOutput c)) (filter (\<lambda>c. oc_SandboxID c = sid) C)) +
      mset (concat (map task_events
        (ListTasks \<lparr>tf_SandboxID = sid, tf_WorkspaceID = ws, tf_State = TaskOther [], tf_Limit = 500\<rparr> T))) +
      mset (map artifact_event (ListArtifacts sid [] ws A)) \<and>
    sorted (map fst (rp_Events (BuildTimeline sid ws C T A))) \<and>
    rp_EventCount (BuildTimeline sid ws C T A) = length (rp_Events (BuildTimeline sid ws C T A))"
proof -
  let ?E = "gather_events sid ws C T A"
  have "rows_after sid 0 C = filter (\<lambda>c. oc_SandboxID c = sid) C"
    using assms(2) by (auto simp: rows_after_def intro: filter_cong)
  then have "mset ?E = mset (map (\<lambda>c. (oc_Timestamp c, ReplayOutput c)) (filter (\<lambda>c. oc_SandboxID c = sid) C)) +
      mset (concat (map task_events
        (ListTasks \<lparr>tf_SandboxID = sid, tf_WorkspaceID = ws, tf_State = TaskOther [], tf_Limit = 500\<rparr> T))) +
      mset (map artifact_event (ListArtifacts sid [] ws A))"
    by (simp add: gather_events_def timeline_chunks_all [OF assms(1)])
  moreover have "sorted_wrt (\<lambda>a b. fst a \<le> fst b) (sort_by (\<lambda>a b. fst a \<le> fst b) ?E)"
    by (rule sorted_sort_by) auto
  ultimately show ?thesis by (simp add: BuildTimeline_def Let_def sorted_map)
qed

theorem replay_complete_witness:
  "mset (rp_Events (BuildTimeline ''s1'' [] [demo_chunk, demo_chunk\<lparr>oc_Sequence := 2, oc_Timestamp := 3\<rparr>] [] [])) =
     {#(5, ReplayOutput demo_chunk), (3, ReplayOutput (demo_chunk\<lparr>oc_Sequence := 2, oc_Timestamp := 3\<rparr>))#}"
  using replay_complete [of "''s1''" "[demo_chunk, demo_chunk\<lparr>oc_Sequence := 2, oc_Timestamp := 3\<rparr>]" "[]" "[]" "[]"]
  by (simp add: demo_chunk_def ListTasks_def ListArtifacts_def sort_by_Nil)

text \<open>
  Sequence numbers count per task, but the replay pages through a sandbox by
  sequence alone: when 1000 or more chunks of a sandbox share a number, the replay holds only
  1000 of them.
\<close>

lemma replay_loses_chunks:
  assumes "\<forall>c \<in> set C. oc_SandboxID c = sid \<longrightarrow> oc_Sequence c = s" "0 < s"
    and "length (filter (\<lambda>c. oc_SandboxID c = sid) C) = n" "1000 \<le> n"
  shows "rp_EventCount (BuildTimeline sid ws C [] []) = 1000"
  using timeline_same_sequence [of C sid s 0] assms
  by (simp add: BuildTimeline_def Let_def gather_events_def ListTasks_def ListArtifacts_def sort_by_Nil)

lemma replay_loses_chunks_witness:
  "let C = map (\<lambda>i. demo_chunk\<lparr>oc_ID := nat_text i, oc_TaskID := nat_text i\<rparr>) [0..<1500] in
   length (filter (\<lambda>c. oc_SandboxID c = ''s1'') C) = 1500 \<and> rp_EventCount (BuildTimeline ''s1'' [] C [] []) = 1000"
proof -
  let ?C = "map (\<lambda>i. demo_chunk\<lparr>oc_ID := nat_text i, oc_TaskID := nat_text i\<rparr>) [0..<1500]"
  have "filter (\<lambda>c. oc_SandboxID c = ''s1'') ?C = ?C" by (rule filter_True) (simp add: demo_chunk_def)
  then have "length (filter (\<lambda>c. oc_SandboxID c = ''s1'') ?C) = 1500" by (simp only: length_map length_upt)
  moreover have "\<forall>c \<in> set ?C. oc_SandboxID c = ''s1'' \<longrightarrow> oc_Sequence c = 1" by (simp add: demo_chunk_def)
  ultimately show ?thesis using replay_loses_chunks [of ?C "''s1''" 1 1500 "[]"] by (simp only: Let_def)
qed

text \<open>
  A client that opens the stream of a sandbox gets everything: when at most 1000
  stored chunks are behind its position, then whatever is ingested afterwards, as long as it is at most
  256 chunks of this sandbox that the client has not taken, every stored chunk of the sandbox
  behind the position is in the history it was sent or waits in its channel.
\<close>

lemma stream_misses_nothing:
  assumes "stream_open conn sid ws since S C h = (Ok hist, h')"
    and "\<forall>s \<in> set (hub_subs h sid). sb_id s \<noteq> conn"
    and "length (filter (\<lambda>c. oc_SandboxID c = sid \<and> oc_Sequence c > since) C) \<le> 1000"
    and "fold ingest_exec calls (C, h') = (C2, h2)"
    and "length (filter (\<lambda>c. oc_SandboxID c = sid) (drop (length C) C2)) \<le> hubChannelBuffer"
  shows "\<exists>ch. hub_channel conn sid h2 = Some ch \<and>
    (\<forall>c \<in> set C2. oc_SandboxID c = sid \<and> oc_Sequence c > since \<longrightarrow> c \<in> set hist \<union> set ch)"
proof -
  from assms(1) have hist: "hist = ListChunksBySandbox sid since 1000 C" and h': "h' = hub_Subscribe conn sid h"
    by (auto simp: stream_open_def split: if_splits option.splits)
  obtain rows where rows: "C2 = C @ rows" "h2 = fold Broadcast rows h'"
    using ingests_rows [of calls C h'] assms(4) by auto
  from hist assms(3) have "set hist = set (rows_after sid since C)" by (simp add: batch_rows rows_after_def)
  moreover have "hub_channel conn sid h2 = Some (filter (\<lambda>c. oc_SandboxID c = sid) rows)"
    using Broadcasts_channel [of conn sid h' "[]" rows] Subscribe_channel [OF assms(2)] assms(5) rows h'
    by (simp add: Let_def)
  ultimately show ?thesis using rows by (auto simp: rows_after_def)
qed

lemma stream_misses_nothing_witness:
  "\<exists>h' C2 h2 ch. stream_open 1 ''a'' ''w1'' 0 demo_running [] [] = (Ok [], h') \<and>
     fold ingest_exec [demo_ingest] ([], h') = (C2, h2) \<and> map oc_Data C2 = [''out''] \<and>
     hub_channel 1 ''a'' h2 = Some ch \<and> set C2 \<subseteq> set ch"
proof -
  let ?h = "hub_Subscribe 1 ''a'' []"
  have "map_option ss_State (GetForWorkspace demo_running ''a'' ''w1'') = Some SandboxRunning" by code_simp
  then obtain sess where sess: "GetForWorkspace demo_running ''a'' ''w1'' = Some sess" "ss_State sess = SandboxRunning"
    by auto
  have trim: "trim_space ''t1'' = ''t1''" "trim_space ''stderr'' = ''stderr''" by code_simp+
  obtain C2 h2 where run: "fold ingest_exec [demo_ingest] ([], ?h) = (C2, h2)" by (metis prod.collapse)
  then have C2: "map oc_Data C2 = [''out'']" "map oc_SandboxID C2 = [''a'']" "map oc_Sequence C2 = [7]"
    by (auto simp: ingest_exec_def demo_ingest_def HandleIngestOutput_def sess trim with_ids_def ingest_chunk_def
        AppendChunks_def chunk_insert_def chunk_row_def tbl_count_def MaxChunkSize_def Let_def)
  have "stream_open 1 ''a'' ''w1'' 0 demo_running [] [] = (Ok [], ?h)"
    by (simp add: stream_open_def sess batch_rows rows_after_def sort_by_Nil)
  from stream_misses_nothing [OF this _ _ run] C2 run this show ?thesis
    by (auto simp: hub_subs_def hubChannelBuffer_def gget_def)
qed

text \<open>
  Property C37. The output of a task is not bound to the sandbox of the request: a caller who
  may see any one sandbox gets, by naming the task, the chunks of a task of another sandbox.
\<close>

theorem task_output_crosses_sandboxes:
  assumes "GetForWorkspace S sid ws = Some sess" "sid \<noteq> []" "trim_space raw \<noteq> []"
    and "c \<in> set C" "oc_TaskID c = trim_space raw" "oc_Sequence c > since"
    and "length (filter (\<lambda>r. oc_TaskID r = trim_space raw \<and> oc_Sequence r > since) C) \<le> nat (clampLimit limit)"
  shows "\<exists>cs. HandleGetOutput sid ws raw since limit S C = Ok cs \<and> c \<in> set cs"
  using assms by (auto simp: HandleGetOutput_def ListChunks_def select_chunks_def)

theorem task_output_crosses_sandboxes_witness:
  "\<exists>cs. HandleGetOutput ''a'' ''w1'' ''t1'' 0 10 demo_sessions [demo_chunk] = Ok cs \<and> demo_chunk \<in> set cs \<and>
     GetForWorkspace demo_sessions (oc_SandboxID demo_chunk) ''w1'' = None"
proof -
  have "GetForWorkspace demo_sessions ''a'' ''w1'' \<noteq> None" "trim_space ''t1'' = ''t1''"
    "GetForWorkspace demo_sessions (oc_SandboxID demo_chunk) ''w1'' = None" by code_simp+
  then show ?thesis
    using task_output_crosses_sandboxes [of demo_sessions "''a''" "''w1''" _ "''t1''" demo_chunk "[demo_chunk]" 0 10]
    by (auto simp: demo_chunk_def clampLimit_def)
qed

end
