(* ===== verification/Access_Keys.thy ===== *)
theory Access_Keys
  imports Encoding Timestamps Lifecycle
begin

text \<open>
  Permissions, API keys, roles and the rate limiter of package \<^verbatim>\<open>controlplane/auth\<close>
  (\<^verbatim>\<open>keys.go\<close>, \<^verbatim>\<open>handlers.go\<close>, \<^verbatim>\<open>roles.go\<close>, \<^verbatim>\<open>custom_roles.go\<close>, \<^verbatim>\<open>ratelimit.go\<close>). The password hash of
  bcrypt is not part of the program: \<open>hash\<close> is what generating a hash returns and \<open>cmp\<close> is the
  comparison of a hash with a password. Rows hold what reading their text gives back, in the order of
  their insertion, in which a query on the prefix of a key meets them.
\<close>

section \<open>Permissions as text\<close>

type_synonym Permission = string

abbreviation PermAdmin :: Permission where "PermAdmin \<equiv> ''admin''"

abbreviation quote :: char where "quote \<equiv> CHR 0x22"

definition permissionsToJSON :: "Permission list \<Rightarrow> string" where
  "permissionsToJSON perms = ''['' @ join_str (map (\<lambda>p. [quote] @ p @ [quote]) perms) '','' @ '']''"

text \<open>
  The scan of \<^verbatim>\<open>jsonToPermissions\<close> by runes. The text of the runes is the repaired text, and a quote is
  always a rune of its own, so the scan goes over the bytes of the repaired text.
\<close>

fun quoted_parts :: "bool \<Rightarrow> string \<Rightarrow> string \<Rightarrow> Permission list" where
  "quoted_parts inQuote current [] = []"
| "quoted_parts inQuote current (c # s) =
     (if c = quote
      then if inQuote then current # quoted_parts False [] s else quoted_parts True current s
      else if inQuote then quoted_parts True (current @ [c]) s
      else quoted_parts False current s)"

definition jsonToPermissions :: "string \<Rightarrow> Permission list" where
  "jsonToPermissions raw = (if raw = [] \<or> raw = ''[]'' then [] else quoted_parts False [] (utf8_repair raw))"

section \<open>API keys\<close>

record APIKey =
  ak_ID :: string
  ak_Name :: string
  ak_KeyHash :: string
  ak_KeyPrefix :: string
  ak_Permissions :: "Permission list"
  ak_CreatedAt :: time
  ak_LastUsedAt :: "time option"
  ak_ExpiresAt :: "time option"
  ak_Enabled :: bool

type_synonym key_table = "APIKey list"

datatype key_error =
    KeyNotGenerated
  | KeyNotHashed
  | KeyNotStored
  | InvalidKeyFormat
  | KeyNotFound
  | KeyDisabled
  | KeyExpired
  | InvalidKey
  | InvalidKeyRequest
  | KeyNameRequired
  | KeyPermissionRequired
  | InvalidExpiresIn
  | KeyIDRequired

text \<open>\<open>raw\<close> are the 32 random bytes, None when they cannot be read.\<close>

definition key_Create ::
  "time \<Rightarrow> string \<Rightarrow> string option \<Rightarrow> (string \<Rightarrow> string option) \<Rightarrow> string \<Rightarrow> Permission list \<Rightarrow> time option \<Rightarrow> key_table \<Rightarrow>
   (key_error + APIKey \<times> string) \<times> key_table" where
  "key_Create now uuid raw hash name perms expiresAt t =
     (case raw of
        None \<Rightarrow> (Err KeyNotGenerated, t)
      | Some bytes \<Rightarrow>
          let plainKey = ''lgk_'' @ hex_EncodeToString bytes in
          (case hash plainKey of
             None \<Rightarrow> (Err KeyNotHashed, t)
           | Some h \<Rightarrow>
               let key = \<lparr>ak_ID = uuid, ak_Name = name, ak_KeyHash = h, ak_KeyPrefix = take 12 plainKey,
                          ak_Permissions = perms, ak_CreatedAt = now, ak_LastUsedAt = None,
                          ak_ExpiresAt = expiresAt, ak_Enabled = True\<rparr> in
               if tbl_count (\<lambda>r. ak_ID r = uuid) t > 0 then (Err KeyNotStored, t)
               else (Ok (key, plainKey),
                     t @ [key\<lparr>ak_Permissions := jsonToPermissions (permissionsToJSON perms)\<rparr>])))"

text \<open>
  \<open>t1\<close> is the clock reading of the check of the expiry and \<open>t2\<close> the one of the use. The update of
  the last use runs later, as a step of its own.
\<close>

definition key_Validate ::
  "time \<Rightarrow> time \<Rightarrow> (string \<Rightarrow> string \<Rightarrow> bool) \<Rightarrow> string \<Rightarrow> key_table \<Rightarrow> key_error + APIKey" where
  "key_Validate t1 t2 cmp plainKey t =
     (if length plainKey < 12 then Err InvalidKeyFormat
      else (case tbl_first (\<lambda>r. ak_KeyPrefix r = take 12 plainKey) t of
              None \<Rightarrow> Err KeyNotFound
            | Some key \<Rightarrow>
                if \<not> ak_Enabled key then Err KeyDisabled
                else if (case ak_ExpiresAt key of None \<Rightarrow> False | Some e \<Rightarrow> t1 > e) then Err KeyExpired
                else if \<not> cmp (ak_KeyHash key) plainKey then Err InvalidKey
                else Ok (key\<lparr>ak_LastUsedAt := Some t2\<rparr>)))"

definition key_List :: "key_table \<Rightarrow> APIKey list" where
  "key_List t =
     map (\<lambda>r. r\<lparr>ak_KeyHash := []\<rparr>) (sort_by (\<lambda>r s. text_le (ak_CreatedAt s) (ak_CreatedAt r)) t)"

definition key_touch :: "time \<Rightarrow> string \<Rightarrow> key_table \<Rightarrow> key_table" where
  "key_touch now kid t = tbl_update (\<lambda>r. ak_ID r = kid) (\<lambda>r. r\<lparr>ak_LastUsedAt := Some now\<rparr>) t"

definition key_Revoke :: "string \<Rightarrow> key_table \<Rightarrow> key_error option \<times> key_table" where
  "key_Revoke kid t =
     (if tbl_count (\<lambda>r. ak_ID r = kid) t = 0 then (Some KeyNotFound, t)
      else (None, tbl_update (\<lambda>r. ak_ID r = kid) (\<lambda>r. r\<lparr>ak_Enabled := False\<rparr>) t))"

definition key_Delete :: "string \<Rightarrow> key_table \<Rightarrow> key_error option \<times> key_table" where
  "key_Delete kid t =
     (if tbl_count (\<lambda>r. ak_ID r = kid) t = 0 then (Some KeyNotFound, t)
      else (None, tbl_delete (\<lambda>r. ak_ID r = kid) t))"

definition HasPermission :: "APIKey option \<Rightarrow> Permission \<Rightarrow> bool" where
  "HasPermission key perm \<longleftrightarrow>
     (case key of None \<Rightarrow> False | Some k \<Rightarrow> list_ex (\<lambda>p. p = PermAdmin \<or> p = perm) (ak_Permissions k))"

text \<open>
  \<open>expiresIn\<close> is None when the field is empty, and otherwise what parsing it as a duration gives.
  The body is None when it cannot be decoded.
\<close>

record key_body =
  kb_Name :: string
  kb_Permissions :: "Permission list"
  kb_ExpiresIn :: "duration option option"

definition HandleCreateKey ::
  "time \<Rightarrow> time \<Rightarrow> string \<Rightarrow> string option \<Rightarrow> (string \<Rightarrow> string option) \<Rightarrow> key_body option \<Rightarrow> key_table \<Rightarrow>
   (key_error + APIKey \<times> string) \<times> key_table" where
  "HandleCreateKey t1 t2 uuid raw hash body t =
     (case body of
        None \<Rightarrow> (Err InvalidKeyRequest, t)
      | Some b \<Rightarrow>
          if kb_Name b = [] then (Err KeyNameRequired, t)
          else if kb_Permissions b = [] then (Err KeyPermissionRequired, t)
          else (case kb_ExpiresIn b of
                  None \<Rightarrow> key_Create t2 uuid raw hash (kb_Name b) (kb_Permissions b) None t
                | Some None \<Rightarrow> (Err InvalidExpiresIn, t)
                | Some (Some d) \<Rightarrow> key_Create t2 uuid raw hash (kb_Name b) (kb_Permissions b) (Some (t1 + d)) t))"

definition HandleDeleteKey :: "string \<Rightarrow> key_table \<Rightarrow> key_error option \<times> key_table" where
  "HandleDeleteKey kid t = (if kid = [] then (Some KeyIDRequired, t) else key_Delete kid (snd (key_Revoke kid t)))"

section \<open>Roles\<close>

definition encodePermissions :: "Permission list \<Rightarrow> string" where
  "encodePermissions perms = join_str perms '',''"

definition decodePermissions :: "string \<Rightarrow> Permission list" where
  "decodePermissions raw =
     (if trim_space raw = [] then []
      else filter (\<lambda>p. p \<noteq> []) (map trim_space (split_on CHR '','' raw)))"

record CustomRole =
  cr_Name :: string
  cr_Permissions :: "Permission list"
  cr_Description :: string
  cr_CreatedAt :: time

type_synonym role_table = "CustomRole list"

datatype role_error = RoleNameRequired | ErrBuiltInRole | ErrCustomRoleExists | ErrCustomRoleNotFound

definition IsBuiltInRole :: "string \<Rightarrow> bool" where
  "IsBuiltInRole role \<longleftrightarrow> role \<in> {''admin'', ''operator'', ''viewer'', ''auditor''}"

definition role_Get :: "role_table \<Rightarrow> string \<Rightarrow> role_error + CustomRole" where
  "role_Get t name = (case tbl_first (\<lambda>r. cr_Name r = name) t of None \<Rightarrow> Err ErrCustomRoleNotFound | Some r \<Rightarrow> Ok r)"

definition role_Create ::
  "time \<Rightarrow> string \<Rightarrow> Permission list \<Rightarrow> string \<Rightarrow> role_table \<Rightarrow> (role_error + CustomRole) \<times> role_table" where
  "role_Create now rawName perms description t =
     (let name = trim_space rawName;
          role = \<lparr>cr_Name = name, cr_Permissions = perms, cr_Description = description, cr_CreatedAt = now\<rparr> in
      if name = [] then (Err RoleNameRequired, t)
      else if IsBuiltInRole name then (Err ErrBuiltInRole, t)
      else if tbl_count (\<lambda>r. cr_Name r = name) t > 0 then (Err ErrCustomRoleExists, t)
      else (Ok role, t @ [role\<lparr>cr_Permissions := decodePermissions (encodePermissions perms)\<rparr>]))"

definition role_Update ::
  "string \<Rightarrow> Permission list \<Rightarrow> string \<Rightarrow> role_table \<Rightarrow> (role_error + CustomRole) \<times> role_table" where
  "role_Update rawName perms description t =
     (let name = trim_space rawName in
      if IsBuiltInRole name then (Err ErrBuiltInRole, t)
      else if tbl_count (\<lambda>r. cr_Name r = name) t = 0 then (Err ErrCustomRoleNotFound, t)
      else let t' = tbl_update (\<lambda>r. cr_Name r = name)
                      (\<lambda>r. r\<lparr>cr_Permissions := decodePermissions (encodePermissions perms),
                             cr_Description := description\<rparr>) t in
           (role_Get t' name, t'))"

definition role_Delete :: "string \<Rightarrow> role_table \<Rightarrow> role_error option \<times> role_table" where
  "role_Delete name t =
     (if IsBuiltInRole name then (Some ErrBuiltInRole, t)
      else if tbl_count (\<lambda>r. cr_Name r = name) t = 0 then (Some ErrCustomRoleNotFound, t)
      else (None, tbl_delete (\<lambda>r. cr_Name r = name) t))"

definition role_List :: "role_table \<Rightarrow> CustomRole list" where
  "role_List t = sort_by (\<lambda>r s. bytes_le (cr_Name r) (cr_Name s)) t"

definition GetPermissions :: "role_table \<Rightarrow> string \<Rightarrow> Permission list option" where
  "GetPermissions t name = (case role_Get t name of Err _ \<Rightarrow> None | Ok r \<Rightarrow> Some (cr_Permissions r))"

text \<open>\<open>lookup\<close> is the lookup registered for roles that are not built in, None when there is none.\<close>

definition RolePermissions :: "(string \<Rightarrow> Permission list option) option \<Rightarrow> string \<Rightarrow> Permission list" where
  "RolePermissions lookup role =
     (if role = ''admin'' then [PermAdmin]
      else if role = ''operator''
      then [''fleet:read'', ''fleet:write'', ''command:exec'', ''approval:read'', ''approval:write'', ''audit:read'',
            ''webhook:manage'']
      else if role = ''viewer'' then [''fleet:read'', ''approval:read'', ''audit:read'']
      else if role = ''auditor'' then [''fleet:read'', ''audit:read'', ''approval:read'']
      else (case lookup of
              None \<Rightarrow> []
            | Some f \<Rightarrow> (case f role of None \<Rightarrow> [] | Some perms \<Rightarrow> perms)))"

section \<open>The rate limiter\<close>

text \<open>A window is the number of requests it has let through and the time at which it ends.\<close>

record RateLimiter =
  rl_windows :: "(int \<times> time) gmap"
  rl_limit :: int
  rl_window :: duration

definition NewRateLimiter :: "int \<Rightarrow> duration \<Rightarrow> RateLimiter" where
  "NewRateLimiter limit windowSize = \<lparr>rl_windows = [], rl_limit = limit, rl_window = windowSize\<rparr>"

definition Allow :: "time \<Rightarrow> string \<Rightarrow> RateLimiter \<Rightarrow> bool \<times> RateLimiter" where
  "Allow now keyID rl =
     (let fresh = (True, rl\<lparr>rl_windows := gput keyID (1, now + rl_window rl) (rl_windows rl)\<rparr>) in
      case gget (rl_windows rl) keyID of
        None \<Rightarrow> fresh
      | Some (n, resetAt) \<Rightarrow>
          if now > resetAt then fresh
          else if n \<ge> rl_limit rl then (False, rl)
          else (True, rl\<lparr>rl_windows := gput keyID (n + 1, resetAt) (rl_windows rl)\<rparr>))"

definition Remaining :: "time \<Rightarrow> string \<Rightarrow> RateLimiter \<Rightarrow> int" where
  "Remaining now keyID rl =
     (case gget (rl_windows rl) keyID of
        None \<Rightarrow> rl_limit rl
      | Some (n, resetAt) \<Rightarrow> if now > resetAt then rl_limit rl else max 0 (rl_limit rl - n))"

text \<open>
  The rate limiter as it looks to one key, on the window of the key alone, and the answers that a
  sequence of requests gets.
\<close>

definition window_step :: "int \<Rightarrow> duration \<Rightarrow> time \<Rightarrow> (int \<times> time) option \<Rightarrow> bool \<times> (int \<times> time) option" where
  "window_step limit w now st =
     (case st of
        None \<Rightarrow> (True, Some (1, now + w))
      | Some (n, resetAt) \<Rightarrow>
          if now > resetAt then (True, Some (1, now + w))
          else if n \<ge> limit then (False, st) else (True, Some (n + 1, resetAt)))"

fun window_run :: "int \<Rightarrow> duration \<Rightarrow> (int \<times> time) option \<Rightarrow> time list \<Rightarrow> (time \<times> bool) list" where
  "window_run limit w st [] = []"
| "window_run limit w st (t # ts) =
     (let (ok, st') = window_step limit w t st in (t, ok) # window_run limit w st' ts)"

fun allow_run :: "(time \<times> string) list \<Rightarrow> RateLimiter \<Rightarrow> (time \<times> string \<times> bool) list" where
  "allow_run [] rl = []"
| "allow_run ((t, k) # cs) rl = (let (ok, rl') = Allow t k rl in (t, k, ok) # allow_run cs rl')"

definition passed :: "time \<Rightarrow> time \<Rightarrow> (time \<times> bool) list \<Rightarrow> int" where
  "passed a b run = int (length (filter (\<lambda>(t, ok). ok \<and> a \<le> t \<and> t \<le> b) run))"

text \<open>What may happen to the table of keys; \<open>touch\<close> is the deferred update of a last use.\<close>

datatype key_op =
    KeyCreate time string "string option" "string \<Rightarrow> string option" string "Permission list" "time option"
  | KeyTouch time string
  | KeyRevoke string
  | KeyDelete string
  | KeyHandleDelete string

fun key_apply :: "key_op \<Rightarrow> key_table \<Rightarrow> key_table" where
  "key_apply (KeyCreate now uuid raw hash name perms e) t = snd (key_Create now uuid raw hash name perms e t)"
| "key_apply (KeyTouch now kid) t = key_touch now kid t"
| "key_apply (KeyRevoke kid) t = snd (key_Revoke kid t)"
| "key_apply (KeyDelete kid) t = snd (key_Delete kid t)"
| "key_apply (KeyHandleDelete kid) t = snd (HandleDeleteKey kid t)"

fun creates_id :: "string \<Rightarrow> key_op \<Rightarrow> bool" where
  "creates_id kid (KeyCreate now uuid raw hash name perms e) \<longleftrightarrow> uuid = kid"
| "creates_id kid op \<longleftrightarrow> False"

definition key_out :: "string \<Rightarrow> key_table \<Rightarrow> bool" where
  "key_out kid t \<longleftrightarrow> (\<forall>r \<in> set t. ak_ID r = kid \<longrightarrow> \<not> ak_Enabled r)"
text \<open>A hash function for the examples, in the place of bcrypt.\<close>

definition demo_hash :: "string \<Rightarrow> string option" where "demo_hash p = Some (CHR ''#'' # p)"

definition demo_cmp :: "string \<Rightarrow> string \<Rightarrow> bool" where "demo_cmp h p \<longleftrightarrow> h = CHR ''#'' # p"

definition demo_key :: "Permission list \<Rightarrow> (key_error + APIKey \<times> string) \<times> key_table" where
  "demo_key perms = key_Create 1 ''k1'' (Some (replicate 32 CHR ''a'')) demo_hash ''ci'' perms (Some 9) []"

text \<open>
  Custom roles: names are trimmed, not empty, not those of the built-in roles, and unique; every
  operation keeps that. Permissions come back from their text when they are trimmed, not empty and
  without commas.
\<close>

definition roles_ok :: "role_table \<Rightarrow> bool" where
  "roles_ok t \<longleftrightarrow> distinct (map cr_Name t) \<and>
     (\<forall>r \<in> set t. cr_Name r \<noteq> [] \<and> \<not> IsBuiltInRole (cr_Name r) \<and> trim_space (cr_Name r) = cr_Name r)"

section \<open>Lemmas\<close>

lemma Allow_refines:
  "gget (rl_windows (snd (Allow t k rl))) key =
     (if key = k then snd (window_step (rl_limit rl) (rl_window rl) t (gget (rl_windows rl) k))
      else gget (rl_windows rl) key)"
  "fst (Allow t k rl) = fst (window_step (rl_limit rl) (rl_window rl) t (gget (rl_windows rl) k))"
  by (auto simp: Allow_def window_step_def gmap_simps split: option.splits)

lemma Allow_config [simp]:
  "rl_limit (snd (Allow t k rl)) = rl_limit rl" "rl_window (snd (Allow t k rl)) = rl_window rl"
  by (auto simp: Allow_def Let_def split: option.splits)

lemma allow_run_key:
  "map (\<lambda>(t, k, ok). (t, ok)) (filter (\<lambda>(t, k, ok). k = key) (allow_run cs rl)) =
   window_run (rl_limit rl) (rl_window rl) (gget (rl_windows rl) key) (map fst (filter (\<lambda>c. snd c = key) cs))"
proof (induction cs arbitrary: rl)
  case (Cons c cs)
  obtain t k where c: "c = (t, k)" by fastforce
  obtain ok rl' where A: "Allow t k rl = (ok, rl')" by fastforce
  show ?case
    using Cons.IH [of rl'] Allow_refines(1) [of t k rl key] Allow_refines(2) [of t k rl] Allow_config [of t k rl]
    by (auto simp: c A split: prod.splits)
qed simp

lemma passed_late: "(\<And>t. t \<in> set ts \<Longrightarrow> b < t) \<Longrightarrow> passed a b (window_run limit w st ts) = 0"
proof (induction ts arbitrary: st)
  case (Cons t ts)
  then show ?case by (fastforce simp: passed_def split: prod.splits)
qed (simp add: passed_def)

lemma passed_in_window:
  assumes "sorted ts" and "b \<le> r"
  shows "passed a b (window_run limit w (Some (n, r)) ts) \<le> max 0 (limit - n)"
  using assms(1)
proof (induction ts arbitrary: n)
  case (Cons t ts)
  show ?case
  proof (cases "t > r")
    case True
    then have "passed a b (window_run limit w (Some (n, r)) (t # ts)) = 0"
      using Cons.prems assms(2) by (intro passed_late) auto
    then show ?thesis by simp
  next
    case False
    then show ?thesis
      using Cons.IH [of n] Cons.IH [of "n + 1"] Cons.prems by (auto simp: passed_def window_step_def)
  qed
qed (simp add: passed_def)

lemma passed_next_window:
  assumes "sorted ts" and "b \<le> r + w" and "1 \<le> limit"
  shows "passed a b (window_run limit w (Some (n, r)) ts) \<le> max 0 (limit - n) + limit"
  using assms(1)
proof (induction ts arbitrary: n)
  case (Cons t ts)
  show ?case
  proof (cases "t > r")
    case True
    then have "passed a b (window_run limit w (Some (1, t + w)) ts) \<le> limit - 1"
      using passed_in_window [of ts b "t + w" a limit w 1] Cons.prems assms by simp
    with True show ?thesis by (auto simp: passed_def window_step_def)
  next
    case False
    then show ?thesis
      using Cons.IH [of n] Cons.IH [of "n + 1"] Cons.prems by (auto simp: passed_def window_step_def)
  qed
qed (use assms(3) in \<open>simp add: passed_def\<close>)

lemma passed_bound:
  assumes "sorted ts" and "1 \<le> limit" and "\<And>n r. st = Some (n, r) \<Longrightarrow> 1 \<le> n"
  shows "passed a (a + w) (window_run limit w st ts) \<le> 2 * limit - 1"
  using assms(1,3)
proof (induction ts arbitrary: st)
  case (Cons t ts)
  have fresh: "passed a (a + w) (window_run limit w (Some (1, t + w)) ts) \<le>
      (if a \<le> t then limit - 1 else 2 * limit - 1)"
    using passed_in_window [of ts "a + w" "t + w" a limit w 1] Cons.IH [of "Some (1, t + w)"] Cons.prems assms(2)
    by auto
  show ?case
  proof (cases "st = None \<or> (\<exists>n r. st = Some (n, r) \<and> r < t)")
    case True
    then have "window_step limit w t st = (True, Some (1, t + w))" by (auto simp: window_step_def)
    with fresh assms(2) show ?thesis by (auto simp: passed_def split: if_splits)
  next
    case False
    then obtain n r where st: "st = Some (n, r)" and r: "\<not> r < t" by (cases st) auto
    then have n: "1 \<le> n" using Cons.prems by blast
    show ?thesis
    proof (cases "a \<le> r")
      case True
      then show ?thesis
        using passed_next_window [of "t # ts" "a + w" r w limit a n] Cons.prems assms(2) n st by auto
    next
      case False
      then show ?thesis
        using Cons.IH [of "Some (n, r)"] Cons.IH [of "Some (n + 1, r)"] Cons.prems n r st
        by (auto simp: passed_def window_step_def)
    qed
  qed
qed (use assms(2) in \<open>simp add: passed_def\<close>)

text \<open>Permissions without quotes come back from their text as they are.\<close>

lemma utf8_valid_join:
  "utf8_valid sep \<Longrightarrow> (\<And>s. s \<in> set xs \<Longrightarrow> utf8_valid s) \<Longrightarrow> utf8_valid (join_str xs sep)"
  by (induction xs sep rule: join_str.induct) (auto intro!: utf8_valid_append)

lemma quoted_parts_close:
  "quote \<notin> set p \<Longrightarrow> quoted_parts True cur (p @ quote # s) = (cur @ p) # quoted_parts False [] s"
  by (induction p arbitrary: cur) auto

lemma quoted_parts_list:
  assumes "\<And>p. p \<in> set perms \<Longrightarrow> quote \<notin> set p"
  shows "quoted_parts False [] (join_str (map (\<lambda>p. [quote] @ p @ [quote]) perms) '','' @ '']'') = perms"
  using assms
proof (induction perms rule: induct_list012)
  case (3 p q perms)
  then show ?case by (simp add: quoted_parts_close)
qed (simp_all add: quoted_parts_close)

lemma permissions_round_trip:
  assumes "\<And>p. p \<in> set perms \<Longrightarrow> quote \<notin> set p \<and> utf8_valid p"
  shows "jsonToPermissions (permissionsToJSON perms) = perms"
proof -
  have ascii: "utf8_valid [quote]" "utf8_valid '',''" "utf8_valid ''[''" "utf8_valid '']''" by code_simp+
  have "utf8_valid ([quote] @ p @ [quote])" if "p \<in> set perms" for p
    using assms that ascii by (intro utf8_valid_append) auto
  then have "utf8_valid (permissionsToJSON perms)"
    unfolding permissionsToJSON_def by (intro utf8_valid_append utf8_valid_join) (use ascii in auto)
  then have r: "utf8_repair (permissionsToJSON perms) = permissionsToJSON perms" by (rule repair_valid)
  have "quoted_parts False [] (permissionsToJSON perms) = perms"
    using quoted_parts_list [of perms] assms by (simp add: permissionsToJSON_def)
  moreover have "perms = []" if "permissionsToJSON perms = ''[]''"
    using that by (cases perms rule: remdups_adj.cases) (auto simp: permissionsToJSON_def)
  ultimately show ?thesis using r by (auto simp: jsonToPermissions_def permissionsToJSON_def)
qed

text \<open>A key that is out of use stays out of use.\<close>

lemma key_out_apply: "key_out kid t \<Longrightarrow> \<not> creates_id kid op \<Longrightarrow> key_out kid (key_apply op t)"
  by (cases op)
     (auto simp: key_out_def key_Create_def key_touch_def key_Revoke_def key_Delete_def HandleDeleteKey_def
        tbl_update_def tbl_delete_def Let_def split: option.splits)

lemma key_out_fold:
  "key_out kid t \<Longrightarrow> list_all (\<lambda>op. \<not> creates_id kid op) ops \<Longrightarrow> key_out kid (fold key_apply ops t)"
  by (induction ops arbitrary: t) (simp_all add: key_out_apply)

lemma key_Validate_row:
  assumes "key_Validate t1 t2 cmp plain t = Ok k"
  shows "\<exists>r \<in> set t. k = r\<lparr>ak_LastUsedAt := Some t2\<rparr> \<and> ak_Enabled r \<and> cmp (ak_KeyHash r) plain \<and>
    (\<forall>e. ak_ExpiresAt r = Some e \<longrightarrow> t1 \<le> e)"
  using assms by (auto simp: key_Validate_def dest!: tbl_firstD split: if_splits option.splits)

text \<open>Only the oldest key of a prefix can be used: a later one is shadowed for as long as the first exists.\<close>

lemma shadowed_key:
  assumes "tbl_first (\<lambda>r. ak_KeyPrefix r = take 12 plain) t = Some old" and "\<not> cmp (ak_KeyHash old) plain"
  shows "\<not> (\<exists>k. key_Validate t1 t2 cmp plain t = Ok k)"
  using assms by (auto simp: key_Validate_def split: if_splits option.splits)

lemma key_Create_stored:
  assumes "key_Create now uuid raw hash name perms e t = (Ok (k, plain), t')"
  shows "hash plain = Some (ak_KeyHash k)" "ak_KeyPrefix k = take 12 plain" "ak_Enabled k" "ak_ExpiresAt k = e"
    "ak_ID k = uuid" "t' = t @ [k\<lparr>ak_Permissions := jsonToPermissions (permissionsToJSON perms)\<rparr>]"
    "\<exists>bytes. raw = Some bytes \<and> plain = ''lgk_'' @ hex_EncodeToString bytes" "ak_Permissions k = perms"
  using assms by (auto simp: key_Create_def Let_def split: option.splits if_splits)

lemma key_out_of_removal:
  "key_out kid (snd (key_Revoke kid t))" "key_out kid (snd (key_Delete kid t))"
  "kid \<noteq> [] \<Longrightarrow> key_out kid (snd (HandleDeleteKey kid t))"
proof -
  show "key_out kid (snd (key_Revoke kid t))" for t
    by (cases "tbl_count (\<lambda>r. ak_ID r = kid) t = 0")
       (auto simp: key_Revoke_def key_out_def tbl_update_def tbl_count_0)
  show del: "key_out kid (snd (key_Delete kid t))" for t
    by (cases "tbl_count (\<lambda>r. ak_ID r = kid) t = 0")
       (auto simp: key_Delete_def key_out_def tbl_delete_def tbl_count_0)
  show "kid \<noteq> [] \<Longrightarrow> key_out kid (snd (HandleDeleteKey kid t))"
    using del by (simp add: HandleDeleteKey_def)
qed

lemma created_key_validates:
  assumes "\<And>p h. hash p = Some h \<Longrightarrow> cmp h p"
    and "key_Create now uuid (Some bytes) hash name perms e t = (Ok (k, plain), t')"
    and "length bytes = 32" and "tbl_count (\<lambda>r. ak_KeyPrefix r = ak_KeyPrefix k) t = 0"
    and "\<And>x. e = Some x \<Longrightarrow> t1 \<le> x"
  shows "key_Validate t1 t2 cmp plain t' =
    Ok (k\<lparr>ak_Permissions := jsonToPermissions (permissionsToJSON perms), ak_LastUsedAt := Some t2\<rparr>)"
proof -
  note K = key_Create_stored [OF assms(2)]
  let ?k = "k\<lparr>ak_Permissions := jsonToPermissions (permissionsToJSON perms)\<rparr>"
  have "length plain = 68" using K(7) assms(3) by auto
  moreover have "tbl_first (\<lambda>r. ak_KeyPrefix r = take 12 plain) t' = Some ?k"
    using assms(4) K(2) by (auto simp: K(6) tbl_first_append tbl_count_0 split: option.splits dest!: tbl_firstD)
  ultimately show ?thesis
    using K(3,4) assms(1) [OF K(1)] assms(5) by (auto simp: key_Validate_def split: option.splits)
qed

lemma roles_ok_update: "roles_ok t \<Longrightarrow> (\<And>r. cr_Name (f r) = cr_Name r) \<Longrightarrow> roles_ok (tbl_update P f t)"
  by (auto simp: roles_ok_def tbl_update_def comp_def if_distrib cong: if_cong)

lemma roles_ok_step:
  assumes "roles_ok t"
  shows "roles_ok (snd (role_Create now name perms d t))" "roles_ok (snd (role_Update name perms d t))"
    "roles_ok (snd (role_Delete name t))"
proof -
  show "roles_ok (snd (role_Create now name perms d t))"
    using assms by (auto simp: role_Create_def Let_def roles_ok_def tbl_count_0)
  show "roles_ok (snd (role_Update name perms d t))"
    using assms roles_ok_update by (auto simp: role_Update_def Let_def)
  show "roles_ok (snd (role_Delete name t))"
    using assms by (auto simp: role_Delete_def roles_ok_def tbl_delete_def distinct_map_filter)
qed

lemma split_on_join:
  assumes "xs \<noteq> []" and "\<And>x. x \<in> set xs \<Longrightarrow> c \<notin> set x"
  shows "split_on c (join_str xs [c]) = xs"
proof -
  have one: "split_on c x = [x]" if "c \<notin> set x" for x
    using that by (induction x) auto
  have cut: "split_on c (x @ c # s) = x # split_on c s" if "c \<notin> set x" for x s
    using that by (induction x) auto
  show ?thesis
    using assms by (induction xs rule: induct_list012) (simp_all add: one cut)
qed

lemma role_permissions_round_trip:
  assumes "\<And>p. p \<in> set perms \<Longrightarrow> p \<noteq> [] \<and> trim_space p = p \<and> CHR '','' \<notin> set p"
    and "trim_space (encodePermissions perms) \<noteq> []"
  shows "decodePermissions (encodePermissions perms) = perms"
proof -
  have "perms \<noteq> []" using assms(2) by (auto simp: encodePermissions_def)
  then have "split_on CHR '','' (encodePermissions perms) = perms"
    using assms(1) by (auto simp: encodePermissions_def intro!: split_on_join)
  moreover have "map trim_space perms = perms" using assms(1) by (simp add: map_idI)
  ultimately show ?thesis using assms by (simp add: decodePermissions_def filter_id_conv)
qed

text \<open>A comma in a permission of a custom role separates two: this one holds the admin permission.\<close>

lemma comma_grants_admin:
  assumes "role_Create now name [''fleet:read,admin''] d t = (Ok r, t')"
  shows "cr_Permissions r = [''fleet:read,admin'']"
    "GetPermissions t' (cr_Name r) = Some [''fleet:read'', PermAdmin]"
proof -
  have dec: "decodePermissions (encodePermissions [''fleet:read,admin'']) = [''fleet:read'', PermAdmin]" by code_simp
  show "cr_Permissions r = [''fleet:read,admin'']"
    using assms by (auto simp: role_Create_def Let_def split: if_splits)
  show "GetPermissions t' (cr_Name r) = Some [''fleet:read'', PermAdmin]"
    using assms dec
    by (auto simp: role_Create_def Let_def GetPermissions_def role_Get_def tbl_first_append tbl_count_0
        split: if_splits option.splits dest!: tbl_firstD)
qed

section \<open>Properties\<close>

text \<open>
  The rate limiter, for any interleaving of the requests of all keys and a clock that
  does not go back: in any span of time of one window at most \<open>2 * limit - 1\<close> requests of a key are
  let through, for a limit of at least one. The bound is the one of a fixed window: the witness has
  limit 2 and three requests in less than a window.
\<close>

lemma rate_limiter_bound:
  assumes "sorted (map fst cs)" and "1 \<le> limit"
  shows "int (length (filter (\<lambda>(t, k, ok). ok \<and> k = key \<and> a \<le> t \<and> t \<le> a + w)
           (allow_run cs (NewRateLimiter limit w)))) \<le> 2 * limit - 1"
proof -
  let ?run = "allow_run cs (NewRateLimiter limit w)"
  let ?ts = "map fst (filter (\<lambda>c. snd c = key) cs)"
  have "int (length (filter (\<lambda>(t, k, ok). ok \<and> k = key \<and> a \<le> t \<and> t \<le> a + w) ?run)) =
      passed a (a + w) (map (\<lambda>(t, k, ok). (t, ok)) (filter (\<lambda>(t, k, ok). k = key) ?run))"
    by (auto simp: passed_def filter_map comp_def case_prod_beta intro!: arg_cong [of _ _ length] filter_cong)
  also have "\<dots> = passed a (a + w) (window_run limit w None ?ts)"
    by (simp add: allow_run_key NewRateLimiter_def gget_def)
  also have "\<dots> \<le> 2 * limit - 1"
    using assms by (intro passed_bound) (simp_all add: sorted_filter)
  finally show ?thesis .
qed

lemma rate_limiter_bound_witness:
  "sorted (map fst [(0::int, ''k''), (9, ''k''), (11, ''k''), (12, ''j''), (13, ''k''), (14, ''k'')]) \<and>
   map (\<lambda>(t, k, ok). ok)
     (allow_run [(0, ''k''), (9, ''k''), (11, ''k''), (12, ''j''), (13, ''k''), (14, ''k'')] (NewRateLimiter 2 10))
   = [True, True, True, True, True, False] \<and>
   int (length (filter (\<lambda>(t, k, ok). ok \<and> k = ''k'' \<and> 9 \<le> t \<and> t \<le> 9 + 10)
     (allow_run [(0, ''k''), (9, ''k''), (11, ''k''), (12, ''j''), (13, ''k''), (14, ''k'')] (NewRateLimiter 2 10))))
   \<le> 2 * 2 - 1"
proof (intro conjI)
  show "int (length (filter (\<lambda>(t, k, ok). ok \<and> k = ''k'' \<and> 9 \<le> t \<and> t \<le> 9 + 10)
     (allow_run [(0, ''k''), (9, ''k''), (11, ''k''), (12, ''j''), (13, ''k''), (14, ''k'')] (NewRateLimiter 2 10))))
   \<le> 2 * 2 - 1"
    by (rule rate_limiter_bound) simp_all
qed code_simp+

text \<open>
  Property C18. A key that was revoked or deleted never authenticates again, whatever is done to the
  keys afterwards: creating others, deferred updates of the last use, revoking and deleting. No key
  of its identifier is created, since identifiers are fresh.
\<close>

theorem revoked_key_never_validates:
  assumes "op \<in> {KeyRevoke kid, KeyDelete kid, KeyHandleDelete kid}" and "kid \<noteq> []"
    and "list_all (\<lambda>op. \<not> creates_id kid op) ops"
    and "key_Validate t1 t2 cmp plain (fold key_apply ops (key_apply op t)) = Ok k"
  shows "ak_ID k \<noteq> kid"
proof -
  have "key_out kid (key_apply op t)"
    using assms(1,2) key_out_of_removal by auto
  then have "key_out kid (fold key_apply ops (key_apply op t))" using assms(3) by (rule key_out_fold)
  with key_Validate_row [OF assms(4)] show ?thesis by (auto simp: key_out_def)
qed

lemma revoked_key_never_validates_witness:
  "let t = snd (demo_key [''fleet:read'']) @ snd (key_Create 1 ''k2'' (Some (replicate 32 CHR ''b'')) demo_hash ''ci''
             [''fleet:read''] None []);
       ops = [KeyTouch 3 ''k1'', KeyCreate 4 ''k3'' (Some (replicate 32 CHR ''c'')) demo_hash ''x'' [] None];
       t' = fold key_apply ops (key_apply (KeyRevoke ''k1'') t)
   in key_Validate 5 6 demo_cmp (''lgk_'' @ hex_EncodeToString (replicate 32 CHR ''a'')) t' = Err KeyDisabled \<and>
      (\<exists>k. key_Validate 5 6 demo_cmp (''lgk_'' @ hex_EncodeToString (replicate 32 CHR ''b'')) t' = Ok k \<and>
           ak_ID k \<noteq> ''k1'')"
  (is "let t = ?t; ops = ?ops; t' = _ t ops in _ t' \<and> _ t'")
proof -
  let ?t' = "fold key_apply ?ops (key_apply (KeyRevoke ''k1'') ?t)"
  let ?b = "''lgk_'' @ hex_EncodeToString (replicate 32 CHR ''b'')"
  have "key_Validate 5 6 demo_cmp (''lgk_'' @ hex_EncodeToString (replicate 32 CHR ''a'')) ?t' = Err KeyDisabled"
    by code_simp
  moreover have "\<not> isl (key_Validate 5 6 demo_cmp ?b ?t')" by code_simp
  then obtain k where k: "key_Validate 5 6 demo_cmp ?b ?t' = Ok k" using ok_result by blast
  have "ak_ID k \<noteq> ''k1''" by (rule revoked_key_never_validates [OF _ _ _ k]) simp_all
  ultimately show ?thesis using k unfolding Let_def by blast
qed

text \<open>
  Property C23. A created key authenticates with exactly the permissions it was granted: until it
  expires, its plain text validates as the key, when no older key has its prefix, no permission
  contains a quote, and the hash function accepts the password it hashed.
\<close>

theorem created_key_authenticates:
  assumes "\<And>p h. hash p = Some h \<Longrightarrow> cmp h p"
    and "key_Create now uuid (Some bytes) hash name perms e t = (Ok (k, plain), t')"
    and "length bytes = 32" and "tbl_count (\<lambda>r. ak_KeyPrefix r = ak_KeyPrefix k) t = 0"
    and "\<And>p. p \<in> set perms \<Longrightarrow> quote \<notin> set p \<and> utf8_valid p"
    and "\<And>x. e = Some x \<Longrightarrow> t1 \<le> x"
  shows "key_Validate t1 t2 cmp plain t' = Ok (k\<lparr>ak_LastUsedAt := Some t2\<rparr>) \<and>
    (\<forall>perm. HasPermission (Some k) perm \<longleftrightarrow> PermAdmin \<in> set perms \<or> perm \<in> set perms)"
proof -
  have p: "ak_Permissions k = perms" by (rule key_Create_stored(8) [OF assms(2)])
  then have "k\<lparr>ak_Permissions := jsonToPermissions (permissionsToJSON perms)\<rparr> = k"
    using permissions_round_trip [OF assms(5)] by simp
  then show ?thesis
    using created_key_validates [OF assms(1,2,3,4,6)] p by (auto simp: HasPermission_def list_ex_iff)
qed

lemma created_key_authenticates_witness:
  "\<exists>k plain t'. demo_key [''fleet:read'', ''workspace:w1''] = (Ok (k, plain), t') \<and>
     key_Validate 9 10 demo_cmp plain t' = Ok (k\<lparr>ak_LastUsedAt := Some 10\<rparr>) \<and>
     HasPermission (Some k) ''fleet:read'' \<and> \<not> HasPermission (Some k) ''fleet:write''"
proof -
  let ?perms = "[''fleet:read'', ''workspace:w1'']"
  have "\<not> isl (fst (demo_key ?perms))" by code_simp
  then obtain k plain t' where d: "demo_key ?perms = (Ok (k, plain), t')"
    using ok_result by (metis prod.collapse)
  have valid: "utf8_valid ''fleet:read''" "utf8_valid ''workspace:w1''" by code_simp+
  have "key_Validate 9 10 demo_cmp plain t' = Ok (k\<lparr>ak_LastUsedAt := Some 10\<rparr>) \<and>
    (\<forall>perm. HasPermission (Some k) perm \<longleftrightarrow> PermAdmin \<in> set ?perms \<or> perm \<in> set ?perms)"
    by (rule created_key_authenticates [OF _ d [unfolded demo_key_def]])
       (use valid in \<open>auto simp: demo_hash_def demo_cmp_def tbl_count_0\<close>)
  then show ?thesis using d by auto
qed

text \<open>
  The text of the permissions does not escape quotes: a key that is created with one
  permission of the form \<open>p","admin\<close>, and reported as having that one, authenticates with the
  permissions \<open>p\<close> and \<open>admin\<close> and may do everything.
\<close>

lemma quoted_permission_grants_admin:
  assumes "\<And>p h. hash p = Some h \<Longrightarrow> cmp h p"
    and "key_Create now uuid (Some bytes) hash name [p @ [quote] @ '','' @ [quote] @ PermAdmin] e t = (Ok (k, plain), t')"
    and "length bytes = 32" and "tbl_count (\<lambda>r. ak_KeyPrefix r = ak_KeyPrefix k) t = 0"
    and "quote \<notin> set p" and "utf8_valid p" and "\<And>x. e = Some x \<Longrightarrow> t1 \<le> x"
  shows "ak_Permissions k = [p @ [quote] @ '','' @ [quote] @ PermAdmin] \<and>
    (\<exists>k'. key_Validate t1 t2 cmp plain t' = Ok k' \<and> ak_Permissions k' = [p, PermAdmin] \<and>
          (\<forall>perm. HasPermission (Some k') perm))"
proof -
  have "permissionsToJSON [p @ [quote] @ '','' @ [quote] @ PermAdmin] = permissionsToJSON [p, PermAdmin]"
    by (simp add: permissionsToJSON_def)
  moreover have "utf8_valid PermAdmin" by code_simp
  then have "jsonToPermissions (permissionsToJSON [p, PermAdmin]) = [p, PermAdmin]"
    using assms(5,6) by (intro permissions_round_trip) auto
  ultimately show ?thesis
    using created_key_validates [OF assms(1,2,3,4,7)] key_Create_stored(8) [OF assms(2)]
    by (simp add: HasPermission_def)
qed

lemma quoted_permission_grants_admin_witness:
  "\<exists>k plain t' k'. demo_key [''audit:read'' @ [quote] @ '','' @ [quote] @ PermAdmin] = (Ok (k, plain), t') \<and>
     \<not> HasPermission (Some k) ''fleet:write'' \<and>
     key_Validate 9 10 demo_cmp plain t' = Ok k' \<and> HasPermission (Some k') ''fleet:write''"
proof -
  let ?perms = "[''audit:read'' @ [quote] @ '','' @ [quote] @ PermAdmin]"
  have "\<not> isl (fst (demo_key ?perms))" by code_simp
  then obtain k plain t' where d: "demo_key ?perms = (Ok (k, plain), t')"
    using ok_result by (metis prod.collapse)
  have valid: "utf8_valid ''audit:read''" by code_simp
  have "ak_Permissions k = ?perms \<and>
    (\<exists>k'. key_Validate 9 10 demo_cmp plain t' = Ok k' \<and> ak_Permissions k' = [''audit:read'', PermAdmin] \<and>
          (\<forall>perm. HasPermission (Some k') perm))"
    by (rule quoted_permission_grants_admin [OF _ d [unfolded demo_key_def]])
       (use valid in \<open>auto simp: demo_hash_def demo_cmp_def tbl_count_0\<close>)
  then show ?thesis using d by (auto simp: HasPermission_def)
qed



end
