(* ===== verification/Accounts.thy ===== *)
theory Accounts
  imports Access_Keys
begin

text \<open>
  Sessions (\<^verbatim>\<open>session/store.go\<close>), user accounts (\<^verbatim>\<open>users/store.go\<close>), the adapters through which the
  authentication reads them (\<^verbatim>\<open>server/useradapter.go\<close>) and the handlers that change accounts and roles
  (\<^verbatim>\<open>server/routes.go\<close>, \<^verbatim>\<open>server/roles_handler.go\<close>). Each database is a table of rows; a statement is
  one step. The interfaces of \<^verbatim>\<open>auth/interfaces.go\<close> for sessions are the locale \<open>session_interface\<close>.
\<close>

section \<open>Sessions\<close>

record Session =
  se_ID :: string
  se_UserID :: string
  se_CreatedAt :: time
  se_ExpiresAt :: time
  se_LastActive :: time

type_synonym login_table = "Session list"

datatype session_error =
    TokenNotGenerated
  | SessionNotCreated
  | ErrSessionNotFound
  | ErrSessionExpired
  | SessionUserNotFound
  | SessionUserDisabled

definition session_lifetime :: "duration \<Rightarrow> duration" where
  "session_lifetime d = (if d \<le> 0 then 24 * Hour else d)"

definition generateToken :: "string option \<Rightarrow> session_error + string" where
  "generateToken raw = (case raw of None \<Rightarrow> Err TokenNotGenerated | Some bytes \<Rightarrow> Ok (hex_EncodeToString bytes))"

definition sess_Create ::
  "time \<Rightarrow> duration \<Rightarrow> string option \<Rightarrow> string \<Rightarrow> login_table \<Rightarrow> (session_error + Session) \<times> login_table" where
  "sess_Create now lifetime raw userID t =
     (case generateToken raw of
        Err e \<Rightarrow> (Err e, t)
      | Ok token \<Rightarrow>
          let sess = \<lparr>se_ID = token, se_UserID = userID, se_CreatedAt = now, se_ExpiresAt = now + lifetime,
                      se_LastActive = now\<rparr> in
          if tbl_count (\<lambda>r. se_ID r = token) t > 0 then (Err SessionNotCreated, t) else (Ok sess, t @ [sess]))"

definition sess_get :: "string \<Rightarrow> login_table \<Rightarrow> session_error + Session" where
  "sess_get token t = (case tbl_first (\<lambda>r. se_ID r = token) t of None \<Rightarrow> Err ErrSessionNotFound | Some s \<Rightarrow> Ok s)"

definition sess_Delete :: "string \<Rightarrow> login_table \<Rightarrow> login_table" where
  "sess_Delete token t = tbl_delete (\<lambda>r. se_ID r = token) t"

definition sess_Validate :: "time \<Rightarrow> string \<Rightarrow> login_table \<Rightarrow> (session_error + Session) \<times> login_table" where
  "sess_Validate now token t =
     (case sess_get token t of
        Err e \<Rightarrow> (Err e, t)
      | Ok sess \<Rightarrow>
          if now > se_ExpiresAt sess then (Err ErrSessionExpired, sess_Delete token t)
          else (Ok (sess\<lparr>se_LastActive := now\<rparr>),
                tbl_update (\<lambda>r. se_ID r = token) (\<lambda>r. r\<lparr>se_LastActive := now\<rparr>) t))"

definition DeleteByUser :: "string \<Rightarrow> login_table \<Rightarrow> login_table" where
  "DeleteByUser userID t = tbl_delete (\<lambda>r. se_UserID r = userID) t"

text \<open>The cleanup compares the texts of the two times.\<close>

definition Cleanup :: "time \<Rightarrow> login_table \<Rightarrow> nat \<times> login_table" where
  "Cleanup now t =
     (tbl_count (\<lambda>r. text_le (se_ExpiresAt r) now) t, tbl_delete (\<lambda>r. text_le (se_ExpiresAt r) now) t)"

section \<open>Users\<close>

record User =
  us_ID :: string
  us_Username :: string
  us_DisplayName :: string
  us_PasswordHash :: string
  us_Role :: string
  us_Enabled :: bool
  us_CreatedAt :: time
  us_LastLogin :: "time option"

type_synonym user_table = "User list"

datatype user_error =
    ErrUserNotFound
  | ErrInvalidRole
  | ErrInvalidCredentials
  | ErrUserDisabled
  | ErrUsernameAlreadyUsed
  | UsernameRequired
  | PasswordNotHashed
  | UserNotStored

definition validRole :: "string \<Rightarrow> bool" where
  "validRole role \<longleftrightarrow> trim_space role \<noteq> []"

definition CreateWithID ::
  "time \<Rightarrow> string \<Rightarrow> (string \<Rightarrow> string option) \<Rightarrow> string \<Rightarrow> string \<Rightarrow> string \<Rightarrow> string \<Rightarrow> string \<Rightarrow> user_table \<Rightarrow>
   (user_error + User) \<times> user_table" where
  "CreateWithID now uuid hash uid rawName displayName password role t =
     (let username = trim_space rawName; uid' = (if uid = [] then uuid else uid) in
      if \<not> validRole role then (Err ErrInvalidRole, t)
      else if username = [] then (Err UsernameRequired, t)
      else (case hash password of
              None \<Rightarrow> (Err PasswordNotHashed, t)
            | Some h \<Rightarrow>
                let u = \<lparr>us_ID = uid', us_Username = username, us_DisplayName = displayName, us_PasswordHash = h,
                         us_Role = role, us_Enabled = True, us_CreatedAt = now, us_LastLogin = None\<rparr> in
                if tbl_count (\<lambda>r. us_ID r = uid') t > 0 then (Err UserNotStored, t)
                else if tbl_count (\<lambda>r. us_Username r = username) t > 0 then (Err ErrUsernameAlreadyUsed, t)
                else (Ok u, t @ [u])))"

definition user_Create ::
  "time \<Rightarrow> string \<Rightarrow> string \<Rightarrow> (string \<Rightarrow> string option) \<Rightarrow> string \<Rightarrow> string \<Rightarrow> string \<Rightarrow> string \<Rightarrow> user_table \<Rightarrow>
   (user_error + User) \<times> user_table" where
  "user_Create now uuid1 uuid2 hash username displayName password role t =
     CreateWithID now uuid2 hash uuid1 username displayName password role t"

definition user_Get :: "string \<Rightarrow> user_table \<Rightarrow> user_error + User" where
  "user_Get uid t = (case tbl_first (\<lambda>r. us_ID r = uid) t of None \<Rightarrow> Err ErrUserNotFound | Some u \<Rightarrow> Ok u)"

definition GetByUsername :: "string \<Rightarrow> user_table \<Rightarrow> user_error + User" where
  "GetByUsername name t =
     (case tbl_first (\<lambda>r. us_Username r = name) t of None \<Rightarrow> Err ErrUserNotFound | Some u \<Rightarrow> Ok u)"

definition user_List :: "user_table \<Rightarrow> User list" where
  "user_List t = sort_by (\<lambda>r s. text_le (us_CreatedAt r) (us_CreatedAt s)) t"

text \<open>An update of the row of a user, with the error when there is none.\<close>

definition update_user :: "string \<Rightarrow> (User \<Rightarrow> User) \<Rightarrow> user_table \<Rightarrow> user_error option \<times> user_table" where
  "update_user uid f t =
     (if tbl_count (\<lambda>r. us_ID r = uid) t = 0 then (Some ErrUserNotFound, t)
      else (None, tbl_update (\<lambda>r. us_ID r = uid) f t))"

definition UpdatePassword ::
  "(string \<Rightarrow> string option) \<Rightarrow> string \<Rightarrow> string \<Rightarrow> user_table \<Rightarrow> user_error option \<times> user_table" where
  "UpdatePassword hash uid newPassword t =
     (case hash newPassword of
        None \<Rightarrow> (Some PasswordNotHashed, t)
      | Some h \<Rightarrow> update_user uid (\<lambda>r. r\<lparr>us_PasswordHash := h\<rparr>) t)"

definition UpdateRole :: "string \<Rightarrow> string \<Rightarrow> user_table \<Rightarrow> user_error option \<times> user_table" where
  "UpdateRole uid rawRole t =
     (let role = trim_space rawRole in
      if role = [] then (Some ErrInvalidRole, t) else update_user uid (\<lambda>r. r\<lparr>us_Role := role\<rparr>) t)"

definition UpdateProfile :: "string \<Rightarrow> string \<Rightarrow> string \<Rightarrow> user_table \<Rightarrow> user_error option \<times> user_table" where
  "UpdateProfile uid rawName displayName t =
     (let username = trim_space rawName in
      if username = [] then (Some UsernameRequired, t)
      else if tbl_count (\<lambda>r. us_ID r = uid) t > 0 \<and> tbl_count (\<lambda>r. us_Username r = username \<and> us_ID r \<noteq> uid) t > 0
      then (Some ErrUsernameAlreadyUsed, t)
      else update_user uid (\<lambda>r. r\<lparr>us_Username := username, us_DisplayName := displayName\<rparr>) t)"

definition SetEnabled :: "string \<Rightarrow> bool \<Rightarrow> user_table \<Rightarrow> user_error option \<times> user_table" where
  "SetEnabled uid enabled t = update_user uid (\<lambda>r. r\<lparr>us_Enabled := enabled\<rparr>) t"

definition user_Delete :: "string \<Rightarrow> user_table \<Rightarrow> user_error option \<times> user_table" where
  "user_Delete uid t =
     (if tbl_count (\<lambda>r. us_ID r = uid) t = 0 then (Some ErrUserNotFound, t)
      else (None, tbl_delete (\<lambda>r. us_ID r = uid) t))"

definition Authenticate ::
  "time \<Rightarrow> (string \<Rightarrow> string \<Rightarrow> bool) \<Rightarrow> string \<Rightarrow> string \<Rightarrow> user_table \<Rightarrow> (user_error + User) \<times> user_table" where
  "Authenticate now cmp username password t =
     (case GetByUsername username t of
        Err e \<Rightarrow> (Err (if e = ErrUserNotFound then ErrInvalidCredentials else e), t)
      | Ok u \<Rightarrow>
          if \<not> us_Enabled u then (Err ErrUserDisabled, t)
          else if \<not> cmp (us_PasswordHash u) password then (Err ErrInvalidCredentials, t)
          else (Ok (u\<lparr>us_LastLogin := Some now\<rparr>),
                tbl_update (\<lambda>r. us_ID r = us_ID u) (\<lambda>r. r\<lparr>us_LastLogin := Some now\<rparr>) t))"

section \<open>The adapters\<close>

text \<open>The two stores behind the session interface of the server, with the lifetime of sessions.\<close>

record accounts =
  ac_sessions :: login_table
  ac_users :: user_table
  ac_lifetime :: duration

record SessionInfo =
  si_Token :: string
  si_UserID :: string
  si_Username :: string
  si_Role :: string
  si_WorkspaceID :: string

definition adapter_Create :: "time \<Rightarrow> string option \<Rightarrow> string \<Rightarrow> accounts \<Rightarrow> (session_error + string) \<times> accounts" where
  "adapter_Create now raw userID a =
     (case sess_Create now (ac_lifetime a) raw userID (ac_sessions a) of
        (Err e, t) \<Rightarrow> (Err e, a\<lparr>ac_sessions := t\<rparr>)
      | (Ok sess, t) \<Rightarrow> (Ok (se_ID sess), a\<lparr>ac_sessions := t\<rparr>))"

definition adapter_Validate :: "time \<Rightarrow> string \<Rightarrow> accounts \<Rightarrow> (session_error + SessionInfo) \<times> accounts" where
  "adapter_Validate now token a =
     (case sess_Validate now token (ac_sessions a) of
        (Err e, t) \<Rightarrow> (Err e, a\<lparr>ac_sessions := t\<rparr>)
      | (Ok sess, t) \<Rightarrow>
          (case user_Get (se_UserID sess) (ac_users a) of
             Err e \<Rightarrow> (Err SessionUserNotFound, a\<lparr>ac_sessions := t\<rparr>)
           | Ok u \<Rightarrow>
               if \<not> us_Enabled u then (Err SessionUserDisabled, a\<lparr>ac_sessions := sess_Delete token t\<rparr>)
               else (Ok \<lparr>si_Token = se_ID sess, si_UserID = us_ID u, si_Username = us_Username u,
                         si_Role = us_Role u, si_WorkspaceID = []\<rparr>, a\<lparr>ac_sessions := t\<rparr>)))"

definition adapter_Delete :: "string \<Rightarrow> accounts \<Rightarrow> accounts" where
  "adapter_Delete token a = a\<lparr>ac_sessions := sess_Delete token (ac_sessions a)\<rparr>"

definition PermissionsForRole ::
  "(string \<Rightarrow> Permission list option) option \<Rightarrow> role_table option \<Rightarrow> string \<Rightarrow> Permission list" where
  "PermissionsForRole lookup customRoles role =
     (let perms = RolePermissions lookup role in
      if perms \<noteq> [] then perms
      else (case customRoles of
              None \<Rightarrow> []
            | Some t \<Rightarrow> (case GetPermissions t role of None \<Rightarrow> [] | Some custom \<Rightarrow> custom)))"

section \<open>The handlers on accounts and roles\<close>

text \<open>A refusal of the server: the status and the code or message of the reply.\<close>

datatype http_refusal = Refusal nat string

record user_body =
  ub_Username :: string
  ub_DisplayName :: string
  ub_Password :: string
  ub_Role :: string

definition handleCreateUser ::
  "time \<Rightarrow> string \<Rightarrow> string \<Rightarrow> (string \<Rightarrow> string option) \<Rightarrow> user_body option \<Rightarrow> user_table option \<Rightarrow>
   (http_refusal + User) \<times> user_table option" where
  "handleCreateUser now uuid1 uuid2 hash body store =
     (case store of
        None \<Rightarrow> (Err (Refusal 503 ''service_unavailable''), None)
      | Some t \<Rightarrow>
          (case body of
             None \<Rightarrow> (Err (Refusal 400 ''invalid_request''), Some t)
           | Some b \<Rightarrow>
               if ub_Username b = [] \<or> ub_Password b = [] \<or> ub_Role b = []
               then (Err (Refusal 400 ''invalid_request''), Some t)
               else (case user_Create now uuid1 uuid2 hash (ub_Username b) (ub_DisplayName b) (ub_Password b)
                            (ub_Role b) t of
                       (Err e, t') \<Rightarrow> (Err (Refusal 409 ''conflict''), Some t')
                     | (Ok u, t') \<Rightarrow> (Ok u, Some t'))))"

definition handleDeleteUser :: "string \<Rightarrow> user_table option \<Rightarrow> http_refusal option \<times> user_table option" where
  "handleDeleteUser uid store =
     (case store of
        None \<Rightarrow> (Some (Refusal 503 ''service_unavailable''), None)
      | Some t \<Rightarrow>
          if uid = [] then (Some (Refusal 400 ''invalid_request''), Some t)
          else (case user_Delete uid t of
                  (Some e, t') \<Rightarrow> (Some (Refusal 404 ''not_found''), Some t')
                | (None, t') \<Rightarrow> (None, Some t')))"

definition handlePutUserRole ::
  "string \<Rightarrow> string option \<Rightarrow> role_table option \<Rightarrow> user_table option \<Rightarrow> http_refusal option \<times> user_table option" where
  "handlePutUserRole uid body roles store =
     (case store of
        None \<Rightarrow> (Some (Refusal 503 ''service_unavailable''), None)
      | Some t \<Rightarrow>
          if uid = [] then (Some (Refusal 400 ''invalid_request''), Some t)
          else (case body of
                  None \<Rightarrow> (Some (Refusal 400 ''invalid_request''), Some t)
                | Some role \<Rightarrow>
                    if role = [] then (Some (Refusal 400 ''invalid_request''), Some t)
                    else if \<not> IsBuiltInRole role \<and>
                            (case roles of None \<Rightarrow> True | Some rt \<Rightarrow> isl (role_Get rt role))
                    then (Some (Refusal 400 ''invalid_request''), Some t)
                    else (case UpdateRole uid role t of
                            (Some ErrUserNotFound, t') \<Rightarrow> (Some (Refusal 404 ''not_found''), Some t')
                          | (Some e, t') \<Rightarrow> (Some (Refusal 500 ''internal_error''), Some t')
                          | (None, t') \<Rightarrow> (None, Some t'))))"

record role_body =
  rb_Name :: string
  rb_Permissions :: "string list"
  rb_Description :: string

definition handleCreateRole ::
  "time \<Rightarrow> role_body option \<Rightarrow> role_table option \<Rightarrow> (http_refusal + CustomRole) \<times> role_table option" where
  "handleCreateRole now body store =
     (case store of
        None \<Rightarrow> (Err (Refusal 503 ''service_unavailable''), None)
      | Some t \<Rightarrow>
          (case body of
             None \<Rightarrow> (Err (Refusal 400 ''invalid_request''), Some t)
           | Some b \<Rightarrow>
               if rb_Name b = [] then (Err (Refusal 400 ''invalid_request''), Some t)
               else (case role_Create now (rb_Name b) (rb_Permissions b) (rb_Description b) t of
                       (Err e, t') \<Rightarrow>
                         (Err (if e = ErrBuiltInRole \<or> e = ErrCustomRoleExists then Refusal 409 ''conflict''
                               else Refusal 500 ''internal_error''), Some t')
                     | (Ok cr, t') \<Rightarrow> (Ok cr, Some t'))))"

definition handleDeleteRole :: "string \<Rightarrow> role_table option \<Rightarrow> http_refusal option \<times> role_table option" where
  "handleDeleteRole name store =
     (case store of
        None \<Rightarrow> (Some (Refusal 503 ''service_unavailable''), None)
      | Some t \<Rightarrow>
          if name = [] then (Some (Refusal 400 ''invalid_request''), Some t)
          else (case role_Delete name t of
                  (Some ErrBuiltInRole, t') \<Rightarrow> (Some (Refusal 403 ''forbidden''), Some t')
                | (Some ErrCustomRoleNotFound, t') \<Rightarrow> (Some (Refusal 404 ''not_found''), Some t')
                | (Some e, t') \<Rightarrow> (Some (Refusal 500 ''internal_error''), Some t')
                | (None, t') \<Rightarrow> (None, Some t')))"

text \<open>The first start creates an administrator when there are no users; \<open>password\<close> is the generated one.\<close>

definition bootstrap_admin ::
  "time \<Rightarrow> string \<Rightarrow> string \<Rightarrow> (string \<Rightarrow> string option) \<Rightarrow> string \<Rightarrow> user_table \<Rightarrow> user_table" where
  "bootstrap_admin now uuid1 uuid2 hash password t =
     (if t = [] then snd (user_Create now uuid1 uuid2 hash ''admin'' ''Administrator'' password ''admin'' t) else t)"

definition acc_live :: "accounts \<Rightarrow> string \<Rightarrow> (string \<times> time) option" where
  "acc_live a tok = map_option (\<lambda>s. (se_UserID s, se_ExpiresAt s)) (tbl_first (\<lambda>r. se_ID r = tok) (ac_sessions a))"

definition acc_enabled :: "accounts \<Rightarrow> string \<Rightarrow> bool" where
  "acc_enabled a uid \<longleftrightarrow> (case user_Get uid (ac_users a) of Err _ \<Rightarrow> False | Ok u \<Rightarrow> us_Enabled u)"
text \<open>
  What happens to the stores of sessions and users, where no session is created under the token
  \<open>tok\<close>; the users may change in any way.
\<close>

inductive account_step :: "string \<Rightarrow> accounts \<Rightarrow> accounts \<Rightarrow> bool" for tok where
  Create: "fst (adapter_Create now raw u a) \<noteq> Ok tok \<Longrightarrow> account_step tok a (snd (adapter_Create now raw u a))"
| Validate: "account_step tok a (snd (adapter_Validate now tok' a))"
| Delete: "account_step tok a (adapter_Delete tok' a)"
| DeleteByUser: "account_step tok a (a\<lparr>ac_sessions := DeleteByUser u (ac_sessions a)\<rparr>)"
| Cleanup: "account_step tok a (a\<lparr>ac_sessions := snd (Cleanup now (ac_sessions a))\<rparr>)"
| Users: "account_step tok a (a\<lparr>ac_users := users\<rparr>)"

text \<open>The rows of users: unique identifiers, unique and trimmed names, roles that are not blank.\<close>

definition users_ok :: "user_table \<Rightarrow> bool" where
  "users_ok t \<longleftrightarrow> distinct (map us_ID t) \<and> distinct (map us_Username t) \<and>
     (\<forall>u \<in> set t. us_Username u \<noteq> [] \<and> trim_space (us_Username u) = us_Username u \<and> validRole (us_Role u))"
definition demo_accounts :: accounts where
  "demo_accounts =
     \<lparr>ac_sessions = [\<lparr>se_ID = ''t1'', se_UserID = ''u1'', se_CreatedAt = 0, se_ExpiresAt = 9 * Second, se_LastActive = 0\<rparr>],
      ac_users = [\<lparr>us_ID = ''u1'', us_Username = ''eve'', us_DisplayName = ''Eve'', us_PasswordHash = ''#pw'',
                   us_Role = ''operator'', us_Enabled = True, us_CreatedAt = 0, us_LastLogin = None\<rparr>],
      ac_lifetime = 24 * Hour\<rparr>"

section \<open>Lemmas\<close>

text \<open>
  The interfaces \<^verbatim>\<open>SessionCreator\<close>, \<^verbatim>\<open>SessionValidator\<close> and \<^verbatim>\<open>SessionDeleter\<close>. The abstract state is the map
  \<open>live\<close> from tokens to the user and the expiry of their session. A provider creates sessions under
  fresh tokens, validates a token exactly when it is live, not expired and of an enabled user, never
  brings a session back by validating, and removes one by deleting.
\<close>

locale session_interface =
  fixes create :: "time \<Rightarrow> string option \<Rightarrow> string \<Rightarrow> 's \<Rightarrow> ('e + string) \<times> 's"
    and validate :: "time \<Rightarrow> string \<Rightarrow> 's \<Rightarrow> ('e + 'i) \<times> 's"
    and delete :: "string \<Rightarrow> 's \<Rightarrow> 's"
    and live :: "'s \<Rightarrow> string \<Rightarrow> (string \<times> time) option"
    and enabled :: "'s \<Rightarrow> string \<Rightarrow> bool"
    and user_of :: "'i \<Rightarrow> string"
    and lifetime :: "'s \<Rightarrow> duration"
  assumes create_live: "create now raw u s = (Ok tok, s') \<Longrightarrow>
      live s tok = None \<and> live s' = (live s)(tok \<mapsto> (u, now + lifetime s))"
    and create_failed: "create now raw u s = (Err err, s') \<Longrightarrow> live s' = live s"
    and create_enabled: "enabled (snd (create now raw u s)) = enabled s"
    and validate_sound: "validate now tok s = (Ok i, s') \<Longrightarrow>
      enabled s (user_of i) \<and> (\<exists>e. live s tok = Some (user_of i, e) \<and> now \<le> e)"
    and validate_complete: "live s tok = Some (u, e) \<Longrightarrow> now \<le> e \<Longrightarrow> enabled s u \<Longrightarrow>
      \<exists>i. fst (validate now tok s) = Ok i \<and> user_of i = u"
    and validate_live: "live (snd (validate now tok s)) \<subseteq>\<^sub>m live s"
    and delete_live: "live (delete tok s) = (live s)(tok := None)"
begin

inductive session_step :: "string \<Rightarrow> 's \<Rightarrow> 's \<Rightarrow> bool" for tok where
  Create: "fst (create now raw u s) \<noteq> Ok tok \<Longrightarrow> session_step tok s (snd (create now raw u s))"
| Validate: "session_step tok s (snd (validate now tok' s))"
| Delete: "session_step tok s (delete tok' s)"
| Shrink: "dom (live s') \<subseteq> dom (live s) \<Longrightarrow> session_step tok s s'"

lemma dead_step: "session_step tok s s' \<Longrightarrow> live s tok = None \<Longrightarrow> live s' tok = None"
proof (induction rule: session_step.induct)
  case (Create now raw u s)
  obtain r s' where c: "create now raw u s = (r, s')" by fastforce
  with Create show ?case by (cases r) (auto dest: create_live create_failed)
qed (use validate_live in \<open>auto simp: delete_live dest!: map_le_implies_dom_le\<close>)

lemma dead_steps: "(session_step tok)\<^sup>*\<^sup>* s s' \<Longrightarrow> live s tok = None \<Longrightarrow> live s' tok = None"
  by (induction rule: rtranclp_induct) (auto dest: dead_step)

lemma deleted_token_is_dead:
  assumes "(session_step tok)\<^sup>*\<^sup>* (delete tok s) s'"
  shows "isl (fst (validate now tok s'))"
proof (rule ccontr)
  assume "\<not> isl (fst (validate now tok s'))"
  then obtain i s'' where "validate now tok s' = (Ok i, s'')" by (metis ok_result prod.collapse)
  moreover have "live s' tok = None" using dead_steps [OF assms] by (simp add: delete_live)
  ultimately show False by (auto dest: validate_sound)
qed

lemma created_token_validates:
  assumes "create now raw u s = (Ok tok, s')" and "now' \<le> now + lifetime s" and "enabled s u"
  shows "\<exists>i. fst (validate now' tok s') = Ok i \<and> user_of i = u"
  using create_live [OF assms(1)] create_enabled [of now raw u s] assms
  by (intro validate_complete) auto

end

lemma live_delete: "tbl_first (\<lambda>r. se_ID r = tok) (tbl_delete (\<lambda>r. se_ID r = tok') t) =
    (if tok = tok' then None else tbl_first (\<lambda>r. se_ID r = tok) t)"
  by (induction t) (auto simp: tbl_first_def tbl_delete_def)

lemma live_touch: "map_option (\<lambda>s. (se_UserID s, se_ExpiresAt s))
    (tbl_first (\<lambda>r. se_ID r = tok) (tbl_update (\<lambda>r. se_ID r = tok') (\<lambda>r. r\<lparr>se_LastActive := now\<rparr>) t)) =
    map_option (\<lambda>s. (se_UserID s, se_ExpiresAt s)) (tbl_first (\<lambda>r. se_ID r = tok) t)"
  by (induction t) (auto simp: tbl_first_def tbl_update_def)

lemma adapter_Delete_live: "acc_live (adapter_Delete tok a) = (acc_live a)(tok := None)"
  by (auto simp: acc_live_def adapter_Delete_def sess_Delete_def live_delete)

lemma adapter_Create_live:
  "adapter_Create now raw u a = (Ok tok, a') \<Longrightarrow>
   acc_live a tok = None \<and> acc_live a' = (acc_live a)(tok \<mapsto> (u, now + ac_lifetime a))"
  by (auto simp: adapter_Create_def sess_Create_def acc_live_def tbl_first_append tbl_count_0 tbl_first_None Let_def
      split: sum.splits prod.splits option.splits if_splits intro!: ext dest!: tbl_firstD)

lemma adapter_Create_failed: "adapter_Create now raw u a = (Err e, a') \<Longrightarrow> acc_live a' = acc_live a"
  by (auto simp: adapter_Create_def sess_Create_def acc_live_def Let_def
      split: sum.splits prod.splits if_splits)

lemma adapter_keeps_users [simp]:
  "ac_users (snd (adapter_Create now raw u a)) = ac_users a" "ac_users (snd (adapter_Validate now tok a)) = ac_users a"
  "ac_users (adapter_Delete tok a) = ac_users a"
  by (auto simp: adapter_Create_def adapter_Validate_def adapter_Delete_def split: sum.splits prod.splits)

lemma adapter_Validate_live: "acc_live (snd (adapter_Validate now tok a)) \<subseteq>\<^sub>m acc_live a"
  by (auto simp: adapter_Validate_def sess_Validate_def sess_Delete_def acc_live_def map_le_def dom_def
      live_delete live_touch split: sum.splits if_splits)

lemma user_Get_ID: "user_Get uid t = Ok u \<Longrightarrow> us_ID u = uid"
  by (auto simp: user_Get_def split: option.splits dest!: tbl_firstD)

lemma adapter_Validate_Ok:
  assumes "adapter_Validate now tok a = (Ok i, a')"
  shows "\<exists>sess u. tbl_first (\<lambda>r. se_ID r = tok) (ac_sessions a) = Some sess \<and> now \<le> se_ExpiresAt sess \<and>
    user_Get (se_UserID sess) (ac_users a) = Ok u \<and> us_Enabled u \<and> us_ID u = se_UserID sess \<and>
    i = \<lparr>si_Token = tok, si_UserID = us_ID u, si_Username = us_Username u, si_Role = us_Role u, si_WorkspaceID = []\<rparr>"
  using assms
  by (auto simp: adapter_Validate_def sess_Validate_def sess_get_def
      split: sum.splits prod.splits option.splits if_splits dest: user_Get_ID tbl_firstD)

lemma adapter_Validate_sound:
  assumes "adapter_Validate now tok a = (Ok i, a')"
  shows "acc_enabled a (si_UserID i) \<and> (\<exists>e. acc_live a tok = Some (si_UserID i, e) \<and> now \<le> e)"
  using adapter_Validate_Ok [OF assms] by (auto simp: acc_enabled_def acc_live_def)

lemma adapter_Validate_complete:
  "acc_live a tok = Some (u, e) \<Longrightarrow> now \<le> e \<Longrightarrow> acc_enabled a u \<Longrightarrow>
   \<exists>i. fst (adapter_Validate now tok a) = Ok i \<and> si_UserID i = u"
  by (auto simp: adapter_Validate_def sess_Validate_def sess_get_def acc_enabled_def acc_live_def
      split: sum.splits prod.splits option.splits if_splits dest: user_Get_ID)

interpretation acc: session_interface adapter_Create adapter_Validate adapter_Delete acc_live acc_enabled
  si_UserID ac_lifetime
proof unfold_locales
  show "acc_enabled (snd (adapter_Create now raw u s)) = acc_enabled s" for now raw u s
    by (simp add: acc_enabled_def [abs_def])
qed (rule adapter_Create_live adapter_Create_failed adapter_Validate_sound adapter_Validate_complete
      adapter_Validate_live adapter_Delete_live; assumption)+

lemma live_filtered: "dom (acc_live (a\<lparr>ac_sessions := tbl_delete P (ac_sessions a)\<rparr>)) \<subseteq> dom (acc_live a)"
proof
  fix tok assume "tok \<in> dom (acc_live (a\<lparr>ac_sessions := tbl_delete P (ac_sessions a)\<rparr>))"
  then obtain r where "r \<in> set (ac_sessions a)" "se_ID r = tok"
    by (auto simp: acc_live_def tbl_delete_def dest!: tbl_firstD)
  then show "tok \<in> dom (acc_live a)"
    by (cases "tbl_first (\<lambda>r. se_ID r = tok) (ac_sessions a)") (auto simp: acc_live_def tbl_first_None)
qed

lemma account_session_step: "account_step tok a a' \<Longrightarrow> acc.session_step tok a a'"
proof (induction rule: account_step.induct)
  case (DeleteByUser a u)
  show ?case unfolding DeleteByUser_def by (rule acc.session_step.Shrink) (rule live_filtered)
next
  case (Cleanup a now)
  show ?case unfolding Cleanup_def snd_conv by (rule acc.session_step.Shrink) (rule live_filtered)
next
  case (Users a users)
  show ?case by (rule acc.session_step.Shrink) (simp add: acc_live_def [abs_def])
qed (auto intro: acc.session_step.intros)

lemma account_session_steps: "(account_step tok)\<^sup>*\<^sup>* a a' \<Longrightarrow> (acc.session_step tok)\<^sup>*\<^sup>* a a'"
  by (induction rule: rtranclp_induct) (auto intro: rtranclp.rtrancl_into_rtrancl account_session_step)

text \<open>Every operation on users keeps the invariant of their rows.\<close>

lemma users_ok_update:
  assumes "users_ok t" and "\<And>r. us_ID (f r) = us_ID r" and "\<And>r. us_Username (f r) = us_Username r"
    and "\<And>r. validRole (us_Role r) \<Longrightarrow> validRole (us_Role (f r))"
  shows "users_ok (tbl_update P f t)"
proof -
  have "map us_ID (tbl_update P f t) = map us_ID t" "map us_Username (tbl_update P f t) = map us_Username t"
    using assms(2,3) by (auto simp: tbl_update_def)
  moreover have "us_Username u \<noteq> [] \<and> trim_space (us_Username u) = us_Username u \<and> validRole (us_Role u)"
    if "u \<in> set (tbl_update P f t)" for u
    using that assms by (auto simp: tbl_update_def users_ok_def)
  ultimately show ?thesis using assms(1) by (simp add: users_ok_def)
qed

lemma users_ok_delete: "users_ok t \<Longrightarrow> users_ok (tbl_delete P t)"
  by (auto simp: users_ok_def tbl_delete_def distinct_map_filter)

lemma users_ok_create: "users_ok t \<Longrightarrow> users_ok (snd (CreateWithID now uuid hash uid name disp pw role t))"
  by (auto simp: CreateWithID_def Let_def users_ok_def tbl_count_0 split: option.splits)

lemma profile_names_distinct:
  assumes "distinct (map us_ID t)" and "distinct (map us_Username t)"
    and "\<And>r. r \<in> set t \<Longrightarrow> us_ID r \<noteq> uid \<Longrightarrow> us_Username r \<noteq> name"
  shows "distinct (map us_Username (tbl_update (\<lambda>r. us_ID r = uid)
           (\<lambda>r. r\<lparr>us_Username := name, us_DisplayName := disp\<rparr>) t))"
  using assms
proof (induction t)
  case (Cons a t)
  let ?f = "\<lambda>r. r\<lparr>us_Username := name, us_DisplayName := disp\<rparr>"
  have cons: "tbl_update (\<lambda>r. us_ID r = uid) ?f (a # t) =
      (if us_ID a = uid then ?f a else a) # tbl_update (\<lambda>r. us_ID r = uid) ?f t"
    by (simp add: tbl_update_def)
  show ?case
  proof (cases "us_ID a = uid")
    case True
    then have others: "us_ID r \<noteq> uid" if "r \<in> set t" for r using Cons.prems(1) imageI [OF that, of us_ID] by auto
    then have "tbl_update (\<lambda>r. us_ID r = uid) ?f t = t" by (intro tbl_update_none) (simp add: tbl_count_0)
    moreover have "name \<notin> us_Username ` set t"
      using Cons.prems(3) others by auto
    ultimately show ?thesis using Cons.prems(2) True by (simp add: tbl_update_def)
  next
    case False
    moreover have "us_Username a \<notin> us_Username ` set (tbl_update (\<lambda>r. us_ID r = uid) ?f t)"
      using Cons.prems(2) Cons.prems(3) [of a] False by (auto simp: tbl_update_def)
    moreover have "distinct (map us_Username (tbl_update (\<lambda>r. us_ID r = uid) ?f t))"
      using Cons.prems by (intro Cons.IH) auto
    ultimately show ?thesis using cons by simp
  qed
qed (simp add: tbl_update_def)

lemma users_ok_profile:
  assumes "users_ok t"
  shows "users_ok (snd (UpdateProfile uid name disp t))"
proof -
  let ?t = "tbl_update (\<lambda>r. us_ID r = uid) (\<lambda>r. r\<lparr>us_Username := trim_space name, us_DisplayName := disp\<rparr>) t"
  have "users_ok ?t"
    if "trim_space name \<noteq> []" "\<And>r. r \<in> set t \<Longrightarrow> us_ID r \<noteq> uid \<Longrightarrow> us_Username r \<noteq> trim_space name"
  proof -
    have "map us_ID ?t = map us_ID t" by (auto simp: tbl_update_def)
    moreover have "distinct (map us_Username ?t)"
      using assms that by (intro profile_names_distinct) (auto simp: users_ok_def)
    moreover have "us_Username u \<noteq> [] \<and> trim_space (us_Username u) = us_Username u \<and> validRole (us_Role u)"
      if "u \<in> set ?t" for u
      using that assms \<open>trim_space name \<noteq> []\<close> by (auto simp: tbl_update_def users_ok_def)
    ultimately show ?thesis using assms by (simp add: users_ok_def)
  qed
  then show ?thesis
    using assms by (auto simp: UpdateProfile_def update_user_def Let_def tbl_count_0)
qed

lemma users_ok_steps:
  assumes "users_ok t"
  shows "users_ok (snd (user_Create now uuid uuid2 hash name disp pw role t))"
    and "users_ok (snd (UpdatePassword hash uid pw t))" and "users_ok (snd (UpdateRole uid role t))"
    and "users_ok (snd (SetEnabled uid en t))" and "users_ok (snd (user_Delete uid t))"
    and "users_ok (snd (Authenticate now cmp name pw t))"
  using assms
  by (auto simp: user_Create_def UpdatePassword_def UpdateRole_def SetEnabled_def user_Delete_def update_user_def
      Authenticate_def Let_def validRole_def intro!: users_ok_create users_ok_update users_ok_delete
      split: option.splits sum.splits)

lemma bootstrap_gives_admin:
  assumes "hash password = Some h" and "uuid1 \<noteq> []"
  shows "\<exists>u. GetByUsername ''admin'' (bootstrap_admin now uuid1 uuid2 hash password []) = Ok u \<and>
    us_Role u = ''admin'' \<and> us_Enabled u \<and> PermissionsForRole lookup roles (us_Role u) = [PermAdmin]"
proof -
  have "trim_space ''admin'' = ''admin''" by code_simp
  then show ?thesis
    using assms
    by (simp add: bootstrap_admin_def user_Create_def CreateWithID_def validRole_def Let_def GetByUsername_def
        tbl_first_def tbl_count_0 PermissionsForRole_def RolePermissions_def)
qed

section \<open>Properties\<close>

text \<open>
  Property C19. A session that was deleted, at logout or because its user is disabled, never
  authenticates again, whatever is done to sessions and users afterwards, as long as no session is
  created under the same random token.
\<close>

theorem logged_out_token_is_dead:
  assumes "(account_step tok)\<^sup>*\<^sup>* (adapter_Delete tok a) a'"
  shows "isl (fst (adapter_Validate now tok a'))"
  using account_session_steps [OF assms] by (rule acc.deleted_token_is_dead)

lemma logged_out_token_is_dead_witness:
  "\<not> isl (fst (adapter_Validate Second ''t1'' demo_accounts)) \<and>
   (let a = snd (adapter_Create 2 (Some ''x'') ''u1'' (adapter_Delete ''t1'' demo_accounts))
    in isl (fst (adapter_Validate Second ''t1'' a)) \<and> acc_live a ''78'' \<noteq> None)"
proof -
  let ?b = "adapter_Delete ''t1'' demo_accounts"
  let ?a = "snd (adapter_Create 2 (Some ''x'') ''u1'' ?b)"
  have "fst (adapter_Create 2 (Some ''x'') ''u1'' ?b) = Ok ''78''" by code_simp
  then have "(account_step ''t1'')\<^sup>*\<^sup>* ?b ?a" by (intro r_into_rtranclp account_step.Create) simp
  then have "isl (fst (adapter_Validate Second ''t1'' ?a))" by (rule logged_out_token_is_dead)
  moreover have "acc_live ?a ''78'' \<noteq> None" by code_simp
  moreover have "\<not> isl (fst (adapter_Validate Second ''t1'' demo_accounts))" by code_simp
  ultimately show ?thesis by (simp add: Let_def)
qed

end
