(* ===== verification/Access_Control.thy ===== *)
theory Access_Control
  imports Accounts Approval_Policy Audit_Chain
begin

text \<open>
  The authentication middleware and the guards of the server: \<^verbatim>\<open>auth/middleware.go\<close>, \<^verbatim>\<open>auth/login.go\<close>,
  the workspace scopes of \<^verbatim>\<open>auth/context.go\<close> and \<^verbatim>\<open>auth/workspace_scope.go\<close>, their use in
  \<^verbatim>\<open>server/workspace_isolation.go\<close> and \<^verbatim>\<open>server/routes.go\<close>, and the handlers of approvals behind them.
  A handler is a function from the context of a request and the server to its reply and the server
  after it; the middleware takes the handler it protects as an argument, as in the code. A request
  is given by its method, its path, the authorization header (empty when there is none) and the
  value of the session cookie.
\<close>

section \<open>Contexts and scopes\<close>

record AuthenticatedUser =
  au_ID :: string
  au_Username :: string
  au_DisplayName :: string
  au_Role :: string
  au_SessionID :: string
  au_WorkspaceID :: string
  au_Permissions :: "Permission list"

record WorkspaceScope =
  sc_WorkspaceID :: string
  sc_Restricted :: bool
  sc_Authenticated :: bool

record auth_context =
  cx_Key :: "APIKey option"
  cx_User :: "AuthenticatedUser option"
  cx_Scope :: "WorkspaceScope option"

abbreviation background :: auth_context where
  "background \<equiv> \<lparr>cx_Key = None, cx_User = None, cx_Scope = None\<rparr>"

definition IsAuthenticated :: "auth_context \<Rightarrow> bool" where
  "IsAuthenticated ctx \<longleftrightarrow> cx_Key ctx \<noteq> None \<or> cx_User ctx \<noteq> None"

definition HasPermissionFromContext :: "auth_context \<Rightarrow> Permission \<Rightarrow> bool" where
  "HasPermissionFromContext ctx perm \<longleftrightarrow>
     (case cx_Key ctx of
        Some key \<Rightarrow> HasPermission (Some key) perm
      | None \<Rightarrow>
          (case cx_User ctx of
             None \<Rightarrow> False
           | Some user \<Rightarrow> list_ex (\<lambda>p. p = PermAdmin \<or> p = perm) (au_Permissions user)))"

datatype scope_error = ErrWorkspaceScopeMissing | ErrWorkspaceScopeAmbiguous

abbreviation workspaceGrantPrefix :: string where "workspaceGrantPrefix \<equiv> ''workspace:''"

text \<open>The loop of \<^verbatim>\<open>WorkspaceIDFromPermissions\<close>; \<open>ids\<close> are the workspaces seen so far.\<close>

fun workspace_grants :: "string list \<Rightarrow> Permission list \<Rightarrow> scope_error + string" where
  "workspace_grants ids [] =
     (if ids = [] then Err ErrWorkspaceScopeMissing
      else if length ids > 1 then Err ErrWorkspaceScopeAmbiguous
      else Ok (hd ids))"
| "workspace_grants ids (perm # perms) =
     (let raw = trim_space perm; val = trim_space (drop 10 raw) in
      if raw = [] then workspace_grants ids perms
      else if equal_fold raw PermAdmin then Ok ''*''
      else if \<not> has_prefix (to_lower raw) workspaceGrantPrefix then workspace_grants ids perms
      else if val = [] then workspace_grants ids perms
      else if val = ''*'' then Ok ''*''
      else workspace_grants (List.insert (to_lower val) ids) perms)"

definition WorkspaceIDFromPermissions :: "Permission list \<Rightarrow> scope_error + string" where
  "WorkspaceIDFromPermissions perms =
     (if perms = [] then Err ErrWorkspaceScopeMissing else workspace_grants [] perms)"

definition WorkspaceIDFromContext :: "auth_context \<Rightarrow> scope_error + string" where
  "WorkspaceIDFromContext ctx =
     (case cx_Key ctx of
        Some key \<Rightarrow> WorkspaceIDFromPermissions (ak_Permissions key)
      | None \<Rightarrow>
          (case cx_User ctx of
             Some user \<Rightarrow> WorkspaceIDFromPermissions (au_Permissions user)
           | None \<Rightarrow> Err ErrWorkspaceScopeMissing))"

text \<open>The loop of \<^verbatim>\<open>workspaceClaimsFromPermissions\<close>, with the identifiers found so far.\<close>

fun workspaceClaims :: "string list \<Rightarrow> Permission list \<Rightarrow> string list \<times> bool" where
  "workspaceClaims ids [] = (ids, False)"
| "workspaceClaims ids (perm # perms) =
     (let raw = trim_space perm; claim = trim_space (drop 10 raw) in
      if raw = [] \<or> \<not> has_prefix raw workspaceGrantPrefix \<or> claim = [] then workspaceClaims ids perms
      else if to_lower claim = ''*'' \<or> to_lower claim = ''all'' then ([], True)
      else if claim \<in> set ids then workspaceClaims ids perms
      else workspaceClaims (ids @ [claim]) perms)"

text \<open>The first of the fallback identifiers that is not blank, or no workspace at all.\<close>

definition restricted_to :: "string list \<Rightarrow> WorkspaceScope" where
  "restricted_to fallbacks =
     \<lparr>sc_WorkspaceID = (case filter (\<lambda>s. trim_space s \<noteq> []) fallbacks of [] \<Rightarrow> [] | s # _ \<Rightarrow> trim_space s),
      sc_Restricted = True, sc_Authenticated = True\<rparr>"

definition scope_of_claims :: "Permission list \<Rightarrow> string list \<Rightarrow> WorkspaceScope" where
  "scope_of_claims perms fallbacks =
     (case workspaceClaims [] perms of
        (ids, True) \<Rightarrow> \<lparr>sc_WorkspaceID = [], sc_Restricted = False, sc_Authenticated = True\<rparr>
      | ([], False) \<Rightarrow> restricted_to fallbacks
      | (i # ids, False) \<Rightarrow> \<lparr>sc_WorkspaceID = i, sc_Restricted = True, sc_Authenticated = True\<rparr>)"

definition resolveWorkspaceScopeFromAuth :: "auth_context \<Rightarrow> WorkspaceScope" where
  "resolveWorkspaceScopeFromAuth ctx =
     (case cx_Key ctx of
        Some key \<Rightarrow> scope_of_claims (ak_Permissions key) [ak_ID key]
      | None \<Rightarrow>
          (case cx_User ctx of
             Some user \<Rightarrow> scope_of_claims (au_Permissions user) [au_WorkspaceID user, au_ID user]
           | None \<Rightarrow> \<lparr>sc_WorkspaceID = [], sc_Restricted = False, sc_Authenticated = False\<rparr>))"

definition WithWorkspaceScopeContext :: "auth_context \<Rightarrow> WorkspaceScope \<Rightarrow> auth_context" where
  "WithWorkspaceScopeContext ctx scope = ctx\<lparr>cx_Scope := Some (scope\<lparr>sc_WorkspaceID := trim_space (sc_WorkspaceID scope)\<rparr>)\<rparr>"

section \<open>The server\<close>

text \<open>
  The stores of the server that the guards read. The session validator and the resolver of role
  permissions exist together, over \<open>srv_accounts\<close> and \<open>srv_roles\<close>.
\<close>

record server =
  srv_keys :: "key_table option"
  srv_accounts :: "accounts option"
  srv_roles :: "role_table option"
  srv_audit :: "AuditStore option"
  srv_log :: Log
  srv_queue :: "CommandPolicyRationale Queue"
  srv_isolation :: bool

record request =
  rq_Method :: string
  rq_Path :: string
  rq_Authorization :: string
  rq_Cookie :: "string option"

datatype 'r reply = Reply 'r | Refused http_refusal | RedirectTo string

type_synonym 'r handler = "auth_context \<Rightarrow> server \<Rightarrow> 'r reply \<times> server"

text \<open>The readings of the clock that one request makes, and the identifier of the event it may record.\<close>

record ticks =
  tk_key :: time
  tk_use :: time
  tk_session :: time
  tk_audit :: time
  tk_uuid :: string

definition recordAudit :: "ticks \<Rightarrow> Event \<Rightarrow> server \<Rightarrow> server" where
  "recordAudit tk evt srv =
     (case srv_audit srv of
        Some a \<Rightarrow> srv\<lparr>srv_audit := Some (audit_Record (tk_uuid tk) (tk_audit tk) evt a)\<rparr>
      | None \<Rightarrow> srv\<lparr>srv_log := log_Record (tk_uuid tk) (tk_audit tk) evt (srv_log srv)\<rparr>)"

definition denied_actor :: "auth_context \<Rightarrow> string" where
  "denied_actor ctx =
     (case cx_User ctx of
        Some u \<Rightarrow> if au_Username u \<noteq> [] then au_Username u else if au_ID u \<noteq> [] then au_ID u else ''anonymous''
      | None \<Rightarrow>
          (case cx_Key ctx of
             Some k \<Rightarrow> if ak_Name k \<noteq> [] then ak_Name k else if ak_ID k \<noteq> [] then ak_ID k else ''anonymous''
           | None \<Rightarrow> ''anonymous''))"

definition recordAuthorizationDenied ::
  "ticks \<Rightarrow> auth_context \<Rightarrow> request \<Rightarrow> Permission \<Rightarrow> string \<Rightarrow> server \<Rightarrow> server" where
  "recordAuthorizationDenied tk ctx rq perm reason srv =
     (if srv_audit srv = None then srv
      else recordAudit tk
             ((new_event ''auth.authorization_denied'' [] (denied_actor ctx)
                 (''authorization denied for '' @ rq_Method rq @ '' '' @ rq_Path rq))
               \<lparr>ev_Timestamp := tk_audit tk,
                ev_Detail := JMap [(''method'', JStr (rq_Method rq)), (''path'', JStr (rq_Path rq)),
                                   (''required_permission'', JStr perm), (''reason'', JStr reason)]\<rparr>) srv)"

definition requirePermission ::
  "ticks \<Rightarrow> request \<Rightarrow> Permission \<Rightarrow> auth_context \<Rightarrow> server \<Rightarrow> http_refusal option \<times> server" where
  "requirePermission tk rq perm ctx srv =
     (if srv_keys srv = None \<and> srv_accounts srv = None then (None, srv)
      else if \<not> IsAuthenticated ctx
      then (Some (Refusal 401 ''unauthorized''), recordAuthorizationDenied tk ctx rq perm ''authentication_required'' srv)
      else if \<not> HasPermissionFromContext ctx perm
      then (Some (Refusal 403 ''forbidden''), recordAuthorizationDenied tk ctx rq perm ''insufficient_permissions'' srv)
      else (None, srv))"

definition withPermission :: "ticks \<Rightarrow> request \<Rightarrow> Permission \<Rightarrow> 'r handler \<Rightarrow> 'r handler" where
  "withPermission tk rq perm h ctx srv =
     (case requirePermission tk rq perm ctx srv of
        (Some e, srv') \<Rightarrow> (Refused e, srv')
      | (None, srv') \<Rightarrow> h ctx srv')"

section \<open>The middleware\<close>

record AuthMiddleware =
  mw_skipExact :: "string list"
  mw_skipPrefix :: "string list"

definition NewMiddleware :: "string list \<Rightarrow> AuthMiddleware" where
  "NewMiddleware skipPaths =
     \<lparr>mw_skipExact = filter (\<lambda>p. \<not> has_suffix p ''*'') skipPaths,
      mw_skipPrefix = map butlast (filter (\<lambda>p. has_suffix p ''*'') skipPaths)\<rparr>"

definition shouldSkip :: "AuthMiddleware \<Rightarrow> string \<Rightarrow> bool" where
  "shouldSkip m path \<longleftrightarrow>
     path = ''/login'' \<or> path = ''/logout'' \<or> has_prefix path ''/static/'' \<or>
     path \<in> set (mw_skipExact m) \<or> list_ex (has_prefix path) (mw_skipPrefix m)"

definition isWebLoginRedirectPath :: "string \<Rightarrow> bool" where
  "isWebLoginRedirectPath path \<longleftrightarrow>
     path \<in> {''/'', ''/approvals'', ''/audit'', ''/alerts'', ''/model-dock'', ''/cloud-connectors'',
             ''/network-devices'', ''/discovery'', ''/fleet/chat''} \<or>
     has_prefix path ''/probe/'' \<or> has_prefix path ''/chat/''"

text \<open>
  None when the request goes on to the session. The update of the last use of the key runs later and
  is the step \<open>key_touch\<close>.
\<close>

definition tryAPIKeyAuth ::
  "ticks \<Rightarrow> (string \<Rightarrow> string \<Rightarrow> bool) \<Rightarrow> 'r handler \<Rightarrow> request \<Rightarrow> server \<Rightarrow> ('r reply \<times> server) option" where
  "tryAPIKeyAuth tk cmp next rq srv =
     (let hdr = rq_Authorization rq; token = trim_space (drop 7 hdr) in
      if hdr = [] then None
      else if \<not> has_prefix hdr ''Bearer '' then Some (Refused (Refusal 401 ''invalid authorization format''), srv)
      else if token = [] then Some (Refused (Refusal 401 ''empty bearer token''), srv)
      else if \<not> has_prefix token ''lgk_'' then None
      else (case srv_keys srv of
              None \<Rightarrow> Some (Refused (Refusal 401 ''invalid api key''), srv)
            | Some t \<Rightarrow>
                (case key_Validate (tk_key tk) (tk_use tk) cmp token t of
                   Err e \<Rightarrow>
                     Some (Refused (if e = KeyExpired then Refusal 403 ''api key expired''
                                    else Refusal 401 ''invalid api key''), srv)
                 | Ok key \<Rightarrow>
                     let ctx = background\<lparr>cx_Key := Some key\<rparr> in
                     Some (next (WithWorkspaceScopeContext ctx (resolveWorkspaceScopeFromAuth ctx)) srv))))"

definition session_user :: "(string \<Rightarrow> Permission list) option \<Rightarrow> SessionInfo \<Rightarrow> AuthenticatedUser" where
  "session_user resolver s =
     \<lparr>au_ID = si_UserID s, au_Username = si_Username s, au_DisplayName = [], au_Role = si_Role s,
      au_SessionID = si_Token s, au_WorkspaceID = si_WorkspaceID s,
      au_Permissions = (case resolver of None \<Rightarrow> [] | Some f \<Rightarrow> f (si_Role s))\<rparr>"

definition trySessionAuth ::
  "ticks \<Rightarrow> (string \<Rightarrow> Permission list) option \<Rightarrow> 'r handler \<Rightarrow> request \<Rightarrow> server \<Rightarrow> 'r reply option \<times> server" where
  "trySessionAuth tk resolver next rq srv =
     (case (srv_accounts srv, rq_Cookie rq) of
        (Some a, Some cookie) \<Rightarrow>
          if trim_space cookie = [] then (None, srv)
          else (case adapter_Validate (tk_session tk) cookie a of
                  (Err e, a') \<Rightarrow> (None, srv\<lparr>srv_accounts := Some a'\<rparr>)
                | (Ok s, a') \<Rightarrow>
                    let ctx = background\<lparr>cx_User := Some (session_user resolver s)\<rparr>;
                        (r, srv') = next (WithWorkspaceScopeContext ctx (resolveWorkspaceScopeFromAuth ctx))
                                      (srv\<lparr>srv_accounts := Some a'\<rparr>)
                    in (Some r, srv'))
      | _ \<Rightarrow> (None, srv))"

definition Wrap ::
  "ticks \<Rightarrow> (string \<Rightarrow> string \<Rightarrow> bool) \<Rightarrow> (string \<Rightarrow> Permission list) option \<Rightarrow> AuthMiddleware \<Rightarrow> 'r handler \<Rightarrow> request \<Rightarrow>
   server \<Rightarrow> 'r reply \<times> server" where
  "Wrap tk cmp resolver m next rq srv =
     (if shouldSkip m (rq_Path rq) then next background srv
      else (case tryAPIKeyAuth tk cmp next rq srv of
              Some out \<Rightarrow> out
            | None \<Rightarrow>
                (case trySessionAuth tk resolver next rq srv of
                   (Some r, srv') \<Rightarrow> (r, srv')
                 | (None, srv') \<Rightarrow>
                     if isWebLoginRedirectPath (rq_Path rq) then (RedirectTo ''/login'', srv')
                     else (Refused (Refusal 401 ''authentication required''), srv'))))"

definition server_middleware :: AuthMiddleware where
  "server_middleware =
     NewMiddleware
       [''/healthz'', ''/version'', ''/api/v1/register'', ''/api/v1/auth/permissions'', ''/api/v1/openapi.yaml'',
        ''/download/*'', ''/artifacts/*'', ''/install.sh'', ''/ws/probe'', ''/login'', ''/logout'', ''/auth/oidc/login'',
        ''/auth/oidc/callback'', ''/static/*'', ''/site/*'']"

text \<open>
  A request to the server: the middleware is there when one of the two ways to authenticate is. No
  lookup of custom roles is registered with \<^verbatim>\<open>RolePermissions\<close>; the resolver asks the store itself.
\<close>

definition serve ::
  "ticks \<Rightarrow> (string \<Rightarrow> string \<Rightarrow> bool) \<Rightarrow> 'r handler \<Rightarrow> request \<Rightarrow> server \<Rightarrow> 'r reply \<times> server" where
  "serve tk cmp h rq srv =
     (if srv_keys srv \<noteq> None \<or> srv_accounts srv \<noteq> None
      then Wrap tk cmp
             (if srv_accounts srv = None then None else Some (PermissionsForRole None (srv_roles srv)))
             server_middleware h rq srv
      else h background srv)"

definition RateLimitMiddleware ::
  "time \<Rightarrow> (auth_context \<Rightarrow> 'r reply) \<Rightarrow> auth_context \<Rightarrow> RateLimiter \<Rightarrow> 'r reply \<times> RateLimiter" where
  "RateLimitMiddleware now next ctx rl =
     (case cx_Key ctx of
        None \<Rightarrow> (next ctx, rl)
      | Some key \<Rightarrow>
          (case Allow now (ak_ID key) rl of
             (False, rl') \<Rightarrow> (Refused (Refusal 429 ''rate limit exceeded''), rl')
           | (True, rl') \<Rightarrow> (next ctx, rl')))"

section \<open>Login and logout\<close>

text \<open>
  The login form; None when it cannot be parsed. A success is the token that the session cookie
  carries. \<open>tk_use\<close> is the clock of the password check and \<open>tk_session\<close> the one of the session.
\<close>

definition HandleLoginWithAudit ::
  "ticks \<Rightarrow> string option \<Rightarrow> (string \<Rightarrow> string \<Rightarrow> bool) \<Rightarrow> string \<Rightarrow> (string \<times> string) option \<Rightarrow> server \<Rightarrow>
   (http_refusal + string) \<times> server" where
  "HandleLoginWithAudit tk raw cmp remoteAddr form srv =
     (case srv_accounts srv of
        None \<Rightarrow> (Err (Refusal 503 ''login unavailable''), srv)
      | Some a \<Rightarrow>
          (case form of
             None \<Rightarrow> (Err (Refusal 400 ''Invalid login form''), srv)
           | Some (rawName, password) \<Rightarrow>
               let username = trim_space rawName in
               if username = [] \<or> password = []
               then (Err (Refusal 401 ''Username and password are required''), srv)
               else (case Authenticate (tk_use tk) cmp username password (ac_users a) of
                       (Err e, us) \<Rightarrow>
                         (Err (Refusal 401 (if e = ErrUserDisabled then ''user disabled'' else ''invalid credentials'')),
                          recordAudit tk
                            ((new_event ''auth.login_failed'' [] username (''Login failed for '' @ username @ '' (local)''))
                              \<lparr>ev_Timestamp := tk_audit tk,
                               ev_Detail := JMap [(''method'', JStr ''local''), (''remote_addr'', JStr remoteAddr)]\<rparr>)
                            (srv\<lparr>srv_accounts := Some (a\<lparr>ac_users := us\<rparr>)\<rparr>))
                     | (Ok user, us) \<Rightarrow>
                         (case adapter_Create (tk_session tk) raw (us_ID user) (a\<lparr>ac_users := us\<rparr>) of
                            (Err e, a') \<Rightarrow>
                              (Err (Refusal 500 ''Failed to create session''), srv\<lparr>srv_accounts := Some a'\<rparr>)
                          | (Ok token, a') \<Rightarrow>
                              if trim_space token = []
                              then (Err (Refusal 500 ''Failed to create session''), srv\<lparr>srv_accounts := Some a'\<rparr>)
                              else
                                (Ok token,
                                 recordAudit tk
                                   ((new_event ''auth.login'' [] (us_ID user)
                                       (''Login succeeded for '' @ username @ '' (local)''))
                                     \<lparr>ev_Timestamp := tk_audit tk,
                                      ev_Detail := JMap [(''method'', JStr ''local''), (''user_id'', JStr (us_ID user)),
                                        (''username'', JStr username), (''remote_addr'', JStr remoteAddr)]\<rparr>)
                                   (srv\<lparr>srv_accounts := Some a'\<rparr>))))))"

definition HandleLogout :: "string option \<Rightarrow> server \<Rightarrow> server" where
  "HandleLogout cookie srv =
     (case (cookie, srv_accounts srv) of
        (Some token, Some a) \<Rightarrow> if token = [] then srv else srv\<lparr>srv_accounts := Some (adapter_Delete token a)\<rparr>
      | _ \<Rightarrow> srv)"

section \<open>Workspace isolation\<close>

definition normalizeWorkspaceID :: "string \<Rightarrow> string" where
  "normalizeWorkspaceID ws = to_lower (trim_space ws)"

definition writeWorkspaceScopeError :: "scope_error \<Rightarrow> http_refusal" where
  "writeWorkspaceScopeError e =
     (if e = ErrWorkspaceScopeAmbiguous then Refusal 403 ''workspace_scope_ambiguous''
      else Refusal 403 ''workspace_scope_required'')"

definition workspaceScopeForRequest :: "server \<Rightarrow> auth_context \<Rightarrow> http_refusal + string" where
  "workspaceScopeForRequest srv ctx =
     (if \<not> srv_isolation srv then Ok []
      else (case WorkspaceIDFromContext ctx of
              Err e \<Rightarrow> Err (writeWorkspaceScopeError e)
            | Ok ws \<Rightarrow> Ok (normalizeWorkspaceID ws)))"

definition workspaceScopeForList :: "server \<Rightarrow> auth_context \<Rightarrow> http_refusal + string" where
  "workspaceScopeForList srv ctx =
     (case workspaceScopeForRequest srv ctx of
        Err e \<Rightarrow> Err e
      | Ok ws \<Rightarrow> Ok (if ws = ''*'' then [] else ws))"

definition enforceWorkspaceMatch :: "server \<Rightarrow> auth_context \<Rightarrow> string \<Rightarrow> http_refusal option" where
  "enforceWorkspaceMatch srv ctx resource =
     (if \<not> srv_isolation srv then None
      else (case workspaceScopeForRequest srv ctx of
              Err e \<Rightarrow> Some e
            | Ok ws \<Rightarrow>
                if ws = ''*'' then None
                else if normalizeWorkspaceID resource = [] \<or> ws \<noteq> normalizeWorkspaceID resource
                then Some (Refusal 403 ''workspace_forbidden'') else None))"

text \<open>\<open>withWorkspaceScope\<close> hands the scope to the handler it wraps; None when isolation is off.\<close>

definition withWorkspaceScope ::
  "(string option \<Rightarrow> 'r handler) \<Rightarrow> 'r handler" where
  "withWorkspaceScope next ctx srv =
     (if srv_isolation srv
      then (case workspaceScopeForRequest srv ctx of
              Err e \<Rightarrow> (Refused e, srv)
            | Ok ws \<Rightarrow> next (Some (if ws = ''*'' then [] else ws)) ctx srv)
      else next None ctx srv)"

definition workspaceJobFilter :: "server \<Rightarrow> auth_context \<Rightarrow> string" where
  "workspaceJobFilter srv ctx =
     (if \<not> srv_isolation srv then []
      else (case WorkspaceIDFromContext ctx of
              Err e \<Rightarrow> []
            | Ok ws \<Rightarrow> if ws = ''*'' then [] else normalizeWorkspaceID ws))"

section \<open>The handlers of approvals\<close>

text \<open>\<open>limit\<close> is the number in the query, if there is one; \<open>ks\<close> is the order in which the loop visits the map of requests.\<close>

definition handleListApprovals ::
  "ticks \<Rightarrow> request \<Rightarrow> time \<Rightarrow> time \<Rightarrow> string list \<Rightarrow> int option \<Rightarrow> string \<Rightarrow>
   (CommandPolicyRationale Request list \<times> nat) handler" where
  "handleListApprovals tk rq t1 t2 ks limitParam status ctx srv =
     (case requirePermission tk rq ''approval:read'' ctx srv of
        (Some e, srv') \<Rightarrow> (Refused e, srv')
      | (None, srv') \<Rightarrow>
          let limit = (case limitParam of Some v \<Rightarrow> if v > 0 then v else 50 | None \<Rightarrow> 50);
              ws = workspaceJobFilter srv' ctx;
              (reqs, q1) = (if status = ''pending'' then PendingByWorkspace t1 ks ws (srv_queue srv')
                            else (AllByWorkspace ks ws limit (srv_queue srv'), srv_queue srv'));
              (n, q2) = PendingCount t2 q1
          in (Reply (reqs, n), srv'\<lparr>srv_queue := q2\<rparr>))"

definition handleGetApproval :: "ticks \<Rightarrow> request \<Rightarrow> string \<Rightarrow> CommandPolicyRationale Request handler" where
  "handleGetApproval tk rq rid ctx srv =
     (case requirePermission tk rq ''approval:read'' ctx srv of
        (Some e, srv') \<Rightarrow> (Refused e, srv')
      | (None, srv') \<Rightarrow>
          (case GetCheckWorkspace (srv_queue srv') rid (workspaceJobFilter srv' ctx) of
             None \<Rightarrow> (Refused (Refusal 404 ''not_found''), srv')
           | Some req \<Rightarrow> (Reply req, srv')))"

definition decision_of :: "string \<Rightarrow> Decision" where
  "decision_of s =
     (if s = ''pending'' then DecisionPending else if s = ''approved'' then DecisionApproved
      else if s = ''denied'' then DecisionDenied else if s = ''expired'' then DecisionExpired else DecisionOther s)"

text \<open>The body of a decision: the texts of \<open>decision\<close> and \<open>decided_by\<close>, None when it cannot be decoded.\<close>

definition DecodeDecideApprovalTransport :: "(string \<times> string) option \<Rightarrow> http_refusal + Decision \<times> string" where
  "DecodeDecideApprovalTransport body =
     (case body of
        None \<Rightarrow> Err (Refusal 400 ''invalid_request'')
      | Some (decision, decidedBy) \<Rightarrow>
          if decision = [] \<or> decidedBy = [] then Err (Refusal 400 ''invalid_request'')
          else Ok (decision_of decision, decidedBy))"

definition decideApprovalHTTPError :: "decide_error option \<Rightarrow> http_refusal option" where
  "decideApprovalHTTPError e =
     map_option (\<lambda>e. case e of
         ApprovedDispatchError _ \<Rightarrow> Refusal 502 ''bad_gateway''
       | DecisionHookError _ _ \<Rightarrow> Refusal 500 ''internal_error''
       | DecideQueueError _ \<Rightarrow> Refusal 400 ''invalid_request'') e"

text \<open>The contract of a decision: an error, or the request that was decided, if the result holds one.\<close>

definition EncodeDecideApprovalTransport ::
  "'r ApprovalDecisionResult option \<Rightarrow> decide_error option \<Rightarrow> http_refusal + 'r Request option" where
  "EncodeDecideApprovalTransport result e =
     (case decideApprovalHTTPError e of
        Some err \<Rightarrow> Err err
      | None \<Rightarrow> Ok (map_option dr_Request result))"

definition handleDecideApproval ::
  "ticks \<Rightarrow> request \<Rightarrow> CommandPolicyRationale decision_world \<Rightarrow> time \<Rightarrow> time \<Rightarrow> string \<Rightarrow> (string \<times> string) option \<Rightarrow>
   ((http_refusal + CommandPolicyRationale Request option) \<times> CommandPolicyRationale decision_effect list) handler" where
  "handleDecideApproval tk rq w tcheck now rid body ctx srv =
     (case requirePermission tk rq ''approval:write'' ctx srv of
        (Some e, srv') \<Rightarrow> (Refused e, srv')
      | (None, srv') \<Rightarrow>
          let ws = workspaceJobFilter srv' ctx in
          if ws \<noteq> [] \<and> GetCheckWorkspace (srv_queue srv') rid ws = None then (Refused (Refusal 404 ''not_found''), srv')
          else (case DecodeDecideApprovalTransport body of
                  Err e \<Rightarrow> (Reply (Err e, []), srv')
                | Ok (decision, decidedBy) \<Rightarrow>
                    (case DecideAndDispatch w tcheck now (srv_queue srv') rid decision decidedBy of
                       ((result, err), effects, q') \<Rightarrow>
                         (Reply (EncodeDecideApprovalTransport result err, effects), srv'\<lparr>srv_queue := q'\<rparr>))))"

text \<open>
  What authorises a request for a permission: a key of the store that is enabled, not expired and
  matches the bearer token, or a session of the store that is not expired, for a user that exists
  and is enabled, with the permissions the key carries or the role of the user grants now.
\<close>

definition perms_grant :: "Permission list \<Rightarrow> Permission \<Rightarrow> bool" where
  "perms_grant perms perm \<longleftrightarrow> PermAdmin \<in> set perms \<or> perm \<in> set perms"

definition key_grants :: "ticks \<Rightarrow> (string \<Rightarrow> string \<Rightarrow> bool) \<Rightarrow> request \<Rightarrow> server \<Rightarrow> Permission \<Rightarrow> bool" where
  "key_grants tk cmp rq srv perm \<longleftrightarrow>
     (\<exists>t. \<exists>k \<in> set t. srv_keys srv = Some t \<and> has_prefix (rq_Authorization rq) ''Bearer '' \<and> ak_Enabled k \<and>
        (\<forall>e. ak_ExpiresAt k = Some e \<longrightarrow> tk_key tk \<le> e) \<and>
        cmp (ak_KeyHash k) (trim_space (drop 7 (rq_Authorization rq))) \<and> perms_grant (ak_Permissions k) perm)"

definition session_grants :: "ticks \<Rightarrow> request \<Rightarrow> server \<Rightarrow> Permission \<Rightarrow> bool" where
  "session_grants tk rq srv perm \<longleftrightarrow>
     (\<exists>a. \<exists>s \<in> set (ac_sessions a). \<exists>u \<in> set (ac_users a).
        srv_accounts srv = Some a \<and> rq_Cookie rq = Some (se_ID s) \<and> tk_session tk \<le> se_ExpiresAt s \<and>
        us_ID u = se_UserID s \<and> us_Enabled u \<and> perms_grant (PermissionsForRole None (srv_roles srv) (us_Role u)) perm)"
text \<open>A route that is registered behind a permission, as the server answers it.\<close>

definition guarded_route ::
  "ticks \<Rightarrow> (string \<Rightarrow> string \<Rightarrow> bool) \<Rightarrow> Permission \<Rightarrow> 'r handler \<Rightarrow> request \<Rightarrow> server \<Rightarrow> 'r reply \<times> server" where
  "guarded_route tk cmp perm h rq srv = serve tk cmp (withPermission tk rq perm h) rq srv"

definition demo_ticks :: ticks where
  "demo_ticks = \<lparr>tk_key = 2, tk_use = 2, tk_session = 2, tk_audit = 2, tk_uuid = ''e1''\<rparr>"

definition demo_server :: "Permission list \<Rightarrow> server" where
  "demo_server perms =
     \<lparr>srv_keys = Some (snd (demo_key perms)), srv_accounts = Some demo_accounts, srv_roles = Some [], srv_audit = None,
      srv_log = NewLog 9, srv_queue = NewQueue 100 5, srv_isolation = True\<rparr>"

definition demo_rq :: "string \<Rightarrow> string option \<Rightarrow> request" where
  "demo_rq hdr cookie =
     \<lparr>rq_Method = ''GET'', rq_Path = ''/api/v1/approvals'', rq_Authorization = hdr, rq_Cookie = cookie\<rparr>"

definition demo_bearer :: string where
  "demo_bearer = ''Bearer lgk_'' @ hex_EncodeToString (replicate 32 CHR ''a'')"

definition demo_request2 :: "string \<Rightarrow> CommandPolicyRationale Request" where
  "demo_request2 ws =
     \<lparr>req_ID = ''r1'', req_WorkspaceID = ws, req_ProbeID = ''p1'', req_Command = demo_cmd, req_Reason = ''disk'',
      req_RiskLevel = ''high'', req_Requester = ''api'', req_PolicyDecision = [], req_PolicyRationale = None,
      req_RequireSecondApprover = True, req_RequiredApprovals = 2, req_Approvals = [], req_Decision = DecisionPending,
      req_DecidedBy = [], req_DecidedAt = 0, req_CreatedAt = 0, req_ExpiresAt = 50\<rparr>"

text \<open>A server with one pending request of the workspace \<open>ws\<close>.\<close>

definition demo_queue_server :: "Permission list \<Rightarrow> string \<Rightarrow> server" where
  "demo_queue_server perms ws =
     (demo_server perms)\<lparr>srv_queue := (NewQueue 100 5)\<lparr>q_requests := [(''r1'', demo_request2 ws)]\<rparr>\<rparr>"

definition key_context :: "Permission list \<Rightarrow> auth_context" where
  "key_context perms =
     background\<lparr>cx_Key := Some \<lparr>ak_ID = ''k1'', ak_Name = ''ci'', ak_KeyHash = [], ak_KeyPrefix = [],
       ak_Permissions = perms, ak_CreatedAt = 0, ak_LastUsedAt = None, ak_ExpiresAt = None, ak_Enabled = True\<rparr>\<rparr>"

definition quiet_world :: "'r decision_world" where
  "quiet_world = \<lparr>dw_recorded = (\<lambda>_. None), dw_dispatch = (\<lambda>_ _. None), dw_dispatched = (\<lambda>_. None)\<rparr>"

section \<open>Lemmas\<close>

lemma scope_context [simp]:
  "cx_Key (WithWorkspaceScopeContext ctx sc) = cx_Key ctx" "cx_User (WithWorkspaceScopeContext ctx sc) = cx_User ctx"
  by (simp_all add: WithWorkspaceScopeContext_def)

text \<open>The three outcomes of each way to authenticate, for all handlers at once.\<close>

lemma tryAPIKeyAuth_cases:
  obtains (none) "\<And>next :: 'r handler. tryAPIKeyAuth tk cmp next rq srv = None"
  | (refused) e where "\<And>next :: 'r handler. tryAPIKeyAuth tk cmp next rq srv = Some (Refused e, srv)"
  | (passed) ctx k t where "\<And>next :: 'r handler. tryAPIKeyAuth tk cmp next rq srv = Some (next ctx srv)"
      "cx_Key ctx = Some k" "cx_User ctx = None" "srv_keys srv = Some t" "has_prefix (rq_Authorization rq) ''Bearer ''"
      "key_Validate (tk_key tk) (tk_use tk) cmp (trim_space (drop 7 (rq_Authorization rq))) t = Ok k"
proof -
  let ?hdr = "rq_Authorization rq"
  let ?token = "trim_space (drop 7 ?hdr)"
  consider (none1) "?hdr = []"
    | (bad) "?hdr \<noteq> []" "\<not> has_prefix ?hdr ''Bearer ''"
    | (empty) "?hdr \<noteq> []" "has_prefix ?hdr ''Bearer ''" "?token = []"
    | (none2) "?hdr \<noteq> []" "has_prefix ?hdr ''Bearer ''" "?token \<noteq> []" "\<not> has_prefix ?token ''lgk_''"
    | (nostore) "?hdr \<noteq> []" "has_prefix ?hdr ''Bearer ''" "?token \<noteq> []" "has_prefix ?token ''lgk_''" "srv_keys srv = None"
    | (c) t where "?hdr \<noteq> []" "has_prefix ?hdr ''Bearer ''" "?token \<noteq> []" "has_prefix ?token ''lgk_''" "srv_keys srv = Some t"
    by (cases "srv_keys srv") metis+
  then show thesis
  proof cases
    case none1
    then show ?thesis by (intro none) (simp add: tryAPIKeyAuth_def)
  next
    case bad
    then show ?thesis by (intro refused) (simp add: tryAPIKeyAuth_def)
  next
    case empty
    then show ?thesis by (intro refused) (simp add: tryAPIKeyAuth_def)
  next
    case none2
    then show ?thesis by (intro none) (simp add: tryAPIKeyAuth_def)
  next
    case nostore
    then show ?thesis by (intro refused) (simp add: tryAPIKeyAuth_def)
  next
    case (c t)
    show ?thesis
    proof (cases "key_Validate (tk_key tk) (tk_use tk) cmp ?token t")
      case (Inl e)
      with c show ?thesis by (intro refused) (simp add: tryAPIKeyAuth_def)
    next
      case (Inr k)
      let ?ctx = "background\<lparr>cx_Key := Some k\<rparr>"
      show ?thesis
        by (rule passed [of "WithWorkspaceScopeContext ?ctx (resolveWorkspaceScopeFromAuth ?ctx)" k t])
           (use c Inr in \<open>simp_all add: tryAPIKeyAuth_def Let_def\<close>)
    qed
  qed
qed

lemma trySessionAuth_cases:
  obtains (none) srv' where "\<And>next :: 'r handler. trySessionAuth tk resolver next rq srv = (None, srv')"
  | (passed) ctx a cookie s a' where
      "\<And>next :: 'r handler. trySessionAuth tk resolver next rq srv =
         (Some (fst (next ctx (srv\<lparr>srv_accounts := Some a'\<rparr>))), snd (next ctx (srv\<lparr>srv_accounts := Some a'\<rparr>)))"
      "cx_Key ctx = None" "cx_User ctx = Some (session_user resolver s)" "srv_accounts srv = Some a"
      "rq_Cookie rq = Some cookie" "adapter_Validate (tk_session tk) cookie a = (Ok s, a')"
proof (cases "srv_accounts srv = None \<or> rq_Cookie rq = None \<or> trim_space (the (rq_Cookie rq)) = []")
  case True
  then show thesis by (intro none [of srv]) (auto simp: trySessionAuth_def split: option.splits)
next
  case False
  then obtain a cookie where c: "srv_accounts srv = Some a" "rq_Cookie rq = Some cookie" "trim_space cookie \<noteq> []" by auto
  obtain res a' where v: "adapter_Validate (tk_session tk) cookie a = (res, a')" by fastforce
  show thesis
  proof (cases res)
    case (Inl e)
    with c v show ?thesis by (intro none [of "srv\<lparr>srv_accounts := Some a'\<rparr>"]) (simp add: trySessionAuth_def)
  next
    case (Inr s)
    let ?ctx = "background\<lparr>cx_User := Some (session_user resolver s)\<rparr>"
    show ?thesis
      by (rule passed [of "WithWorkspaceScopeContext ?ctx (resolveWorkspaceScopeFromAuth ?ctx)" a' s a cookie])
         (use c v Inr in \<open>simp_all add: trySessionAuth_def case_prod_beta Let_def\<close>)
  qed
qed

text \<open>The guard, on the context of each way to authenticate.\<close>

lemma guard_cases:
  assumes "srv_keys srv \<noteq> None \<or> srv_accounts srv \<noteq> None"
  shows "HasPermissionFromContext ctx perm \<and> (\<forall>h. withPermission tk rq perm h ctx srv = h ctx srv) \<or>
    (\<exists>e srv'. \<forall>h. withPermission tk rq perm h ctx srv = (Refused e, srv'))"
proof (cases "IsAuthenticated ctx \<and> HasPermissionFromContext ctx perm")
  case True
  then show ?thesis using assms by (auto simp: withPermission_def requirePermission_def)
next
  case False
  then show ?thesis using assms by (auto simp: withPermission_def requirePermission_def)
qed

lemma HasPermissionFromContext_key:
  "cx_Key ctx = Some k \<Longrightarrow> HasPermissionFromContext ctx perm \<longleftrightarrow> perms_grant (ak_Permissions k) perm"
  by (auto simp: HasPermissionFromContext_def HasPermission_def perms_grant_def list_ex_iff)

lemma HasPermissionFromContext_user:
  "cx_Key ctx = None \<Longrightarrow> cx_User ctx = Some u \<Longrightarrow>
   HasPermissionFromContext ctx perm \<longleftrightarrow> perms_grant (au_Permissions u) perm"
  by (auto simp: HasPermissionFromContext_def perms_grant_def list_ex_iff)

lemma validated_key_grants:
  assumes "srv_keys srv = Some t" "has_prefix (rq_Authorization rq) ''Bearer ''"
    and "key_Validate (tk_key tk) (tk_use tk) cmp (trim_space (drop 7 (rq_Authorization rq))) t = Ok k"
    and "perms_grant (ak_Permissions k) perm"
  shows "key_grants tk cmp rq srv perm"
proof -
  obtain r where "r \<in> set t" "k = r\<lparr>ak_LastUsedAt := Some (tk_use tk)\<rparr>" "ak_Enabled r"
      "cmp (ak_KeyHash r) (trim_space (drop 7 (rq_Authorization rq)))"
      "\<forall>e. ak_ExpiresAt r = Some e \<longrightarrow> tk_key tk \<le> e"
    using key_Validate_row [OF assms(3)] by blast
  then show ?thesis using assms unfolding key_grants_def by (intro exI [of _ t] bexI [of _ r]) auto
qed

lemma validated_session_grants:
  assumes "srv_accounts srv = Some a" "rq_Cookie rq = Some cookie"
    and "adapter_Validate (tk_session tk) cookie a = (Ok s, a')"
    and "perms_grant (PermissionsForRole None (srv_roles srv) (si_Role s)) perm"
  shows "session_grants tk rq srv perm"
proof -
  obtain sess u where f: "tbl_first (\<lambda>r. se_ID r = cookie) (ac_sessions a) = Some sess"
      "tk_session tk \<le> se_ExpiresAt sess" "user_Get (se_UserID sess) (ac_users a) = Ok u" "us_Enabled u"
      "us_ID u = se_UserID sess" "si_Role s = us_Role u"
    using adapter_Validate_Ok [OF assms(3)] by auto
  have "sess \<in> set (ac_sessions a)" "se_ID sess = cookie" "u \<in> set (ac_users a)"
    using tbl_firstD [OF f(1)] f(3) by (auto simp: user_Get_def split: option.splits dest!: tbl_firstD)
  then show ?thesis
    using f assms unfolding session_grants_def
    by (intro exI [of _ a] bexI [of _ sess] bexI [of _ u]) auto
qed

lemma requirePermission_keeps:
  "requirePermission tk rq perm ctx srv = (r, srv') \<Longrightarrow>
   srv_queue srv' = srv_queue srv \<and> srv_isolation srv' = srv_isolation srv"
  by (auto simp: requirePermission_def recordAuthorizationDenied_def recordAudit_def split: if_splits option.splits)

lemma requirePermission_granted:
  "HasPermissionFromContext ctx perm \<Longrightarrow> requirePermission tk rq perm ctx srv = (None, srv)"
  by (auto simp: requirePermission_def HasPermissionFromContext_def IsAuthenticated_def split: option.splits)

lemma requirePermission_None: "requirePermission tk rq perm ctx srv = (None, srv') \<Longrightarrow> srv' = srv"
  by (auto simp: requirePermission_def split: if_splits)

lemma workspaceJobFilter_scoped:
  "srv_isolation srv \<Longrightarrow> WorkspaceIDFromContext ctx = Ok ws \<Longrightarrow> ws \<noteq> ''*'' \<Longrightarrow>
   workspaceJobFilter srv ctx = normalizeWorkspaceID ws"
  by (simp add: workspaceJobFilter_def)

lemma workspaceJobFilter_unscoped: "WorkspaceIDFromContext ctx = Err e \<Longrightarrow> workspaceJobFilter srv ctx = []"
  by (simp add: workspaceJobFilter_def)

text \<open>The scope that permissions grant is a lower case text without blanks around it, and never empty.\<close>

lemma workspace_grants_normal:
  "workspace_grants ids perms = Ok ws \<Longrightarrow> (\<And>i. i \<in> set ids \<Longrightarrow> i \<noteq> [] \<and> normalizeWorkspaceID i = i) \<Longrightarrow>
   ws \<noteq> [] \<and> normalizeWorkspaceID ws = ws"
proof (induction perms arbitrary: ids)
  case Nil
  then show ?case by (cases ids) (auto split: if_splits)
next
  case (Cons perm perms)
  define val where "val = trim_space (drop 10 (trim_space perm))"
  have star: "normalizeWorkspaceID ''*'' = ''*''" by code_simp
  have low: "normalizeWorkspaceID (to_lower val) = to_lower val"
    by (simp add: normalizeWorkspaceID_def trim_space_to_lower val_def)
  have "ws = ''*'' \<or> workspace_grants ids perms = Ok ws \<or>
      val \<noteq> [] \<and> workspace_grants (List.insert (to_lower val) ids) perms = Ok ws"
    using Cons.prems(1) by (auto simp: Let_def val_def split: if_splits)
  then consider (wild) "ws = ''*''" | (skip) "workspace_grants ids perms = Ok ws"
    | (add) "val \<noteq> []" "workspace_grants (List.insert (to_lower val) ids) perms = Ok ws"
    by blast
  then show ?case
  proof cases
    case add
    then have "to_lower val \<noteq> []" by (simp add: to_lower_def)
    with Cons.prems(2) low show ?thesis by (intro Cons.IH [OF add(2)]) auto
  qed (use star Cons in auto)
qed

lemma scope_normal: "WorkspaceIDFromContext ctx = Ok ws \<Longrightarrow> ws \<noteq> [] \<and> normalizeWorkspaceID ws = ws"
  using workspace_grants_normal [of "[]"]
  by (auto simp: WorkspaceIDFromContext_def WorkspaceIDFromPermissions_def split: option.splits if_splits)

lemma list_workspace:
  fixes q :: "'r Queue"
  shows "r \<in> set (AllByWorkspace ks ws limit q) \<Longrightarrow> \<not> other_workspace ws r"
  "r \<in> set (fst (PendingByWorkspace now ks ws q)) \<Longrightarrow> \<not> other_workspace ws r"
proof -
  have sorted: "set (sortRequestsByTime reqs) = set reqs" for reqs :: "'r Request list"
    by (simp flip: sortRequestsByTime_sorts)
  show "r \<in> set (AllByWorkspace ks ws limit q) \<Longrightarrow> \<not> other_workspace ws r"
    by (auto simp: AllByWorkspace_def truncate_list_def sorted split: if_splits dest!: in_set_takeD)
  show "r \<in> set (fst (PendingByWorkspace now ks ws q)) \<Longrightarrow> \<not> other_workspace ws r"
    by (auto simp: PendingByWorkspace_def Let_def sorted)
qed

lemma listed_approvals:
  assumes "fst (handleListApprovals tk rq t1 t2 ks limit status ctx srv) = Reply (reqs, n)"
  shows "\<exists>m. reqs = fst (PendingByWorkspace t1 ks (workspaceJobFilter srv ctx) (srv_queue srv)) \<or>
    reqs = AllByWorkspace ks (workspaceJobFilter srv ctx) m (srv_queue srv)"
proof -
  obtain res srv' where p: "requirePermission tk rq ''approval:read'' ctx srv = (res, srv')" by fastforce
  with assms have "res = None" by (auto simp: handleListApprovals_def split: option.splits)
  then have "srv' = srv" using p requirePermission_None by blast
  with assms p \<open>res = None\<close> show ?thesis
    by (auto simp: handleListApprovals_def Let_def case_prod_beta split: if_splits)
qed

lemma requirePermission_isolation:
  "fst (requirePermission tk rq perm ctx (srv\<lparr>srv_isolation := b\<rparr>)) = fst (requirePermission tk rq perm ctx srv)"
  by (simp add: requirePermission_def)

lemma decide_hidden:
  assumes "workspaceJobFilter srv ctx = ws" "ws \<noteq> []" "GetCheckWorkspace (srv_queue srv) rid ws = None"
  shows "(\<exists>e. fst (handleDecideApproval tk rq w tc now rid body ctx srv) = Refused e) \<and>
    srv_queue (snd (handleDecideApproval tk rq w tc now rid body ctx srv)) = srv_queue srv"
proof -
  obtain res srv' where p: "requirePermission tk rq ''approval:write'' ctx srv = (res, srv')" by fastforce
  show ?thesis
  proof (cases res)
    case None
    then have "srv' = srv" using p requirePermission_None by blast
    with None p assms show ?thesis by (simp add: handleDecideApproval_def)
  next
    case (Some e)
    with p requirePermission_keeps [OF p] show ?thesis by (simp add: handleDecideApproval_def)
  qed
qed

lemma decide_unscoped:
  assumes "workspaceJobFilter srv ctx = []"
  shows "fst (handleDecideApproval tk rq w tc now rid body ctx srv) =
      fst (handleDecideApproval tk rq w tc now rid body ctx (srv\<lparr>srv_isolation := False\<rparr>))"
proof -
  let ?srv = "srv\<lparr>srv_isolation := False\<rparr>"
  let ?perm = "\<lambda>srv. requirePermission tk rq ''approval:write'' ctx srv"
  have off: "workspaceJobFilter ?srv ctx = []" by (simp add: workspaceJobFilter_def)
  show ?thesis
  proof (cases "fst (?perm srv)")
    case None
    then have "?perm srv = (None, srv)" "?perm ?srv = (None, ?srv)"
      using requirePermission_None requirePermission_isolation by (metis prod.collapse)+
    with assms off show ?thesis
      by (simp add: handleDecideApproval_def split: sum.splits prod.splits)
  next
    case (Some e)
    then have "fst (?perm ?srv) = Some e" by (simp add: requirePermission_isolation)
    with Some show ?thesis by (cases "?perm srv"; cases "?perm ?srv") (simp add: handleDecideApproval_def)
  qed
qed

section \<open>Properties\<close>

text \<open>
  Property C4. With authentication enabled, a handler behind a permission runs only for a request
  that is authorised: by an enabled, unexpired key whose permissions include the one required or
  admin, or by an unexpired session of an enabled user whose role grants it. Every other request,
  those on the paths that skip authentication included, is answered without the handler, in the
  same way whatever the handler is.
\<close>

theorem guarded_request_authorised:
  assumes "srv_keys srv \<noteq> None \<or> srv_accounts srv \<noteq> None"
  shows "(\<exists>ctx srv'. (\<forall>h :: 'r handler. guarded_route tk cmp perm h rq srv = h ctx srv') \<and>
      (key_grants tk cmp rq srv perm \<or> session_grants tk rq srv perm)) \<or>
    (\<exists>out. (\<forall>h :: 'r handler. guarded_route tk cmp perm h rq srv = out) \<and> (\<forall>r. fst out \<noteq> Reply r))"
proof -
  have skip: "\<exists>e srv'. \<forall>h :: 'r handler. withPermission tk rq perm h background srv = (Refused e, srv')"
    using guard_cases [OF assms, of background perm tk rq] by (auto simp: HasPermissionFromContext_def)
  let ?res = "if srv_accounts srv = None then None else Some (PermissionsForRole None (srv_roles srv))"
  have guarded: "guarded_route tk cmp perm h rq srv =
      Wrap tk cmp ?res server_middleware (withPermission tk rq perm h) rq srv" for h :: "'r handler"
    using assms by (simp add: guarded_route_def serve_def)
  show ?thesis
  proof (cases "shouldSkip server_middleware (rq_Path rq)")
    case True
    with skip show ?thesis by (auto simp: guarded Wrap_def)
  next
    case path: False
    show ?thesis
    proof (cases rule: tryAPIKeyAuth_cases [where 'r = 'r, of tk cmp rq srv])
      case none
      note nokey = none
      show ?thesis
      proof (cases rule: trySessionAuth_cases [where 'r = 'r, of tk ?res rq srv])
        case (none srv')
        with nokey path show ?thesis by (auto simp: guarded Wrap_def)
      next
        case (passed ctx a cookie s a')
        let ?srv = "srv\<lparr>srv_accounts := Some a'\<rparr>"
        have g: "guarded_route tk cmp perm h rq srv = withPermission tk rq perm h ctx ?srv" for h :: "'r handler"
          using nokey path passed(1) by (simp add: guarded Wrap_def)
        have "session_grants tk rq srv perm" if "HasPermissionFromContext ctx perm"
          using that passed
          by (intro validated_session_grants [OF passed(4,5,6)])
             (simp add: HasPermissionFromContext_user session_user_def)
        then show ?thesis
          using guard_cases [of ?srv ctx perm tk rq] unfolding g by auto
      qed
    next
      case (refused e)
      with path show ?thesis by (auto simp: guarded Wrap_def)
    next
      case (passed ctx k t)
      have g: "guarded_route tk cmp perm h rq srv = withPermission tk rq perm h ctx srv" for h :: "'r handler"
        using path passed(1) by (simp add: guarded Wrap_def)
      have "key_grants tk cmp rq srv perm" if "HasPermissionFromContext ctx perm"
        using that passed by (intro validated_key_grants [OF passed(4,5,6)]) (simp add: HasPermissionFromContext_key)
      then show ?thesis using guard_cases [OF assms, of ctx perm tk rq] unfolding g by auto
    qed
  qed
qed

lemma guarded_request_authorised_witness:
  "let srv = demo_server [''approval:read'']; ok = (\<lambda>ctx srv. (Reply (), srv)) :: unit handler;
       get = (\<lambda>perm rq. guarded_route demo_ticks demo_cmp perm ok rq srv)
   in fst (get ''approval:read'' (demo_rq demo_bearer None)) = Reply () \<and>
      fst (get ''approval:read'' (demo_rq [] (Some ''t1''))) = Reply () \<and>
      fst (get ''audit:read'' (demo_rq demo_bearer None)) = Refused (Refusal 403 ''forbidden'') \<and>
      fst (get ''approval:read'' (demo_rq [] None)) = Refused (Refusal 401 ''authentication required'') \<and>
      (key_grants demo_ticks demo_cmp (demo_rq demo_bearer None) srv ''approval:read'' \<or>
       session_grants demo_ticks (demo_rq demo_bearer None) srv ''approval:read'')"
proof -
  let ?srv = "demo_server [''approval:read'']"
  let ?ok = "(\<lambda>ctx srv. (Reply (), srv)) :: unit handler"
  have "fst (guarded_route demo_ticks demo_cmp ''approval:read'' ?ok (demo_rq demo_bearer None) ?srv) = Reply ()"
    by code_simp
  moreover have "fst (guarded_route demo_ticks demo_cmp ''approval:read'' ?ok (demo_rq [] (Some ''t1'')) ?srv) = Reply ()"
    by code_simp
  moreover have "fst (guarded_route demo_ticks demo_cmp ''audit:read'' ?ok (demo_rq demo_bearer None) ?srv) =
      Refused (Refusal 403 ''forbidden'')" by code_simp
  moreover have "fst (guarded_route demo_ticks demo_cmp ''approval:read'' ?ok (demo_rq [] None) ?srv) =
      Refused (Refusal 401 ''authentication required'')" by code_simp
  moreover have "srv_keys ?srv \<noteq> None \<or> srv_accounts ?srv \<noteq> None" by (simp add: demo_server_def)
  ultimately show ?thesis
    using guarded_request_authorised [where 'r = unit, of ?srv demo_ticks demo_cmp "''approval:read''"
      "demo_rq demo_bearer None"]
    unfolding Let_def by metis
qed

text \<open>
  Property C17. Workspace isolation of approvals: with isolation on, a caller whose permissions grant
  one workspace is shown, by the two listings and by the read of a single request, only requests
  of that workspace or of none, and a decision on a request of another workspace is refused and
  changes nothing.
\<close>

theorem approvals_isolated:
  assumes "srv_isolation srv" and "WorkspaceIDFromContext ctx = Ok ws" and "ws \<noteq> ''*''"
  shows "(\<forall>reqs n r. fst (handleListApprovals tk rq t1 t2 ks limit status ctx srv) = Reply (reqs, n) \<and> r \<in> set reqs \<longrightarrow>
        req_WorkspaceID r \<in> {[], ws}) \<and>
    (\<forall>r. fst (handleGetApproval tk rq rid ctx srv) = Reply r \<longrightarrow> req_WorkspaceID r \<in> {[], ws}) \<and>
    (\<forall>r. gget (q_requests (srv_queue srv)) rid = Some r \<and> req_WorkspaceID r \<notin> {[], ws} \<longrightarrow>
        (\<exists>e. fst (handleDecideApproval tk rq w tc now rid body ctx srv) = Refused e) \<and>
        srv_queue (snd (handleDecideApproval tk rq w tc now rid body ctx srv)) = srv_queue srv)"
proof -
  have f: "workspaceJobFilter srv ctx = ws" and ne: "ws \<noteq> []"
    using workspaceJobFilter_scoped [OF assms] scope_normal [OF assms(2)] by simp_all
  have other: "\<not> other_workspace ws r \<longleftrightarrow> req_WorkspaceID r \<in> {[], ws}" for r :: "CommandPolicyRationale Request"
    using ne by (auto simp: other_workspace_def)
  have "req_WorkspaceID r \<in> {[], ws}"
    if "fst (handleListApprovals tk rq t1 t2 ks limit status ctx srv) = Reply (reqs, n)" "r \<in> set reqs" for reqs n r
    using listed_approvals [OF that(1)] that(2) list_workspace [of r] unfolding other [symmetric] f by blast
  moreover have "req_WorkspaceID r \<in> {[], ws}" if "fst (handleGetApproval tk rq rid ctx srv) = Reply r" for r
    using that unfolding handleGetApproval_def other [symmetric]
    by (auto simp: f GetCheckWorkspace_def split: prod.splits option.splits if_splits dest: requirePermission_None)
  moreover have "(\<exists>e. fst (handleDecideApproval tk rq w tc now rid body ctx srv) = Refused e) \<and>
      srv_queue (snd (handleDecideApproval tk rq w tc now rid body ctx srv)) = srv_queue srv"
    if "gget (q_requests (srv_queue srv)) rid = Some r" "req_WorkspaceID r \<notin> {[], ws}" for r
  proof -
    have "GetCheckWorkspace (srv_queue srv) rid ws = None"
      using that other [of r] by (simp add: GetCheckWorkspace_def Get_def)
    with ne f show ?thesis by (intro decide_hidden) simp_all
  qed
  ultimately show ?thesis by blast
qed

lemma approvals_isolated_witness:
  "let ctx = key_context [''approval:read'', ''approval:write'', ''workspace:W1'']; body = Some (''approved'', ''bob'');
       rq = demo_rq [] None; decide = (\<lambda>srv. fst (handleDecideApproval demo_ticks rq quiet_world 1 1 ''r1'' body ctx srv))
   in (\<exists>e. decide (demo_queue_server [] ''w2'') = Refused e) \<and>
      fst (handleGetApproval demo_ticks rq ''r1'' ctx (demo_queue_server [] ''w1'')) = Reply (demo_request2 ''w1'')"
proof -
  let ?ctx = "key_context [''approval:read'', ''approval:write'', ''workspace:W1'']"
  let ?rq = "demo_rq [] None"
  have "WorkspaceIDFromContext ?ctx = Ok ''w1''" by code_simp
  moreover have "srv_isolation (demo_queue_server [] ''w2'')" by (simp add: demo_queue_server_def demo_server_def)
  moreover have "gget (q_requests (srv_queue (demo_queue_server [] ''w2''))) ''r1'' = Some (demo_request2 ''w2'')"
    by (simp add: demo_queue_server_def gget_def)
  moreover have "req_WorkspaceID (demo_request2 ''w2'') = ''w2''" by (simp add: demo_request2_def)
  ultimately have "\<exists>e. fst (handleDecideApproval demo_ticks ?rq quiet_world 1 1 ''r1'' (Some (''approved'', ''bob'')) ?ctx
      (demo_queue_server [] ''w2'')) = Refused e"
    using approvals_isolated [of "demo_queue_server [] ''w2''" ?ctx "''w1''" demo_ticks ?rq 1 1 "[]" None "[]" "''r1''"
      quiet_world 1 1 "Some (''approved'', ''bob'')"] by simp
  moreover have "fst (handleGetApproval demo_ticks ?rq ''r1'' ?ctx (demo_queue_server [] ''w1'')) =
      Reply (demo_request2 ''w1'')" by code_simp
  ultimately show ?thesis by (simp add: Let_def)
qed

text \<open>
  Property C38. The filter of workspaces fails open: with isolation on, a caller who may read
  approvals but whose permissions name no workspace, or more than one, reads the requests of every
  workspace, and may decide them as if isolation were off.
\<close>

theorem missing_scope_reads_all:
  assumes "srv_isolation srv" and "WorkspaceIDFromContext ctx = Err e"
    and "HasPermissionFromContext ctx ''approval:read''"
    and "gget (q_requests (srv_queue srv)) rid = Some r"
  shows "fst (handleGetApproval tk rq rid ctx srv) = Reply r \<and>
    enforceWorkspaceMatch srv ctx (req_WorkspaceID r) \<noteq> None \<and>
    fst (handleDecideApproval tk rq w tc now rid body ctx srv) =
      fst (handleDecideApproval tk rq w tc now rid body ctx (srv\<lparr>srv_isolation := False\<rparr>))"
proof -
  have f: "workspaceJobFilter srv ctx = []" by (rule workspaceJobFilter_unscoped [OF assms(2)])
  then have "fst (handleGetApproval tk rq rid ctx srv) = Reply r"
    using assms(4) requirePermission_granted [OF assms(3), of tk rq srv]
    by (simp add: handleGetApproval_def GetCheckWorkspace_def Get_def other_workspace_def)
  moreover have "enforceWorkspaceMatch srv ctx (req_WorkspaceID r) \<noteq> None"
    using assms(1,2) by (simp add: enforceWorkspaceMatch_def workspaceScopeForRequest_def)
  moreover have "fst (handleDecideApproval tk rq w tc now rid body ctx srv) =
      fst (handleDecideApproval tk rq w tc now rid body ctx (srv\<lparr>srv_isolation := False\<rparr>))"
    by (rule decide_unscoped [OF f])
  ultimately show ?thesis by blast
qed

lemma missing_scope_reads_all_witness:
  "let ctx = key_context [''approval:read'']; srv = demo_queue_server [] ''w2''
   in srv_isolation srv \<and>
      fst (handleGetApproval demo_ticks (demo_rq [] None) ''r1'' ctx srv) = Reply (demo_request2 ''w2'') \<and>
      enforceWorkspaceMatch srv ctx ''w2'' \<noteq> None"
proof -
  let ?ctx = "key_context [''approval:read'']" and ?srv = "demo_queue_server [] ''w2''"
  have "srv_isolation ?srv" by (simp add: demo_queue_server_def demo_server_def)
  moreover have "WorkspaceIDFromContext ?ctx = Err ErrWorkspaceScopeMissing" by code_simp
  moreover have "HasPermissionFromContext ?ctx ''approval:read''" by code_simp
  moreover have "gget (q_requests (srv_queue ?srv)) ''r1'' = Some (demo_request2 ''w2'')"
    by (simp add: demo_queue_server_def gget_def)
  moreover have "req_WorkspaceID (demo_request2 ''w2'') = ''w2''" by (simp add: demo_request2_def)
  ultimately show ?thesis
    using missing_scope_reads_all [of ?srv ?ctx ErrWorkspaceScopeMissing "''r1''" "demo_request2 ''w2''" demo_ticks
      "demo_rq [] None"] by (simp add: Let_def)
qed

lemma handleDecide_granted:
  assumes "HasPermissionFromContext ctx ''approval:write''" and "gget (q_requests (srv_queue srv)) rid = Some r"
    and "\<not> other_workspace (workspaceJobFilter srv ctx) r" and "who \<noteq> []"
  shows "handleDecideApproval tk rq w tc now rid (Some (''approved'', who)) ctx srv =
    (case DecideAndDispatch w tc now (srv_queue srv) rid DecisionApproved who of
       ((result, err), effects, q') \<Rightarrow>
         (Reply (EncodeDecideApprovalTransport result err, effects), srv\<lparr>srv_queue := q'\<rparr>))"
proof -
  have "requirePermission tk rq ''approval:write'' ctx srv = (None, srv)"
    using assms(1) by (rule requirePermission_granted)
  moreover have "GetCheckWorkspace (srv_queue srv) rid (workspaceJobFilter srv ctx) = Some r"
    using assms(2,3) by (simp add: GetCheckWorkspace_def Get_def)
  ultimately show ?thesis
    using assms(4) by (simp add: handleDecideApproval_def DecodeDecideApprovalTransport_def decision_of_def)
qed

lemma first_approval:
  assumes "gget (q_requests q) rid = Some r" and "req_Decision r = DecisionPending" and "req_Approvals r = []"
    and "RequiredApprovalCount r = 2" and "tc \<le> req_ExpiresAt r" and "trim_space a \<noteq> []"
  shows "snd (snd (DecideAndDispatch w tc now q rid DecisionApproved a)) =
    q\<lparr>q_requests := gput rid (r\<lparr>req_Approvals := [\<lparr>ar_Actor = trim_space a, ar_Timestamp = now\<rparr>],
        req_Decision := DecisionPending\<rparr>) (q_requests q)\<rparr>"
proof -
  have "Decide tc now q rid DecisionApproved a =
     (let r1 = r\<lparr>req_Approvals := [\<lparr>ar_Actor = trim_space a, ar_Timestamp = now\<rparr>], req_Decision := DecisionPending\<rparr>
      in (Ok r1, q\<lparr>q_requests := gput rid r1 (q_requests q)\<rparr>))"
    using assms by (simp add: Decide_def)
  then show ?thesis
    by (simp add: DecideAndDispatch_def DecideApproval_def Let_def split: option.splits)
qed

lemma second_approval:
  assumes "gget (q_requests q) rid = Some r" and "req_Decision r = DecisionPending"
    and "req_Approvals r = [x]" and "\<not> equal_fold (trim_space (ar_Actor x)) (trim_space b)"
    and "RequiredApprovalCount r = 2" and "tc \<le> req_ExpiresAt r" and "trim_space b \<noteq> []"
    and "\<And>result. dw_recorded w result = None"
  shows "CommandDispatched (req_ProbeID r) (req_Command r) \<in>
    set (fst (snd (DecideAndDispatch w tc now q rid DecisionApproved b)))"
proof -
  let ?r = "r\<lparr>req_Approvals := [x, \<lparr>ar_Actor = trim_space b, ar_Timestamp = now\<rparr>], req_Decision := DecisionApproved,
     req_DecidedBy := trim_space b, req_DecidedAt := now\<rparr>"
  have "Decide tc now q rid DecisionApproved b = (Ok ?r, q\<lparr>q_requests := gput rid ?r (q_requests q)\<rparr>)"
    using assms by (simp add: Decide_def Let_def)
  then show ?thesis
    using assms(8) by (simp add: DecideAndDispatch_def DecideApproval_def Let_def split: option.splits)
qed

text \<open>
  Property C39. The quorum of approvers is one of names, not of callers: the name of the approver is
  read from the body of the request, so one authenticated caller who may write approvals completes
  a quorum of two with two requests that give different names, and the command is dispatched.
\<close>

theorem one_caller_completes_quorum:
  assumes "HasPermissionFromContext ctx ''approval:write''"
    and "gget (q_requests (srv_queue srv)) rid = Some r" and "req_Decision r = DecisionPending"
    and "req_Approvals r = []" and "RequiredApprovalCount r = 2"
    and "\<not> other_workspace (workspaceJobFilter srv ctx) r" and "tc \<le> req_ExpiresAt r" and "tc' \<le> req_ExpiresAt r"
    and "trim_space a \<noteq> []" and "trim_space b \<noteq> []" and "\<not> equal_fold (trim_space a) (trim_space b)"
    and "\<And>result. dw_recorded w result = None"
  shows "let srv1 = snd (handleDecideApproval tk rq w tc now rid (Some (''approved'', a)) ctx srv)
    in \<exists>out effects. fst (handleDecideApproval tk' rq' w tc' now' rid (Some (''approved'', b)) ctx srv1) =
         Reply (out, effects) \<and> CommandDispatched (req_ProbeID r) (req_Command r) \<in> set effects"
proof -
  let ?r1 = "r\<lparr>req_Approvals := [\<lparr>ar_Actor = trim_space a, ar_Timestamp = now\<rparr>], req_Decision := DecisionPending\<rparr>"
  let ?q1 = "(srv_queue srv)\<lparr>q_requests := gput rid ?r1 (q_requests (srv_queue srv))\<rparr>"
  let ?srv1 = "snd (handleDecideApproval tk rq w tc now rid (Some (''approved'', a)) ctx srv)"
  have two: "RequiredApprovalCount ?r1 = 2" using assms(5) by (simp add: RequiredApprovalCount_def split: if_splits)
  have names: "a \<noteq> []" "b \<noteq> []" using assms(9,10) by auto
  have "?srv1 = srv\<lparr>srv_queue := snd (snd (DecideAndDispatch w tc now (srv_queue srv) rid DecisionApproved a))\<rparr>"
    using handleDecide_granted [OF assms(1,2,6) names(1), of tk rq w tc now] by (simp add: case_prod_beta)
  then have srv1: "?srv1 = srv\<lparr>srv_queue := ?q1\<rparr>"
    using first_approval [OF assms(2,3,4,5,7,9)] by simp
  then have "workspaceJobFilter ?srv1 ctx = workspaceJobFilter srv ctx" by (simp add: workspaceJobFilter_def)
  then have "\<not> other_workspace (workspaceJobFilter ?srv1 ctx) ?r1" using assms(6) by (simp add: other_workspace_def)
  moreover have r1: "gget (q_requests (srv_queue ?srv1)) rid = Some ?r1" by (simp add: srv1 gmap_simps)
  ultimately have "fst (handleDecideApproval tk' rq' w tc' now' rid (Some (''approved'', b)) ctx ?srv1) =
      Reply (let ((result, err), effects, q') = DecideAndDispatch w tc' now' (srv_queue ?srv1) rid DecisionApproved b
             in (EncodeDecideApprovalTransport result err, effects))"
    using handleDecide_granted [OF assms(1) r1 _ names(2), of tk' rq' w tc' now'] by (simp add: case_prod_beta)
  moreover have "CommandDispatched (req_ProbeID ?r1) (req_Command ?r1) \<in>
      set (fst (snd (DecideAndDispatch w tc' now' (srv_queue ?srv1) rid DecisionApproved b)))"
    by (rule second_approval [OF r1, where x = "\<lparr>ar_Actor = trim_space a, ar_Timestamp = now\<rparr>"]) (use assms two in simp_all)
  ultimately show ?thesis by (simp add: Let_def case_prod_beta)
qed

lemma one_caller_completes_quorum_witness:
  "let ctx = key_context [''approval:write'', ''workspace:w1'']; rq = demo_rq [] None;
       srv1 = snd (handleDecideApproval demo_ticks rq quiet_world 1 1 ''r1'' (Some (''approved'', ''alice'')) ctx
                (demo_queue_server [] ''w1''))
   in \<exists>out effects. fst (handleDecideApproval demo_ticks rq quiet_world 2 2 ''r1'' (Some (''approved'', ''bob'')) ctx srv1) =
        Reply (out, effects) \<and> CommandDispatched ''p1'' demo_cmd \<in> set effects"
proof -
  let ?r = "demo_request2 ''w1''"
  have "gget (q_requests (srv_queue (demo_queue_server [] ''w1''))) ''r1'' = Some ?r"
    by (simp add: demo_queue_server_def gget_def)
  moreover have "req_ProbeID ?r = ''p1''" "req_Command ?r = demo_cmd" "RequiredApprovalCount ?r = 2"
      "req_Decision ?r = DecisionPending" "req_Approvals ?r = []" "req_ExpiresAt ?r = 50"
    by (simp_all add: demo_request2_def RequiredApprovalCount_def)
  moreover have "\<not> other_workspace (workspaceJobFilter (demo_queue_server [] ''w1'')
      (key_context [''approval:write'', ''workspace:w1''])) ?r" by code_simp
  moreover have "HasPermissionFromContext (key_context [''approval:write'', ''workspace:w1'']) ''approval:write''" by code_simp
  moreover have "trim_space ''alice'' \<noteq> []" "trim_space ''bob'' \<noteq> []"
      "\<not> equal_fold (trim_space ''alice'') (trim_space ''bob'')" by code_simp+
  moreover have "dw_recorded quiet_world x = None" for x :: "CommandPolicyRationale ApprovalDecisionResult"
    by (simp add: quiet_world_def)
  ultimately show ?thesis
    using one_caller_completes_quorum [of "key_context [''approval:write'', ''workspace:w1'']" "demo_queue_server [] ''w1''"
      "''r1''" ?r 1 2 "''alice''" "''bob''" quiet_world demo_ticks "demo_rq [] None" 1 demo_ticks "demo_rq [] None" 2]
    by (simp add: Let_def)
qed

lemma authenticated_user:
  assumes "users_ok t" and "Authenticate now cmp name pw t = (Ok u, t')"
  shows "\<exists>u0. GetByUsername name t = Ok u0 \<and> us_Role u = us_Role u0 \<and> us_Username u = name \<and> us_Enabled u \<and>
    user_Get (us_ID u) t' = Ok u"
proof -
  obtain u0 where g: "GetByUsername name t = Ok u0" and e: "us_Enabled u0"
    and u: "u = u0\<lparr>us_LastLogin := Some now\<rparr>"
    and t': "t' = tbl_update (\<lambda>r. us_ID r = us_ID u0) (\<lambda>r. r\<lparr>us_LastLogin := Some now\<rparr>) t"
    using assms(2) by (auto simp: Authenticate_def split: sum.splits if_splits)
  have m: "u0 \<in> set t" "us_Username u0 = name"
    using g by (auto simp: GetByUsername_def split: option.splits dest!: tbl_firstD)
  have "tbl_first (\<lambda>r. us_ID r = us_ID u0) t = Some u0"
    using assms(1) m by (intro tbl_first_unique) (auto simp: users_ok_def)
  then have "user_Get (us_ID u0) t' = Ok u"
    by (simp add: user_Get_def t' u tbl_first_update)
  then show ?thesis using g e m u by simp
qed

lemma recordAudit_keeps [simp]:
  "srv_accounts (recordAudit tk evt srv) = srv_accounts srv" "srv_roles (recordAudit tk evt srv) = srv_roles srv"
  by (simp_all add: recordAudit_def split: option.splits)

lemma login_Ok:
  assumes "HandleLoginWithAudit tk raw cmp addr (Some (name, pw)) srv = (Ok token, srv')" "srv_accounts srv = Some a"
  shows "\<exists>user us a'. Authenticate (tk_use tk) cmp (trim_space name) pw (ac_users a) = (Ok user, us) \<and>
    adapter_Create (tk_session tk) raw (us_ID user) (a\<lparr>ac_users := us\<rparr>) = (Ok token, a') \<and>
    srv_accounts srv' = Some a' \<and> srv_roles srv' = srv_roles srv \<and> trim_space token \<noteq> []"
  using assms
  by (auto simp: HandleLoginWithAudit_def Let_def split: if_splits prod.splits sum.splits)



end
