(* ===== verification/Fleet.thy ===== *)
theory Fleet
  imports Protocol Encoding Timestamps Lifecycle
begin

text \<open>
  The registry of probes, \<^verbatim>\<open>controlplane/fleet/manager.go\<close> and \<^verbatim>\<open>remote_probe.go\<close>: a Go map from
  identifiers to the state of a probe. Every method runs under the mutex of the manager and is one
  step. The health score of a heartbeat is computed in floating point and is an argument; inventories
  and heartbeats are carried as they are. A loop over the map takes the order of its visit as an
  argument.
\<close>

section \<open>Data\<close>

record RemoteProbeConfig =
  rc_Host :: string
  rc_Port :: int
  rc_Username :: string
  rc_AuthMode :: string
  rc_HasPassword :: bool
  rc_HasPrivateKey :: bool

record RemoteProbeCredentials =
  rk_Password :: string
  rk_PrivateKey :: string

record HealthScore =
  hs_Score :: int
  hs_Status :: string
  hs_Warnings :: "string list"

record ProbeState =
  ps_ID :: string
  ps_Hostname :: string
  ps_OS :: string
  ps_Arch :: string
  ps_Status :: string
  ps_Type :: string
  ps_PolicyLevel :: CapabilityLevel
  ps_APIKey :: string
  ps_Registered :: time
  ps_LastSeen :: time
  ps_Inventory :: "json option"
  ps_Labels :: "string gmap"
  ps_Tags :: "string list"
  ps_Health :: "HealthScore option"
  ps_TenantID :: string
  ps_Remote :: "RemoteProbeConfig option"
  ps_RemoteCredentials :: "RemoteProbeCredentials option"
  ps_lastHB :: "json option"

type_synonym fleet = "ProbeState gmap"

datatype fleet_error =
    UnknownProbe string
  | RemoteIDRequired
  | RemoteHostRequired
  | RemoteUsernameRequired
  | RemoteCredentialsRequired
  | StatusRequired

section \<open>Operations\<close>

definition fleet_Register :: "time \<Rightarrow> string \<Rightarrow> string \<Rightarrow> string \<Rightarrow> string \<Rightarrow> fleet \<Rightarrow> ProbeState \<times> fleet" where
  "fleet_Register now pid hostname os arch m =
     (let ps = \<lparr>ps_ID = pid, ps_Hostname = hostname, ps_OS = os, ps_Arch = arch, ps_Status = ''online'',
                ps_Type = ''agent'', ps_PolicyLevel = CapObserve, ps_APIKey = [], ps_Registered = now,
                ps_LastSeen = now, ps_Inventory = None, ps_Labels = [], ps_Tags = [], ps_Health = None,
                ps_TenantID = [], ps_Remote = None, ps_RemoteCredentials = None, ps_lastHB = None\<rparr> in
      (ps, gput pid ps m))"

text \<open>The change of the state of a known probe.\<close>

definition update_probe ::
  "string \<Rightarrow> (ProbeState \<Rightarrow> ProbeState) \<Rightarrow> fleet \<Rightarrow> fleet_error option \<times> fleet" where
  "update_probe pid f m =
     (case gget m pid of None \<Rightarrow> (Some (UnknownProbe pid), m) | Some ps \<Rightarrow> (None, gput pid (f ps) m))"

definition Heartbeat ::
  "time \<Rightarrow> HealthScore \<Rightarrow> json option \<Rightarrow> string \<Rightarrow> fleet \<Rightarrow> fleet_error option \<times> fleet" where
  "Heartbeat now h hb pid m =
     update_probe pid
       (\<lambda>ps. ps\<lparr>ps_LastSeen := now, ps_lastHB := hb, ps_Health := Some h,
               ps_Status := (if hs_Status h = ''critical'' \<or> hs_Status h = ''degraded'' then ''degraded''
                             else ''online'')\<rparr>) m"

definition UpdateInventory :: "time \<Rightarrow> json option \<Rightarrow> string \<Rightarrow> fleet \<Rightarrow> fleet_error option \<times> fleet" where
  "UpdateInventory now report pid m = update_probe pid (\<lambda>ps. ps\<lparr>ps_Inventory := report, ps_LastSeen := now\<rparr>) m"

definition SetPolicy :: "CapabilityLevel \<Rightarrow> string \<Rightarrow> fleet \<Rightarrow> fleet_error option \<times> fleet" where
  "SetPolicy level pid m = update_probe pid (\<lambda>ps. ps\<lparr>ps_PolicyLevel := level\<rparr>) m"

definition SetAPIKey :: "string \<Rightarrow> string \<Rightarrow> fleet \<Rightarrow> fleet_error option \<times> fleet" where
  "SetAPIKey apiKey pid m = update_probe pid (\<lambda>ps. ps\<lparr>ps_APIKey := apiKey\<rparr>) m"

definition SetOnline :: "time \<Rightarrow> string \<Rightarrow> fleet \<Rightarrow> fleet_error option \<times> fleet" where
  "SetOnline now pid m = update_probe pid (\<lambda>ps. ps\<lparr>ps_Status := ''online'', ps_LastSeen := now\<rparr>) m"

definition SetTenantID :: "string \<Rightarrow> string \<Rightarrow> fleet \<Rightarrow> fleet_error option \<times> fleet" where
  "SetTenantID tenantID pid m = update_probe pid (\<lambda>ps. ps\<lparr>ps_TenantID := tenantID\<rparr>) m"

definition SetStatus :: "time \<Rightarrow> string \<Rightarrow> string \<Rightarrow> fleet \<Rightarrow> fleet_error option \<times> fleet" where
  "SetStatus now rawStatus pid m =
     (let status = to_lower (trim_space rawStatus) in
      if gget m pid = None then (Some (UnknownProbe pid), m)
      else if status = [] then (Some StatusRequired, m)
      else update_probe pid
             (\<lambda>ps. ps\<lparr>ps_Status := status,
                     ps_LastSeen := (if status = ''online'' \<or> status = ''degraded'' then now else ps_LastSeen ps)\<rparr>) m)"

text \<open>The loop of \<^verbatim>\<open>normalizeTags\<close>; \<open>out\<close> are the tags seen so far.\<close>

fun normalize_tags :: "string list \<Rightarrow> string list \<Rightarrow> string list" where
  "normalize_tags out [] = out"
| "normalize_tags out (raw # tags) =
     (let t = to_lower (trim_space raw) in
      if t = [] \<or> t \<in> set out then normalize_tags out tags else normalize_tags (out @ [t]) tags)"

abbreviation normalizeTags :: "string list \<Rightarrow> string list" where "normalizeTags \<equiv> normalize_tags []"

definition SetTags :: "string list \<Rightarrow> string \<Rightarrow> fleet \<Rightarrow> fleet_error option \<times> fleet" where
  "SetTags tags pid m = update_probe pid (\<lambda>ps. ps\<lparr>ps_Tags := normalizeTags tags\<rparr>) m"

definition MarkOffline :: "time \<Rightarrow> duration \<Rightarrow> fleet \<Rightarrow> fleet" where
  "MarkOffline now threshold m =
     gmap_all (\<lambda>ps. if ps_Status ps \<noteq> ''offline'' \<and> ps_LastSeen ps < now - threshold
                    then ps\<lparr>ps_Status := ''offline''\<rparr> else ps) m"

definition fleet_Delete :: "string \<Rightarrow> fleet \<Rightarrow> fleet_error option \<times> fleet" where
  "fleet_Delete pid m = (if gget m pid = None then (Some (UnknownProbe pid), m) else (None, gdel pid m))"

definition long_offline :: "time \<Rightarrow> duration \<Rightarrow> ProbeState \<Rightarrow> bool" where
  "long_offline now olderThan ps \<longleftrightarrow> ps_Status ps = ''offline'' \<and> ps_LastSeen ps < now - olderThan"

definition CleanupOffline :: "time \<Rightarrow> duration \<Rightarrow> string list \<Rightarrow> fleet \<Rightarrow> string list \<times> fleet" where
  "CleanupOffline now olderThan ks m =
     (filter (\<lambda>k. case gget m k of None \<Rightarrow> False | Some ps \<Rightarrow> long_offline now olderThan ps) ks,
      gkeep (\<lambda>ps. \<not> long_offline now olderThan ps) m)"

definition ListByTag :: "string list \<Rightarrow> string \<Rightarrow> fleet \<Rightarrow> ProbeState list" where
  "ListByTag ks rawTag m =
     (let tag = to_lower (trim_space rawTag) in
      if tag = [] then [] else filter (\<lambda>ps. tag \<in> set (ps_Tags ps)) (grange ks m))"

definition ListByTenant :: "string list \<Rightarrow> string \<Rightarrow> fleet \<Rightarrow> ProbeState list" where
  "ListByTenant ks tenantID m = filter (\<lambda>ps. ps_TenantID ps = tenantID) (grange ks m)"

section \<open>The probe of a host name\<close>

definition hostnameStatusRank :: "string \<Rightarrow> nat" where
  "hostnameStatusRank status =
     (let s = to_lower (trim_space status) in
      if s = ''online'' then 4 else if s = ''degraded'' then 3 else if s = ''pending'' then 2
      else if s = ''offline'' then 1 else 0)"

definition betterHostnameCandidate :: "ProbeState \<Rightarrow> ProbeState \<Rightarrow> bool" where
  "betterHostnameCandidate candidate current \<longleftrightarrow>
     (let r = hostnameStatusRank (ps_Status candidate); r' = hostnameStatusRank (ps_Status current) in
      if r \<noteq> r' then r > r'
      else if ps_LastSeen candidate \<noteq> ps_LastSeen current then ps_LastSeen candidate > ps_LastSeen current
      else if ps_Registered candidate \<noteq> ps_Registered current then ps_Registered candidate > ps_Registered current
      else ps_ID candidate \<noteq> ps_ID current \<and> bytes_le (ps_ID candidate) (ps_ID current))"

fun better_loop :: "string \<Rightarrow> ProbeState option \<Rightarrow> ProbeState list \<Rightarrow> ProbeState option" where
  "better_loop hostname best [] = best"
| "better_loop hostname best (ps # pss) =
     (if ps_Hostname ps \<noteq> hostname then better_loop hostname best pss
      else if (case best of None \<Rightarrow> True | Some b \<Rightarrow> betterHostnameCandidate ps b)
      then better_loop hostname (Some ps) pss
      else better_loop hostname best pss)"

definition FindByHostname :: "string list \<Rightarrow> string \<Rightarrow> fleet \<Rightarrow> ProbeState option" where
  "FindByHostname ks hostname m = better_loop hostname None (grange ks m)"

section \<open>Remote probes\<close>

record RemoteProbeRegistration =
  rr_ID :: string
  rr_Hostname :: string
  rr_OS :: string
  rr_Arch :: string
  rr_Tags :: "string list"
  rr_TenantID :: string
  rr_PolicyLevel :: "CapabilityLevel option"
  rr_Remote :: RemoteProbeConfig
  rr_Credentials :: RemoteProbeCredentials

text \<open>The state that a valid registration stores; the level is None when it is empty.\<close>

definition remote_state :: "time \<Rightarrow> RemoteProbeRegistration \<Rightarrow> ProbeState" where
  "remote_state now spec =
     (let host = trim_space (rc_Host (rr_Remote spec));
          password = trim_space (rk_Password (rr_Credentials spec));
          privateKey = trim_space (rk_PrivateKey (rr_Credentials spec)) in
      \<lparr>ps_ID = trim_space (rr_ID spec),
       ps_Hostname = (if trim_space (rr_Hostname spec) = [] then host else trim_space (rr_Hostname spec)),
       ps_OS = trim_space (rr_OS spec), ps_Arch = trim_space (rr_Arch spec), ps_Status = ''pending'',
       ps_Type = ''remote'',
       ps_PolicyLevel = (case rr_PolicyLevel spec of None \<Rightarrow> CapObserve | Some l \<Rightarrow> l), ps_APIKey = [],
       ps_Registered = now, ps_LastSeen = now, ps_Inventory = None, ps_Labels = [],
       ps_Tags = normalizeTags (rr_Tags spec), ps_Health = None, ps_TenantID = trim_space (rr_TenantID spec),
       ps_Remote =
         Some \<lparr>rc_Host = host, rc_Port = (if rc_Port (rr_Remote spec) \<le> 0 then 22 else rc_Port (rr_Remote spec)),
               rc_Username = trim_space (rc_Username (rr_Remote spec)),
               rc_AuthMode = trim_space (rc_AuthMode (rr_Remote spec)),
               rc_HasPassword = (password \<noteq> []), rc_HasPrivateKey = (privateKey \<noteq> [])\<rparr>,
       ps_RemoteCredentials = Some \<lparr>rk_Password = password, rk_PrivateKey = privateKey\<rparr>, ps_lastHB = None\<rparr>)"

definition RegisterRemote ::
  "time \<Rightarrow> RemoteProbeRegistration \<Rightarrow> fleet \<Rightarrow> (fleet_error + ProbeState) \<times> fleet" where
  "RegisterRemote now spec m =
     (if trim_space (rr_ID spec) = [] then (Err RemoteIDRequired, m)
      else if trim_space (rc_Host (rr_Remote spec)) = [] then (Err RemoteHostRequired, m)
      else if trim_space (rc_Username (rr_Remote spec)) = [] then (Err RemoteUsernameRequired, m)
      else if trim_space (rk_Password (rr_Credentials spec)) = [] \<and> trim_space (rk_PrivateKey (rr_Credentials spec)) = []
      then (Err RemoteCredentialsRequired, m)
      else let ps = remote_state now spec in (Ok ps, gput (ps_ID ps) ps m))"

text \<open>Every probe is stored under its identifier, with tags in normal form.\<close>

definition fleet_ok :: "fleet \<Rightarrow> bool" where
  "fleet_ok m \<longleftrightarrow> gmap_ok m \<and>
     (\<forall>k ps. gget m k = Some ps \<longrightarrow> ps_ID ps = k \<and> normalizeTags (ps_Tags ps) = ps_Tags ps)"
text \<open>Normal tags: lower case, trimmed, not empty, without repetition.\<close>

definition tags_ok :: "string list \<Rightarrow> bool" where
  "tags_ok tags \<longleftrightarrow> distinct tags \<and> (\<forall>t \<in> set tags. t \<noteq> [] \<and> to_lower (trim_space t) = t)"

section \<open>Lemmas\<close>

text \<open>\<open>betterHostnameCandidate\<close> is a strict order that decides between any two identifiers.\<close>

lemma better_irrefl: "\<not> betterHostnameCandidate a a"
  by (simp add: betterHostnameCandidate_def)

lemma better_total: "ps_ID a \<noteq> ps_ID b \<Longrightarrow> betterHostnameCandidate a b \<or> betterHostnameCandidate b a"
  using bytes_le_total [of "ps_ID a" "ps_ID b"] by (auto simp: betterHostnameCandidate_def Let_def)

lemma better_trans:
  "betterHostnameCandidate a b \<Longrightarrow> betterHostnameCandidate b c \<Longrightarrow> betterHostnameCandidate a c"
  using bytes_le_trans [of "ps_ID a" "ps_ID b" "ps_ID c"] bytes_le_antisym [of "ps_ID b" "ps_ID c"]
  by (auto simp: betterHostnameCandidate_def Let_def split: if_splits)

lemma better_loop_None: "better_loop h best pss = None \<longleftrightarrow> best = None \<and> (\<forall>ps \<in> set pss. ps_Hostname ps \<noteq> h)"
  by (induction h best pss rule: better_loop.induct) (auto split: option.splits)

lemma better_loop_best:
  assumes "better_loop h best pss = Some r" and "\<And>b. best = Some b \<Longrightarrow> ps_Hostname b = h"
    and "distinct (map ps_ID (case best of None \<Rightarrow> pss | Some b \<Rightarrow> b # pss))"
  shows "(best = Some r \<or> r \<in> set pss) \<and> ps_Hostname r = h \<and>
    (\<forall>ps. (best = Some ps \<or> ps \<in> set pss \<and> ps_Hostname ps = h) \<longrightarrow> ps = r \<or> betterHostnameCandidate r ps)"
  using assms
proof (induction h best pss rule: better_loop.induct)
  case (2 h best ps pss)
  show ?case
  proof (cases "ps_Hostname ps = h \<and> (\<forall>b. best = Some b \<longrightarrow> betterHostnameCandidate ps b)")
    case True
    then have *: "better_loop h (Some ps) pss = Some r" using 2(4) by (auto split: option.splits)
    have "(Some ps = Some r \<or> r \<in> set pss) \<and> ps_Hostname r = h \<and>
       (\<forall>x. (Some ps = Some x \<or> x \<in> set pss \<and> ps_Hostname x = h) \<longrightarrow> x = r \<or> betterHostnameCandidate r x)"
      using True 2(6) * by (intro 2(2)) (auto split: option.splits)
    with True better_trans show ?thesis by (cases best) auto
  next
    case False
    show ?thesis
    proof (cases "ps_Hostname ps = h")
      case True
      with False obtain b where b: "best = Some b" "\<not> betterHostnameCandidate ps b" by auto
      then have "betterHostnameCandidate b ps" using 2(6) better_total [of ps b] by auto
      moreover have "(best = Some r \<or> r \<in> set pss) \<and> ps_Hostname r = h \<and>
         (\<forall>x. (best = Some x \<or> x \<in> set pss \<and> ps_Hostname x = h) \<longrightarrow> x = r \<or> betterHostnameCandidate r x)"
        using True b 2(4-6) by (intro 2(3)) auto
      ultimately show ?thesis using b better_trans by auto
    next
      case other: False
      have "(best = Some r \<or> r \<in> set pss) \<and> ps_Hostname r = h \<and>
         (\<forall>x. (best = Some x \<or> x \<in> set pss \<and> ps_Hostname x = h) \<longrightarrow> x = r \<or> betterHostnameCandidate r x)"
        using other 2(4-6) by (intro 2(1)) (auto split: option.splits)
      with other show ?thesis by auto
    qed
  qed
qed (use better_irrefl in auto)

lemma normalize_tags_ok: "tags_ok out \<Longrightarrow> tags_ok (normalize_tags out tags)"
proof (induction tags arbitrary: out)
  case (Cons raw tags)
  define t where "t = to_lower (trim_space raw)"
  have idem: "to_lower (trim_space t) = t" by (simp add: t_def trim_space_to_lower)
  show ?case
  proof (cases "t = [] \<or> t \<in> set out")
    case True
    then show ?thesis using Cons by (simp add: t_def)
  next
    case False
    then have "tags_ok (out @ [t])" using Cons.prems idem unfolding tags_ok_def by simp
    then have "tags_ok (normalize_tags (out @ [t]) tags)" by (rule Cons.IH)
    with False show ?thesis by (simp add: t_def)
  qed
qed simp

lemma normalize_tags_id: "tags_ok (out @ tags) \<Longrightarrow> normalize_tags out tags = out @ tags"
proof (induction tags arbitrary: out)
  case (Cons t tags)
  then have t: "to_lower (trim_space t) = t" "t \<noteq> []" "t \<notin> set out" by (auto simp: tags_ok_def)
  have "normalize_tags (out @ [t]) tags = (out @ [t]) @ tags" by (rule Cons.IH) (use Cons.prems in simp)
  with t show ?case by simp
qed simp

lemma tags_ok_normal: "tags_ok tags \<longleftrightarrow> normalizeTags tags = tags"
  using normalize_tags_id [of "[]" tags] normalize_tags_ok [of "[]" tags] by (auto simp: tags_ok_def)

lemma normalizeTags_idem [simp]: "normalizeTags (normalizeTags tags) = normalizeTags tags"
  using normalize_tags_ok [of "[]" tags] tags_ok_normal by (simp add: tags_ok_def)

text \<open>Every operation keeps the invariant of the registry.\<close>

lemma fleet_ok_put:
  "fleet_ok m \<Longrightarrow> ps_ID ps = k \<Longrightarrow> normalizeTags (ps_Tags ps) = ps_Tags ps \<Longrightarrow> fleet_ok (gput k ps m)"
  by (auto simp: fleet_ok_def gmap_simps)

lemma fleet_ok_update:
  assumes "fleet_ok m" and "\<And>ps. ps_ID (f ps) = ps_ID ps"
    and "\<And>ps. normalizeTags (ps_Tags ps) = ps_Tags ps \<Longrightarrow> normalizeTags (ps_Tags (f ps)) = ps_Tags (f ps)"
  shows "fleet_ok (snd (update_probe pid f m))"
  using assms by (auto simp: update_probe_def fleet_ok_def gmap_simps split: option.splits)

lemma fleet_ok_steps:
  assumes "fleet_ok m"
  shows "fleet_ok (snd (fleet_Register now pid h os arch m))" "fleet_ok (snd (RegisterRemote now spec m))"
    "fleet_ok (snd (Heartbeat now score hb pid m))" "fleet_ok (snd (UpdateInventory now report pid m))"
    "fleet_ok (snd (SetPolicy level pid m))" "fleet_ok (snd (SetAPIKey key pid m))" "fleet_ok (snd (SetOnline now pid m))"
    "fleet_ok (snd (SetTenantID tn pid m))" "fleet_ok (snd (SetStatus now st pid m))" "fleet_ok (snd (SetTags tags pid m))"
    "fleet_ok (MarkOffline now d m)" "fleet_ok (snd (fleet_Delete pid m))" "fleet_ok (snd (CleanupOffline now d ks m))"
proof -
  note defs = Heartbeat_def UpdateInventory_def SetPolicy_def SetAPIKey_def SetOnline_def SetTenantID_def SetStatus_def
    SetTags_def
  show "fleet_ok (snd (fleet_Register now pid h os arch m))"
    using assms by (auto simp: fleet_Register_def Let_def intro!: fleet_ok_put)
  show "fleet_ok (snd (RegisterRemote now spec m))"
    using assms by (auto simp: RegisterRemote_def remote_state_def Let_def intro!: fleet_ok_put)
  show "fleet_ok (snd (Heartbeat now score hb pid m))" "fleet_ok (snd (UpdateInventory now report pid m))"
    "fleet_ok (snd (SetPolicy level pid m))" "fleet_ok (snd (SetAPIKey key pid m))" "fleet_ok (snd (SetOnline now pid m))"
    "fleet_ok (snd (SetTenantID tn pid m))" "fleet_ok (snd (SetStatus now st pid m))" "fleet_ok (snd (SetTags tags pid m))"
    using assms by (auto simp: defs Let_def intro!: fleet_ok_update)
  show "fleet_ok (MarkOffline now d m)"
    using assms by (auto simp: MarkOffline_def fleet_ok_def gmap_simps)
  show "fleet_ok (snd (fleet_Delete pid m))"
    using assms by (auto simp: fleet_Delete_def fleet_ok_def gmap_simps split: if_splits)
  show "fleet_ok (snd (CleanupOffline now d ks m))"
    using assms by (auto simp: CleanupOffline_def fleet_ok_def gmap_simps split: if_splits bind_splits)
qed

lemma distinct_ids:
  assumes "fleet_ok m" and "distinct ks"
  shows "distinct (map ps_ID (grange ks m))"
  using assms(2)
proof (induction ks)
  case (Cons k ks)
  have "ps_ID ps \<in> set ks" if "ps \<in> set (grange ks m)" for ps
    using that assms(1) by (auto simp: in_grange fleet_ok_def)
  moreover have "ps_ID ps = k" if "gget m k = Some ps" for ps using that assms(1) by (simp add: fleet_ok_def)
  ultimately show ?case using Cons by (auto simp: grange_Cons split: option.splits)
qed simp

lemma FindByHostname_best:
  assumes "fleet_ok m" and "range_order ks m" and "FindByHostname ks h m = Some r"
  shows "gget m (ps_ID r) = Some r \<and> ps_Hostname r = h \<and>
    (\<forall>ps. gget m (ps_ID ps) = Some ps \<and> ps_Hostname ps = h \<longrightarrow> ps = r \<or> betterHostnameCandidate r ps)"
proof -
  have mem: "ps \<in> set (grange ks m) \<longleftrightarrow> gget m (ps_ID ps) = Some ps" for ps
    using assms(1) by (auto simp: in_grange_order [OF assms(2)] fleet_ok_def)
  have "distinct (map ps_ID (grange ks m))"
    using assms by (intro distinct_ids) (simp_all add: range_order_def)
  then show ?thesis
    using better_loop_best [OF assms(3) [unfolded FindByHostname_def]] by (auto simp: mem)
qed

section \<open>Properties\<close>

text \<open>
  The probe of a host name does not depend on the order in which Go visits the map: it
  is the one that is better than every other probe of the name, by status, last contact, time of
  registration and identifier, and there is none only when no probe has the name.
\<close>

lemma find_by_hostname_best:
  assumes "fleet_ok m" and "range_order ks m" and "range_order ks' m"
  shows "FindByHostname ks h m = FindByHostname ks' h m \<and>
    (case FindByHostname ks h m of
       None \<Rightarrow> \<forall>k ps. gget m k = Some ps \<longrightarrow> ps_Hostname ps \<noteq> h
     | Some r \<Rightarrow> gget m (ps_ID r) = Some r \<and> ps_Hostname r = h \<and>
         (\<forall>ps. gget m (ps_ID ps) = Some ps \<and> ps_Hostname ps = h \<longrightarrow> ps = r \<or> betterHostnameCandidate r ps))"
proof -
  have none: "FindByHostname l h m = None \<longleftrightarrow> (\<forall>k ps. gget m k = Some ps \<longrightarrow> ps_Hostname ps \<noteq> h)"
    if "range_order l m" for l
    unfolding FindByHostname_def better_loop_None using in_grange_order [OF that] by blast
  note best = FindByHostname_best [OF assms(1)]
  have "FindByHostname ks h m = FindByHostname ks' h m"
  proof (cases "FindByHostname ks h m")
    case None
    then show ?thesis using none assms by metis
  next
    case (Some r)
    then obtain r' where r': "FindByHostname ks' h m = Some r'"
      using none assms by (metis option.exhaust)
    have "r = r'"
      using best [OF assms(2) Some] best [OF assms(3) r'] better_trans better_irrefl by metis
    with Some r' show ?thesis by simp
  qed
  moreover have "case FindByHostname ks h m of
       None \<Rightarrow> \<forall>k ps. gget m k = Some ps \<longrightarrow> ps_Hostname ps \<noteq> h
     | Some r \<Rightarrow> gget m (ps_ID r) = Some r \<and> ps_Hostname r = h \<and>
         (\<forall>ps. gget m (ps_ID ps) = Some ps \<and> ps_Hostname ps = h \<longrightarrow> ps = r \<or> betterHostnameCandidate r ps)"
  proof (cases "FindByHostname ks h m")
    case None
    then show ?thesis using none [OF assms(2)] by simp
  next
    case (Some r)
    then show ?thesis using best [OF assms(2) Some] by simp
  qed
  ultimately show ?thesis ..
qed

lemma find_by_hostname_best_witness:
  "let m = snd (fleet_Register 5 ''p2'' ''web'' ''linux'' ''amd64'' (MarkOffline 9 3 (snd (fleet_Register 1 ''p1'' ''web'' ''linux'' ''amd64'' []))))
   in FindByHostname [''p1'', ''p2''] ''web'' m = FindByHostname [''p2'', ''p1''] ''web'' m \<and>
      map_option ps_ID (FindByHostname [''p1'', ''p2''] ''web'' m) = Some ''p2''"
  (is "let m = ?m in _ m")
proof -
  have "fleet_ok []" by (simp add: fleet_ok_def gmap_ok_def gget_def)
  then have "fleet_ok ?m" by (intro fleet_ok_steps)
  moreover have "range_order [''p1'', ''p2''] ?m" "range_order [''p2'', ''p1''] ?m" by code_simp+
  moreover have "map_option ps_ID (FindByHostname [''p1'', ''p2''] ''web'' ?m) = Some ''p2''" by code_simp
  ultimately show ?thesis using find_by_hostname_best [of ?m "[''p1'', ''p2'']" "[''p2'', ''p1'']" "''web''"] by (simp add: Let_def)
qed

end
