(* ===== verification/Fleet_Store.thy ===== *)
theory Fleet_Store
  imports Fleet
begin

text \<open>
  The registry of probes on disk, \<^verbatim>\<open>controlplane/fleet/store.go\<close>: reads go to the manager in memory,
  every change goes to the manager and to the table of probes. A row is the state that
  \<^verbatim>\<open>loadAll\<close> would read from it: tags, endpoints and credentials pass through JSON, which repairs
  their UTF-8, the type is normalised, and the health and the last heartbeat are not stored. Labels
  are carried (no code writes one), and so are inventories. The errors of the database, which the
  code drops, are not modelled. The interface \<^verbatim>\<open>Fleet\<close> is a locale, interpreted by the manager and by the
  store.
\<close>

section \<open>Rows\<close>

record fleet_store =
  fs_rows :: "ProbeState list"
  fs_mgr :: fleet

definition normalizeProbeType :: "string \<Rightarrow> string" where
  "normalizeProbeType probeType =
     (if to_lower (trim_space probeType) = [] then ''agent'' else to_lower (trim_space probeType))"

definition probe_row :: "ProbeState \<Rightarrow> ProbeState" where
  "probe_row ps =
     ps\<lparr>ps_Type := normalizeProbeType (ps_Type ps), ps_Tags := map utf8_repair (ps_Tags ps), ps_Health := None,
       ps_Remote := map_option (\<lambda>c. c\<lparr>rc_Host := utf8_repair (rc_Host c), rc_Username := utf8_repair (rc_Username c),
                                     rc_AuthMode := utf8_repair (rc_AuthMode c)\<rparr>) (ps_Remote ps),
       ps_RemoteCredentials := map_option (\<lambda>c. \<lparr>rk_Password = utf8_repair (rk_Password c),
                                                rk_PrivateKey = utf8_repair (rk_PrivateKey c)\<rparr>) (ps_RemoteCredentials ps),
       ps_lastHB := None\<rparr>"

text \<open>The columns that a conflict updates are all but the identifier and the time of registration.\<close>

definition upsertProbe :: "ProbeState \<Rightarrow> ProbeState list \<Rightarrow> ProbeState list" where
  "upsertProbe ps rows =
     (if tbl_count (\<lambda>r. ps_ID r = ps_ID ps) rows = 0 then rows @ [probe_row ps]
      else tbl_update (\<lambda>r. ps_ID r = ps_ID ps) (\<lambda>r. (probe_row ps)\<lparr>ps_Registered := ps_Registered r\<rparr>) rows)"

definition updateLastSeen :: "ProbeState \<Rightarrow> ProbeState list \<Rightarrow> ProbeState list" where
  "updateLastSeen ps rows =
     tbl_update (\<lambda>r. ps_ID r = ps_ID ps) (\<lambda>r. r\<lparr>ps_LastSeen := ps_LastSeen ps, ps_Status := ps_Status ps\<rparr>) rows"

definition updateStatus :: "string \<Rightarrow> string \<Rightarrow> ProbeState list \<Rightarrow> ProbeState list" where
  "updateStatus pid status rows = tbl_update (\<lambda>r. ps_ID r = pid) (\<lambda>r. r\<lparr>ps_Status := status\<rparr>) rows"

definition loadAll_probes :: "ProbeState list \<Rightarrow> fleet" where
  "loadAll_probes rows = fold (\<lambda>ps. gput (ps_ID ps) ps) rows []"

definition fleet_NewStore :: "ProbeState list \<Rightarrow> fleet_store" where
  "fleet_NewStore rows = \<lparr>fs_rows = rows, fs_mgr = loadAll_probes rows\<rparr>"

section \<open>Operations\<close>

definition store_Register :: "time \<Rightarrow> string \<Rightarrow> string \<Rightarrow> string \<Rightarrow> string \<Rightarrow> fleet_store \<Rightarrow> ProbeState \<times> fleet_store" where
  "store_Register now pid hostname os arch s =
     (let (ps, m) = fleet_Register now pid hostname os arch (fs_mgr s)
      in (ps, \<lparr>fs_rows = upsertProbe ps (fs_rows s), fs_mgr = m\<rparr>))"

definition store_RegisterRemote ::
  "time \<Rightarrow> RemoteProbeRegistration \<Rightarrow> fleet_store \<Rightarrow> (fleet_error + ProbeState) \<times> fleet_store" where
  "store_RegisterRemote now spec s =
     (case RegisterRemote now spec (fs_mgr s) of
        (Err e, m) \<Rightarrow> (Err e, s\<lparr>fs_mgr := m\<rparr>)
      | (Ok ps, m) \<Rightarrow> (Ok ps, \<lparr>fs_rows = upsertProbe ps (fs_rows s), fs_mgr = m\<rparr>))"

text \<open>
  What the methods share: after a change in memory that succeeded, the state of the probe is written
  with \<open>write\<close>.
\<close>

definition write_through ::
  "(ProbeState \<Rightarrow> ProbeState list \<Rightarrow> ProbeState list) \<Rightarrow> string \<Rightarrow> fleet_error option \<times> fleet \<Rightarrow> fleet_store \<Rightarrow>
   fleet_error option \<times> fleet_store" where
  "write_through write pid change s =
     (case change of
        (Some e, m) \<Rightarrow> (Some e, s\<lparr>fs_mgr := m\<rparr>)
      | (None, m) \<Rightarrow>
          (None, \<lparr>fs_rows = (case gget m pid of None \<Rightarrow> fs_rows s | Some ps \<Rightarrow> write ps (fs_rows s)), fs_mgr = m\<rparr>))"

definition store_Heartbeat ::
  "time \<Rightarrow> HealthScore \<Rightarrow> json option \<Rightarrow> string \<Rightarrow> fleet_store \<Rightarrow> fleet_error option \<times> fleet_store" where
  "store_Heartbeat now h hb pid s = write_through updateLastSeen pid (Heartbeat now h hb pid (fs_mgr s)) s"

definition store_UpdateInventory :: "time \<Rightarrow> json option \<Rightarrow> string \<Rightarrow> fleet_store \<Rightarrow> fleet_error option \<times> fleet_store" where
  "store_UpdateInventory now report pid s = write_through upsertProbe pid (UpdateInventory now report pid (fs_mgr s)) s"

definition store_SetPolicy :: "CapabilityLevel \<Rightarrow> string \<Rightarrow> fleet_store \<Rightarrow> fleet_error option \<times> fleet_store" where
  "store_SetPolicy level pid s = write_through upsertProbe pid (SetPolicy level pid (fs_mgr s)) s"

definition store_SetAPIKey :: "string \<Rightarrow> string \<Rightarrow> fleet_store \<Rightarrow> fleet_error option \<times> fleet_store" where
  "store_SetAPIKey apiKey pid s = write_through upsertProbe pid (SetAPIKey apiKey pid (fs_mgr s)) s"

definition store_SetTags :: "string list \<Rightarrow> string \<Rightarrow> fleet_store \<Rightarrow> fleet_error option \<times> fleet_store" where
  "store_SetTags tags pid s = write_through upsertProbe pid (SetTags tags pid (fs_mgr s)) s"

definition store_SetTenantID :: "string \<Rightarrow> string \<Rightarrow> fleet_store \<Rightarrow> fleet_error option \<times> fleet_store" where
  "store_SetTenantID tenantID pid s =
     (case SetTenantID tenantID pid (fs_mgr s) of
        (Some e, m) \<Rightarrow> (Some e, s\<lparr>fs_mgr := m\<rparr>)
      | (None, m) \<Rightarrow>
          (None, \<lparr>fs_rows = tbl_update (\<lambda>r. ps_ID r = pid) (\<lambda>r. r\<lparr>ps_TenantID := tenantID\<rparr>) (fs_rows s), fs_mgr = m\<rparr>))"

definition store_SetStatus :: "time \<Rightarrow> string \<Rightarrow> string \<Rightarrow> fleet_store \<Rightarrow> fleet_error option \<times> fleet_store" where
  "store_SetStatus now status pid s =
     (case SetStatus now status pid (fs_mgr s) of
        (Some e, m) \<Rightarrow> (Some e, s\<lparr>fs_mgr := m\<rparr>)
      | (None, m) \<Rightarrow>
          (case gget m pid of
             None \<Rightarrow> (Some (UnknownProbe pid), s\<lparr>fs_mgr := m\<rparr>)
           | Some ps \<Rightarrow> (None, \<lparr>fs_rows = upsertProbe ps (fs_rows s), fs_mgr = m\<rparr>)))"

definition store_SetOnline :: "time \<Rightarrow> string \<Rightarrow> fleet_store \<Rightarrow> fleet_error option \<times> fleet_store" where
  "store_SetOnline now pid s =
     (case SetOnline now pid (fs_mgr s) of
        (Some e, m) \<Rightarrow> (Some e, s\<lparr>fs_mgr := m\<rparr>)
      | (None, m) \<Rightarrow>
          (case gget m pid of
             None \<Rightarrow> (Some (UnknownProbe pid), s\<lparr>fs_mgr := m\<rparr>)
           | Some ps \<Rightarrow> (None, \<lparr>fs_rows = updateLastSeen ps (fs_rows s), fs_mgr = m\<rparr>)))"

definition store_MarkOffline :: "time \<Rightarrow> duration \<Rightarrow> string list \<Rightarrow> fleet_store \<Rightarrow> fleet_store" where
  "store_MarkOffline now threshold ks s =
     (let m = MarkOffline now threshold (fs_mgr s) in
      \<lparr>fs_rows = fold (\<lambda>ps rows. if ps_Status ps = ''offline'' then updateStatus (ps_ID ps) ''offline'' rows else rows)
                   (grange ks m) (fs_rows s),
       fs_mgr = m\<rparr>)"

definition store_Delete :: "string \<Rightarrow> fleet_store \<Rightarrow> fleet_error option \<times> fleet_store" where
  "store_Delete pid s =
     (case fleet_Delete pid (fs_mgr s) of
        (Some e, m) \<Rightarrow> (Some e, s\<lparr>fs_mgr := m\<rparr>)
      | (None, m) \<Rightarrow> (None, \<lparr>fs_rows = tbl_delete (\<lambda>r. ps_ID r = pid) (fs_rows s), fs_mgr = m\<rparr>))"

definition store_CleanupOffline :: "time \<Rightarrow> duration \<Rightarrow> string list \<Rightarrow> fleet_store \<Rightarrow> string list \<times> fleet_store" where
  "store_CleanupOffline now olderThan ks s =
     (let (removed, m) = CleanupOffline now olderThan ks (fs_mgr s)
      in (removed, \<lparr>fs_rows = fold (\<lambda>pid. tbl_delete (\<lambda>r. ps_ID r = pid)) removed (fs_rows s), fs_mgr = m\<rparr>))"

text \<open>
  The query of \<^verbatim>\<open>FindByHostname\<close> orders the rows of a name by rank, last contact, time of registration and
  identifier. Status is compared in lower case and times as text; the query runs only where the
  memory has no probe of the name.
\<close>

definition sql_rank :: "string \<Rightarrow> nat" where
  "sql_rank status =
     (let s = to_lower status in
      if s = ''online'' then 4 else if s = ''degraded'' then 3 else if s = ''pending'' then 2
      else if s = ''offline'' then 1 else 0)"

definition sql_before :: "ProbeState \<Rightarrow> ProbeState \<Rightarrow> bool" where
  "sql_before a b \<longleftrightarrow>
     (if sql_rank (ps_Status a) \<noteq> sql_rank (ps_Status b) then sql_rank (ps_Status a) > sql_rank (ps_Status b)
      else if rfc3339_nano (ps_LastSeen a) \<noteq> rfc3339_nano (ps_LastSeen b)
      then bytes_le (rfc3339_nano (ps_LastSeen b)) (rfc3339_nano (ps_LastSeen a))
      else if rfc3339_nano (ps_Registered a) \<noteq> rfc3339_nano (ps_Registered b)
      then bytes_le (rfc3339_nano (ps_Registered b)) (rfc3339_nano (ps_Registered a))
      else bytes_le (ps_ID a) (ps_ID b))"

definition store_FindByHostname :: "string list \<Rightarrow> string \<Rightarrow> fleet_store \<Rightarrow> ProbeState option" where
  "store_FindByHostname ks hostname s =
     (case FindByHostname ks hostname (fs_mgr s) of
        Some ps \<Rightarrow> Some ps
      | None \<Rightarrow>
          (case sort_by sql_before (filter (\<lambda>r. ps_Hostname r = hostname) (fs_rows s)) of
             [] \<Rightarrow> None
           | r # _ \<Rightarrow> gget (fs_mgr s) (ps_ID r)))"

section \<open>The interface\<close>

text \<open>
  The Go interface \<^verbatim>\<open>Fleet\<close>, as far as the registration calls it, as a record of methods; a value of
  the interface is such a record with the state it acts on. Manager and store both implement it.
\<close>

record 's fleet_methods =
  fi_Register :: "time \<Rightarrow> string \<Rightarrow> string \<Rightarrow> string \<Rightarrow> string \<Rightarrow> 's \<Rightarrow> ProbeState \<times> 's"
  fi_Get :: "string \<Rightarrow> 's \<Rightarrow> ProbeState option"
  fi_FindByHostname :: "string list \<Rightarrow> string \<Rightarrow> 's \<Rightarrow> ProbeState option"
  fi_List :: "string list \<Rightarrow> 's \<Rightarrow> ProbeState list"
  fi_SetAPIKey :: "string \<Rightarrow> string \<Rightarrow> 's \<Rightarrow> fleet_error option \<times> 's"
  fi_SetTags :: "string list \<Rightarrow> string \<Rightarrow> 's \<Rightarrow> fleet_error option \<times> 's"
  fi_SetTenantID :: "string \<Rightarrow> string \<Rightarrow> 's \<Rightarrow> fleet_error option \<times> 's"
  fi_Delete :: "string \<Rightarrow> 's \<Rightarrow> fleet_error option \<times> 's"

definition Manager_fleet :: "fleet fleet_methods" where
  "Manager_fleet =
     \<lparr>fi_Register = fleet_Register, fi_Get = (\<lambda>pid m. gget m pid), fi_FindByHostname = FindByHostname, fi_List = grange,
      fi_SetAPIKey = SetAPIKey, fi_SetTags = SetTags, fi_SetTenantID = SetTenantID, fi_Delete = fleet_Delete\<rparr>"

definition Store_fleet :: "fleet_store fleet_methods" where
  "Store_fleet =
     \<lparr>fi_Register = store_Register, fi_Get = (\<lambda>pid s. gget (fs_mgr s) pid), fi_FindByHostname = store_FindByHostname,
      fi_List = (\<lambda>ks s. grange ks (fs_mgr s)), fi_SetAPIKey = store_SetAPIKey, fi_SetTags = store_SetTags,
      fi_SetTenantID = store_SetTenantID, fi_Delete = store_Delete\<rparr>"

text \<open>The methods of the interface \<^verbatim>\<open>Fleet\<close> that change the registry, on the manager and on the store.\<close>

datatype fleet_op =
    FRegister time string string string string
  | FRegisterRemote time RemoteProbeRegistration
  | FHeartbeat time HealthScore "json option" string
  | FInventory time "json option" string
  | FPolicy CapabilityLevel string
  | FAPIKey string string
  | FTags "string list" string
  | FTenant string string
  | FStatus time string string
  | FOnline time string
  | FMarkOffline time duration "string list"
  | FDelete string
  | FCleanup time duration "string list"

fun fleet_exec :: "fleet_op \<Rightarrow> fleet \<Rightarrow> fleet" where
  "fleet_exec (FRegister now pid h os arch) m = snd (fleet_Register now pid h os arch m)"
| "fleet_exec (FRegisterRemote now spec) m = snd (RegisterRemote now spec m)"
| "fleet_exec (FHeartbeat now score hb pid) m = snd (Heartbeat now score hb pid m)"
| "fleet_exec (FInventory now report pid) m = snd (UpdateInventory now report pid m)"
| "fleet_exec (FPolicy level pid) m = snd (SetPolicy level pid m)"
| "fleet_exec (FAPIKey key pid) m = snd (SetAPIKey key pid m)"
| "fleet_exec (FTags tags pid) m = snd (SetTags tags pid m)"
| "fleet_exec (FTenant tn pid) m = snd (SetTenantID tn pid m)"
| "fleet_exec (FStatus now st pid) m = snd (SetStatus now st pid m)"
| "fleet_exec (FOnline now pid) m = snd (SetOnline now pid m)"
| "fleet_exec (FMarkOffline now d ks) m = MarkOffline now d m"
| "fleet_exec (FDelete pid) m = snd (fleet_Delete pid m)"
| "fleet_exec (FCleanup now d ks) m = snd (CleanupOffline now d ks m)"

fun store_exec :: "fleet_op \<Rightarrow> fleet_store \<Rightarrow> fleet_store" where
  "store_exec (FRegister now pid h os arch) s = snd (store_Register now pid h os arch s)"
| "store_exec (FRegisterRemote now spec) s = snd (store_RegisterRemote now spec s)"
| "store_exec (FHeartbeat now score hb pid) s = snd (store_Heartbeat now score hb pid s)"
| "store_exec (FInventory now report pid) s = snd (store_UpdateInventory now report pid s)"
| "store_exec (FPolicy level pid) s = snd (store_SetPolicy level pid s)"
| "store_exec (FAPIKey key pid) s = snd (store_SetAPIKey key pid s)"
| "store_exec (FTags tags pid) s = snd (store_SetTags tags pid s)"
| "store_exec (FTenant tn pid) s = snd (store_SetTenantID tn pid s)"
| "store_exec (FStatus now st pid) s = snd (store_SetStatus now st pid s)"
| "store_exec (FOnline now pid) s = snd (store_SetOnline now pid s)"
| "store_exec (FMarkOffline now d ks) s = store_MarkOffline now d ks s"
| "store_exec (FDelete pid) s = snd (store_Delete pid s)"
| "store_exec (FCleanup now d ks) s = snd (store_CleanupOffline now d ks s)"

text \<open>A loop over the registry visits every probe once; \<open>store_run\<close> also restarts the control plane.\<close>

fun visits_all :: "fleet_op \<Rightarrow> fleet \<Rightarrow> bool" where
  "visits_all (FMarkOffline now d ks) m \<longleftrightarrow> range_order ks m"
| "visits_all (FCleanup now d ks) m \<longleftrightarrow> range_order ks m"
| "visits_all p m \<longleftrightarrow> True"

fun loops_ok :: "fleet_op list \<Rightarrow> fleet \<Rightarrow> bool" where
  "loops_ok [] m \<longleftrightarrow> True"
| "loops_ok (p # ps) m \<longleftrightarrow> visits_all p m \<and> loops_ok ps (fleet_exec p m)"

text \<open>What a restart keeps of a probe: all that a row holds but the time of registration.\<close>

definition durable :: "ProbeState \<Rightarrow> ProbeState" where
  "durable ps = (probe_row ps)\<lparr>ps_Registered := 0\<rparr>"

text \<open>The table and the map hold the same probes.\<close>

definition probe_row_of :: "ProbeState list \<Rightarrow> string \<Rightarrow> ProbeState option" where
  "probe_row_of rows k = tbl_first (\<lambda>r. ps_ID r = k) rows"

definition mem_ok :: "fleet \<Rightarrow> bool" where
  "mem_ok m \<longleftrightarrow> gmap_ok m \<and> (\<forall>k ps. gget m k = Some ps \<longrightarrow> ps_ID ps = k)"

definition rows_ok :: "ProbeState list \<Rightarrow> bool" where
  "rows_ok rows \<longleftrightarrow> distinct (map ps_ID rows) \<and> (\<forall>r \<in> set rows. probe_row r = r)"

definition agree :: "ProbeState list \<Rightarrow> fleet \<Rightarrow> bool" where
  "agree rows m \<longleftrightarrow> (\<forall>k. map_option durable (probe_row_of rows k) = map_option durable (gget m k))"

definition store_ok :: "fleet_store \<Rightarrow> bool" where
  "store_ok s \<longleftrightarrow> mem_ok (fs_mgr s) \<and> rows_ok (fs_rows s) \<and> agree (fs_rows s) (fs_mgr s)"

section \<open>Lemmas\<close>

lemma probe_type_idem [simp]: "normalizeProbeType (normalizeProbeType t) = normalizeProbeType t"
proof -
  have "to_lower (trim_space ''agent'') = ''agent''" by code_simp
  then show ?thesis by (simp add: normalizeProbeType_def trim_space_to_lower)
qed

lemma probe_row_idem [simp]: "probe_row (probe_row ps) = probe_row ps"
  by (simp add: probe_row_def option.map_comp comp_def)

lemma probe_row_fields [simp]:
  "ps_ID (probe_row ps) = ps_ID ps" "ps_Hostname (probe_row ps) = ps_Hostname ps"
  "ps_Registered (probe_row ps) = ps_Registered ps"
  "probe_row (ps\<lparr>ps_Registered := t\<rparr>) = (probe_row ps)\<lparr>ps_Registered := t\<rparr>"
  "probe_row (ps\<lparr>ps_LastSeen := t\<rparr>) = (probe_row ps)\<lparr>ps_LastSeen := t\<rparr>"
  "probe_row (ps\<lparr>ps_Status := v\<rparr>) = (probe_row ps)\<lparr>ps_Status := v\<rparr>"
  "probe_row (ps\<lparr>ps_TenantID := v\<rparr>) = (probe_row ps)\<lparr>ps_TenantID := v\<rparr>"
  "probe_row (ps\<lparr>ps_Health := h\<rparr>) = probe_row ps" "probe_row (ps\<lparr>ps_lastHB := hb\<rparr>) = probe_row ps"
  by (simp_all add: probe_row_def)

lemma durable_fields [simp]:
  "durable (probe_row ps) = durable ps" "durable (ps\<lparr>ps_Registered := t\<rparr>) = durable ps"
  "durable (ps\<lparr>ps_LastSeen := t\<rparr>) = (durable ps)\<lparr>ps_LastSeen := t\<rparr>"
  "durable (ps\<lparr>ps_Status := v\<rparr>) = (durable ps)\<lparr>ps_Status := v\<rparr>"
  "durable (ps\<lparr>ps_TenantID := v\<rparr>) = (durable ps)\<lparr>ps_TenantID := v\<rparr>"
  "durable (ps\<lparr>ps_Health := h\<rparr>) = durable ps" "durable (ps\<lparr>ps_lastHB := hb\<rparr>) = durable ps"
  "ps_Hostname (durable ps) = ps_Hostname ps"
  by (simp_all add: durable_def)

text \<open>One statement on the row of a probe.\<close>

lemma row_update:
  assumes "\<And>r. ps_ID r = pid \<Longrightarrow> ps_ID (f r) = pid"
  shows "probe_row_of (tbl_update (\<lambda>r. ps_ID r = pid) f rows) k =
    (if k = pid then map_option f (probe_row_of rows k) else probe_row_of rows k)"
  using assms by (induction rows) (auto simp: probe_row_of_def tbl_first_def tbl_update_def)

lemma rows_ok_update:
  assumes "rows_ok rows" and "\<And>r. ps_ID r = pid \<Longrightarrow> ps_ID (f r) = pid"
    and "\<And>r. probe_row r = r \<Longrightarrow> probe_row (f r) = f r"
  shows "rows_ok (tbl_update (\<lambda>r. ps_ID r = pid) f rows)"
proof -
  have "map ps_ID (tbl_update (\<lambda>r. ps_ID r = pid) f rows) = map ps_ID rows"
    using assms(2) by (simp add: tbl_update_def)
  with assms(1,3) show ?thesis by (auto simp: rows_ok_def set_tbl_update)
qed

lemma row_delete: "probe_row_of (tbl_delete (\<lambda>r. ps_ID r = pid) rows) k = (if k = pid then None else probe_row_of rows k)"
  by (induction rows) (auto simp: probe_row_of_def tbl_first_def tbl_delete_def)

lemma rows_ok_delete: "rows_ok rows \<Longrightarrow> rows_ok (tbl_delete P rows)"
  by (auto simp: rows_ok_def tbl_delete_def distinct_map_filter)

lemma row_append: "probe_row_of (rows @ [r]) k = (case probe_row_of rows k of None \<Rightarrow> if ps_ID r = k then Some r else None | Some x \<Rightarrow> Some x)"
  by (simp add: probe_row_of_def tbl_first_append split: option.split)

lemma row_None: "probe_row_of rows k = None \<longleftrightarrow> (\<forall>r \<in> set rows. ps_ID r \<noteq> k)"
  by (simp add: probe_row_of_def tbl_first_None)

lemma agree_upsert:
  assumes "agree rows m"
  shows "agree (upsertProbe ps rows) (gput (ps_ID ps) ps m)"
proof (cases "tbl_count (\<lambda>r. ps_ID r = ps_ID ps) rows = 0")
  case True
  then have "probe_row_of rows (ps_ID ps) = None" by (auto simp: row_None tbl_count_0)
  then have "map_option durable (probe_row_of (rows @ [probe_row ps]) k) =
      (if k = ps_ID ps then Some (durable ps) else map_option durable (probe_row_of rows k))" for k
    by (cases "probe_row_of rows k") (auto simp: row_append)
  with True assms show ?thesis by (simp add: agree_def upsertProbe_def gmap_simps)
next
  case False
  then obtain r where "probe_row_of rows (ps_ID ps) = Some r"
    by (cases "probe_row_of rows (ps_ID ps)") (auto simp: row_None tbl_count_0)
  with False assms show ?thesis by (simp add: agree_def upsertProbe_def row_update gmap_simps)
qed

lemma rows_ok_upsert:
  assumes "rows_ok rows"
  shows "rows_ok (upsertProbe ps rows)"
proof (cases "tbl_count (\<lambda>r. ps_ID r = ps_ID ps) rows = 0")
  case True
  with assms show ?thesis by (auto simp: rows_ok_def upsertProbe_def tbl_count_0)
next
  case False
  with assms show ?thesis by (simp add: upsertProbe_def rows_ok_update)
qed

lemma agree_update:
  assumes "agree rows m" and "gget m pid = Some ps" and "\<And>r. ps_ID r = pid \<Longrightarrow> ps_ID (f r) = pid"
    and "\<And>r. durable r = durable ps \<Longrightarrow> durable (f r) = durable ps'"
  shows "agree (tbl_update (\<lambda>r. ps_ID r = pid) f rows) (gput pid ps' m)"
proof -
  have "map_option durable (probe_row_of rows pid) = Some (durable ps)" using assms(1,2) by (simp add: agree_def)
  then obtain r where "probe_row_of rows pid = Some r" "durable r = durable ps" by auto
  with assms show ?thesis by (simp add: agree_def row_update gmap_simps)
qed

lemma mem_ok_put: "mem_ok m \<Longrightarrow> ps_ID ps = k \<Longrightarrow> mem_ok (gput k ps m)"
  by (auto simp: mem_ok_def gmap_simps)

text \<open>A change of a known probe that is then written as a whole, or with one statement.\<close>

lemma store_ok_upsert:
  "store_ok s \<Longrightarrow> store_ok \<lparr>fs_rows = upsertProbe ps (fs_rows s), fs_mgr = gput (ps_ID ps) ps (fs_mgr s)\<rparr>"
  by (simp add: store_ok_def mem_ok_put rows_ok_upsert agree_upsert)

lemma store_ok_write:
  assumes "store_ok s" and "\<And>ps. ps_ID (f ps) = ps_ID ps"
  shows "store_ok (snd (write_through upsertProbe pid (update_probe pid f (fs_mgr s)) s))"
proof (cases "gget (fs_mgr s) pid")
  case None
  with assms show ?thesis by (simp add: write_through_def update_probe_def)
next
  case (Some ps)
  then have "ps_ID (f ps) = pid" using assms by (auto simp: store_ok_def mem_ok_def)
  with Some assms(1) store_ok_upsert [OF assms(1), of "f ps"] show ?thesis
    by (simp add: write_through_def update_probe_def gmap_simps)
qed

lemma store_ok_statement:
  assumes "store_ok s" and "gget (fs_mgr s) pid = Some ps" and "ps_ID ps' = ps_ID ps"
    and "\<And>r. ps_ID (f r) = ps_ID r" and "\<And>r. probe_row r = r \<Longrightarrow> probe_row (f r) = f r"
    and "\<And>r. durable r = durable ps \<Longrightarrow> durable (f r) = durable ps'"
  shows "store_ok \<lparr>fs_rows = tbl_update (\<lambda>r. ps_ID r = pid) f (fs_rows s), fs_mgr = gput pid ps' (fs_mgr s)\<rparr>"
proof -
  have "ps_ID ps = pid" using assms(1,2) by (auto simp: store_ok_def mem_ok_def)
  with assms show ?thesis
    by (simp add: store_ok_def mem_ok_put rows_ok_update agree_update [where ps = ps])
qed

text \<open>The loops.\<close>

lemma row_mark:
  "probe_row_of (fold (\<lambda>ps rows. if ps_Status ps = ''offline'' then updateStatus (ps_ID ps) ''offline'' rows else rows) pss rows) k =
   map_option (\<lambda>r. if \<exists>ps \<in> set pss. ps_ID ps = k \<and> ps_Status ps = ''offline'' then r\<lparr>ps_Status := ''offline''\<rparr> else r) (probe_row_of rows k)"
proof (induction pss arbitrary: rows)
  case Nil
  then show ?case by (simp add: option.map_ident)
next
  case (Cons ps pss)
  then show ?case by (cases "probe_row_of rows k") (auto simp: updateStatus_def row_update)
qed

lemma rows_ok_mark:
  "rows_ok rows \<Longrightarrow>
   rows_ok (fold (\<lambda>ps rows. if ps_Status ps = ''offline'' then updateStatus (ps_ID ps) ''offline'' rows else rows) pss rows)"
proof (induction pss arbitrary: rows)
  case (Cons ps pss)
  have "rows_ok (updateStatus (ps_ID ps) ''offline'' rows)"
    unfolding updateStatus_def using Cons.prems by (rule rows_ok_update) simp_all
  with Cons show ?case by simp
qed simp

lemma row_cleanup:
  "probe_row_of (fold (\<lambda>pid. tbl_delete (\<lambda>r. ps_ID r = pid)) ids rows) k = (if k \<in> set ids then None else probe_row_of rows k)"
  by (induction ids arbitrary: rows) (auto simp: row_delete)

lemma rows_ok_cleanup: "rows_ok rows \<Longrightarrow> rows_ok (fold (\<lambda>pid. tbl_delete (\<lambda>r. ps_ID r = pid)) ids rows)"
  by (induction ids arbitrary: rows) (auto simp: rows_ok_delete)

text \<open>Every method of the store keeps table and map together.\<close>

lemma step_write:
  assumes "store_ok s"
  shows "store_ok (snd (store_UpdateInventory now report pid s))" "store_ok (snd (store_SetPolicy level pid s))"
    "store_ok (snd (store_SetAPIKey key pid s))" "store_ok (snd (store_SetTags tags pid s))"
  using assms
  by (simp_all add: store_UpdateInventory_def UpdateInventory_def store_SetPolicy_def SetPolicy_def store_SetAPIKey_def
      SetAPIKey_def store_SetTags_def SetTags_def store_ok_write)

lemma step_register:
  assumes "store_ok s"
  shows "store_ok (snd (store_Register now pid h os arch s))" "store_ok (snd (store_RegisterRemote now spec s))"
proof -
  show "store_ok (snd (store_Register now pid h os arch s))"
    using store_ok_upsert [OF assms, of "fst (fleet_Register now pid h os arch (fs_mgr s))"]
    by (simp add: store_Register_def fleet_Register_def Let_def)
  show "store_ok (snd (store_RegisterRemote now spec s))"
    using assms store_ok_upsert [OF assms, of "remote_state now spec"]
    by (simp add: store_RegisterRemote_def RegisterRemote_def Let_def)
qed

lemma step_statement:
  assumes "store_ok s"
  shows "store_ok (snd (store_Heartbeat now score hb pid s))" "store_ok (snd (store_SetOnline now pid s))"
    "store_ok (snd (store_SetTenantID tn pid s))"
proof -
  have id: "ps_ID ps = pid" if "gget (fs_mgr s) pid = Some ps" for ps
    using that assms by (auto simp: store_ok_def mem_ok_def)
  show "store_ok (snd (store_Heartbeat now score hb pid s))"
    using assms id
    by (cases "gget (fs_mgr s) pid")
      (auto simp: store_Heartbeat_def Heartbeat_def write_through_def update_probe_def updateLastSeen_def gmap_simps
        intro!: store_ok_statement)
  show "store_ok (snd (store_SetOnline now pid s))"
    using assms id
    by (cases "gget (fs_mgr s) pid")
      (auto simp: store_SetOnline_def SetOnline_def update_probe_def updateLastSeen_def gmap_simps
        intro!: store_ok_statement)
  show "store_ok (snd (store_SetTenantID tn pid s))"
    using assms id
    by (cases "gget (fs_mgr s) pid")
      (auto simp: store_SetTenantID_def SetTenantID_def update_probe_def gmap_simps intro!: store_ok_statement)
qed

lemma step_status:
  assumes "store_ok s"
  shows "store_ok (snd (store_SetStatus now st pid s))"
proof (cases "gget (fs_mgr s) pid = None \<or> to_lower (trim_space st) = []")
  case True
  with assms show ?thesis by (auto simp: store_SetStatus_def SetStatus_def Let_def)
next
  case False
  then obtain ps where ps: "gget (fs_mgr s) pid = Some ps" by auto
  then have "ps_ID ps = pid" using assms by (auto simp: store_ok_def mem_ok_def)
  define st' where "st' = to_lower (trim_space st)"
  define ps' where "ps' = ps\<lparr>ps_Status := st', ps_LastSeen := (if st' = ''online'' \<or> st' = ''degraded'' then now else ps_LastSeen ps)\<rparr>"
  have "ps_ID ps' = pid" using \<open>ps_ID ps = pid\<close> by (simp add: ps'_def)
  have "SetStatus now st pid (fs_mgr s) = (None, gput pid ps' (fs_mgr s))"
    using False ps by (simp add: SetStatus_def update_probe_def ps'_def st'_def Let_def)
  then show ?thesis
    using store_ok_upsert [OF assms, of ps'] \<open>ps_ID ps' = pid\<close> by (simp add: store_SetStatus_def gmap_simps)
qed

lemma store_row: "store_ok s \<Longrightarrow> map_option durable (probe_row_of (fs_rows s) k) = map_option durable (gget (fs_mgr s) k)"
  by (simp add: store_ok_def agree_def)

lemma store_row_None: "store_ok s \<Longrightarrow> probe_row_of (fs_rows s) k = None \<longleftrightarrow> gget (fs_mgr s) k = None"
  using store_row [of s k] by (metis option.map_disc_iff)

lemma step_mark:
  assumes "store_ok s" and "range_order ks (fs_mgr s)"
  shows "store_ok (store_MarkOffline now d ks s)"
proof -
  let ?m = "MarkOffline now d (fs_mgr s)"
  have ok: "mem_ok ?m" using assms(1) by (auto simp: store_ok_def mem_ok_def MarkOffline_def gmap_simps)
  have ro: "range_order ks ?m"
    using assms(2) by (simp add: range_order_def MarkOffline_def gmap_all_def image_image case_prod_unfold)
  have mem: "(\<exists>ps \<in> set (grange ks ?m). ps_ID ps = k \<and> ps_Status ps = ''offline'') \<longleftrightarrow>
      (\<exists>ps. gget ?m k = Some ps \<and> ps_Status ps = ''offline'')" for k
    using ok in_grange_order [OF ro] by (auto simp: mem_ok_def)
  have "map_option durable (probe_row_of (fs_rows (store_MarkOffline now d ks s)) k) = map_option durable (gget ?m k)" for k
  proof (cases "gget (fs_mgr s) k")
    case None
    then have "probe_row_of (fs_rows s) k = None" using assms(1) by (simp add: store_row_None)
    with None show ?thesis by (simp add: store_MarkOffline_def Let_def row_mark MarkOffline_def gmap_simps)
  next
    case (Some ps)
    then have "map_option durable (probe_row_of (fs_rows s) k) = Some (durable ps)" using assms(1) by (simp add: store_row)
    then obtain r where r: "probe_row_of (fs_rows s) k = Some r" "durable r = durable ps" by auto
    define ps' where "ps' = (if ps_Status ps \<noteq> ''offline'' \<and> ps_LastSeen ps < now - d then ps\<lparr>ps_Status := ''offline''\<rparr> else ps)"
    have g: "gget ?m k = Some ps'" using Some by (simp add: MarkOffline_def gmap_simps ps'_def)
    have "(durable ps)\<lparr>ps_Status := ''offline''\<rparr> = durable ps'" if "ps_Status ps' = ''offline''"
    proof (cases "ps_Status ps = ''offline''")
      case True
      then show ?thesis by (simp add: ps'_def durable_def probe_row_def)
    next
      case False
      with that show ?thesis by (simp add: ps'_def split: if_splits)
    qed
    moreover have "durable ps = durable ps'" if "ps_Status ps' \<noteq> ''offline''"
      using that by (simp add: ps'_def split: if_splits)
    ultimately show ?thesis using r g by (simp add: store_MarkOffline_def Let_def row_mark mem)
  qed
  then show ?thesis
    using assms(1) ok by (simp add: store_ok_def agree_def store_MarkOffline_def Let_def rows_ok_mark)
qed

lemma step_delete:
  assumes "store_ok s"
  shows "store_ok (snd (store_Delete pid s))"
  using assms
  by (auto simp: store_Delete_def fleet_Delete_def store_ok_def mem_ok_def agree_def rows_ok_delete row_delete gmap_simps)

lemma step_cleanup:
  assumes "store_ok s" and "range_order ks (fs_mgr s)"
  shows "store_ok (snd (store_CleanupOffline now d ks s))"
proof -
  let ?m = "fs_mgr s"
  have g: "gmap_ok ?m" using assms(1) by (simp add: store_ok_def mem_ok_def)
  have ks: "k \<in> set ks" if "gget ?m k = Some ps" for k ps
    using assms(2) gget_key [OF that] by (simp add: range_order_def)
  have "mem_ok (gkeep P ?m)" for P
    using assms(1) g by (auto simp: store_ok_def mem_ok_def gmap_simps split: bind_splits if_splits)
  moreover have "map_option durable (probe_row_of (fs_rows (snd (store_CleanupOffline now d ks s))) k) =
      map_option durable (gget (gkeep (\<lambda>ps. \<not> long_offline now d ps) ?m) k)" for k
    using assms(1) ks [of k] g
    by (cases "gget ?m k") (simp_all add: store_CleanupOffline_def CleanupOffline_def row_cleanup gmap_simps store_ok_def agree_def)
  ultimately show ?thesis
    using assms(1) by (simp add: store_ok_def agree_def store_CleanupOffline_def CleanupOffline_def rows_ok_cleanup)
qed

lemma store_ok_step: "store_ok s \<Longrightarrow> visits_all p (fs_mgr s) \<Longrightarrow> store_ok (store_exec p s)"
  by (cases p) (simp_all add: step_write step_register step_statement step_status step_mark step_delete step_cleanup)

lemma store_mgr: "fs_mgr (store_exec p s) = fleet_exec p (fs_mgr s)"
  by (cases p)
    (auto simp: store_Register_def store_RegisterRemote_def store_Heartbeat_def store_UpdateInventory_def store_SetPolicy_def
      store_SetAPIKey_def store_SetTags_def store_SetTenantID_def store_SetStatus_def store_SetOnline_def store_MarkOffline_def
      store_Delete_def store_CleanupOffline_def write_through_def Let_def split: prod.splits option.splits sum.splits)

lemma store_run:
  "store_ok s \<Longrightarrow> loops_ok ps (fs_mgr s) \<Longrightarrow>
   store_ok (fold store_exec ps s) \<and> fs_mgr (fold store_exec ps s) = fold fleet_exec ps (fs_mgr s)"
  by (induction ps arbitrary: s) (simp_all add: store_ok_step store_mgr)

text \<open>Reading the table back.\<close>

lemma load_first:
  assumes "distinct (map ps_ID rows)"
  shows "gget (loadAll_probes rows) k = probe_row_of rows k"
proof -
  have "gget (fold (\<lambda>ps. gput (ps_ID ps) ps) rows m) k = (case probe_row_of rows k of Some r \<Rightarrow> Some r | None \<Rightarrow> gget m k)" for m
    using assms
  proof (induction rows arbitrary: m)
    case (Cons r rows)
    have "probe_row_of rows k = None" if "ps_ID r = k"
      using that Cons.prems by (simp add: row_None) (metis imageI)
    with Cons show ?case by (auto simp: gmap_simps probe_row_of_def tbl_first_def split: option.splits)
  qed (simp add: probe_row_of_def tbl_first_def)
  then show ?thesis by (simp add: loadAll_probes_def split: option.split)
qed

lemma gmap_ok_load: "gmap_ok m \<Longrightarrow> gmap_ok (fold (\<lambda>ps. gput (ps_ID ps) ps) rows m)"
  by (induction rows arbitrary: m) (simp_all add: gmap_simps)

lemma store_ok_restart:
  assumes "store_ok s"
  shows "store_ok (fleet_NewStore (fs_rows s))"
proof -
  have d: "distinct (map ps_ID (fs_rows s))" using assms by (simp add: store_ok_def rows_ok_def)
  have "ps_ID ps = k" if "probe_row_of (fs_rows s) k = Some ps" for k ps
    using that tbl_firstD [of _ "fs_rows s" ps] by (auto simp: probe_row_of_def)
  then have "mem_ok (loadAll_probes (fs_rows s))"
    using gmap_ok_load [of "[]" "fs_rows s"] by (auto simp: mem_ok_def load_first [OF d]) (simp add: loadAll_probes_def)
  then show ?thesis using assms by (simp add: store_ok_def fleet_NewStore_def agree_def load_first [OF d])
qed

lemma store_find:
  assumes "store_ok s" and "range_order ks (fs_mgr s)"
  shows "store_FindByHostname ks h s = FindByHostname ks h (fs_mgr s)"
proof (cases "FindByHostname ks h (fs_mgr s)")
  case None
  have none: "ps_Hostname ps \<noteq> h" if "gget (fs_mgr s) k = Some ps" for k ps
    using that None in_grange_order [OF assms(2)] by (auto simp: FindByHostname_def better_loop_None)
  have "ps_Hostname r \<noteq> h" if "r \<in> set (fs_rows s)" for r
  proof -
    have "probe_row_of (fs_rows s) (ps_ID r) = Some r"
      using that assms(1) tbl_first_unique [of ps_ID "fs_rows s" r] by (simp add: probe_row_of_def store_ok_def rows_ok_def)
    moreover have "map_option durable (probe_row_of (fs_rows s) (ps_ID r)) = map_option durable (gget (fs_mgr s) (ps_ID r))"
      using assms(1) by (simp add: store_ok_def agree_def)
    ultimately have "map_option durable (gget (fs_mgr s) (ps_ID r)) = Some (durable r)" by simp
    then obtain ps where "gget (fs_mgr s) (ps_ID r) = Some ps" "durable ps = durable r" by auto
    then show ?thesis using none by (metis durable_fields(8))
  qed
  then have "filter (\<lambda>r. ps_Hostname r = h) (fs_rows s) = []" by (simp add: filter_empty_conv)
  with None show ?thesis by (simp add: store_FindByHostname_def sort_by_def)
qed (simp add: store_FindByHostname_def)

text \<open>The time of registration is not updated on disk: a restart brings back the first one.\<close>

lemma restart_reverts_registered:
  "let s = snd (store_Register 9 ''p1'' ''web'' ''linux'' ''amd64'' (snd (store_Register 1 ''p1'' ''web'' ''linux'' ''amd64'' (fleet_NewStore []))))
   in map_option ps_Registered (gget (fs_mgr s) ''p1'') = Some 9 \<and>
      map_option ps_Registered (gget (fs_mgr (fleet_NewStore (fs_rows s))) ''p1'') = Some 1"
  by code_simp

text \<open>
  What the interface promises: seen through \<open>view\<close> every method does what that of the manager does,
  and the states in which this holds are kept.
\<close>

locale fleet_interface =
  fixes fm :: "'s fleet_methods" and view :: "'s \<Rightarrow> fleet" and ok :: "'s \<Rightarrow> bool"
  assumes get_view: "fi_Get fm pid s = gget (view s) pid"
    and list_view: "fi_List fm ks s = grange ks (view s)"
    and find_view: "ok s \<Longrightarrow> range_order ks (view s) \<Longrightarrow> fi_FindByHostname fm ks h s = FindByHostname ks h (view s)"
    and register_view: "map_prod (\<lambda>x. x) view (fi_Register fm now pid h os arch s) = fleet_Register now pid h os arch (view s)"
    and key_view: "map_prod (\<lambda>x. x) view (fi_SetAPIKey fm key pid s) = SetAPIKey key pid (view s)"
    and tags_view: "map_prod (\<lambda>x. x) view (fi_SetTags fm tags pid s) = SetTags tags pid (view s)"
    and tenant_view: "map_prod (\<lambda>x. x) view (fi_SetTenantID fm tn pid s) = SetTenantID tn pid (view s)"
    and delete_view: "map_prod (\<lambda>x. x) view (fi_Delete fm pid s) = fleet_Delete pid (view s)"
    and steps_ok: "ok s \<Longrightarrow> ok (snd (fi_Register fm now pid h os arch s))" "ok s \<Longrightarrow> ok (snd (fi_SetAPIKey fm key pid s))"
      "ok s \<Longrightarrow> ok (snd (fi_SetTags fm tags pid s))" "ok s \<Longrightarrow> ok (snd (fi_SetTenantID fm tn pid s))"
      "ok s \<Longrightarrow> ok (snd (fi_Delete fm pid s))"

interpretation mem: fleet_interface Manager_fleet "\<lambda>m. m" "\<lambda>_. True"
  by unfold_locales (simp_all add: Manager_fleet_def prod.map_ident)

lemma store_views:
  "map_prod (\<lambda>x. x) fs_mgr (store_Register now pid h os arch s) = fleet_Register now pid h os arch (fs_mgr s)"
  "map_prod (\<lambda>x. x) fs_mgr (store_SetAPIKey key pid s) = SetAPIKey key pid (fs_mgr s)"
  "map_prod (\<lambda>x. x) fs_mgr (store_SetTags tags pid s) = SetTags tags pid (fs_mgr s)"
  "map_prod (\<lambda>x. x) fs_mgr (store_SetTenantID tn pid s) = SetTenantID tn pid (fs_mgr s)"
  "map_prod (\<lambda>x. x) fs_mgr (store_Delete pid s) = fleet_Delete pid (fs_mgr s)"
  by (auto simp: store_Register_def store_SetAPIKey_def store_SetTags_def store_SetTenantID_def store_Delete_def
      write_through_def split: prod.splits option.splits)

interpretation disk: fleet_interface Store_fleet fs_mgr store_ok
  by unfold_locales
    (simp_all add: Store_fleet_def store_views store_find step_register step_write step_statement step_delete)

section \<open>Properties\<close>

text \<open>
  Property C22. The registry on disk behaves as the one in memory and survives a restart. After any
  sequence of the methods of the interface the map of the store is that of the manager, a host name
  finds the same probe in both although the store also asks its table, and a restart gives back
  every probe and no other, with all that a row holds (key, tenant, level, tags, status, last
  contact, endpoint, credentials and inventory) except its time of registration. The state after
  the restart is again one from which this holds.
\<close>

theorem fleet_survives_restart:
  assumes "store_ok s" and "loops_ok ops (fs_mgr s)"
  shows "let s' = fold store_exec ops s; m = fs_mgr s'; r = fleet_NewStore (fs_rows s') in
    m = fold fleet_exec ops (fs_mgr s) \<and>
    (\<forall>ks h. range_order ks m \<longrightarrow> store_FindByHostname ks h s' = FindByHostname ks h m) \<and>
    (\<forall>k. map_option durable (gget (fs_mgr r) k) = map_option durable (gget m k)) \<and> store_ok r"
proof -
  let ?s = "fold store_exec ops s"
  have ok: "store_ok ?s" and eq: "fs_mgr ?s = fold fleet_exec ops (fs_mgr s)" using store_run [OF assms] by auto
  have "gget (fs_mgr (fleet_NewStore (fs_rows ?s))) k = probe_row_of (fs_rows ?s) k" for k
    using ok by (simp add: fleet_NewStore_def load_first store_ok_def rows_ok_def)
  then have "map_option durable (gget (fs_mgr (fleet_NewStore (fs_rows ?s))) k) = map_option durable (gget (fs_mgr ?s) k)" for k
    using ok by (simp add: store_ok_def agree_def)
  then show ?thesis using eq store_find [OF ok] store_ok_restart [OF ok] by (simp add: Let_def)
qed

lemma fleet_survives_restart_witness:
  "let ops = [FRegister 1 ''p1'' ''web'' ''linux'' ''amd64'', FAPIKey ''k'' ''p1'', FMarkOffline 90 30 [''p1''],
              FRegister 95 ''p2'' ''db'' ''linux'' ''amd64'', FCleanup 99 50 [''p2'', ''p1'']];
       s' = fold store_exec ops (fleet_NewStore []) in
   fs_mgr s' = fold fleet_exec ops [] \<and> map_option ps_Status (gget (fs_mgr s') ''p2'') = Some ''online'' \<and>
   map_option durable (gget (fs_mgr (fleet_NewStore (fs_rows s'))) ''p1'') = map_option durable (gget (fs_mgr s') ''p1'')"
proof -
  let ?ops = "[FRegister 1 ''p1'' ''web'' ''linux'' ''amd64'', FAPIKey ''k'' ''p1'', FMarkOffline 90 30 [''p1''],
              FRegister 95 ''p2'' ''db'' ''linux'' ''amd64'', FCleanup 99 50 [''p2'', ''p1'']]"
  have "store_ok (fleet_NewStore [])"
    by (simp add: store_ok_def fleet_NewStore_def loadAll_probes_def mem_ok_def rows_ok_def agree_def probe_row_of_def tbl_first_def)
  moreover have "loops_ok ?ops (fs_mgr (fleet_NewStore []))" by code_simp
  moreover have "map_option ps_Status (gget (fs_mgr (fold store_exec ?ops (fleet_NewStore []))) ''p2'') = Some ''online''" by code_simp
  moreover have "fs_mgr (fleet_NewStore []) = []" by code_simp
  ultimately show ?thesis using fleet_survives_restart [of "fleet_NewStore []" ?ops] by (simp only: Let_def)
qed

end
