(* ===== verification/Registration.thy ===== *)
theory Registration
  imports Fleet_Store Audit_Chain Signing
begin

text \<open>
  Registration of probes, \<^verbatim>\<open>controlplane/api\<close>: the store of registration tokens (\<^verbatim>\<open>token_store.go\<close>), whose
  map is written through to a table, and the handlers that issue a token and register a probe
  (\<^verbatim>\<open>register.go\<close>), over any implementation of the interface \<^verbatim>\<open>Fleet\<close>. The check of the key of a probe is that of
  \<^verbatim>\<open>server/probe_mtls.go\<close>.
\<close>

section \<open>Tokens\<close>

record reg_Token =
  rt_Value :: string
  rt_Created :: time
  rt_Expires :: time
  rt_Used :: bool
  rt_MultiUse :: bool
  rt_TenantID :: string
  rt_InstallCommand :: string

record TokenStore =
  to_rows :: "reg_Token list"
  to_tokens :: "reg_Token gmap"
  to_secret :: string
  to_serverURL :: string

record GenerateOptions =
  go_MultiUse :: bool
  go_NoExpiry :: bool
  go_TenantID :: string

definition trim_slashes :: "string \<Rightarrow> string" where
  "trim_slashes s = rev (dropWhile (\<lambda>c. c = CHR ''/'') (rev s))"

definition installCommand :: "string \<Rightarrow> string \<Rightarrow> string" where
  "installCommand rawURL token =
     (let serverURL = trim_slashes (trim_space rawURL) in
      if serverURL = [] \<or> token = [] then []
      else ''curl -sSL '' @ serverURL @ ''/install.sh | sudo bash -s -- --server '' @ serverURL @ '' --token '' @ token)"

definition loadAll_tokens :: "reg_Token list \<Rightarrow> reg_Token gmap" where
  "loadAll_tokens rows = fold (\<lambda>t. gput (rt_Value t) t) rows []"

definition NewTokenStore :: "string \<Rightarrow> reg_Token list \<Rightarrow> TokenStore" where
  "NewTokenStore secret rows =
     \<lparr>to_rows = rows, to_tokens = loadAll_tokens rows, to_secret = secret, to_serverURL = []\<rparr>"

definition SetServerURL :: "string \<Rightarrow> TokenStore \<Rightarrow> TokenStore" where
  "SetServerURL url ts = ts\<lparr>to_serverURL := trim_slashes (trim_space url)\<rparr>"

definition upsertToken :: "reg_Token \<Rightarrow> reg_Token list \<Rightarrow> reg_Token list" where
  "upsertToken token rows =
     (if tbl_count (\<lambda>r. rt_Value r = rt_Value token) rows = 0 then rows @ [token]
      else tbl_update (\<lambda>r. rt_Value r = rt_Value token) (\<lambda>_. token) rows)"

definition token_value :: "string \<Rightarrow> time \<Rightarrow> string \<Rightarrow> string" where
  "token_value secret now uuid =
     (let tid = take 12 uuid in
      ''prb_'' @ tid @ ''_'' @ int_text (now div Second) @ ''_'' @ take 16 (hex_EncodeToString (hmac_sha256 secret tid)))"

definition GenerateWithOptions :: "time \<Rightarrow> string \<Rightarrow> GenerateOptions \<Rightarrow> TokenStore \<Rightarrow> reg_Token \<times> TokenStore" where
  "GenerateWithOptions now uuid opts ts =
     (let val = token_value (to_secret ts) now uuid;
          token = \<lparr>rt_Value = val, rt_Created = now,
                   rt_Expires = (if go_NoExpiry opts then now + 100 * 365 * 24 * Hour else now + 30 * Minute),
                   rt_Used = False, rt_MultiUse = go_MultiUse opts, rt_TenantID = go_TenantID opts,
                   rt_InstallCommand = (if to_serverURL ts \<noteq> [] then installCommand (to_serverURL ts) val else [])\<rparr> in
      (token, ts\<lparr>to_tokens := gput val token (to_tokens ts), to_rows := upsertToken token (to_rows ts)\<rparr>))"

definition ConsumeGetTenant :: "time \<Rightarrow> string \<Rightarrow> TokenStore \<Rightarrow> (bool \<times> string) \<times> TokenStore" where
  "ConsumeGetTenant now val ts =
     (case gget (to_tokens ts) val of
        None \<Rightarrow> ((False, []), ts)
      | Some t \<Rightarrow>
          if now > rt_Expires t then ((False, []), ts)
          else if rt_Used t then ((False, []), ts)
          else ((True, rt_TenantID t),
                if rt_MultiUse t then ts
                else ts\<lparr>to_tokens := gput val (t\<lparr>rt_Used := True\<rparr>) (to_tokens ts),
                        to_rows := tbl_update (\<lambda>r. rt_Value r = rt_Value t) (\<lambda>r. r\<lparr>rt_Used := True\<rparr>) (to_rows ts)\<rparr>))"

definition ListActive :: "time \<Rightarrow> string list \<Rightarrow> TokenStore \<Rightarrow> reg_Token list" where
  "ListActive now ks ts = filter (\<lambda>t. \<not> rt_Used t \<and> now < rt_Expires t) (grange ks (to_tokens ts))"

section \<open>Registration\<close>

record RegisterRequest =
  rg_Token :: string
  rg_Hostname :: string
  rg_OS :: string
  rg_Arch :: string
  rg_Version :: string
  rg_Tags :: "string list"

definition GenerateAPIKey :: "string option \<Rightarrow> string option" where
  "GenerateAPIKey raw = map_option (\<lambda>bytes. ''lgk_'' @ hex_EncodeToString bytes) raw"

definition shouldPruneDuplicateProbe :: "ProbeState \<Rightarrow> time \<Rightarrow> bool" where
  "shouldPruneDuplicateProbe ps now \<longleftrightarrow>
     (let status = to_lower (trim_space (ps_Status ps)) in
      if status = ''offline'' then True
      else if status = ''online'' then False
      else if ps_LastSeen ps = zero_time then True
      else time_Sub now (ps_LastSeen ps) > 30 * Minute)"

text \<open>The loop deletes the stale duplicates and collects those that were there.\<close>

fun delete_stale :: "'s fleet_methods \<Rightarrow> string list \<Rightarrow> string list \<Rightarrow> 's \<Rightarrow> string list \<times> 's" where
  "delete_stale fm removed [] s = (removed, s)"
| "delete_stale fm removed (pid # pids) s =
     (case fi_Delete fm pid s of
        (None, s') \<Rightarrow> delete_stale fm (removed @ [pid]) pids s'
      | (Some _, s') \<Rightarrow> delete_stale fm removed pids s')"

definition cleanupStaleHostnameDuplicates ::
  "'s fleet_methods \<Rightarrow> time \<Rightarrow> string list \<Rightarrow> string \<Rightarrow> string \<Rightarrow> 's \<Rightarrow> string list \<times> 's" where
  "cleanupStaleHostnameDuplicates fm now ks canonicalID rawName s =
     (let hostname = trim_space rawName;
          stale = map ps_ID (filter (\<lambda>ps. ps_ID ps \<noteq> canonicalID \<and> ps_Hostname ps = hostname \<and>
                                          shouldPruneDuplicateProbe ps now) (fi_List fm ks s)) in
      if hostname = [] then ([], s)
      else let (removed, s') = delete_stale fm [] stale s in (sort_by bytes_le removed, s'))"

record registerProbeResult =
  rp_probeID :: string
  rp_apiKey :: string
  rp_reRegistered :: bool
  rp_cleanedStale :: "string list"

text \<open>
  \<open>ks\<close> and \<open>ks'\<close> are the orders of the two loops over the registry, \<open>t1\<close> and \<open>t2\<close> the clock at the
  registration and at the cleanup, \<open>raw\<close> the random bytes of the key.
\<close>

definition registerProbe ::
  "'s fleet_methods \<Rightarrow> time \<Rightarrow> time \<Rightarrow> string \<Rightarrow> string option \<Rightarrow> string list \<Rightarrow> string list \<Rightarrow> RegisterRequest \<Rightarrow> 's \<Rightarrow>
   registerProbeResult option \<times> 's" where
  "registerProbe fm t1 t2 uuid raw ks ks' req s =
     (let existing = fi_FindByHostname fm ks (rg_Hostname req) s;
          pid = (case existing of Some ps \<Rightarrow> ps_ID ps | None \<Rightarrow> ''prb-'' @ take 8 uuid) in
      case GenerateAPIKey raw of
        None \<Rightarrow> (None, s)
      | Some apiKey \<Rightarrow>
          let s1 = snd (fi_Register fm t1 pid (rg_Hostname req) (rg_OS req) (rg_Arch req) s);
              s2 = snd (fi_SetAPIKey fm apiKey pid s1);
              s3 = snd (fi_SetTags fm (rg_Tags req) pid s2);
              (cleaned, s4) = cleanupStaleHostnameDuplicates fm t2 ks' pid (rg_Hostname req) s3
          in (Some \<lparr>rp_probeID = pid, rp_apiKey = apiKey, rp_reRegistered = (existing \<noteq> None),
                    rp_cleanedStale = cleaned\<rparr>, s4))"

text \<open>The state that the handlers share; \<open>rs_events\<close> are the events handed to the audit recorder.\<close>

record 's registry =
  rs_tokens :: TokenStore
  rs_fleet :: 's
  rs_events :: "Event list"

datatype register_reply = Registered string string string | RegisterRefused nat string

record register_inputs =
  ri_consume :: time
  ri_register :: time
  ri_cleanup :: time
  ri_uuid :: string
  ri_raw :: "string option"
  ri_order :: "string list"
  ri_order2 :: "string list"

definition registered_event :: "registerProbeResult \<Rightarrow> RegisterRequest \<Rightarrow> Event" where
  "registered_event result req =
     (new_event ''probe.registered'' (rp_probeID result) ''system''
        ((if rp_reRegistered result then ''Probe re-registered: '' else ''Probe registered: '') @ rg_Hostname req))
       \<lparr>ev_Detail := JMap [(''os'', JStr (rg_OS req)), (''arch'', JStr (rg_Arch req)),
                           (''hostname'', JStr (rg_Hostname req))]\<rparr>"

definition HandleRegisterWithAudit ::
  "'s fleet_methods \<Rightarrow> register_inputs \<Rightarrow> RegisterRequest option \<Rightarrow> 's registry \<Rightarrow> register_reply \<times> 's registry" where
  "HandleRegisterWithAudit fm i body r =
     (case body of
        None \<Rightarrow> (RegisterRefused 400 ''invalid request'', r)
      | Some req \<Rightarrow>
          (case ConsumeGetTenant (ri_consume i) (rg_Token req) (rs_tokens r) of
             ((valid, tenantID), ts) \<Rightarrow>
               if \<not> valid then (RegisterRefused 401 ''invalid or expired token'', r\<lparr>rs_tokens := ts\<rparr>)
               else (case registerProbe fm (ri_register i) (ri_cleanup i) (ri_uuid i) (ri_raw i) (ri_order i) (ri_order2 i)
                            req (rs_fleet r) of
                       (None, m) \<Rightarrow> (RegisterRefused 500 ''failed to generate api key'', r\<lparr>rs_tokens := ts, rs_fleet := m\<rparr>)
                     | (Some result, m) \<Rightarrow>
                         let m' = (if tenantID \<noteq> [] then snd (fi_SetTenantID fm tenantID (rp_probeID result) m) else m)
                         in (Registered (rp_probeID result) (rp_apiKey result) ''default-observe'',
                             r\<lparr>rs_tokens := ts, rs_fleet := m',
                               rs_events := rs_events r @ [registered_event result req]\<rparr>))))"

text \<open>The handlers without an audit trail.\<close>

definition HandleRegister ::
  "'s fleet_methods \<Rightarrow> register_inputs \<Rightarrow> RegisterRequest option \<Rightarrow> 's registry \<Rightarrow> register_reply \<times> 's registry" where
  "HandleRegister fm i body r =
     (case body of
        None \<Rightarrow> (RegisterRefused 400 ''invalid request'', r)
      | Some req \<Rightarrow>
          (case ConsumeGetTenant (ri_consume i) (rg_Token req) (rs_tokens r) of
             ((valid, tenantID), ts) \<Rightarrow>
               if \<not> valid then (RegisterRefused 401 ''invalid or expired token'', r\<lparr>rs_tokens := ts\<rparr>)
               else (case registerProbe fm (ri_register i) (ri_cleanup i) (ri_uuid i) (ri_raw i) (ri_order i) (ri_order2 i)
                            req (rs_fleet r) of
                       (None, m) \<Rightarrow> (RegisterRefused 500 ''failed to generate api key'', r\<lparr>rs_tokens := ts, rs_fleet := m\<rparr>)
                     | (Some result, m) \<Rightarrow>
                         let m' = (if tenantID \<noteq> [] then snd (fi_SetTenantID fm tenantID (rp_probeID result) m) else m)
                         in (Registered (rp_probeID result) (rp_apiKey result) ''default-observe'',
                             r\<lparr>rs_tokens := ts, rs_fleet := m'\<rparr>))))"

text \<open>The parts of a request that name its base: two headers, the host, and whether it came over TLS.\<close>

record base_request =
  br_ForwardedHost :: string
  br_Host :: string
  br_ForwardedProto :: string
  br_TLS :: bool

definition requestBaseURL :: "base_request \<Rightarrow> string" where
  "requestBaseURL q =
     (let host = (if trim_space (br_ForwardedHost q) = [] then trim_space (br_Host q) else trim_space (br_ForwardedHost q));
          scheme = (if trim_space (br_ForwardedProto q) = [] then if br_TLS q then ''https'' else ''http''
                    else trim_space (br_ForwardedProto q)) in
      if host = [] then []
      else if has_prefix host ''http://'' \<or> has_prefix host ''https://'' then trim_slashes host
      else scheme @ ''://'' @ host)"

definition tokenWithInstallCommand :: "reg_Token \<Rightarrow> string \<Rightarrow> reg_Token" where
  "tokenWithInstallCommand token fallbackBaseURL =
     (if rt_InstallCommand token = [] then token\<lparr>rt_InstallCommand := installCommand fallbackBaseURL (rt_Value token)\<rparr>
      else token)"

text \<open>The query parameters \<open>multi_use\<close>, \<open>no_expiry\<close> and \<open>tenant_id\<close>.\<close>

definition token_options :: "string \<Rightarrow> string \<Rightarrow> string \<Rightarrow> GenerateOptions" where
  "token_options multiUse noExpiry tenant =
     \<lparr>go_MultiUse = equal_fold (trim_space multiUse) ''true'', go_NoExpiry = equal_fold (trim_space noExpiry) ''true'',
      go_TenantID = trim_space tenant\<rparr>"

definition HandleGenerateToken ::
  "time \<Rightarrow> string \<Rightarrow> string \<Rightarrow> string \<Rightarrow> string \<Rightarrow> base_request \<Rightarrow> 's registry \<Rightarrow> reg_Token \<times> 's registry" where
  "HandleGenerateToken now uuid multiUse noExpiry tenant q r =
     (let (token, ts) = GenerateWithOptions now uuid (token_options multiUse noExpiry tenant) (rs_tokens r)
      in (tokenWithInstallCommand token (requestBaseURL q), r\<lparr>rs_tokens := ts\<rparr>))"

definition HandleListTokens :: "time \<Rightarrow> string list \<Rightarrow> base_request \<Rightarrow> 's registry \<Rightarrow> reg_Token list \<times> nat \<times> nat" where
  "HandleListTokens now ks q r =
     (let tokens = map (\<lambda>t. tokenWithInstallCommand t (requestBaseURL q)) (ListActive now ks (rs_tokens r))
      in (tokens, length tokens, length (to_tokens (rs_tokens r))))"

definition HandleGenerateTokenWithAudit ::
  "time \<Rightarrow> string \<Rightarrow> string \<Rightarrow> string \<Rightarrow> string \<Rightarrow> base_request \<Rightarrow> 's registry \<Rightarrow> reg_Token \<times> 's registry" where
  "HandleGenerateTokenWithAudit now uuid multiUse noExpiry tenant q r =
     (let (token, ts) = GenerateWithOptions now uuid (token_options multiUse noExpiry tenant) (rs_tokens r)
      in (tokenWithInstallCommand token (requestBaseURL q),
          r\<lparr>rs_tokens := ts,
            rs_events := rs_events r @ [new_event ''token.generated'' [] ''api'' ''Registration token generated'']\<rparr>))"

definition validateProbeAPIKey :: "'s fleet_methods \<Rightarrow> 's \<Rightarrow> string \<Rightarrow> string \<Rightarrow> bool" where
  "validateProbeAPIKey fm s probeID bearerToken =
     (case fi_Get fm probeID s of None \<Rightarrow> False | Some ps \<Rightarrow> ps_APIKey ps \<noteq> [] \<and> ps_APIKey ps = bearerToken)"

text \<open>
  The table of tokens and the map hold the same: every token is stored under its value, in one row.
\<close>

definition tokens_ok :: "TokenStore \<Rightarrow> bool" where
  "tokens_ok ts \<longleftrightarrow> distinct (map rt_Value (to_rows ts)) \<and>
     (\<forall>v. gget (to_tokens ts) v = tbl_first (\<lambda>t. rt_Value t = v) (to_rows ts))"

text \<open>What may happen at registration: tokens, registrations, restarts, and any change of the registry.\<close>

datatype 's reg_op =
    RegGenerate time string string string string base_request
  | RegRegister register_inputs "RegisterRequest option"
  | RegRestart string
  | RegSetURL string
  | RegFleet 's

fun reg_exec :: "'s fleet_methods \<Rightarrow> 's reg_op \<Rightarrow> 's registry \<Rightarrow> 's registry" where
  "reg_exec fm (RegGenerate now uuid mu ne tn q) r = snd (HandleGenerateTokenWithAudit now uuid mu ne tn q r)"
| "reg_exec fm (RegRegister i body) r = snd (HandleRegisterWithAudit fm i body r)"
| "reg_exec fm (RegRestart secret) r = r\<lparr>rs_tokens := NewTokenStore secret (to_rows (rs_tokens r))\<rparr>"
| "reg_exec fm (RegSetURL url) r = r\<lparr>rs_tokens := SetServerURL url (rs_tokens r)\<rparr>"
| "reg_exec fm (RegFleet m) r = r\<lparr>rs_fleet := m\<rparr>"

text \<open>An operation that does not draw the random identifier of the token \<open>val\<close> again.\<close>

fun draws_other :: "string \<Rightarrow> 's reg_op \<Rightarrow> bool" where
  "draws_other val (RegGenerate now uuid mu ne tn q) \<longleftrightarrow> length uuid \<ge> 12 \<and> take 12 uuid \<noteq> take 12 (drop 4 val)"
| "draws_other val p \<longleftrightarrow> True"

definition spent_token :: "string \<Rightarrow> TokenStore \<Rightarrow> bool" where
  "spent_token val ts \<longleftrightarrow> (\<exists>t. gget (to_tokens ts) val = Some t \<and> rt_Used t)"

definition demo_reg_token :: reg_Token where
  "demo_reg_token = \<lparr>rt_Value = ''tok'', rt_Created = 0, rt_Expires = 100, rt_Used = False, rt_MultiUse = False,
                 rt_TenantID = ''acme'', rt_InstallCommand = []\<rparr>"

definition demo_inputs :: register_inputs where
  "demo_inputs = \<lparr>ri_consume = 5, ri_register = 6, ri_cleanup = 7, ri_uuid = ''0123456789abcdef'', ri_raw = Some ''key'',
                  ri_order = [''p1''], ri_order2 = [''p1'', ''prb-01234567'']\<rparr>"

definition demo_req :: RegisterRequest where
  "demo_req = \<lparr>rg_Token = ''tok'', rg_Hostname = ''web'', rg_OS = ''linux'', rg_Arch = ''amd64'', rg_Version = [],
               rg_Tags = [''Prod'']\<rparr>"

definition demo_registry :: "'s \<Rightarrow> 's registry" where
  "demo_registry m = \<lparr>rs_tokens = \<lparr>to_rows = [demo_reg_token], to_tokens = loadAll_tokens [demo_reg_token], to_secret = ''s'',
                        to_serverURL = []\<rparr>, rs_fleet = m, rs_events = []\<rparr>"

section \<open>Lemmas\<close>

lemma loadAll_first:
  assumes "distinct (map rt_Value rows)"
  shows "gget (loadAll_tokens rows) v = tbl_first (\<lambda>t. rt_Value t = v) rows"
proof -
  have "gget (fold (\<lambda>t. gput (rt_Value t) t) rows m) v =
      (case tbl_first (\<lambda>t. rt_Value t = v) rows of Some t \<Rightarrow> Some t | None \<Rightarrow> gget m v)" for m
    using assms
  proof (induction rows arbitrary: m)
    case (Cons t rows)
    have "tbl_first (\<lambda>t. rt_Value t = v) rows = None" if "rt_Value t = v"
      using that Cons.prems by (simp add: tbl_first_None) (metis imageI)
    with Cons show ?case by (auto simp: gmap_simps tbl_first_def split: option.splits)
  qed (simp add: tbl_first_def)
  then show ?thesis by (simp add: loadAll_tokens_def gget_def split: option.splits)
qed

lemma tokens_ok_restart: "tokens_ok ts \<Longrightarrow> tokens_ok (NewTokenStore secret (to_rows ts))"
  by (simp add: tokens_ok_def NewTokenStore_def loadAll_first)

lemma restart_tokens: "tokens_ok ts \<Longrightarrow> gget (to_tokens (NewTokenStore secret (to_rows ts))) v = gget (to_tokens ts) v"
  by (simp add: tokens_ok_def NewTokenStore_def loadAll_first)

lemma upsert_first:
  "tbl_first (\<lambda>t. rt_Value t = v) (upsertToken tok rows) =
   (if v = rt_Value tok then Some tok else tbl_first (\<lambda>t. rt_Value t = v) rows)"
proof (cases "tbl_count (\<lambda>r. rt_Value r = rt_Value tok) rows = 0")
  case True
  then show ?thesis
    by (auto simp: upsertToken_def tbl_first_append tbl_count_0 split: option.splits dest!: tbl_firstD)
next
  case False
  have "tbl_first (\<lambda>t. rt_Value t = v) (tbl_update (\<lambda>r. rt_Value r = rt_Value tok) (\<lambda>_. tok) rows) =
      (if v = rt_Value tok then if \<exists>r \<in> set rows. rt_Value r = rt_Value tok then Some tok else None
       else tbl_first (\<lambda>t. rt_Value t = v) rows)"
    by (induction rows) (auto simp: tbl_first_def tbl_update_def)
  with False show ?thesis by (auto simp: upsertToken_def tbl_count_0)
qed

lemma upsert_distinct: "distinct (map rt_Value rows) \<Longrightarrow> distinct (map rt_Value (upsertToken tok rows))"
proof -
  assume d: "distinct (map rt_Value rows)"
  have "map rt_Value (tbl_update (\<lambda>r. rt_Value r = rt_Value tok) (\<lambda>_. tok) rows) = map rt_Value rows"
    by (auto simp: tbl_update_def)
  then have "distinct (map rt_Value (tbl_update (\<lambda>r. rt_Value r = rt_Value tok) (\<lambda>_. tok) rows))" using d by metis
  with d show ?thesis by (auto simp: upsertToken_def tbl_count_0)
qed

lemma tokens_ok_generate: "tokens_ok ts \<Longrightarrow> tokens_ok (snd (GenerateWithOptions now uuid opts ts))"
  by (simp add: tokens_ok_def GenerateWithOptions_def Let_def upsert_first upsert_distinct gmap_simps)

lemma tokens_ok_consume:
  assumes "tokens_ok ts"
  shows "tokens_ok (snd (ConsumeGetTenant now val ts))"
proof (cases "gget (to_tokens ts) val")
  case None
  then show ?thesis using assms by (simp add: ConsumeGetTenant_def)
next
  case (Some t)
  have all: "gget (to_tokens ts) v = tbl_first (\<lambda>t. rt_Value t = v) (to_rows ts)" for v
    using assms unfolding tokens_ok_def by (elim conjE) (erule spec)
  have d: "distinct (map rt_Value (to_rows ts))" using assms by (simp add: tokens_ok_def)
  have t: "tbl_first (\<lambda>t. rt_Value t = val) (to_rows ts) = Some t" using all [of val] Some by simp
  then have tv: "rt_Value t = val" using tbl_firstD [OF t] by simp
  let ?rows = "tbl_update (\<lambda>r. rt_Value r = val) (\<lambda>r. r\<lparr>rt_Used := True\<rparr>) (to_rows ts)"
  have upd: "tbl_first (\<lambda>t. rt_Value t = v) ?rows =
      map_option (\<lambda>r. if rt_Value r = val then r\<lparr>rt_Used := True\<rparr> else r) (tbl_first (\<lambda>t. rt_Value t = v) (to_rows ts))" for v
    by (rule tbl_first_update) simp
  have first: "tbl_first (\<lambda>t. rt_Value t = v) ?rows =
      (if v = val then Some (t\<lparr>rt_Used := True\<rparr>) else tbl_first (\<lambda>t. rt_Value t = v) (to_rows ts))" for v
  proof (cases "v = val")
    case True
    then show ?thesis using upd [of val] t tv by simp
  next
    case False
    have "rt_Value r = v" if "tbl_first (\<lambda>t. rt_Value t = v) (to_rows ts) = Some r" for r
      using tbl_firstD [OF that] by simp
    with False show ?thesis using upd [of v] by (cases "tbl_first (\<lambda>t. rt_Value t = v) (to_rows ts)") simp_all
  qed
  have ids: "map rt_Value ?rows = map rt_Value (to_rows ts)" by (rule tbl_update_ids) simp
  have "tokens_ok (ts\<lparr>to_tokens := gput val (t\<lparr>rt_Used := True\<rparr>) (to_tokens ts), to_rows := ?rows\<rparr>)"
    unfolding tokens_ok_def by (simp add: first ids d all gmap_simps)
  then show ?thesis using assms Some tv by (simp add: ConsumeGetTenant_def)
qed

lemma token_value_id: "length uuid \<ge> 12 \<Longrightarrow> take 12 (drop 4 (token_value secret now uuid)) = take 12 uuid"
  by (simp add: token_value_def Let_def)

lemma consume_spent: "spent_token val ts \<Longrightarrow> spent_token val (snd (ConsumeGetTenant now v ts))"
  by (auto simp: spent_token_def ConsumeGetTenant_def gmap_simps split: option.splits)

lemma register_tokens:
  "rs_tokens (snd (HandleRegisterWithAudit fm i body r)) =
   (case body of None \<Rightarrow> rs_tokens r | Some req \<Rightarrow> snd (ConsumeGetTenant (ri_consume i) (rg_Token req) (rs_tokens r)))"
  by (auto simp: HandleRegisterWithAudit_def Let_def split: option.splits prod.splits)

lemma generate_other:
  assumes "length uuid \<ge> 12" "take 12 uuid \<noteq> take 12 (drop 4 val)"
  shows "gget (to_tokens (snd (GenerateWithOptions now uuid opts ts))) val = gget (to_tokens ts) val"
  using assms token_value_id [OF assms(1), of "to_secret ts" now]
  by (auto simp: GenerateWithOptions_def Let_def gmap_simps)

lemma generate_tokens:
  "\<exists>opts. rs_tokens (snd (HandleGenerateTokenWithAudit now uuid mu ne tn q r)) =
     snd (GenerateWithOptions now uuid opts (rs_tokens r))"
  by (auto simp: HandleGenerateTokenWithAudit_def case_prod_beta Let_def)

lemma spent_step:
  assumes "tokens_ok (rs_tokens r)" "spent_token val (rs_tokens r)" "draws_other val p"
  shows "spent_token val (rs_tokens (reg_exec fm p r)) \<and> tokens_ok (rs_tokens (reg_exec fm p r))"
proof (cases p)
  case (RegGenerate now uuid mu ne tn q)
  then obtain opts where "rs_tokens (reg_exec fm p r) = snd (GenerateWithOptions now uuid opts (rs_tokens r))"
    using generate_tokens [of now uuid mu ne tn q r] by auto
  with assms RegGenerate show ?thesis by (simp add: spent_token_def generate_other tokens_ok_generate)
next
  case (RegRegister i body)
  with assms show ?thesis by (simp add: register_tokens consume_spent tokens_ok_consume split: option.split)
next
  case (RegRestart secret)
  with assms show ?thesis by (simp add: spent_token_def restart_tokens tokens_ok_restart)
next
  case (RegSetURL url)
  with assms show ?thesis by (simp add: spent_token_def SetServerURL_def tokens_ok_def)
next
  case (RegFleet m)
  with assms show ?thesis by simp
qed

lemma spent_run:
  "tokens_ok (rs_tokens r) \<Longrightarrow> spent_token val (rs_tokens r) \<Longrightarrow> list_all (draws_other val) ps \<Longrightarrow>
   spent_token val (rs_tokens (fold (reg_exec fm) ps r))"
  by (induction ps arbitrary: r) (simp_all add: spent_step)

text \<open>What a registration that succeeds has found and leaves.\<close>

lemma register_Ok:
  assumes "HandleRegisterWithAudit fm i (Some req) r = (Registered pid key pol, r')"
  shows "\<exists>t result m. gget (to_tokens (rs_tokens r)) (rg_Token req) = Some t \<and> \<not> rt_Used t \<and>
    ri_consume i \<le> rt_Expires t \<and>
    registerProbe fm (ri_register i) (ri_cleanup i) (ri_uuid i) (ri_raw i) (ri_order i) (ri_order2 i) req (rs_fleet r) =
      (Some result, m) \<and>
    pid = rp_probeID result \<and> key = rp_apiKey result \<and>
    rs_fleet r' = (if rt_TenantID t \<noteq> [] then snd (fi_SetTenantID fm (rt_TenantID t) pid m) else m) \<and>
    rs_tokens r' = snd (ConsumeGetTenant (ri_consume i) (rg_Token req) (rs_tokens r))"
  using assms
  by (auto simp: HandleRegisterWithAudit_def ConsumeGetTenant_def Let_def split: option.splits prod.splits if_splits)

text \<open>What the registration does with any implementation of the interface, seen through its view.\<close>

context fleet_interface
begin

lemma setter_views [simp]:
  "view (snd (fi_Register fm now pid h os arch s)) = snd (fleet_Register now pid h os arch (view s))"
  "view (snd (fi_SetAPIKey fm key pid s)) = snd (SetAPIKey key pid (view s))"
  "view (snd (fi_SetTags fm tags pid s)) = snd (SetTags tags pid (view s))"
  "view (snd (fi_SetTenantID fm tn pid s)) = snd (SetTenantID tn pid (view s))"
  "view (snd (fi_Delete fm pid s)) = snd (fleet_Delete pid (view s))"
  by (simp_all flip: register_view key_view tags_view tenant_view delete_view)

lemma delete_stale_keeps:
  "(ok s \<longrightarrow> ok (snd (delete_stale fm removed pids s))) \<and>
   (pid \<notin> set pids \<longrightarrow> gget (view (snd (delete_stale fm removed pids s))) pid = gget (view s) pid)"
proof (induction pids arbitrary: removed s)
  case (Cons p pids)
  obtain e s' where e: "fi_Delete fm p s = (e, s')" by force
  have "view s' = snd (fleet_Delete p (view s))" using setter_views(5) [of p s] e by simp
  then have "gget (view s') pid = gget (view s) pid" if "pid \<noteq> p" using that by (simp add: fleet_Delete_def gmap_simps)
  moreover have "ok s \<longrightarrow> ok s'" using steps_ok(5) [of s p] e by simp
  ultimately show ?case using Cons.IH e by (cases e) simp_all
qed simp

lemma cleanup_keeps:
  "ok s \<Longrightarrow> ok (snd (cleanupStaleHostnameDuplicates fm now ks pid h s))"
  "gget (view (snd (cleanupStaleHostnameDuplicates fm now ks pid h s))) pid = gget (view s) pid"
  by (auto simp: cleanupStaleHostnameDuplicates_def Let_def case_prod_beta
      intro!: delete_stale_keeps [THEN conjunct1, rule_format] delete_stale_keeps [THEN conjunct2, rule_format])

lemma registered_state:
  assumes "registerProbe fm t1 t2 uuid raw ks ks' req s = (Some result, s')"
  shows "\<exists>ps. gget (view s') (rp_probeID result) = Some ps \<and> ps_APIKey ps = rp_apiKey result \<and>
      ps_PolicyLevel ps = CapObserve \<and> ps_TenantID ps = [] \<and> ps_Hostname ps = rg_Hostname req"
    and "rp_apiKey result \<noteq> []" and "ok s \<Longrightarrow> ok s'"
    and "fi_FindByHostname fm ks (rg_Hostname req) s = Some old \<Longrightarrow> rp_probeID result = ps_ID old"
proof -
  obtain apiKey where k: "GenerateAPIKey raw = Some apiKey"
    using assms by (cases "GenerateAPIKey raw") (auto simp: registerProbe_def Let_def)
  define pid where "pid = (case fi_FindByHostname fm ks (rg_Hostname req) s of Some ps \<Rightarrow> ps_ID ps
                           | None \<Rightarrow> ''prb-'' @ take 8 uuid)"
  define s3 where "s3 = snd (fi_SetTags fm (rg_Tags req) pid (snd (fi_SetAPIKey fm apiKey pid
      (snd (fi_Register fm t1 pid (rg_Hostname req) (rg_OS req) (rg_Arch req) s)))))"
  have r: "rp_probeID result = pid" "rp_apiKey result = apiKey"
      "s' = snd (cleanupStaleHostnameDuplicates fm t2 ks' pid (rg_Hostname req) s3)"
    using assms k by (auto simp: registerProbe_def Let_def pid_def [symmetric] s3_def case_prod_beta)
  have "\<exists>ps. gget (view s3) pid = Some ps \<and> ps_APIKey ps = apiKey \<and> ps_PolicyLevel ps = CapObserve \<and> ps_TenantID ps = [] \<and>
      ps_Hostname ps = rg_Hostname req"
    by (simp add: s3_def SetTags_def SetAPIKey_def update_probe_def fleet_Register_def Let_def gmap_simps)
  then show "\<exists>ps. gget (view s') (rp_probeID result) = Some ps \<and> ps_APIKey ps = rp_apiKey result \<and>
      ps_PolicyLevel ps = CapObserve \<and> ps_TenantID ps = [] \<and> ps_Hostname ps = rg_Hostname req"
    using r by (simp add: cleanup_keeps)
  show "rp_apiKey result \<noteq> []" using k r by (auto simp: GenerateAPIKey_def)
  show "ok s'" if "ok s" using that r(3) by (simp add: s3_def cleanup_keeps steps_ok)
  show "rp_probeID result = ps_ID old" if "fi_FindByHostname fm ks (rg_Hostname req) s = Some old"
    using that r by (simp add: pid_def)
qed

lemma register_leaves:
  assumes "HandleRegisterWithAudit fm i (Some req) r = (Registered pid key pol, r')"
  obtains t ps where "gget (to_tokens (rs_tokens r)) (rg_Token req) = Some t" "\<not> rt_Used t" "ri_consume i \<le> rt_Expires t"
    "gget (view (rs_fleet r')) pid = Some ps" "ps_APIKey ps = key" "key \<noteq> []" "ps_PolicyLevel ps = CapObserve"
    "ps_TenantID ps = rt_TenantID t" "ps_Hostname ps = rg_Hostname req"
proof -
  from register_Ok [OF assms] obtain t result m where
    t: "gget (to_tokens (rs_tokens r)) (rg_Token req) = Some t" "\<not> rt_Used t" "ri_consume i \<le> rt_Expires t"
    and reg: "registerProbe fm (ri_register i) (ri_cleanup i) (ri_uuid i) (ri_raw i) (ri_order i) (ri_order2 i) req
      (rs_fleet r) = (Some result, m)"
    and eqs: "pid = rp_probeID result" "key = rp_apiKey result"
      "rs_fleet r' = (if rt_TenantID t \<noteq> [] then snd (fi_SetTenantID fm (rt_TenantID t) pid m) else m)" by metis
  from registered_state(1) [OF reg] obtain ps where
    ps: "gget (view m) pid = Some ps" "ps_APIKey ps = key" "ps_PolicyLevel ps = CapObserve" "ps_TenantID ps = []"
      "ps_Hostname ps = rg_Hostname req" using eqs by metis
  let ?ps = "if rt_TenantID t \<noteq> [] then ps\<lparr>ps_TenantID := rt_TenantID t\<rparr> else ps"
  have "gget (view (rs_fleet r')) pid = Some ?ps"
    using ps(1) by (simp add: eqs(3) SetTenantID_def update_probe_def gmap_simps)
  then show ?thesis using that [OF t] ps registered_state(2) [OF reg] eqs by (auto split: if_splits)
qed

lemma register_keeps_ok:
  assumes "HandleRegisterWithAudit fm i (Some req) r = (Registered pid key pol, r')" and "ok (rs_fleet r)"
  shows "ok (rs_fleet r')"
proof -
  from register_Ok [OF assms(1)] obtain t :: reg_Token and result m where
    reg: "registerProbe fm (ri_register i) (ri_cleanup i) (ri_uuid i) (ri_raw i) (ri_order i) (ri_order2 i) req
      (rs_fleet r) = (Some result, m)"
    and "rs_fleet r' = (if rt_TenantID t \<noteq> [] then snd (fi_SetTenantID fm (rt_TenantID t) pid m) else m)" by blast
  then show ?thesis using registered_state(3) [OF reg assms(2)] by (simp add: steps_ok)
qed

lemma register_id:
  assumes "HandleRegisterWithAudit fm i (Some req) r = (Registered pid key pol, r')"
    and "fi_FindByHostname fm (ri_order i) (rg_Hostname req) (rs_fleet r) = Some old"
  shows "pid = ps_ID old"
  using register_Ok [OF assms(1)] registered_state(4) [OF _ assms(2)] by auto

lemma validate_view:
  "validateProbeAPIKey fm s pid key \<longleftrightarrow> (\<exists>ps. gget (view s) pid = Some ps \<and> ps_APIKey ps \<noteq> [] \<and> ps_APIKey ps = key)"
  by (simp add: validateProbeAPIKey_def get_view split: option.split)

end

lemma durable_same:
  assumes "durable ps = durable ps'"
  shows "ps_APIKey ps = ps_APIKey ps'" "ps_PolicyLevel ps = ps_PolicyLevel ps'" "ps_TenantID ps = ps_TenantID ps'"
proof -
  have "ps_APIKey (durable p) = ps_APIKey p" "ps_PolicyLevel (durable p) = ps_PolicyLevel p"
    "ps_TenantID (durable p) = ps_TenantID p" for p by (simp_all add: durable_def probe_row_def)
  then show "ps_APIKey ps = ps_APIKey ps'" "ps_PolicyLevel ps = ps_PolicyLevel ps'" "ps_TenantID ps = ps_TenantID ps'"
    using assms by metis+
qed

lemma restart_probe:
  assumes "store_ok s" and "gget (fs_mgr s) pid = Some ps"
  obtains ps' where "gget (fs_mgr (fleet_NewStore (fs_rows s))) pid = Some ps'" "durable ps' = durable ps"
proof -
  have "gget (fs_mgr (fleet_NewStore (fs_rows s))) pid = probe_row_of (fs_rows s) pid"
    using assms(1) by (simp add: fleet_NewStore_def load_first store_ok_def rows_ok_def)
  then have "map_option durable (gget (fs_mgr (fleet_NewStore (fs_rows s))) pid) = Some (durable ps)"
    using store_row [OF assms(1), of pid] assms(2) by simp
  then show ?thesis using that by auto
qed

text \<open>The handlers of the routes add an event to what the plain ones do.\<close>

lemma audit_adds_event:
  "fst (HandleRegisterWithAudit fm i body r) = fst (HandleRegister fm i body r) \<and>
   (\<exists>evs. snd (HandleRegisterWithAudit fm i body r) = (snd (HandleRegister fm i body r))\<lparr>rs_events := rs_events r @ evs\<rparr> \<and>
          length evs = (case fst (HandleRegister fm i body r) of Registered _ _ _ \<Rightarrow> 1 | RegisterRefused _ _ \<Rightarrow> 0))"
  by (auto simp: HandleRegisterWithAudit_def HandleRegister_def Let_def split: option.splits prod.splits)

lemma generate_audit:
  "HandleGenerateTokenWithAudit now uuid mu ne tn q r =
   (let (token, r') = HandleGenerateToken now uuid mu ne tn q r
    in (token, r'\<lparr>rs_events := rs_events r @ [new_event ''token.generated'' [] ''api'' ''Registration token generated'']\<rparr>))"
  by (simp add: HandleGenerateTokenWithAudit_def HandleGenerateToken_def Let_def case_prod_beta)

lemma consume_spends:
  assumes "HandleRegisterWithAudit fm i (Some req) r = (Registered pid key pol, r')"
    and "\<And>t. gget (to_tokens (rs_tokens r)) (rg_Token req) = Some t \<Longrightarrow> \<not> rt_MultiUse t"
  shows "spent_token (rg_Token req) (rs_tokens r')"
  using register_Ok [OF assms(1)] assms(2)
  by (auto simp: spent_token_def ConsumeGetTenant_def gmap_simps)

lemma register_spent:
  "spent_token (rg_Token req) (rs_tokens r) \<Longrightarrow>
   fst (HandleRegisterWithAudit fm i (Some req) r) = RegisterRefused 401 ''invalid or expired token''"
  by (auto simp: HandleRegisterWithAudit_def ConsumeGetTenant_def spent_token_def)

section \<open>Properties\<close>

text \<open>
  Property C20. A single-use registration token registers one probe. After a registration that
  succeeded with it, every later one with the token is refused with 401, whatever tokens are issued
  and probes registered in between, however the registry of probes changes and however often the
  control plane restarts; the hypothesis on the operations is that no new token draws the twelve
  characters of its identifier again.
\<close>

theorem registration_token_used_once:
  assumes "tokens_ok (rs_tokens r)"
    and "HandleRegisterWithAudit fm i (Some req) r = (Registered pid key pol, r')"
    and "\<And>t. gget (to_tokens (rs_tokens r)) (rg_Token req) = Some t \<Longrightarrow> \<not> rt_MultiUse t"
    and "list_all (draws_other (rg_Token req)) ops"
    and "rg_Token req' = rg_Token req"
  shows "fst (HandleRegisterWithAudit fm i' (Some req') (fold (reg_exec fm) ops r')) =
         RegisterRefused 401 ''invalid or expired token''"
proof -
  have "tokens_ok (rs_tokens r')"
    using register_Ok [OF assms(2)] tokens_ok_consume [OF assms(1)] by auto
  then have "spent_token (rg_Token req) (rs_tokens (fold (reg_exec fm) ops r'))"
    using consume_spends [OF assms(2,3)] assms(4) by (intro spent_run)
  then show ?thesis using assms(5) by (simp add: register_spent)
qed

lemma registration_token_used_once_witness:
  "\<exists>pid key pol r'. HandleRegisterWithAudit Manager_fleet demo_inputs (Some demo_req) (demo_registry []) = (Registered pid key pol, r') \<and>
   fst (HandleRegisterWithAudit Manager_fleet demo_inputs (Some demo_req)
          (fold (reg_exec Manager_fleet) [RegRestart ''s2'', RegFleet []] r')) =
     RegisterRefused 401 ''invalid or expired token''"
proof -
  have "case HandleRegisterWithAudit Manager_fleet demo_inputs (Some demo_req) (demo_registry []) of
      (Registered _ _ _, _) \<Rightarrow> True | _ \<Rightarrow> False" by code_simp
  then obtain pid key pol r' where
    r': "HandleRegisterWithAudit Manager_fleet demo_inputs (Some demo_req) (demo_registry []) = (Registered pid key pol, r')"
    by (auto split: prod.splits register_reply.splits)
  have ok: "tokens_ok (rs_tokens (demo_registry ([] :: fleet)))"
    by (simp add: tokens_ok_def demo_registry_def loadAll_first)
  have "\<not> rt_MultiUse t" if "gget (to_tokens (rs_tokens (demo_registry ([] :: fleet)))) (rg_Token demo_req) = Some t" for t
    using that by (auto simp: demo_registry_def demo_req_def demo_reg_token_def loadAll_tokens_def gmap_simps)
  from registration_token_used_once [OF ok r' this, of "[RegRestart ''s2'', RegFleet []]" demo_req demo_inputs] r'
  show ?thesis by auto
qed

text \<open>
  Property C21. A registration on the store that succeeds had a token that was not used and not
  expired, and leaves a probe that the key of the reply authenticates, at the level observe, in the
  tenant of the token, before and after a restart of the control plane; the reply to a request
  without such a token is 401 and changes neither the probes nor the tokens, and one that fails
  otherwise had no random bytes for the key.
\<close>

theorem registration_grants_access:
  assumes "store_ok (rs_fleet r)"
  shows "case HandleRegisterWithAudit Store_fleet i (Some req) r of
     (Registered pid key pol, r') \<Rightarrow>
       store_ok (rs_fleet r') \<and>
       (\<exists>t. gget (to_tokens (rs_tokens r)) (rg_Token req) = Some t \<and> \<not> rt_Used t \<and> ri_consume i \<le> rt_Expires t \<and>
          (\<forall>s \<in> {rs_fleet r', fleet_NewStore (fs_rows (rs_fleet r'))}.
             validateProbeAPIKey Store_fleet s pid key \<and>
             (\<exists>ps. gget (fs_mgr s) pid = Some ps \<and> ps_PolicyLevel ps = CapObserve \<and> ps_TenantID ps = rt_TenantID t)))
   | (RegisterRefused code msg, r') \<Rightarrow>
       rs_fleet r' = rs_fleet r \<and> rs_events r' = rs_events r \<and>
       (if code = 401 then rs_tokens r' = rs_tokens r else ri_raw i = None)"
proof (cases "HandleRegisterWithAudit Store_fleet i (Some req) r")
  case (Pair reply r')
  show ?thesis
  proof (cases reply)
    case (Registered pid key pol)
    note reg = Pair [unfolded this]
    have ok: "store_ok (rs_fleet r')" by (rule disk.register_keeps_ok [OF reg assms])
    from disk.register_leaves [OF reg] obtain t ps where
      t: "gget (to_tokens (rs_tokens r)) (rg_Token req) = Some t" "\<not> rt_Used t" "ri_consume i \<le> rt_Expires t"
      and ps: "gget (fs_mgr (rs_fleet r')) pid = Some ps" "ps_APIKey ps = key" "key \<noteq> []" "ps_PolicyLevel ps = CapObserve"
        "ps_TenantID ps = rt_TenantID t" by metis
    from restart_probe [OF ok ps(1)] obtain ps' where
      ps': "gget (fs_mgr (fleet_NewStore (fs_rows (rs_fleet r')))) pid = Some ps'" "durable ps' = durable ps" by metis
    show ?thesis unfolding Pair Registered using ok t ps ps'(1) durable_same [OF ps'(2)]
      by (simp add: disk.validate_view)
  next
    case (RegisterRefused code msg)
    then show ?thesis using Pair
      by (auto simp: HandleRegisterWithAudit_def ConsumeGetTenant_def registerProbe_def GenerateAPIKey_def Let_def
          split: option.splits if_splits prod.splits)
  qed
qed

lemma registration_grants_access_witness:
  "\<exists>pid key pol r'. HandleRegisterWithAudit Store_fleet demo_inputs (Some demo_req) (demo_registry (fleet_NewStore [])) =
     (Registered pid key pol, r') \<and>
   validateProbeAPIKey Store_fleet (fleet_NewStore (fs_rows (rs_fleet r'))) pid key"
proof -
  have "case HandleRegisterWithAudit Store_fleet demo_inputs (Some demo_req) (demo_registry (fleet_NewStore [])) of
      (Registered _ _ _, _) \<Rightarrow> True | _ \<Rightarrow> False" by code_simp
  then obtain pid key pol r' where
    r': "HandleRegisterWithAudit Store_fleet demo_inputs (Some demo_req) (demo_registry (fleet_NewStore [])) =
      (Registered pid key pol, r')"
    by (auto split: prod.splits register_reply.splits)
  have "store_ok (rs_fleet (demo_registry (fleet_NewStore [])))"
    by (simp add: demo_registry_def store_ok_def fleet_NewStore_def loadAll_probes_def mem_ok_def rows_ok_def agree_def
        probe_row_of_def tbl_first_def)
  from registration_grants_access [OF this, where i = demo_inputs and req = demo_req] r' show ?thesis by auto
qed

text \<open>
  Property C40. A registration takes over the probe that has the name of its host. The reply names
  that probe, whatever its tenant and whoever registered it: the key that the probe had is no longer
  accepted, its tenant becomes that of the token and its level observe.
\<close>

theorem reregistration_takes_over_probe:
  assumes "FindByHostname (ri_order i) (rg_Hostname req) (rs_fleet r) = Some old"
    and "HandleRegisterWithAudit Manager_fleet i (Some req) r = (Registered pid key pol, r')"
    and "ps_APIKey old \<noteq> key"
  shows "pid = ps_ID old \<and> validateProbeAPIKey Manager_fleet (rs_fleet r') (ps_ID old) key \<and>
    \<not> validateProbeAPIKey Manager_fleet (rs_fleet r') (ps_ID old) (ps_APIKey old) \<and>
    (\<exists>t ps. gget (to_tokens (rs_tokens r)) (rg_Token req) = Some t \<and> gget (rs_fleet r') (ps_ID old) = Some ps \<and>
       ps_TenantID ps = rt_TenantID t \<and> ps_PolicyLevel ps = CapObserve)"
proof -
  have pid: "pid = ps_ID old"
    using assms(1) by (intro mem.register_id [OF assms(2)]) (simp add: Manager_fleet_def)
  from mem.register_leaves [OF assms(2)] obtain t ps where
    "gget (to_tokens (rs_tokens r)) (rg_Token req) = Some t" "gget (rs_fleet r') pid = Some ps" "ps_APIKey ps = key"
    "key \<noteq> []" "ps_PolicyLevel ps = CapObserve" "ps_TenantID ps = rt_TenantID t" by metis
  with pid assms(3) show ?thesis by (auto simp: mem.validate_view)
qed

lemma reregistration_takes_over_probe_witness:
  "let m = snd (SetTenantID ''globex'' ''p1'' (snd (SetAPIKey ''old'' ''p1'' (snd (fleet_Register 1 ''p1'' ''web'' ''linux'' ''arm64'' [])))))
   in validateProbeAPIKey Manager_fleet m ''p1'' ''old'' \<and>
      (\<exists>key pol r'. HandleRegisterWithAudit Manager_fleet demo_inputs (Some demo_req) (demo_registry m) = (Registered ''p1'' key pol, r') \<and>
         \<not> validateProbeAPIKey Manager_fleet (rs_fleet r') ''p1'' ''old'')"
  (is "let m = ?m in _ m")
proof -
  let ?old = "the (gget ?m ''p1'')"
  have "case HandleRegisterWithAudit Manager_fleet demo_inputs (Some demo_req) (demo_registry ?m) of
      (Registered _ key _, _) \<Rightarrow> key \<noteq> ''old'' | _ \<Rightarrow> False" by code_simp
  then obtain pid key pol r' where
    r': "HandleRegisterWithAudit Manager_fleet demo_inputs (Some demo_req) (demo_registry ?m) = (Registered pid key pol, r')"
      "key \<noteq> ''old''" by (auto split: prod.splits register_reply.splits)
  have "FindByHostname (ri_order demo_inputs) (rg_Hostname demo_req) (rs_fleet (demo_registry ?m)) = Some ?old"
    and old: "ps_ID ?old = ''p1''" "ps_APIKey ?old = ''old''" "validateProbeAPIKey Manager_fleet ?m ''p1'' ''old''" by code_simp+
  from reregistration_takes_over_probe [OF this(1) r'(1)] r' old show ?thesis by (auto simp: Let_def)
qed

end
