(* ===== verification/Spec2Isabelle.thy ===== *)
theory Spec2Isabelle
  imports Approval_Policy Async_Scheduler Audit_Chain Probe_Agent Runner_Manager Sandbox_Output Access_Control
    Registration
begin

text \<open>
  A verification of Legator, a fleet management system written in Go
  (\<^verbatim>\<open>src/internal\<close>): a control plane decides which commands may run on which machine, and a
  probe on every machine runs them.

  \<^bold>\<open>The program and its parts.\<close> A caller asks the control plane to run a command on a probe.
  The approval policy service classifies the command, resolves the policy template applied to the
  probe, chooses an execution lane and answers allow, deny, or queue for approval. A queued command
  becomes a request of the approval queue, which collects the decisions of the approvers and
  releases the command once. Long commands are asynchronous jobs: rows of a database table with a
  table of allowed state changes, moved by a manager, and claimed by a scheduler under global and
  per-probe limits. Commands are signed with HMAC-SHA256 and sent through a hub of connections.
  On the machine the agent checks the signature, the executor classifies the command again, checks
  it against the policy of the probe and runs it. Every step of the control plane is recorded in an
  audit log whose entries form a hash chain. Beside the commands stand runs: a broker issues tokens
  for a run, a runner manager moves runners on such tokens, and sandboxes are sessions that run
  tasks, stream their output, keep artifacts and can be replayed; they are reached through REST
  handlers and through tools that demand a token of the broker. In front of the handlers stands the
  authentication: a middleware lets a request through on an API key or on a login session, guards
  ask for a permission of the key or of the role of the user, and with workspace isolation a caller
  acts only in the workspace its permissions name. A machine joins the fleet by a registration: it
  presents a registration token, becomes a probe of the registry, which is a map in memory written
  through to a table, and receives the key with which it connects.

  \<^bold>\<open>Theories.\<close>
  \<^item> \<^verbatim>\<open>Go_Prelude\<close>: what all components share of Go and SQL: results with errors, strings as
    lists of bytes with the functions of package \<^verbatim>\<open>strings\<close>, times and durations as integers in
    nanoseconds, Go maps with an arbitrary iteration order, tables with update, delete, count and
    select, and stable sorting.
  \<^item> \<^verbatim>\<open>Lifecycle\<close>: the locales of a table of moves with final states, of a store
    that moves its records along such a table, and of a right that is used once.
  \<^item> \<^verbatim>\<open>Timestamps\<close>: the civil calendar and the text of a time in RFC 3339 form, as the
    stores write it and order by it.
  \<^item> \<^verbatim>\<open>Encoding\<close>: hexadecimal text, SHA-256 and HMAC on words of 32 bits (the round constants are
    computed from the roots of the primes that define them), and the JSON text of Go's encoder.
  \<^item> \<^verbatim>\<open>Protocol\<close>: \<^verbatim>\<open>protocol/messages.go\<close>, the capability levels, commands and results.
  \<^item> \<^verbatim>\<open>Approval_Queue\<close>: \<^verbatim>\<open>controlplane/approval/queue.go\<close>.
  \<^item> \<^verbatim>\<open>Async_Jobs\<close>: \<^verbatim>\<open>controlplane/jobs/async_types.go\<close>, \<^verbatim>\<open>async_store.go\<close> and
    \<^verbatim>\<open>async_manager.go\<close>.
  \<^item> \<^verbatim>\<open>Async_Scheduler\<close>: \<^verbatim>\<open>controlplane/jobs/async_scheduler.go\<close>.
  \<^item> \<^verbatim>\<open>Policy_Templates\<close>: \<^verbatim>\<open>controlplane/policy\<close>.
  \<^item> \<^verbatim>\<open>Command_Classifier\<close>: \<^verbatim>\<open>probe/executor\<close> and the risk classifier of the approval queue.
  \<^item> \<^verbatim>\<open>Approval_Policy\<close>: \<^verbatim>\<open>controlplane/core/approvalpolicy\<close>, files \<^verbatim>\<open>capacity_policy.go\<close>
    and \<^verbatim>\<open>service.go\<close>.
  \<^item> \<^verbatim>\<open>Audit_Chain\<close>: \<^verbatim>\<open>controlplane/audit\<close>.
  \<^item> \<^verbatim>\<open>Signing\<close>: \<^verbatim>\<open>shared/signing\<close>, \<^verbatim>\<open>controlplane/websocket/hub.go\<close> and the reconnect loop of
    \<^verbatim>\<open>probe/connection/ws.go\<close>.
  \<^item> \<^verbatim>\<open>Probe_Agent\<close>: \<^verbatim>\<open>probe/agent\<close>, \<^verbatim>\<open>probe/updater\<close> and the choice of the signing key in
    \<^verbatim>\<open>controlplane/server/server.go\<close>.
  \<^item> \<^verbatim>\<open>Token_Broker\<close>: \<^verbatim>\<open>controlplane/tokenbroker\<close> and the token check of
    \<^verbatim>\<open>controlplane/mcpserver/sandbox_tools.go\<close>.
  \<^item> \<^verbatim>\<open>Runner_Manager\<close>: \<^verbatim>\<open>controlplane/runner/manager.go\<close> and the lifecycle handler of
    \<^verbatim>\<open>controlplane/server/runner_handlers.go\<close>.
  \<^item> \<^verbatim>\<open>Sandbox_Sessions\<close>: \<^verbatim>\<open>model.go\<close>, \<^verbatim>\<open>store.go\<close>, \<^verbatim>\<open>lane.go\<close> and \<^verbatim>\<open>handlers.go\<close> of
    \<^verbatim>\<open>controlplane/sandbox\<close> and the tools that create and destroy a sandbox.
  \<^item> \<^verbatim>\<open>Sandbox_Tasks\<close>: \<^verbatim>\<open>task.go\<close>, \<^verbatim>\<open>task_store.go\<close> and \<^verbatim>\<open>task_handlers.go\<close> there, and the tools
    that run a task and read its output.
  \<^item> \<^verbatim>\<open>Sandbox_Output\<close>: the files \<^verbatim>\<open>stream*.go\<close>, \<^verbatim>\<open>artifact*.go\<close> and \<^verbatim>\<open>replay*.go\<close> there, and
    the tool that reads an artifact.
  \<^item> \<^verbatim>\<open>Access_Keys\<close>: \<^verbatim>\<open>keys.go\<close>, \<^verbatim>\<open>handlers.go\<close>, \<^verbatim>\<open>roles.go\<close>, \<^verbatim>\<open>custom_roles.go\<close> and \<^verbatim>\<open>ratelimit.go\<close> of
    \<^verbatim>\<open>controlplane/auth\<close>.
  \<^item> \<^verbatim>\<open>Accounts\<close>: \<^verbatim>\<open>controlplane/session\<close>, \<^verbatim>\<open>controlplane/users\<close>, \<^verbatim>\<open>controlplane/server/useradapter.go\<close>
    and the handlers of users and roles; the locale of the session interfaces of \<^verbatim>\<open>auth/interfaces.go\<close>.
  \<^item> \<^verbatim>\<open>Access_Control\<close>: \<^verbatim>\<open>middleware.go\<close>, \<^verbatim>\<open>login.go\<close>, \<^verbatim>\<open>context.go\<close> and \<^verbatim>\<open>workspace_scope.go\<close> of
    \<^verbatim>\<open>controlplane/auth\<close>, \<^verbatim>\<open>controlplane/server/workspace_isolation.go\<close>, the permission guard and the
    approval handlers of \<^verbatim>\<open>controlplane/server/routes.go\<close> with their contract in
    \<^verbatim>\<open>core/approvalpolicy/contract.go\<close>.
  \<^item> \<^verbatim>\<open>Fleet\<close>: the registry in memory, \<^verbatim>\<open>manager.go\<close> and \<^verbatim>\<open>remote_probe.go\<close> of \<^verbatim>\<open>controlplane/fleet\<close>.
  \<^item> \<^verbatim>\<open>Fleet_Store\<close>: the registry on disk, \<^verbatim>\<open>store.go\<close> there, and the interface \<^verbatim>\<open>Fleet\<close> of \<^verbatim>\<open>fleet.go\<close>
    as a record of methods and a locale that the manager and the store interpret.
  \<^item> \<^verbatim>\<open>Registration\<close>: \<^verbatim>\<open>controlplane/api\<close> over any implementation of that interface, and the check of
    the key of a probe in \<^verbatim>\<open>controlplane/server/probe_mtls.go\<close>.

  \<^bold>\<open>How code becomes definitions.\<close> A struct is a record whose fields carry a short prefix, a
  string type with named constants is a datatype with a constructor for every other string, a
  function with a result and an error returns a sum, and a method that writes returns its result
  and the new state. What the program reads from outside is an argument: the clock, fresh ids, the
  iteration order of a map, the outcome of a process or of a system call, the hashes of bcrypt. A
  fragment of a function that has a definition of its own stands beside the definition of the
  function and is covered by its lines. A mutex makes a method
  one step, so that concurrent callers are sequences of steps: each stateful component has a type
  of operations and its reachable states are those of any list of operations. Names of the source
  are kept; a prefix is added where two components use one name.

  \<^bold>\<open>What is shown.\<close> Per component: an invariant that every operation keeps; what each operation
  returns on each branch; that decided requests and finished jobs are final; that approval needs its
  quorum and releases a command once; that the scheduler keeps its limits and serves the oldest
  first; that the lane chosen for a command respects the policy; that the two copies of the
  classifier agree; that templates, jobs and signatures survive their round trips; that the audit
  chain verifies as recorded and that two verifying chains with one end have the same entries up
  to collisions of the hash; that the agent runs only signed commands within its policy and
  installs only the checked binary; that a queued job is claimed; that a token is used once and grants what it was
  issued for, and that runners and sandbox tools act only on such tokens; that sessions and
  tasks move only forward; that artifacts stay within their quota and come back as uploaded; that a
  stream and a replay miss nothing under the stated conditions; that a guarded handler runs only for
  a request that a valid key or session authorises, that keys and sessions work as issued and are
  dead once revoked, and that a caller of one workspace neither sees nor decides the approvals of
  another; that the registry on disk behaves as the one in memory and survives a restart, that a
  registration token registers one probe, and that a registration gives the probe a key that is
  accepted before and after a restart. Theorems of kind error are behaviours of the code that its
  documentation does not promise; they are listed with the findings of the manifest.

  \<^bold>\<open>Bounds and fuel.\<close> Loops over data are structural recursions. The polling wait of the queue
  recurses over the polls it makes and is shown to return once a poll falls after its deadline.
  The drain pass of the scheduler is bounded by the number of queued rows. The replay reads its
  chunks in batches of 1000 by a recursion whose measure is the number of rows not yet passed. Integers of Go that
  count or measure time are unbounded here, except where the code multiplies or increments what a
  caller sends, which wraps at 64 bits; words are used where the code is about bits.
  Output limits are those of the source.

  \<^bold>\<open>Not modelled.\<close> Sockets, goroutines, tickers and channels, of which only the steps they run
  are modelled; schema migrations and failures of the database; time zones, since every stored time
  is in UTC; JSON numbers beyond \<^verbatim>\<open>2^53\<close>; the container engine behind the runners; HTTP handlers other than those named above, page rendering, command line tools and
  clients of external services, which hold no state of their own. Parts with state that no theory
  covers are listed with their reason in the manifest.
\<close>

section \<open>The sandbox tools\<close>

text \<open>The calls of the sandbox tools of the MCP server; the result says whether the call succeeds and what it leaves.\<close>

datatype tool_call =
    ToolCreate string tool_create
  | ToolRun string tool_run
  | ToolReadOutput string
  | ToolGetArtifact string string
  | ToolDestroy string

fun tool_exec ::
  "time \<Rightarrow> string \<Rightarrow> string \<Rightarrow> tool_call \<Rightarrow> Broker \<Rightarrow> session_table \<Rightarrow> task_table \<Rightarrow> artifact_table \<Rightarrow>
   bool \<times> session_table \<times> task_table" where
  "tool_exec now tok sess (ToolCreate uuid input) b S T A =
     (case handleSandboxCreate now uuid tok sess input b S of (res, b', S') \<Rightarrow> (\<not> isl res, S', T))"
| "tool_exec now tok sess (ToolRun uuid input) b S T A =
     (case handleSandboxRun now uuid tok sess input b S T of (res, b', T') \<Rightarrow> (\<not> isl res, S, T'))"
| "tool_exec now tok sess (ToolReadOutput rawID) b S T A =
     (case handleSandboxReadOutput now tok sess rawID b T of (res, b') \<Rightarrow> (\<not> isl res, S, T))"
| "tool_exec now tok sess (ToolGetArtifact rawID rawSandbox) b S T A =
     (case handleSandboxGetArtifact now tok sess rawID rawSandbox b S A of (res, b') \<Rightarrow> (\<not> isl res, S, T))"
| "tool_exec now tok sess (ToolDestroy rawID) b S T A =
     (case handleSandboxDestroy now tok sess rawID b S of (res, b', S') \<Rightarrow> (\<not> isl res, S', T))"

section \<open>Lemmas across components\<close>

lemma env_classified: "cc_Level (classifyCommandWithMetadata ''env'' args) = CapObserve"
proof -
  obtain rest where n: "normalizedCommand ''env'' args = (''env'' @ rest, ''env'')"
    using normalizedCommand_word [of "''env''"] plain_words(1) by auto
  have "classifyCommandWithMetadata ''env'' args = ClassifyCommandWithMetadata ''env'' args"
    by (rule classify_same) (simp_all add: n)
  then show ?thesis using env_is_observe [of args] by (simp add: ClassifyCommand_def)
qed

lemma applied_profile:
  assumes "probeID \<noteq> []"
  shows "appliedPolicyForProbe (rememberAppliedPolicy probeID tpl s) probeID = Some (template_context tpl)"
  using assms by (simp add: appliedPolicyForProbe_def rememberAppliedPolicy_def gmap_simps)

lemma applied_sandbox:
  assumes "probeID \<noteq> []"
  shows "pp_SandboxRequired (resolvePolicyProfile (rememberAppliedPolicy probeID tpl s) probeID level None) = tp_SandboxRequired tpl"
  using applied_profile [OF assms] by (simp add: resolvePolicyProfile_def template_context_def Let_def)

lemma observe_gate:
  assumes "cc_Level c = CapObserve" "pp_ExecutionClassRequired p \<noteq> ExecBreakglassDirect"
    and "pp_ApprovalMode p \<in> {ApprovalNone, ApprovalMutationGate}"
  shows "lr_GateOutcome (resolveLaneDecision c p) = CommandPolicyGateAllowed"
  using assms
  by (cases "pp_ExecutionClassRequired p"; cases "pp_SandboxRequired p")
     (auto simp: resolveLaneDecision_def mutation_checks_def sandbox_checks_def approval_gate_def
       select_lane_def laneFromCapability_def stricterLane_def lane_rank_def Let_def)

lemma builtin_profiles:
  assumes "tpl \<in> set (builtin_templates now)"
  shows "trim_exec (tp_ExecutionClassRequired tpl) \<notin> {ExecBreakglassDirect, ExecOther []}"
    "trim_mode (tp_ApprovalMode tpl) \<in> {ApprovalNone, ApprovalMutationGate}"
    "tp_Allowed tpl = []" "level_rank (tp_Level tpl) \<ge> 1"
    "list_all (\<lambda>b. \<not> has_prefix (''env'' @ rest) (to_lower b)) (tp_Blocked tpl)"
  using assms
  by (auto simp: builtin_templates_def applyOptions_def new_template_def zero_options_def level_rank_def
      NormalizeTemplateOptions_def MergeTemplateOptions_def DefaultTemplateOptionsForLevel_def Let_def
      to_lower_def lower_char_def)

lemma tool_refused:
  "fst (validateSandboxToken now tok sess b) = Err e \<Longrightarrow> tool_exec now tok sess call b S T A = (False, S, T)"
  by (cases call) (auto simp: handleSandboxCreate_def handleSandboxRun_def handleSandboxReadOutput_def
      handleSandboxGetArtifact_def handleSandboxDestroy_def split: prod.splits)

section \<open>Properties across components\<close>

text \<open>
  Property C31. The sandbox tools act only on a token that was issued for them: when a call
  succeeds or changes the sessions or the tasks, an earlier \<open>Issue\<close> of the broker's history returned its
  token, with the scope and the audience of the tools and the session of the call, and the
  token has not expired.
\<close>

theorem sandbox_tools_need_issued_token:
  assumes "b = fold broker_exec ops (NewBroker ttl ms [])"
    and "tool_exec now tok sess call b S T A \<noteq> (False, S, T)"
  shows "\<exists>pre t gen ir post it. ops = pre @ OpIssue t gen ir # post \<and>
    fst (Issue t gen ir (fold broker_exec pre (NewBroker ttl ms []))) = Ok it \<and> it_Token it = trim_space tok \<and>
    now \<le> cl_ExpiresAt (it_Claims it) \<and>
    hasScope (map utf8_repair (cl_Scopes (it_Claims it))) ScopeMCPSandbox \<and>
    trim_space (cl_Audience (it_Claims it)) = AudienceMCPSandbox \<and>
    trim_space (cl_SessionID (it_Claims it)) = trim_space sess"
proof -
  let ?req = "\<lparr>vr_Token = trim_space tok, vr_Scope = ScopeMCPSandbox, vr_Audience = AudienceMCPSandbox,
     vr_RunID = [], vr_ProbeID = [], vr_SessionID = trim_space sess, vr_Consume = False\<rparr>"
  have mcp: "trim_space AudienceMCPSandbox = AudienceMCPSandbox" "AudienceMCPSandbox \<noteq> []" by code_simp+
  obtain c where c: "fst (validateSandboxToken now tok sess b) = Ok c"
    using assms(2) tool_refused by (metis sum.exhaust)
  then have "fst (Validate now ?req (fold broker_exec ops (NewBroker ttl ms []))) = Ok c"
    using assms(1) by (auto simp: validateSandboxToken_def split: if_splits)
  from grant_issued [OF this] show ?thesis using mcp by fastforce
qed

theorem sandbox_tools_need_issued_token_witness:
  "let b = fold broker_exec [OpIssue 5 (\<lambda>i. Inr ''tok'') demo_issue] (NewBroker 0 0 []) in
   fst (tool_exec 6 ''tok'' (ir_SessionID demo_issue) (ToolDestroy ''a'') b demo_sessions [] []) \<and>
   (\<exists>t gen ir pre post. [OpIssue 5 (\<lambda>i. Inr ''tok'') demo_issue] = pre @ OpIssue t gen ir # post)"
proof -
  let ?b = "fold broker_exec [OpIssue 5 (\<lambda>i. Inr ''tok'') demo_issue] (NewBroker 0 0 [])"
  have "fst (tool_exec 6 ''tok'' (ir_SessionID demo_issue) (ToolDestroy ''a'') ?b demo_sessions [] [])" by code_simp
  moreover from this have "tool_exec 6 ''tok'' (ir_SessionID demo_issue) (ToolDestroy ''a'') ?b demo_sessions [] [] \<noteq>
      (False, demo_sessions, [])" by auto
  from sandbox_tools_need_issued_token [OF refl this]
  have "\<exists>t gen ir pre post. [OpIssue 5 (\<lambda>i. Inr ''tok'') demo_issue] = pre @ OpIssue t gen ir # post" by blast
  ultimately show ?thesis by (simp only: Let_def)
qed

text \<open>
  A breakglass command that is approved is refused by the probe. Where a template is applied
  to a probe and the decision for a command is to run it in the breakglass lane, not denied, the
  probe refuses to execute the command whatever the process would do: the template cannot be of
  level diagnose or remediate, since those always require the sandbox and are blocked, and every
  other level is too low for the mutation.
\<close>

lemma breakglass_never_runs:
  assumes "tpl = applyOptions opts t0" and "probeID \<noteq> []"
    and "d = EvaluateCommandPolicyForProbe (rememberAppliedPolicy probeID tpl s) reading probeID cmd level"
    and "de_Lane d = ExecBreakglassDirect" and "de_Outcome d \<noteq> CommandPolicyDecisionDeny"
  shows "\<exists>msg. \<forall>windows run. Execute windows run (probe_policy (ToPolicy tpl)) cmd = refusal (cmd_RequestID cmd) msg"
proof -
  let ?p = "resolvePolicyProfile (rememberAppliedPolicy probeID tpl s) probeID level None"
  let ?c = "classifyCommandWithMetadata (cmd_Command cmd) (cmd_Args cmd)"
  have lane: "lr_SelectedLane (resolveLaneDecision ?c ?p) = ExecBreakglassDirect"
    using assms(3,4) by (simp add: EvaluateCommandPolicyForProbe_def evaluate_lane)
  have "lr_GateOutcome (resolveLaneDecision ?c ?p) \<noteq> CommandPolicyGateBlocked"
    using assms(3,5) evaluate_outcome [of "rememberAppliedPolicy probeID tpl s" reading probeID cmd level None]
    by (auto simp: EvaluateCommandPolicyForProbe_def decisionOutcomeFromGate_def Let_def
        split: sum.splits option.splits if_splits)
  then have rem: "cc_Level ?c = CapRemediate" and open_host: "\<not> pp_SandboxRequired ?p"
    using lane by (cases rule: lane_cases [of ?c ?p]; auto)+
  have "tp_Level t0 \<noteq> CapDiagnose" "tp_Level t0 \<noteq> CapRemediate"
    using open_host applied_sandbox [OF assms(2)] applyOptions_sandbox [of t0 opts] assms(1) by auto
  then have "level_rank (po_Level (probe_policy (ToPolicy tpl))) < 3"
    using assms(1) by (cases "tp_Level t0") (simp_all add: probe_policy_def ToPolicy_def level_rank_def)
  moreover have "level_rank (effectiveLevel cmd) \<ge> 3"
    using effectiveLevel_ge(2) [of cmd] classify_remediate [OF rem] by (simp add: level_rank_def)
  ultimately have "policy_check (probe_policy (ToPolicy tpl)) cmd \<noteq> None"
    by (simp add: policy_check_None)
  then show ?thesis using Execute_refused by blast
qed

lemma breakglass_never_runs_witness:
  "let opts = zero_options\<lparr>op_ExecutionClassRequired := ExecBreakglassDirect,
         op_Breakglass := \<lparr>bg_Enabled = True, bg_AllowedReasons = [''incident''], bg_RequireTypedConfirmation = True\<rparr>\<rparr>;
       tpl = applyOptions opts (new_template ''bg'' ''Breakglass'' [] CapObserve [] [] [] 0);
       d = EvaluateCommandPolicyForProbe (rememberAppliedPolicy ''p1'' tpl demo_service) NoProvider ''p1'' demo_cmd CapObserve
   in de_Outcome d = CommandPolicyDecisionQueue \<and>
      (\<exists>msg. \<forall>windows run. Execute windows run (probe_policy (ToPolicy tpl)) demo_cmd = refusal ''r1'' msg)"
proof -
  let ?opts = "zero_options\<lparr>op_ExecutionClassRequired := ExecBreakglassDirect,
    op_Breakglass := \<lparr>bg_Enabled = True, bg_AllowedReasons = [''incident''], bg_RequireTypedConfirmation = True\<rparr>\<rparr>"
  let ?tpl = "applyOptions ?opts (new_template ''bg'' ''Breakglass'' [] CapObserve [] [] [] 0)"
  let ?d = "EvaluateCommandPolicyForProbe (rememberAppliedPolicy ''p1'' ?tpl demo_service) NoProvider ''p1'' demo_cmd CapObserve"
  have l: "de_Lane ?d = ExecBreakglassDirect" by code_simp
  have o': "de_Outcome ?d = CommandPolicyDecisionQueue" by code_simp
  then have n: "de_Outcome ?d \<noteq> CommandPolicyDecisionDeny" by simp
  have "cmd_RequestID demo_cmd = ''r1''" by (simp add: demo_cmd_def)
  then show ?thesis
    using breakglass_never_runs [OF refl _ refl l n] o' by (simp add: Let_def)
qed

text \<open>
  A command behind \<^verbatim>\<open>env\<close> passes everywhere. Whatever its arguments are, a
  command named \<^verbatim>\<open>env\<close> that declares itself observe is allowed at once by the control
  plane under every built-in template, the read-only one included, without capacity signals, and
  the policy of the template lets the probe execute it.
\<close>

lemma env_hides_any_command:
  assumes "tpl \<in> set (builtin_templates now)" and "probeID \<noteq> []"
    and "cmd_Command cmd = ''env''" and "cmd_Level cmd = CapObserve"
  shows "de_Outcome (EvaluateCommandPolicyForProbe (rememberAppliedPolicy probeID tpl s) NoProvider probeID cmd level)
      = CommandPolicyDecisionAllow \<and>
    policy_check (probe_policy (ToPolicy tpl)) cmd = None"
proof -
  let ?s = "rememberAppliedPolicy probeID tpl s"
  let ?p = "resolvePolicyProfile ?s probeID level None"
  note b = builtin_profiles [OF assms(1)]
  have "pp_ExecutionClassRequired ?p \<noteq> ExecBreakglassDirect" "pp_ApprovalMode ?p \<in> {ApprovalNone, ApprovalMutationGate}"
    using b(1,2) applied_profile [OF assms(2), of tpl s]
    by (auto simp: resolvePolicyProfile_def template_context_def Let_def)
  then have "lr_GateOutcome (resolveLaneDecision (classifyCommandWithMetadata (cmd_Command cmd) (cmd_Args cmd)) ?p) =
      CommandPolicyGateAllowed"
    using observe_gate env_classified assms(3) by simp
  then have "de_Outcome (EvaluateCommandPolicyForProbe ?s NoProvider probeID cmd level) = CommandPolicyDecisionAllow"
    using env_risk [OF assms(3,4)]
    by (simp add: EvaluateCommandPolicyForProbe_def evaluate_outcome readCapacitySignals_def Let_def)
  moreover have "effectiveLevel cmd = CapObserve"
    using assms(3,4) env_is_observe by (simp add: effectiveLevel_def)
  moreover obtain rest where "to_lower (full_command cmd) = ''env'' @ rest"
    using assms(3) by (cases "cmd_Args cmd = []") (auto simp: full_command_def to_lower_def lower_char_def)
  then have "\<not> isBlocked (probe_policy (ToPolicy tpl)) (full_command cmd)"
    using b(5) [of rest] by (auto simp: isBlocked_def probe_policy_def ToPolicy_def list_ex_iff list_all_iff)
  ultimately show ?thesis
    using b(3,4) by (simp add: policy_check_None probe_policy_def ToPolicy_def level_rank_def)
qed

lemma env_hides_any_command_witness:
  "let tpl = hd (builtin_templates 0); cmd = demo_ls\<lparr>cmd_Command := ''env'', cmd_Args := [''rm'', ''-rf'', ''/'']\<rparr>
   in tp_ID tpl = ''observe-only'' \<and>
      de_Outcome (EvaluateCommandPolicyForProbe (rememberAppliedPolicy ''p1'' tpl demo_service) NoProvider ''p1'' cmd CapObserve)
        = CommandPolicyDecisionAllow \<and>
      policy_check (probe_policy (ToPolicy tpl)) cmd = None"
proof -
  let ?tpl = "hd (builtin_templates 0)" and ?cmd = "demo_ls\<lparr>cmd_Command := ''env'', cmd_Args := [''rm'', ''-rf'', ''/'']\<rparr>"
  have t: "?tpl \<in> set (builtin_templates 0)" "tp_ID ?tpl = ''observe-only''"
    by (simp_all add: builtin_templates_def)
  have c: "cmd_Command ?cmd = ''env''" "cmd_Level ?cmd = CapObserve" by (simp_all add: demo_ls_def)
  from env_hides_any_command [OF t(1) _ c, of "''p1''" demo_service CapObserve] t(2) show ?thesis
    by (simp add: Let_def)
qed

end
